(* ===== verification/Prelude.thy ===== *)
theory Prelude
  imports Main "HOL-Library.Multiset"
begin

text \<open>
  Shared vocabulary of the development: Go's 64-bit signed integers written out on
  \<open>int\<close>, the \<open>sort.Slice\<close> contract, order-preserving first occurrences, association of
  values to keys in meeting order, and the list facts the components use.
\<close>

named_theorems go_simps \<open>evaluation rules of the Go library model\<close>
named_theorems keep_simps \<open>facts about first occurrences and stable filters\<close>

section \<open>Machine integers\<close>

text \<open>Go's \<open>int64\<close> arithmetic wraps; \<open>wrap64\<close> is the representative in range.\<close>

definition wrap64 :: "int \<Rightarrow> int" where
  "wrap64 x = (x + 2 ^ 63) mod 2 ^ 64 - 2 ^ 63"

definition in_int64 :: "int \<Rightarrow> bool" where
  "in_int64 x \<longleftrightarrow> - (2 ^ 63) \<le> x \<and> x < 2 ^ 63"

definition MaxInt64 :: int where
  "MaxInt64 = 2 ^ 63 - 1"

definition MinInt64 :: int where
  "MinInt64 = - (2 ^ 63)"

lemma wrap64_id [simp]: "in_int64 x \<Longrightarrow> wrap64 x = x"
  by (simp add: wrap64_def in_int64_def)

lemma in_int64_wrap64 [simp]: "in_int64 (wrap64 x)"
proof -
  have "0 \<le> (x + 2 ^ 63) mod 2 ^ 64" and "(x + 2 ^ 63) mod 2 ^ 64 < 2 ^ 64" by simp_all
  then show ?thesis unfolding wrap64_def in_int64_def by simp
qed

section \<open>Sorting by a key, newest first\<close>

text \<open>
  \<open>sort.Slice(xs, func(a, b) bool { return key(xs[a]).After(key(xs[b])) })\<close> is not a
  stable sort: it promises a permutation that is descending in the key and nothing about
  ties. \<open>sort_slice_desc\<close> is that promise; \<open>sort_desc\<close> is one ordering that keeps it.
\<close>

definition desc_by :: "('a \<Rightarrow> 'k::linorder) \<Rightarrow> 'a list \<Rightarrow> bool" where
  "desc_by f xs \<longleftrightarrow> sorted_wrt (\<lambda>x y. f y \<le> f x) xs"

definition sort_slice_desc :: "('a \<Rightarrow> 'k::linorder) \<Rightarrow> 'a list \<Rightarrow> 'a list \<Rightarrow> bool" where
  "sort_slice_desc f xs ys \<longleftrightarrow> mset ys = mset xs \<and> desc_by f ys"

fun insert_desc :: "('a \<Rightarrow> 'k::linorder) \<Rightarrow> 'a \<Rightarrow> 'a list \<Rightarrow> 'a list" where
  "insert_desc f x [] = [x]"
| "insert_desc f x (y # ys) = (if f y \<le> f x then x # y # ys else y # insert_desc f x ys)"

fun sort_desc :: "('a \<Rightarrow> 'k::linorder) \<Rightarrow> 'a list \<Rightarrow> 'a list" where
  "sort_desc f [] = []"
| "sort_desc f (x # xs) = insert_desc f x (sort_desc f xs)"

lemma mset_insert_desc [simp]: "mset (insert_desc f x xs) = add_mset x (mset xs)"
  by (induction xs) auto

lemma set_insert_desc [simp]: "set (insert_desc f x xs) = insert x (set xs)"
  by (induction xs) auto

lemma mset_sort_desc [simp]: "mset (sort_desc f xs) = mset xs"
  by (induction xs) auto

lemma set_sort_desc [simp]: "set (sort_desc f xs) = set xs"
  by (induction xs) auto

lemma length_sort_desc [simp]: "length (sort_desc f xs) = length xs"
  by (metis mset_sort_desc size_mset)

lemma desc_by_Nil [simp]: "desc_by f []"
  by (simp add: desc_by_def)

lemma desc_by_Cons [simp]: "desc_by f (x # xs) \<longleftrightarrow> (\<forall>y\<in>set xs. f y \<le> f x) \<and> desc_by f xs"
  by (simp add: desc_by_def)

lemma desc_by_insert: "desc_by f xs \<Longrightarrow> desc_by f (insert_desc f x xs)"
  by (induction xs) auto

lemma desc_by_sort_desc [simp]: "desc_by f (sort_desc f xs)"
  by (induction xs) (auto simp: desc_by_insert)

lemma sort_desc_is_slice [simp]: "sort_slice_desc f xs (sort_desc f xs)"
  by (simp add: sort_slice_desc_def)

lemma sort_slice_set: "sort_slice_desc f xs ys \<Longrightarrow> set ys = set xs"
  unfolding sort_slice_desc_def by (metis set_mset_mset)

lemma sort_slice_length: "sort_slice_desc f xs ys \<Longrightarrow> length ys = length xs"
  unfolding sort_slice_desc_def by (metis size_mset)

lemma desc_by_filter [simp]: "desc_by f xs \<Longrightarrow> desc_by f (filter P xs)"
  by (induction xs) auto

lemma desc_by_hd: "desc_by f xs \<Longrightarrow> x \<in> set xs \<Longrightarrow> f x \<le> f (hd xs)"
  by (cases xs) auto

section \<open>First occurrences in meeting order\<close>

text \<open>
  The Go idiom \<open>if _, seen := m[key]; !seen { order = append(order, key) }\<close>: the distinct
  keys of a list in the order they are first met.
\<close>

fun first_keys :: "('a \<Rightarrow> 'k) \<Rightarrow> 'a list \<Rightarrow> 'k list" where
  "first_keys f [] = []"
| "first_keys f (x # xs) = f x # filter (\<lambda>k. k \<noteq> f x) (first_keys f xs)"

lemma set_first_keys [keep_simps]: "set (first_keys f xs) = f ` set xs"
  by (induction xs) auto

lemma distinct_first_keys [keep_simps, simp]: "distinct (first_keys f xs)"
  by (induction xs) auto

lemma first_keys_append:
  "first_keys f (xs @ ys) = first_keys f xs @ filter (\<lambda>k. k \<notin> f ` set xs) (first_keys f ys)"
  by (induction xs) (auto simp: set_first_keys intro: filter_cong)

lemma length_take_le_nat: "length (take n xs) \<le> n"
  by simp

section \<open>Searching\<close>

lemma find_Some_mem: "find P xs = Some x \<Longrightarrow> x \<in> set xs \<and> P x"
  by (induction xs) (auto split: if_splits)

lemma find_None_all: "find P xs = None \<longleftrightarrow> (\<forall>x\<in>set xs. \<not> P x)"
  by (induction xs) auto

lemma find_filter_same:
  assumes "find P xs = Some x" and "Q x"
  shows "find P (filter Q xs) = Some x"
  using assms by (induction xs) (auto split: if_splits)

lemma find_desc_max:
  "desc_by f xs \<Longrightarrow> find P xs = Some x \<Longrightarrow> y \<in> set xs \<Longrightarrow> P y \<Longrightarrow> f y \<le> f x"
  by (induction xs) (auto split: if_splits)

lemma desc_by_unique:
  assumes "desc_by f xs" and "desc_by f ys" and "mset xs = mset ys" and "inj_on f (set xs)"
  shows "xs = ys"
  using assms
proof (induction xs arbitrary: ys)
  case (Cons x xs)
  then obtain y ys' where ys: "ys = y # ys'" by (cases ys) auto
  have sets: "set (x # xs) = set ys" using Cons.prems(3) by (metis set_mset_mset)
  then have "f x \<le> f y" and "f y \<le> f x"
    using Cons.prems(1,2) ys by (metis desc_by_hd list.sel(1) list.set_intros(1))+
  then have "f x = f y" by simp
  moreover have "y \<in> set (x # xs)" using sets ys by simp
  ultimately have "x = y" using Cons.prems(4) by (auto dest: inj_onD)
  moreover have "xs = ys'"
    using Cons.IH [of ys'] Cons.prems ys \<open>x = y\<close> by (auto intro: inj_on_subset)
  ultimately show ?case using ys by simp
qed simp

end
