(* ===== verification/Go_Strings.thy ===== *)
theory Go_Strings
  imports Prelude
begin

text \<open>
  What the sources use of Go's \<open>strings\<close>, \<open>strconv\<close>, \<open>fmt\<close> and \<open>path\<close> packages.
  A Go string is a sequence of bytes; here it is a \<open>char list\<close>, one \<open>char\<close> per byte.
\<close>

section \<open>Prefixes, suffixes and cutting\<close>

definition HasPrefix :: "string \<Rightarrow> string \<Rightarrow> bool" where
  "HasPrefix s p \<longleftrightarrow> take (length p) s = p"

definition HasSuffix :: "string \<Rightarrow> string \<Rightarrow> bool" where
  "HasSuffix s p \<longleftrightarrow> length p \<le> length s \<and> drop (length s - length p) s = p"

fun Contains :: "string \<Rightarrow> string \<Rightarrow> bool" where
  "Contains [] p = (p = [])"
| "Contains (c # cs) p = (HasPrefix (c # cs) p \<or> Contains cs p)"

text \<open>\<open>strings.Cut\<close>: before, after, found; \<open>(s, \"\", false)\<close> when the separator is absent.\<close>

fun Cut :: "string \<Rightarrow> string \<Rightarrow> string \<times> string \<times> bool" where
  "Cut [] sep = (if sep = [] then ([], [], True) else ([], [], False))"
| "Cut (c # cs) sep =
     (if HasPrefix (c # cs) sep then ([], drop (length sep) (c # cs), True)
      else case Cut cs sep of (b, a, ok) \<Rightarrow> (c # b, a, ok))"

definition CutPrefix :: "string \<Rightarrow> string \<Rightarrow> string \<times> bool" where
  "CutPrefix s p = (if HasPrefix s p then (drop (length p) s, True) else (s, False))"

lemma HasPrefix_append [simp]: "HasPrefix (p @ s) p"
  by (simp add: HasPrefix_def)

lemma HasPrefix_iff: "HasPrefix s p \<longleftrightarrow> (\<exists>t. s = p @ t)"
  unfolding HasPrefix_def by (metis append_eq_conv_conj append_take_drop_id)

lemma HasSuffix_append [simp]: "HasSuffix (s @ p) p"
  by (simp add: HasSuffix_def)

lemma HasSuffix_iff: "HasSuffix s p \<longleftrightarrow> (\<exists>t. s = t @ p)"
proof
  assume "HasSuffix s p"
  then have "s = take (length s - length p) s @ p"
    unfolding HasSuffix_def by (metis append_take_drop_id)
  then show "\<exists>t. s = t @ p" by blast
next
  assume "\<exists>t. s = t @ p"
  then show "HasSuffix s p" by auto
qed

lemma Cut_not_found: "Cut s sep = (b, a, False) \<Longrightarrow> b = s \<and> a = []"
  by (induction s arbitrary: b) (auto split: if_splits prod.splits)

lemma Cut_found: "Cut s sep = (b, a, True) \<Longrightarrow> s = b @ sep @ a"
proof (induction s arbitrary: b)
  case Nil
  then show ?case by (auto split: if_splits)
next
  case (Cons c cs)
  show ?case
  proof (cases "HasPrefix (c # cs) sep")
    case True
    then obtain t where t: "c # cs = sep @ t" by (auto simp: HasPrefix_iff)
    from Cons.prems True have "b = []" and "a = drop (length sep) (c # cs)" by simp_all
    with t show ?thesis by simp
  next
    case False
    obtain b' a' ok where c: "Cut cs sep = (b', a', ok)" by (cases "Cut cs sep")
    from Cons.prems False c have "b = c # b'" and "a = a'" and "ok" by auto
    with Cons.IH c show ?thesis by simp
  qed
qed

section \<open>Trimming, splitting, joining\<close>

definition Trim_char :: "char \<Rightarrow> string \<Rightarrow> string" where
  "Trim_char ch s = rev (dropWhile (\<lambda>c. c = ch) (rev (dropWhile (\<lambda>c. c = ch) s)))"

definition is_space :: "char \<Rightarrow> bool" where
  "is_space c \<longleftrightarrow> c = CHR 0x20 \<or> c = CHR 0x09 \<or> c = CHR 0x0A \<or> c = CHR 0x0B
     \<or> c = CHR 0x0C \<or> c = CHR 0x0D"

text \<open>
  \<open>strings.TrimSpace\<close> on the white space of ASCII. The strings trimmed are the words of the client
  programs and of the configuration; Go would also trim the white space of Unicode, U+0085 and U+00A0 first.
\<close>

definition TrimSpace :: "string \<Rightarrow> string" where
  "TrimSpace s = rev (dropWhile is_space (rev (dropWhile is_space s)))"

definition TrimRight :: "(char \<Rightarrow> bool) \<Rightarrow> string \<Rightarrow> string" where
  "TrimRight P s = rev (dropWhile P (rev s))"

text \<open>\<open>strings.Split\<close> on a one-byte separator, and \<open>strings.Join\<close>.\<close>

fun Split_char :: "char \<Rightarrow> string \<Rightarrow> string list" where
  "Split_char ch [] = [[]]"
| "Split_char ch (c # cs) =
     (if c = ch then [] # Split_char ch cs
      else case Split_char ch cs of [] \<Rightarrow> [[c]] | w # ws \<Rightarrow> (c # w) # ws)"

fun Join :: "string \<Rightarrow> string list \<Rightarrow> string" where
  "Join sep [] = []"
| "Join sep [w] = w"
| "Join sep (w # v # ws) = w @ sep @ Join sep (v # ws)"

text \<open>\<open>strings.Fields\<close>: the maximal runs of non-space bytes.\<close>

definition Fields :: "string \<Rightarrow> string list" where
  "Fields s = filter (\<lambda>w. w \<noteq> [])
     (Split_char CHR 0x20 (map (\<lambda>c. if is_space c then CHR 0x20 else c) s))"

definition to_lower_char :: "char \<Rightarrow> char" where
  "to_lower_char c =
     (let n = of_char c :: nat in if 65 \<le> n \<and> n \<le> 90 then char_of (n + 32) else c)"

definition ToLower :: "string \<Rightarrow> string" where
  "ToLower s = map to_lower_char s"

definition to_upper_char :: "char \<Rightarrow> char" where
  "to_upper_char c =
     (let n = of_char c :: nat in if 97 \<le> n \<and> n \<le> 122 then char_of (n - 32) else c)"

definition ToUpper :: "string \<Rightarrow> string" where
  "ToUpper s = map to_upper_char s"

lemma Split_char_nonempty [simp]: "Split_char ch s \<noteq> []"
  by (cases s) (auto split: list.splits)

lemma Split_char_word: "ch \<notin> set w \<Longrightarrow> Split_char ch w = [w]"
  by (induction w) auto

lemma Split_char_append:
  "ch \<notin> set w \<Longrightarrow> Split_char ch (w @ ch # s) = w # Split_char ch s"
  by (induction w) auto

lemma Split_Join:
  assumes "ws \<noteq> []" and "\<forall>w\<in>set ws. ch \<notin> set w"
  shows "Split_char ch (Join [ch] ws) = ws"
  using assms
proof (induction ws rule: induct_list012)
  case (3 w v ws)
  then show ?case by (simp add: Split_char_append)
qed (auto simp: Split_char_word)

lemma Join_append:
  "us \<noteq> [] \<Longrightarrow> vs \<noteq> [] \<Longrightarrow> Join sep (us @ vs) = Join sep us @ sep @ Join sep vs"
proof (induction us rule: induct_list012)
  case (2 x)
  then show ?case by (cases vs) auto
qed auto

section \<open>Quoting\<close>

text \<open>
  \<open>%q\<close>: a double-quoted literal. Exact for strings whose non-ASCII runes are printable,
  which are kept as they are.
\<close>

definition hex_low :: "nat \<Rightarrow> char" where
  "hex_low d = (if d < 10 then char_of (d + 48) else char_of (d + 87))"

definition quote_byte :: "char \<Rightarrow> string" where
  "quote_byte c =
     (let n = (of_char c :: nat); esc = (\<lambda>x. [CHR 0x5C, x]) in
      if n = 0x22 \<or> n = 0x5C then esc c
      else if n = 7 then esc CHR ''a'' else if n = 8 then esc CHR ''b'' else if n = 9 then esc CHR ''t''
      else if n = 10 then esc CHR ''n'' else if n = 11 then esc CHR ''v'' else if n = 12 then esc CHR ''f''
      else if n = 13 then esc CHR ''r''
      else if n < 0x20 \<or> n = 0x7F then esc CHR ''x'' @ [hex_low (n div 16), hex_low (n mod 16)]
      else [c])"

definition fmt_q :: "string \<Rightarrow> string" where
  "fmt_q s = [CHR 0x22] @ concat (map quote_byte s) @ [CHR 0x22]"

section \<open>Decimal numerals\<close>

definition digit_char :: "nat \<Rightarrow> char" where
  "digit_char d = char_of (d + 48)"

definition digit_val :: "char \<Rightarrow> nat" where
  "digit_val c = of_char c - 48"

definition is_digit :: "char \<Rightarrow> bool" where
  "is_digit c \<longleftrightarrow> 48 \<le> (of_char c :: nat) \<and> (of_char c :: nat) \<le> 57"

fun itoa_nat :: "nat \<Rightarrow> string" where
  "itoa_nat n = (if n < 10 then [digit_char n] else itoa_nat (n div 10) @ [digit_char (n mod 10)])"

declare itoa_nat.simps [simp del]

text \<open>\<open>strconv.Itoa\<close>.\<close>

definition Itoa :: "int \<Rightarrow> string" where
  "Itoa n = (if n < 0 then CHR ''-'' # itoa_nat (nat (- n)) else itoa_nat (nat n))"

definition dec_nat :: "string \<Rightarrow> nat" where
  "dec_nat s = foldl (\<lambda>a c. 10 * a + digit_val c) 0 s"

text \<open>
  \<open>strconv.Atoi\<close>: an optional sign and one or more digits, out of range is an error.
\<close>

definition Atoi :: "string \<Rightarrow> int option" where
  "Atoi s =
     (let (neg, ds) = (case s of [] \<Rightarrow> (False, [])
                       | c # cs \<Rightarrow> if c = CHR ''-'' then (True, cs)
                                  else if c = CHR ''+'' then (False, cs) else (False, s));
          v = (if neg then - int (dec_nat ds) else int (dec_nat ds))
      in if ds = [] \<or> \<not> list_all is_digit ds \<or> \<not> in_int64 v then None else Some v)"

lemma of_char_digit [simp]: "d < 10 \<Longrightarrow> of_char (digit_char d) = d + (48::nat)"
  by (simp add: digit_char_def)

lemma digit_val_digit [simp]: "d < 10 \<Longrightarrow> digit_val (digit_char d) = d"
  by (simp add: digit_val_def)

lemma is_digit_digit [simp]: "d < 10 \<Longrightarrow> is_digit (digit_char d)"
  by (simp add: is_digit_def)

lemma itoa_nat_digits: "list_all is_digit (itoa_nat n)"
proof (induction n rule: itoa_nat.induct)
  case (1 n)
  then show ?case by (subst itoa_nat.simps) auto
qed

lemma itoa_nat_nonempty [simp]: "itoa_nat n \<noteq> []"
  by (subst itoa_nat.simps) simp

lemma dec_nat_snoc [simp]: "dec_nat (s @ [c]) = 10 * dec_nat s + digit_val c"
  by (simp add: dec_nat_def)

lemma dec_nat_itoa [simp]: "dec_nat (itoa_nat n) = n"
proof (induction n rule: itoa_nat.induct)
  case (1 n)
  show ?case
  proof (cases "n < 10")
    case True
    then show ?thesis by (subst itoa_nat.simps) (simp add: dec_nat_def)
  next
    case False
    with 1 have "dec_nat (itoa_nat (n div 10)) = n div 10" by simp
    with False show ?thesis by (subst itoa_nat.simps) simp
  qed
qed

lemma itoa_nat_inject [simp]: "itoa_nat m = itoa_nat n \<longleftrightarrow> m = n"
  by (metis dec_nat_itoa)

lemma not_digit_minus [simp]: "\<not> is_digit CHR ''-''" and not_digit_plus [simp]: "\<not> is_digit CHR ''+''"
  by (simp_all add: is_digit_def)

lemma itoa_nat_hd_digit: "\<exists>c cs. itoa_nat n = c # cs \<and> is_digit c"
  using itoa_nat_digits [of n] itoa_nat_nonempty [of n] by (cases "itoa_nat n") auto

theorem Atoi_Itoa:
  assumes "in_int64 n"
  shows "Atoi (Itoa n) = Some n"
proof (cases "n < 0")
  case True
  then show ?thesis using assms itoa_nat_digits [of "nat (- n)"]
    by (simp add: Atoi_def Itoa_def)
next
  case False
  obtain c cs where c: "itoa_nat (nat n) = c # cs" "is_digit c" using itoa_nat_hd_digit by blast
  then have "c \<noteq> CHR ''-''" "c \<noteq> CHR ''+''" by auto
  moreover have "dec_nat (c # cs) = nat n" and "list_all is_digit (c # cs)"
    using dec_nat_itoa [of "nat n"] itoa_nat_digits [of "nat n"] c by simp_all
  ultimately show ?thesis using False assms c by (simp add: Atoi_def Itoa_def)
qed

subsection \<open>Zero padding\<close>

definition pad0 :: "nat \<Rightarrow> string \<Rightarrow> string" where
  "pad0 w s = replicate (w - length s) CHR ''0'' @ s"

text \<open>\<open>appendInt(b, n, w)\<close> of package \<open>time\<close>: the sign, then at least \<open>w\<close> digits.\<close>

definition append_int :: "nat \<Rightarrow> int \<Rightarrow> string" where
  "append_int w n =
     (if n < 0 then CHR ''-'' # pad0 w (itoa_nat (nat (- n))) else pad0 w (itoa_nat (nat n)))"

text \<open>\<open>fmt.Sprintf(\"%0wd\", n)\<close>: at least \<open>w\<close> bytes, the sign included.\<close>

definition fmt_0d :: "nat \<Rightarrow> int \<Rightarrow> string" where
  "fmt_0d w n =
     (if n < 0 then CHR ''-'' # pad0 (w - 1) (itoa_nat (nat (- n))) else pad0 w (itoa_nat (nat n)))"

lemma dec_nat_replicate0 [simp]: "dec_nat (replicate k CHR ''0'' @ s) = dec_nat s"
  by (induction k) (simp_all add: dec_nat_def digit_val_def)

lemma dec_nat_pad0 [simp]: "dec_nat (pad0 w (itoa_nat n)) = n"
  by (simp add: pad0_def)

lemma digits_pad0: "list_all is_digit (pad0 w (itoa_nat n))"
  using itoa_nat_digits [of n] by (auto simp: pad0_def list_all_iff is_digit_def)

lemma pad0_neq_minus [simp]:
  "pad0 w (itoa_nat n) \<noteq> CHR ''-'' # s" "CHR ''-'' # s \<noteq> pad0 w (itoa_nat n)"
proof -
  have *: "pad0 w (itoa_nat n) \<noteq> CHR ''-'' # s"
    using digits_pad0 [of w n] by (metis list.pred_inject(2) not_digit_minus)
  show "pad0 w (itoa_nat n) \<noteq> CHR ''-'' # s" "CHR ''-'' # s \<noteq> pad0 w (itoa_nat n)"
    using * by metis+
qed

lemma pad0_inject [simp]: "pad0 w (itoa_nat m) = pad0 w (itoa_nat n) \<longleftrightarrow> m = n"
  by (metis dec_nat_pad0)

lemma append_int_inject [simp]: "append_int w m = append_int w n \<longleftrightarrow> m = n"
  by (auto simp: append_int_def split: if_splits)

lemma fmt_0d_inject [simp]: "fmt_0d w m = fmt_0d w n \<longleftrightarrow> m = n"
  by (auto simp: fmt_0d_def split: if_splits)

lemma length_pad0_2:
  assumes "n < 100"
  shows "length (pad0 2 (itoa_nat n)) = 2"
proof -
  have "length (itoa_nat n) \<le> 2"
    using assms by (subst itoa_nat.simps, subst itoa_nat.simps) auto
  moreover have "1 \<le> length (itoa_nat n)"
    using itoa_nat_nonempty [of n] by (cases "itoa_nat n") auto
  ultimately show ?thesis by (simp add: pad0_def)
qed

lemma length_append_int_2: "0 \<le> n \<Longrightarrow> n < 100 \<Longrightarrow> length (append_int 2 n) = 2"
  by (simp add: append_int_def length_pad0_2 nat_less_iff)

lemma length_fmt_0d_2: "0 \<le> n \<Longrightarrow> n < 100 \<Longrightarrow> length (fmt_0d 2 n) = 2"
  by (simp add: fmt_0d_def length_pad0_2 nat_less_iff)

section \<open>Slash-separated paths\<close>

text \<open>
  \<open>path.Clean\<close> by its documented rules: empty and \<open>.\<close> components go away, \<open>..\<close> removes
  the component before it, and is dropped at the root.
\<close>

fun clean_comps :: "bool \<Rightarrow> string list \<Rightarrow> string list \<Rightarrow> string list" where
  "clean_comps rooted acc [] = rev acc"
| "clean_comps rooted acc (c # cs) =
     (if c = [] \<or> c = ''.'' then clean_comps rooted acc cs
      else if c = ''..'' then
        (case acc of
           [] \<Rightarrow> clean_comps rooted (if rooted then [] else [c]) cs
         | a # as \<Rightarrow> clean_comps rooted (if a = ''..'' then c # acc else as) cs)
      else clean_comps rooted (c # acc) cs)"

definition path_Clean :: "string \<Rightarrow> string" where
  "path_Clean p =
     (if p = [] then ''.''
      else let rooted = (hd p = CHR ''/'');
               out = Join ''/'' (clean_comps rooted [] (Split_char CHR ''/'' p))
           in if rooted then CHR ''/'' # out else if out = [] then ''.'' else out)"

definition path_Join :: "string list \<Rightarrow> string" where
  "path_Join elems =
     (let ne = filter (\<lambda>e. e \<noteq> []) elems
      in if ne = [] then [] else path_Clean (Join ''/'' ne))"

text \<open>A component that \<open>path.Clean\<close> leaves alone.\<close>

definition plain_comp :: "string \<Rightarrow> bool" where
  "plain_comp c \<longleftrightarrow> c \<noteq> [] \<and> c \<noteq> ''.'' \<and> c \<noteq> ''..'' \<and> CHR ''/'' \<notin> set c"

lemma clean_comps_plain:
  "list_all plain_comp cs \<Longrightarrow> clean_comps rooted acc cs = rev acc @ cs"
  by (induction cs arbitrary: acc) (auto simp: plain_comp_def)

lemma Join_plain_hd:
  assumes "cs \<noteq> []" and "list_all plain_comp cs"
  shows "Join ''/'' cs \<noteq> []" and "hd (Join ''/'' cs) \<noteq> CHR ''/''"
proof -
  obtain c rest where cs: "cs = c # rest" using assms(1) by (cases cs) auto
  obtain x xs where c: "c = x # xs" "x \<noteq> CHR ''/''"
    using assms(2) cs by (cases c) (auto simp: plain_comp_def)
  show "Join ''/'' cs \<noteq> []" and "hd (Join ''/'' cs) \<noteq> CHR ''/''"
    using c cs by (cases rest; simp)+
qed

lemma Split_Join_plain:
  assumes "cs \<noteq> []" and "list_all plain_comp cs"
  shows "Split_char CHR ''/'' (Join ''/'' cs) = cs"
  using assms by (intro Split_Join) (auto simp: list_all_iff plain_comp_def)

lemma path_Clean_plain:
  assumes "cs \<noteq> []" and "list_all plain_comp cs"
  shows "path_Clean (Join ''/'' cs) = Join ''/'' cs"
  using Join_plain_hd [OF assms] Split_Join_plain [OF assms] assms
  by (simp add: path_Clean_def clean_comps_plain)

lemma path_Join_plain:
  assumes "cs \<noteq> []" and "list_all plain_comp cs"
  shows "path_Join cs = Join ''/'' cs"
proof -
  have "filter (\<lambda>e. e \<noteq> []) cs = cs"
    using assms(2) by (auto simp: filter_id_conv list_all_iff plain_comp_def)
  with assms show ?thesis by (simp add: path_Join_def path_Clean_plain)
qed

lemma Join_plain_inject:
  assumes "us \<noteq> []" "vs \<noteq> []" "list_all plain_comp us" "list_all plain_comp vs"
  shows "Join ''/'' us = Join ''/'' vs \<longleftrightarrow> us = vs"
  using assms Split_Join_plain by metis

end
