(* ===== verification/Go_Time.thy ===== *)
theory Go_Time
  imports Go_Strings
begin

text \<open>
  What the sources use of Go's \<open>time\<close> package. An instant is the number of nanoseconds
  since \<open>0001-01-01T00:00:00Z\<close>, so that Go's zero \<open>time.Time\<close> is \<open>0\<close> and
  \<open>IsZero\<close> is equality with it; a duration is a number of nanoseconds. A
  \<open>time.Location\<close> is the UTC offset, in seconds, it has at each instant. The calendar is
  the proleptic Gregorian one, computed by the cycle decomposition of package \<open>time\<close>.
\<close>

type_synonym time = int
type_synonym duration = int
type_synonym location = "int \<Rightarrow> int"

definition Millisecond :: duration where "Millisecond = 1000000"
definition Second :: duration where "Second = 1000000000"
definition Minute :: duration where "Minute = 60 * 1000000000"
definition Hour :: duration where "Hour = 3600 * 1000000000"
definition Day :: duration where "Day = 86400 * 1000000000"

lemmas unit_defs = Millisecond_def Second_def Minute_def Hour_def Day_def

definition IsZero :: "time \<Rightarrow> bool" where
  "IsZero t \<longleftrightarrow> t = 0"

definition UTC :: location where
  "UTC = (\<lambda>_. 0)"

text \<open>\<open>t.Sub(u)\<close> saturates at the ends of the \<open>int64\<close> range.\<close>

definition time_Sub :: "time \<Rightarrow> time \<Rightarrow> duration" where
  "time_Sub t u = max MinInt64 (min MaxInt64 (t - u))"

section \<open>The calendar of a day number\<close>

definition isLeap :: "int \<Rightarrow> bool" where
  "isLeap y \<longleftrightarrow> y mod 4 = 0 \<and> (y mod 100 \<noteq> 0 \<or> y mod 400 = 0)"

text \<open>Year and day of the year of the day \<open>d\<close> days after 0001-01-01.\<close>

definition year_yday :: "int \<Rightarrow> int \<times> int" where
  "year_yday d =
     (let n400 = d div 146097; d1 = d mod 146097;
          n100 = min 3 (d1 div 36524); d2 = d1 - 36524 * n100;
          n4 = d2 div 1461; d3 = d2 mod 1461;
          n1 = min 3 (d3 div 365)
      in (400 * n400 + 100 * n100 + 4 * n4 + n1 + 1, d3 - 365 * n1))"

definition month_lengths :: "bool \<Rightarrow> int list" where
  "month_lengths leap = [31, if leap then 29 else 28, 31, 30, 31, 30, 31, 31, 30, 31, 30, 31]"

text \<open>Month and day of the month, walking the month lengths from \<open>m\<close>.\<close>

fun month_day :: "int list \<Rightarrow> int \<Rightarrow> int \<Rightarrow> int \<times> int" where
  "month_day [] m d = (m, d + 1)"
| "month_day (l # ls) m d = (if d < l then (m, d + 1) else month_day ls (m + 1) (d - l))"

definition day_year :: "int \<Rightarrow> int" where
  "day_year d = fst (year_yday d)"

definition day_yday :: "int \<Rightarrow> int" where
  "day_yday d = snd (year_yday d)"

definition day_month :: "int \<Rightarrow> int" where
  "day_month d = fst (month_day (month_lengths (isLeap (day_year d))) 1 (day_yday d))"

definition day_mday :: "int \<Rightarrow> int" where
  "day_mday d = snd (month_day (month_lengths (isLeap (day_year d))) 1 (day_yday d))"

text \<open>\<open>time.Weekday\<close>: Sunday is 0; 0001-01-01 was a Monday.\<close>

definition day_weekday :: "int \<Rightarrow> int" where
  "day_weekday d = (d + 1) mod 7"

text \<open>The ISO 8601 year and week: those of the Thursday of the Monday-based week.\<close>

definition day_isoweek :: "int \<Rightarrow> int \<times> int" where
  "day_isoweek d =
     (let thursday = d - d mod 7 + 3 in (day_year thursday, day_yday thursday div 7 + 1))"

text \<open>Days before the first of January of year \<open>y\<close>.\<close>

definition days_before_year :: "int \<Rightarrow> int" where
  "days_before_year y = 365 * (y - 1) + (y - 1) div 4 - (y - 1) div 100 + (y - 1) div 400"

subsection \<open>Year and day of the year determine the day\<close>

lemma cycle_arith:
  fixes a b c e :: int
  assumes "0 \<le> b" "b \<le> 3" "0 \<le> c" "c \<le> 24" "0 \<le> e" "e \<le> 3"
  shows "(400 * a + 100 * b + 4 * c + e) div 4 = 100 * a + 25 * b + c"
    and "(400 * a + 100 * b + 4 * c + e) div 100 = 4 * a + b"
    and "(400 * a + 100 * b + 4 * c + e) div 400 = a"
proof -
  show "(400 * a + 100 * b + 4 * c + e) div 4 = 100 * a + 25 * b + c"
    by (rule int_div_pos_eq [where r = e]) (use assms in auto)
  show "(400 * a + 100 * b + 4 * c + e) div 100 = 4 * a + b"
    by (rule int_div_pos_eq [where r = "4 * c + e"]) (use assms in auto)
  show "(400 * a + 100 * b + 4 * c + e) div 400 = a"
    by (rule int_div_pos_eq [where r = "100 * b + 4 * c + e"]) (use assms in auto)
qed

lemma year_decomp:
  fixes d :: int
  defines "n400 \<equiv> d div 146097" and "d1 \<equiv> d mod 146097"
  defines "n100 \<equiv> min 3 (d1 div 36524)"
  defines "d2 \<equiv> d1 - 36524 * n100"
  defines "n4 \<equiv> d2 div 1461" and "d3 \<equiv> d2 mod 1461"
  defines "n1 \<equiv> min 3 (d3 div 365)"
  shows "0 \<le> n100" "n100 \<le> 3" "0 \<le> n4" "n4 \<le> 24" "0 \<le> n1" "n1 \<le> 3"
    and "0 \<le> d3 - 365 * n1" "d3 - 365 * n1 \<le> 365"
    and "d3 - 365 * n1 = 365 \<Longrightarrow> n1 = 3 \<and> (n4 \<noteq> 24 \<or> n100 = 3)"
    and "d = 146097 * n400 + 36524 * n100 + 1461 * n4 + d3"
proof -
  have d1: "0 \<le> d1" "d1 < 146097" by (simp_all add: d1_def)
  show n100: "0 \<le> n100" "n100 \<le> 3" using d1 by (auto simp: n100_def pos_imp_zdiv_nonneg_iff)
  have d2: "0 \<le> d2" "d2 \<le> 36524" "d2 = 36524 \<longrightarrow> n100 = 3"
    using d1 unfolding d2_def n100_def by (auto simp: min_def split: if_splits)
  show n4: "0 \<le> n4" "n4 \<le> 24" using d2 unfolding n4_def by auto
  have d3: "0 \<le> d3" "d3 < 1461" by (simp_all add: d3_def)
  show n1: "0 \<le> n1" "n1 \<le> 3" using d3 by (auto simp: n1_def pos_imp_zdiv_nonneg_iff)
  show "0 \<le> d3 - 365 * n1" "d3 - 365 * n1 \<le> 365"
    using d3 unfolding n1_def by (auto simp: min_def split: if_splits)
  show "n1 = 3 \<and> (n4 \<noteq> 24 \<or> n100 = 3)" if "d3 - 365 * n1 = 365"
  proof -
    have "n1 = 3" using d3 that unfolding n1_def by (auto simp: min_def split: if_splits)
    with that have "d3 = 1460" by simp
    moreover have "d2 = 1461 * n4 + d3" by (simp add: n4_def d3_def)
    ultimately show ?thesis using d2 \<open>n1 = 3\<close> by auto
  qed
  show "d = 146097 * n400 + 36524 * n100 + 1461 * n4 + d3"
    by (simp add: n400_def d1_def d2_def n4_def d3_def)
qed

lemma isLeap_cycle:
  fixes a b c e :: int
  assumes "0 \<le> b" "b \<le> 3" "0 \<le> c" "c \<le> 24" "0 \<le> e" "e \<le> 3"
  shows "isLeap (400 * a + 100 * b + 4 * c + e + 1) \<longleftrightarrow> e = 3 \<and> (c \<noteq> 24 \<or> b = 3)"
proof -
  let ?y = "400 * a + 100 * b + 4 * c + e + 1"
  have "?y mod 4 = (if e = 3 then 0 else e + 1)"
    by (rule int_mod_pos_eq [where q = "100 * a + 25 * b + c + (if e = 3 then 1 else 0)"])
      (use assms in auto)
  moreover have "?y mod 100 = (if e = 3 \<and> c = 24 then 0 else 4 * c + e + 1)"
    by (rule int_mod_pos_eq [where q = "4 * a + b + (if e = 3 \<and> c = 24 then 1 else 0)"])
      (use assms in auto)
  moreover have "?y mod 400 = (if e = 3 \<and> c = 24 \<and> b = 3 then 0 else 100 * b + 4 * c + e + 1)"
    by (rule int_mod_pos_eq [where q = "a + (if e = 3 \<and> c = 24 \<and> b = 3 then 1 else 0)"])
      (use assms in auto)
  ultimately show ?thesis using assms unfolding isLeap_def by auto
qed

lemma year_yday_day: "days_before_year (day_year d) + day_yday d = d"
  and yday_nonneg: "0 \<le> day_yday d"
  and yday_bound: "day_yday d < (if isLeap (day_year d) then 366 else 365)"
proof -
  note y = year_decomp [of d]
  define n400 where "n400 = d div 146097"
  define n100 where "n100 = min 3 (d mod 146097 div 36524)"
  define d2 where "d2 = d mod 146097 - 36524 * n100"
  define n4 where "n4 = d2 div 1461"
  define d3 where "d3 = d2 mod 1461"
  define n1 where "n1 = min 3 (d3 div 365)"
  note y' = y [folded n100_def n400_def, folded d2_def, folded n4_def d3_def, folded n1_def]
  have yr: "day_year d = 400 * n400 + 100 * n100 + 4 * n4 + n1 + 1"
    and yd: "day_yday d = d3 - 365 * n1"
    unfolding day_year_def day_yday_def year_yday_def Let_def fst_conv snd_conv
      n1_def d3_def n4_def d2_def n100_def n400_def
    by (rule refl)+
  have "days_before_year (day_year d)
      = 365 * (400 * n400 + 100 * n100 + 4 * n4 + n1) + (100 * n400 + 25 * n100 + n4)
        - (4 * n400 + n100) + n400"
    using cycle_arith [OF y'(1-6), of n400] by (simp add: days_before_year_def yr)
  then show "days_before_year (day_year d) + day_yday d = d"
    using y'(10) yd by simp
  show "0 \<le> day_yday d" using y'(7) yd by simp
  show "day_yday d < (if isLeap (day_year d) then 366 else 365)"
    using y'(8,9) yd isLeap_cycle [OF y'(1-6), of n400] by (auto simp: yr)
qed

lemma day_of_year_yday:
  "day_year d = day_year d' \<Longrightarrow> day_yday d = day_yday d' \<Longrightarrow> d = d'"
  by (metis year_yday_day)

lemma div_pred:
  fixes y n :: int
  assumes n: "0 < n"
  shows "(y - 1) div n = y div n - (if y mod n = 0 then 1 else 0)"
proof (cases "y mod n = 0")
  case True
  then have "y - 1 = n * (y div n - 1) + (n - 1)"
    using mult_div_mod_eq [of n y] by (simp add: right_diff_distrib)
  then have "(y - 1) div n = y div n - 1"
    by (rule int_div_pos_eq) (use n in auto)
  with True show ?thesis by simp
next
  case False
  have "y - 1 = n * (y div n) + (y mod n - 1)" by simp
  then have "(y - 1) div n = y div n"
    by (rule int_div_pos_eq) (use n False pos_mod_sign [of n y] pos_mod_bound [of n y] in linarith)+
  with False show ?thesis by simp
qed

lemma days_before_year_Suc:
  "days_before_year (y + 1) = days_before_year y + (if isLeap y then 366 else 365)"
proof -
  have "(4::int) dvd 100" and "(100::int) dvd 400" by simp_all
  then have "y mod 400 = 0 \<longrightarrow> y mod 100 = 0" and "y mod 100 = 0 \<longrightarrow> y mod 4 = 0"
    by (meson dvd_trans mod_0_imp_dvd dvd_imp_mod_0)+
  moreover define a b c where "a = y div 4" and "b = y div 100" and "c = y div 400"
  moreover define p q r where "p = (y mod 4 = 0)" and "q = (y mod 100 = 0)" and "r = (y mod 400 = 0)"
  ultimately have imp: "r \<longrightarrow> q" "q \<longrightarrow> p"
    and next_y: "days_before_year (y + 1) = 365 * y + a - b + c"
    and this_y: "days_before_year y = 365 * (y - 1) + (a - (if p then 1 else 0))
                   - (b - (if q then 1 else 0)) + (c - (if r then 1 else 0))"
    and leap: "isLeap y \<longleftrightarrow> p \<and> (\<not> q \<or> r)"
    unfolding days_before_year_def isLeap_def by (simp_all add: div_pred)
  show ?thesis unfolding next_y this_y leap using imp by simp
qed

lemma days_before_year_mono: "y \<le> z \<Longrightarrow> days_before_year y \<le> days_before_year z"
  by (induction z rule: int_ge_induct) (auto simp: days_before_year_Suc)

lemma day_year_mono: "d \<le> d' \<Longrightarrow> day_year d \<le> day_year d'"
proof (rule ccontr)
  assume le: "d \<le> d'" and "\<not> day_year d \<le> day_year d'"
  then have "day_year d' + 1 \<le> day_year d" by simp
  then have "days_before_year (day_year d' + 1) \<le> days_before_year (day_year d)"
    by (rule days_before_year_mono)
  then have "d' < d"
    using year_yday_day [of d] year_yday_day [of d'] yday_nonneg [of d] yday_bound [of d']
    by (auto simp: days_before_year_Suc split: if_splits)
  with le show False by simp
qed

lemma yday_mono_same_year: "d \<le> d' \<Longrightarrow> day_year d = day_year d' \<Longrightarrow> day_yday d \<le> day_yday d'"
  using year_yday_day [of d] year_yday_day [of d'] by simp

subsection \<open>Months\<close>

lemma month_day_lower: "m \<le> fst (month_day ls m d)"
  by (induction ls m d rule: month_day.induct) auto

lemma month_day_mono:
  "d \<le> d' \<Longrightarrow> fst (month_day ls m d) \<le> fst (month_day ls m d')"
proof (induction ls arbitrary: m d d')
  case (Cons l ls)
  then show ?case using month_day_lower [of "m + 1" ls "d' - l"] by auto
qed simp

lemma month_day_inject:
  assumes "month_day ls m d = month_day ls m d'"
  shows "d = d'"
  using assms
proof (induction ls arbitrary: m d d')
  case (Cons l ls)
  have "fst (month_day ls (m + 1) x) \<noteq> m" for x
    using month_day_lower [of "m + 1" ls x] by auto
  then have "month_day ls (m + 1) x \<noteq> (m, y)" and "(m, y) \<noteq> month_day ls (m + 1) x" for x y
    by (metis fst_conv)+
  with Cons show ?case by (fastforce split: if_splits)
qed simp

lemma month_day_range:
  assumes "0 \<le> d" and "d < sum_list ls" and "\<forall>l\<in>set ls. 0 \<le> l \<and> l \<le> 31"
  shows "fst (month_day ls m d) < m + int (length ls)"
    and "1 \<le> snd (month_day ls m d)" and "snd (month_day ls m d) \<le> 31"
  using assms
proof (induction ls arbitrary: m d)
  case (Cons l ls)
  { case 1 then show ?case using Cons.IH(1) [of "d - l" "m + 1"] by auto }
  { case 2 then show ?case using Cons.IH(2) [of "d - l" "m + 1"] by auto }
  { case 3 then show ?case using Cons.IH(3) [of "d - l" "m + 1"] by auto }
qed auto

lemma day_month_mday_range:
  "1 \<le> day_month d" "day_month d \<le> 12" "1 \<le> day_mday d" "day_mday d \<le> 31"
proof -
  let ?ls = "month_lengths (isLeap (day_year d))"
  have "day_yday d < sum_list ?ls" and "\<forall>l\<in>set ?ls. 0 \<le> l \<and> l \<le> 31"
    using yday_bound [of d] by (auto simp: month_lengths_def split: if_splits)
  note r = month_day_range [OF yday_nonneg this]
  have "length ?ls = 12" by (simp add: month_lengths_def)
  with r [of 1] month_day_lower [of 1 ?ls "day_yday d"]
  show "1 \<le> day_month d" "day_month d \<le> 12" "1 \<le> day_mday d" "day_mday d \<le> 31"
    by (simp_all add: day_month_def day_mday_def)
qed

lemma civil_inject:
  assumes "day_year d = day_year d'" "day_month d = day_month d'" "day_mday d = day_mday d'"
  shows "d = d'"
proof -
  let ?ls = "month_lengths (isLeap (day_year d))"
  have "month_day ?ls 1 (day_yday d) = month_day ?ls 1 (day_yday d')"
    using assms by (intro prod_eqI) (simp_all add: day_month_def day_mday_def)
  then have "day_yday d = day_yday d'" by (rule month_day_inject)
  with assms(1) show ?thesis by (rule day_of_year_yday)
qed

lemma day_month_mono:
  assumes "d \<le> d'" and "day_year d = day_year d'"
  shows "day_month d \<le> day_month d'"
  using month_day_mono [OF yday_mono_same_year [OF assms]] assms(2) by (simp add: day_month_def)

subsection \<open>ISO weeks\<close>

lemma isoweek_bound: "1 \<le> snd (day_isoweek d)" "snd (day_isoweek d) \<le> 53"
proof -
  let ?t = "d - d mod 7 + 3"
  have "day_yday ?t < 366" using yday_bound [of ?t] by (auto split: if_splits)
  with yday_nonneg [of ?t] show "1 \<le> snd (day_isoweek d)" "snd (day_isoweek d) \<le> 53"
    by (auto simp: day_isoweek_def Let_def)
qed

lemma isoweek_eq_iff: "day_isoweek d = day_isoweek d' \<longleftrightarrow> d div 7 = d' div 7"
proof
  let ?t = "d - d mod 7 + 3" and ?t' = "d' - d' mod 7 + 3"
  assume "day_isoweek d = day_isoweek d'"
  then have yr: "day_year ?t = day_year ?t'" and wk: "day_yday ?t div 7 = day_yday ?t' div 7"
    by (auto simp: day_isoweek_def Let_def)
  have "?t - ?t' = day_yday ?t - day_yday ?t'"
    using year_yday_day [of ?t] year_yday_day [of ?t'] yr by simp
  moreover have "?t = 7 * (d div 7) + 3" and "?t' = 7 * (d' div 7) + 3"
    by (simp_all add: minus_mod_eq_mult_div)
  moreover have "\<bar>day_yday ?t - day_yday ?t'\<bar> < 7" using wk by linarith
  ultimately show "d div 7 = d' div 7" by linarith
next
  assume "d div 7 = d' div 7"
  then have "d - d mod 7 = d' - d' mod 7" by (metis minus_mod_eq_mult_div)
  then show "day_isoweek d = day_isoweek d'" by (simp add: day_isoweek_def)
qed

section \<open>Local readings of an instant\<close>

definition local_ns :: "location \<Rightarrow> time \<Rightarrow> int" where
  "local_ns loc t = t + loc t * Second"

definition day_number :: "location \<Rightarrow> time \<Rightarrow> int" where
  "day_number loc t = local_ns loc t div Day"

definition hour_number :: "location \<Rightarrow> time \<Rightarrow> int" where
  "hour_number loc t = local_ns loc t div Hour"

definition second_number :: "location \<Rightarrow> time \<Rightarrow> int" where
  "second_number loc t = local_ns loc t div Second"

definition time_Weekday :: "location \<Rightarrow> time \<Rightarrow> int" where
  "time_Weekday loc t = day_weekday (day_number loc t)"

definition time_Day :: "location \<Rightarrow> time \<Rightarrow> int" where
  "time_Day loc t = day_mday (day_number loc t)"

definition time_Hour :: "location \<Rightarrow> time \<Rightarrow> int" where
  "time_Hour loc t = hour_number loc t mod 24"

definition time_Minute :: "location \<Rightarrow> time \<Rightarrow> int" where
  "time_Minute loc t = second_number loc t div 60 mod 60"

definition time_Second :: "location \<Rightarrow> time \<Rightarrow> int" where
  "time_Second loc t = second_number loc t mod 60"

subsection \<open>Layout strings\<close>

definition fmt_2006 :: "int \<Rightarrow> string" where
  "fmt_2006 d = append_int 4 (day_year d)"

definition fmt_01 :: "int \<Rightarrow> string" where
  "fmt_01 d = append_int 2 (day_month d)"

definition fmt_02 :: "int \<Rightarrow> string" where
  "fmt_02 d = append_int 2 (day_mday d)"

text \<open>\<open>Format(\"2006-01-02\")\<close> and \<open>Format(\"2006-01\")\<close> of a day.\<close>

definition fmt_month :: "int \<Rightarrow> string" where
  "fmt_month d = fmt_2006 d @ ''-'' @ fmt_01 d"

definition fmt_date :: "int \<Rightarrow> string" where
  "fmt_date d = fmt_month d @ ''-'' @ fmt_02 d"

lemma length_fmt_01 [simp]: "length (fmt_01 d) = 2"
  using day_month_mday_range [of d] by (simp add: fmt_01_def length_append_int_2)

lemma length_fmt_02 [simp]: "length (fmt_02 d) = 2"
  using day_month_mday_range [of d] by (simp add: fmt_02_def length_append_int_2)

lemma fmt_month_eq:
  "fmt_month d = fmt_month d' \<longleftrightarrow> day_year d = day_year d' \<and> day_month d = day_month d'"
proof -
  have "fmt_month d = fmt_month d' \<longleftrightarrow> fmt_2006 d = fmt_2006 d' \<and> fmt_01 d = fmt_01 d'"
    unfolding fmt_month_def by (subst append_eq_append_conv) auto
  then show ?thesis by (simp add: fmt_2006_def fmt_01_def)
qed

lemma fmt_date_inject [simp]: "fmt_date d = fmt_date d' \<longleftrightarrow> d = d'"
proof
  assume "fmt_date d = fmt_date d'"
  then have m: "fmt_month d = fmt_month d'" and "fmt_02 d = fmt_02 d'"
    unfolding fmt_date_def by (subst (asm) append_eq_append_conv; simp)+
  then have "day_mday d = day_mday d'" unfolding fmt_02_def by (simp only: append_int_inject)
  with m [unfolded fmt_month_eq] show "d = d'" by (blast intro: civil_inject)
qed simp

lemma hour_day: "hour_number loc t div 24 = day_number loc t"
proof -
  have "Day = Hour * 24" by (simp add: unit_defs)
  moreover have "a div (Hour * 24) = a div Hour div 24" for a by (rule zdiv_zmult2_eq) simp
  ultimately show ?thesis unfolding hour_number_def day_number_def by simp
qed

text \<open>\<open>Format(time.RFC3339)\<close>: a zero offset is \<open>Z\<close>, another one is \<open>+hh:mm\<close>.\<close>

definition fmt_zone :: "int \<Rightarrow> string" where
  "fmt_zone off =
     (if off = 0 then ''Z''
      else let z = \<bar>off\<bar> div 60
           in (if off < 0 then ''-'' else ''+'') @ append_int 2 (z div 60) @ '':'' @ append_int 2 (z mod 60))"

definition fmt_clock :: "location \<Rightarrow> time \<Rightarrow> string" where
  "fmt_clock loc t = append_int 2 (time_Hour loc t) @ '':'' @ append_int 2 (time_Minute loc t)
     @ '':'' @ append_int 2 (time_Second loc t)"

definition fmt_RFC3339 :: "location \<Rightarrow> time \<Rightarrow> string" where
  "fmt_RFC3339 loc t = fmt_date (day_number loc t) @ ''T'' @ fmt_clock loc t @ fmt_zone (loc t)"

end
