(* ===== verification/Retention.thy ===== *)
theory Retention
  imports Go_Time
begin

text \<open>
  The grandfather-father-son retention policy of \<open>internal/retention/retention.go\<close>: the
  policy, the backups it reasons about, the tier classification and \<open>Policy.Plan\<close>. The
  order in which \<open>sort.Slice\<close> leaves backups of one instant is not specified, so the plan
  is a function of an already ordered list and the theorems hold for every ordering the
  sort may produce.
\<close>

section \<open>Policy, backups and plans\<close>

text \<open>\<open>Tier\<close> is a Go string; \<open>TierOther\<close> is any string that is none of the five constants.\<close>

datatype Tier = TierHourly | TierDaily | TierWeekly | TierMonthly | TierYearly | TierOther string

fun tier_name :: "Tier \<Rightarrow> string" where
  "tier_name TierHourly = ''hourly''"
| "tier_name TierDaily = ''daily''"
| "tier_name TierWeekly = ''weekly''"
| "tier_name TierMonthly = ''monthly''"
| "tier_name TierYearly = ''yearly''"
| "tier_name (TierOther s) = s"

record Rule =
  rKeep :: int

record WeekRule =
  wKeep :: int
  wOn :: int

record MonthRule =
  mKeep :: int
  mOn :: int

record Policy =
  pHourly :: Rule
  pDaily :: Rule
  pWeekly :: WeekRule
  pMonthly :: MonthRule
  pYearly :: Rule
  pMinKeep :: int
  pLocation :: "location option"

record Backup =
  bID :: string
  bAt :: time
  bVerified :: bool
  bBytes :: int
  bKeys :: "string list"

record Decision =
  dBackup :: Backup
  dTiers :: "Tier list"
  dReason :: string

record Input =
  inBackups :: "Backup list"
  inNow :: time
  inLastRunFailed :: bool

record Plan =
  plKeep :: "Decision list"
  plDelete :: "Decision list"
  plBlocked :: string

definition Kept :: "Decision \<Rightarrow> bool" where
  "Kept d \<longleftrightarrow> dTiers d \<noteq> [] \<or> dReason d \<noteq> []"

definition Why :: "Decision \<Rightarrow> string" where
  "Why d =
     (if dTiers d = [] then dReason d
      else let out = Join ''+'' (map tier_name (dTiers d))
           in if dReason d \<noteq> [] then out @ '', '' @ dReason d else out)"

text \<open>The sum of \<open>int64\<close> sizes wraps.\<close>

definition Plan_Bytes :: "Plan \<Rightarrow> int" where
  "Plan_Bytes p = foldl (\<lambda>total d. wrap64 (total + bBytes (dBackup d))) 0 (plDelete p)"

definition Plan_Keys :: "Plan \<Rightarrow> string list" where
  "Plan_Keys p = foldl (\<lambda>keys d. keys @ bKeys (dBackup d)) [] (plDelete p)"

definition KeptIDs :: "Plan \<Rightarrow> string list" where
  "KeptIDs p = map (\<lambda>d. bID (dBackup d)) (plKeep p)"

text \<open>The texts of the decisions no tier accounts for.\<close>

definition no_policy_reason :: string where
  "no_policy_reason = ''no retention policy is configured, so nothing is ever deleted''"

definition verified_text :: string where
  "verified_text = ''most recent verified backup''"

definition floor_reason :: "int \<Rightarrow> string" where
  "floor_reason n = ''min_keep floor of '' @ Itoa n"

definition failed_reason :: string where
  "failed_reason = ''the most recent run of this target failed''"

definition failed_blocked :: string where
  "failed_blocked =
     ''the most recent run of this target failed; retention is frozen until a backup succeeds''"

lemma reasons_neq [simp]:
  "no_policy_reason \<noteq> []" "verified_text \<noteq> []" "floor_reason n \<noteq> []" "failed_reason \<noteq> []"
  "failed_blocked \<noteq> []"
  by (simp_all add: no_policy_reason_def verified_text_def floor_reason_def failed_reason_def
      failed_blocked_def)

section \<open>Classification\<close>

fun keepOf :: "Policy \<Rightarrow> Tier \<Rightarrow> int" where
  "keepOf p TierHourly = rKeep (pHourly p)"
| "keepOf p TierDaily = rKeep (pDaily p)"
| "keepOf p TierWeekly = wKeep (pWeekly p)"
| "keepOf p TierMonthly = mKeep (pMonthly p)"
| "keepOf p TierYearly = rKeep (pYearly p)"
| "keepOf p (TierOther s) = 0"

definition rungs :: "Tier list" where
  "rungs = [TierHourly, TierDaily, TierWeekly, TierMonthly, TierYearly]"

definition policy_empty :: "Policy \<Rightarrow> bool" where
  "policy_empty p \<longleftrightarrow> list_all (\<lambda>tier. \<not> keepOf p tier > 0) rungs"

definition policy_location :: "Policy \<Rightarrow> location" where
  "policy_location p = (case pLocation p of None \<Rightarrow> UTC | Some loc \<Rightarrow> loc)"

fun bucketKey :: "time \<Rightarrow> Tier \<Rightarrow> location \<Rightarrow> string" where
  "bucketKey at TierHourly loc =
     fmt_date (day_number loc at) @ ''T'' @ append_int 2 (time_Hour loc at)"
| "bucketKey at TierDaily loc = fmt_date (day_number loc at)"
| "bucketKey at TierWeekly loc =
     (case day_isoweek (day_number loc at) of (year, week) \<Rightarrow>
        fmt_0d 4 year @ ''-W'' @ fmt_0d 2 week)"
| "bucketKey at TierMonthly loc = fmt_month (day_number loc at)"
| "bucketKey at TierYearly loc = fmt_2006 (day_number loc at)"
| "bucketKey at (TierOther s) loc = fmt_RFC3339 loc at"

text \<open>
  \<open>bucket[0]\<close> is only reached with a non-empty bucket; on an empty one Go panics, which
  is \<open>None\<close>.
\<close>

definition bucket0 :: "Backup list \<Rightarrow> Backup option" where
  "bucket0 bucket = (case bucket of [] \<Rightarrow> None | b # _ \<Rightarrow> Some b)"

fun representative :: "Policy \<Rightarrow> Tier \<Rightarrow> Backup list \<Rightarrow> location \<Rightarrow> Backup option" where
  "representative p TierWeekly bucket loc =
     (case find (\<lambda>b. time_Weekday loc (bAt b) = wOn (pWeekly p)) bucket of
        Some b \<Rightarrow> Some b | None \<Rightarrow> bucket0 bucket)"
| "representative p TierMonthly bucket loc =
     (case find (\<lambda>b. time_Day loc (bAt b) = mOn (pMonthly p)) bucket of
        Some b \<Rightarrow> Some b | None \<Rightarrow> bucket0 bucket)"
| "representative p tier bucket loc = bucket0 bucket"

text \<open>The loop of \<open>survivors\<close> over the backups: the periods in meeting order, and the bucket of each.\<close>

definition bucket_step ::
  "Tier \<Rightarrow> location \<Rightarrow> string list \<times> (string \<rightharpoonup> Backup list) \<Rightarrow> Backup
   \<Rightarrow> string list \<times> (string \<rightharpoonup> Backup list)" where
  "bucket_step tier loc st b =
     (let order = fst st; buckets = snd st; key = bucketKey (bAt b) tier loc;
          order' = (if buckets key = None then order @ [key] else order);
          old = (case buckets key of None \<Rightarrow> [] | Some bs \<Rightarrow> bs)
      in (order', buckets(key \<mapsto> old @ [b])))"

definition survivors :: "Policy \<Rightarrow> Tier \<Rightarrow> Backup list \<Rightarrow> location \<Rightarrow> string list" where
  "survivors p tier newestFirst loc =
     (let keep = keepOf p tier in
      if keep \<le> 0 then []
      else let (order, buckets) = foldl (bucket_step tier loc) ([], Map.empty) newestFirst;
               order' = (if int (length order) > keep then take (nat keep) order else order)
           in List.map_filter
                (\<lambda>key. map_option bID (representative p tier (case buckets key of None \<Rightarrow> [] | Some b \<Rightarrow> b) loc))
                order')"

fun newestVerified :: "Backup list \<Rightarrow> Backup option" where
  "newestVerified [] = None"
| "newestVerified (b # bs) = (if bVerified b then Some b else newestVerified bs)"

type_synonym tier_map = "string \<Rightarrow> Tier list"
type_synonym reason_map = "string \<Rightarrow> string"

definition countKept :: "Backup list \<Rightarrow> tier_map \<Rightarrow> reason_map \<Rightarrow> int" where
  "countKept backups tiers reasons =
     foldl (\<lambda>kept b. if tiers (bID b) \<noteq> [] \<or> reasons (bID b) \<noteq> [] then kept + 1 else kept) 0 backups"

definition keepAll :: "Backup list \<Rightarrow> string \<Rightarrow> Plan" where
  "keepAll backups reason =
     \<lparr>plKeep = map (\<lambda>b. \<lparr>dBackup = b, dTiers = [], dReason = reason\<rparr>) backups,
      plDelete = [], plBlocked = []\<rparr>"

section \<open>The plan\<close>

text \<open>\<open>tiers[id] = append(tiers[id], tier)\<close> for every rung and every id it keeps.\<close>

definition classify_tiers :: "Policy \<Rightarrow> Backup list \<Rightarrow> location \<Rightarrow> tier_map" where
  "classify_tiers p backups loc =
     foldl (\<lambda>tiers tier. foldl (\<lambda>tiers id. tiers(id := tiers id @ [tier])) tiers
                              (survivors p tier backups loc))
       (\<lambda>_. []) rungs"

definition verified_reason :: "tier_map \<Rightarrow> Backup list \<Rightarrow> reason_map" where
  "verified_reason tiers backups =
     (case newestVerified backups of
        None \<Rightarrow> (\<lambda>_. [])
      | Some v \<Rightarrow> if tiers (bID v) = [] then (\<lambda>_. [])(bID v := verified_text)
                   else (\<lambda>_. []))"

fun floor_loop :: "int \<Rightarrow> tier_map \<Rightarrow> int \<Rightarrow> reason_map \<Rightarrow> Backup list \<Rightarrow> reason_map" where
  "floor_loop minKeep tiers kept reasons [] = reasons"
| "floor_loop minKeep tiers kept reasons (b # bs) =
     (if kept \<ge> minKeep then reasons
      else if tiers (bID b) = [] \<and> reasons (bID b) = []
      then floor_loop minKeep tiers (kept + 1)
             (reasons(bID b := floor_reason minKeep)) bs
      else floor_loop minKeep tiers kept reasons bs)"

definition decide :: "tier_map \<Rightarrow> reason_map \<Rightarrow> Backup \<Rightarrow> Decision" where
  "decide tiers reasons b = \<lparr>dBackup = b, dTiers = tiers (bID b), dReason = reasons (bID b)\<rparr>"

definition plan_sorted :: "Policy \<Rightarrow> Backup list \<Rightarrow> bool \<Rightarrow> Plan" where
  "plan_sorted p backups lastRunFailed =
     (if backups = [] then \<lparr>plKeep = [], plDelete = [], plBlocked = []\<rparr>
      else if policy_empty p
      then keepAll backups no_policy_reason
      else
        let tiers = classify_tiers p backups (policy_location p);
            reasons0 = verified_reason tiers backups;
            reasons = floor_loop (pMinKeep p) tiers (countKept backups tiers reasons0) reasons0 backups;
            decisions = map (decide tiers reasons) backups;
            plan = \<lparr>plKeep = filter Kept decisions,
                    plDelete = filter (\<lambda>d. \<not> Kept d) decisions, plBlocked = []\<rparr>
        in if lastRunFailed \<and> plDelete plan \<noteq> []
           then (keepAll backups failed_reason)
                  \<lparr>plBlocked := failed_blocked\<rparr>
           else plan)"

text \<open>\<open>Policy.Plan\<close>: on one ordering, and the plans of all the orderings \<open>sort.Slice\<close> may leave.\<close>

definition Policy_Plan :: "Policy \<Rightarrow> Input \<Rightarrow> Plan" where
  "Policy_Plan p inp = plan_sorted p (sort_desc bAt (inBackups inp)) (inLastRunFailed inp)"

definition Plan_results :: "Policy \<Rightarrow> Input \<Rightarrow> Plan set" where
  "Plan_results p inp =
     {plan_sorted p bs (inLastRunFailed inp) | bs. sort_slice_desc bAt (inBackups inp) bs}"

lemma Policy_Plan_result: "Policy_Plan p inp \<in> Plan_results p inp"
  unfolding Policy_Plan_def Plan_results_def using sort_desc_is_slice by blast

section \<open>What a tier keeps\<close>

text \<open>The bucket of a period: the backups in it, newest first.\<close>

definition bucket_of :: "Tier \<Rightarrow> location \<Rightarrow> Backup list \<Rightarrow> string \<Rightarrow> Backup list" where
  "bucket_of tier loc bs key = filter (\<lambda>b. bucketKey (bAt b) tier loc = key) bs"

abbreviation period_key :: "Tier \<Rightarrow> location \<Rightarrow> Backup \<Rightarrow> string" where
  "period_key tier loc b \<equiv> bucketKey (bAt b) tier loc"

lemma filter_key_empty: "filter (\<lambda>b. f b = k) bs = [] \<longleftrightarrow> k \<notin> f ` set bs"
  by (induction bs) auto

lemma bucket_loop:
  "foldl (bucket_step tier loc) ([], Map.empty) bs =
     (first_keys (period_key tier loc) bs,
      \<lambda>k. let l = bucket_of tier loc bs k in if l = [] then None else Some l)"
proof (induction bs rule: rev_induct)
  case Nil
  then show ?case by (auto simp: bucket_of_def)
next
  case (snoc b bs)
  let ?key = "period_key tier loc" and ?B = "bucket_of tier loc"
  have seen: "?B bs (?key b) = [] \<longleftrightarrow> ?key b \<notin> set (first_keys ?key bs)"
    unfolding bucket_of_def set_first_keys by (rule filter_key_empty)
  have order: "first_keys ?key (bs @ [b])
      = (if ?B bs (?key b) = [] then first_keys ?key bs @ [?key b] else first_keys ?key bs)"
    by (simp add: seen first_keys_append set_first_keys)
  have buckets: "?B (bs @ [b]) k = (if k = ?key b then ?B bs k @ [b] else ?B bs k)" for k
    by (auto simp: bucket_of_def)
  show ?case
    unfolding foldl_append snoc foldl_Cons foldl_Nil
    unfolding bucket_step_def Let_def fst_conv snd_conv order
    by (auto simp: fun_eq_iff buckets)
qed

lemma bucket_of_nonempty:
  "k \<in> set (first_keys (period_key tier loc) bs) \<Longrightarrow> bucket_of tier loc bs k \<noteq> []"
  by (auto simp: set_first_keys bucket_of_def filter_empty_conv)

lemma representative_mem:
  "representative p tier bucket loc = Some b \<Longrightarrow> b \<in> set bucket"
  by (cases tier) (auto simp: bucket0_def dest: find_Some_mem split: option.splits list.splits)

lemma representative_defined:
  "bucket \<noteq> [] \<Longrightarrow> \<exists>b. representative p tier bucket loc = Some b"
  by (cases tier) (auto simp: bucket0_def split: option.splits list.splits)

text \<open>The periods a tier retains, newest first, and the backup that stands for one.\<close>

definition retained_keys :: "Policy \<Rightarrow> Tier \<Rightarrow> Backup list \<Rightarrow> location \<Rightarrow> string list" where
  "retained_keys p tier bs loc = take (nat (keepOf p tier)) (first_keys (period_key tier loc) bs)"

definition rep_of :: "Policy \<Rightarrow> Tier \<Rightarrow> Backup list \<Rightarrow> location \<Rightarrow> string \<Rightarrow> Backup" where
  "rep_of p tier bs loc k = the (representative p tier (bucket_of tier loc bs k) loc)"

lemma rep_of_Some:
  assumes "k \<in> set (first_keys (period_key tier loc) bs)"
  shows "representative p tier (bucket_of tier loc bs k) loc = Some (rep_of p tier bs loc k)"
  using representative_defined [OF bucket_of_nonempty [OF assms], of p tier] by (auto simp: rep_of_def)

lemma rep_of_mem:
  assumes "k \<in> set (first_keys (period_key tier loc) bs)"
  shows "rep_of p tier bs loc k \<in> set bs" and "period_key tier loc (rep_of p tier bs loc k) = k"
  using representative_mem [OF rep_of_Some [OF assms, of p]] by (auto simp: bucket_of_def)

lemma map_filter_all_Some: "(\<And>x. x \<in> set xs \<Longrightarrow> f x = Some (g x)) \<Longrightarrow> List.map_filter f xs = map g xs"
  by (induction xs) (auto simp: List.map_filter_simps)

lemma survivors_eq:
  "survivors p tier bs loc = map (\<lambda>k. bID (rep_of p tier bs loc k)) (retained_keys p tier bs loc)"
proof (cases "keepOf p tier \<le> 0")
  case True
  then show ?thesis by (simp add: survivors_def retained_keys_def)
next
  case False
  let ?order = "first_keys (period_key tier loc) bs"
  have "(if int (length ?order) > keepOf p tier then take (nat (keepOf p tier)) ?order else ?order)
      = retained_keys p tier bs loc"
    using False by (auto simp: retained_keys_def)
  moreover have "List.map_filter (\<lambda>key. map_option bID (representative p tier
        (case (let l = bucket_of tier loc bs key in if l = [] then None else Some l) of
           None \<Rightarrow> [] | Some b \<Rightarrow> b) loc)) (retained_keys p tier bs loc)
      = map (\<lambda>k. bID (rep_of p tier bs loc k)) (retained_keys p tier bs loc)"
    using bucket_of_nonempty [of _ tier loc bs] rep_of_Some [of _ tier loc bs p]
    by (intro map_filter_all_Some) (auto simp: retained_keys_def Let_def dest!: in_set_takeD)
  ultimately show ?thesis using False by (simp add: survivors_def bucket_loop)
qed

lemma classify_ids:
  "foldl (\<lambda>tiers i. tiers(i := tiers i @ [tier])) tiers ids i
     = tiers i @ replicate (count (mset ids) i) tier"
  by (induction ids arbitrary: tiers) (auto simp: replicate_append_same)

lemma classify_tiers_eq:
  "classify_tiers p bs loc i =
     concat (map (\<lambda>tier. replicate (count (mset (survivors p tier bs loc)) i) tier) rungs)"
  unfolding classify_tiers_def rungs_def by (simp add: classify_ids)

lemma classify_tiers_mem:
  "tier \<in> set (classify_tiers p bs loc i) \<longleftrightarrow>
     tier \<in> set rungs \<and> i \<in> set (survivors p tier bs loc)"
  by (auto simp: classify_tiers_eq count_eq_zero_iff)

lemma classify_tiers_Nil:
  "classify_tiers p bs loc i = [] \<longleftrightarrow> (\<forall>tier\<in>set rungs. i \<notin> set (survivors p tier bs loc))"
  using classify_tiers_mem [of _ p bs loc i] by (metis ex_in_conv set_empty)

section \<open>The floor, the freeze and the partition\<close>

lemma countKept_eq:
  "countKept bs tiers reasons
     = int (length (filter (\<lambda>b. tiers (bID b) \<noteq> [] \<or> reasons (bID b) \<noteq> []) bs))"
proof -
  have "foldl (\<lambda>kept b. if tiers (bID b) \<noteq> [] \<or> reasons (bID b) \<noteq> [] then kept + 1 else kept) n bs
      = n + int (length (filter (\<lambda>b. tiers (bID b) \<noteq> [] \<or> reasons (bID b) \<noteq> []) bs))" for n
    by (induction bs arbitrary: n) auto
  then show ?thesis by (simp add: countKept_def)
qed

lemma countKept_Cons:
  "countKept (b # bs) tiers reasons
     = (if tiers (bID b) \<noteq> [] \<or> reasons (bID b) \<noteq> [] then 1 else 0) + countKept bs tiers reasons"
  by (simp add: countKept_eq)

lemma countKept_append:
  "countKept (xs @ ys) tiers reasons = countKept xs tiers reasons + countKept ys tiers reasons"
  by (simp add: countKept_eq)

lemma countKept_mono:
  assumes "\<And>i. reasons i \<noteq> [] \<Longrightarrow> reasons' i \<noteq> []"
  shows "countKept bs tiers reasons \<le> countKept bs tiers reasons'"
  using assms by (induction bs) (auto simp: countKept_Cons countKept_eq)

lemma floor_loop_keeps: "reasons i \<noteq> [] \<Longrightarrow> floor_loop m tiers kept reasons bs i \<noteq> []"
  by (induction bs arbitrary: kept reasons) auto

lemma floor_loop_same:
  "tiers i \<noteq> [] \<or> reasons i \<noteq> [] \<Longrightarrow> floor_loop m tiers kept reasons bs i = reasons i"
  by (induction bs arbitrary: kept reasons) auto

text \<open>\<open>pre\<close> is what the loop has passed: every backup of it has a tier or a reason.\<close>

lemma floor_loop_enough:
  assumes "kept \<le> countKept (pre @ bs) tiers reasons"
    and "\<forall>b\<in>set pre. tiers (bID b) \<noteq> [] \<or> reasons (bID b) \<noteq> []"
  shows "min m (int (length (pre @ bs)))
           \<le> countKept (pre @ bs) tiers (floor_loop m tiers kept reasons bs)"
  using assms
proof (induction bs arbitrary: pre kept reasons)
  case Nil
  then have "filter (\<lambda>b. tiers (bID b) \<noteq> [] \<or> reasons (bID b) \<noteq> []) pre = pre"
    by (simp add: filter_id_conv)
  then show ?case by (simp add: countKept_eq)
next
  case (Cons b bs)
  let ?r' = "reasons(bID b := floor_reason m)"
  show ?case
  proof (cases "kept \<ge> m")
    case True
    with Cons.prems(1) show ?thesis by simp
  next
    case notyet: False
    show ?thesis
    proof (cases "tiers (bID b) = [] \<and> reasons (bID b) = []")
      case True
      have *: "countKept (xs @ b # ys) tiers reasons + 1 \<le> countKept (xs @ b # ys) tiers ?r'" for xs ys
      proof -
        have up: "countKept zs tiers reasons \<le> countKept zs tiers ?r'" for zs
          by (rule countKept_mono) auto
        show ?thesis using True up [of xs] up [of ys] by (simp add: countKept_append countKept_Cons)
      qed
      have "kept + 1 \<le> countKept ((pre @ [b]) @ bs) tiers ?r'"
        using Cons.prems(1) * [of pre bs] by simp
      moreover have "\<forall>c\<in>set (pre @ [b]). tiers (bID c) \<noteq> [] \<or> ?r' (bID c) \<noteq> []"
        using Cons.prems(2) by auto
      ultimately have "min m (int (length ((pre @ [b]) @ bs)))
          \<le> countKept ((pre @ [b]) @ bs) tiers (floor_loop m tiers (kept + 1) ?r' bs)"
        by (rule Cons.IH)
      then show ?thesis using True notyet by (simp del: fun_upd_apply)
    next
      case False
      then show ?thesis
        using Cons.IH [of kept "pre @ [b]" reasons] Cons.prems notyet by auto
    qed
  qed
qed

lemma newestVerified_find: "newestVerified bs = find bVerified bs"
  by (induction bs) auto

lemma verified_reason_neq:
  "verified_reason tiers bs i \<noteq> [] \<longleftrightarrow>
     (\<exists>v. newestVerified bs = Some v \<and> i = bID v \<and> tiers i = [])"
  by (auto simp: verified_reason_def split: option.splits)

text \<open>The three maps behind a plan that is neither empty, unconfigured nor frozen.\<close>

definition plan_tiers :: "Policy \<Rightarrow> Backup list \<Rightarrow> tier_map" where
  "plan_tiers p bs = classify_tiers p bs (policy_location p)"

definition plan_reasons :: "Policy \<Rightarrow> Backup list \<Rightarrow> reason_map" where
  "plan_reasons p bs =
     (let tiers = plan_tiers p bs; r0 = verified_reason tiers bs
      in floor_loop (pMinKeep p) tiers (countKept bs tiers r0) r0 bs)"

definition plan_kept :: "Policy \<Rightarrow> Backup list \<Rightarrow> Backup \<Rightarrow> bool" where
  "plan_kept p bs = (\<lambda>b. plan_tiers p bs (bID b) \<noteq> [] \<or> plan_reasons p bs (bID b) \<noteq> [])"

lemma Kept_decide: "Kept (decide tiers reasons b) \<longleftrightarrow> tiers (bID b) \<noteq> [] \<or> reasons (bID b) \<noteq> []"
  by (simp add: Kept_def decide_def)

lemma dBackup_decide [simp]: "dBackup (decide tiers reasons b) = b"
  by (simp add: decide_def)

text \<open>Every plan is one of three shapes.\<close>

lemma plan_sorted_cases:
  obtains (all) reason blocked where "plan_sorted p bs f = (keepAll bs reason)\<lparr>plBlocked := blocked\<rparr>"
      and "bs = [] \<or> policy_empty p \<or> f \<and> blocked \<noteq> []"
  | (parted) "plan_sorted p bs f = \<lparr>plKeep = map (decide (plan_tiers p bs) (plan_reasons p bs)) (filter (plan_kept p bs) bs),
        plDelete = map (decide (plan_tiers p bs) (plan_reasons p bs)) (filter (\<lambda>b. \<not> plan_kept p bs b) bs),
        plBlocked = []\<rparr>"
      and "bs \<noteq> []" and "\<not> policy_empty p" and "f \<longrightarrow> filter (\<lambda>b. \<not> plan_kept p bs b) bs = []"
proof (cases "bs = [] \<or> policy_empty p")
  case True
  have "plan_sorted p bs f = (keepAll bs (if bs = [] then [] else
      no_policy_reason))\<lparr>plBlocked := []\<rparr>"
    using True by (auto simp: plan_sorted_def keepAll_def)
  then show ?thesis using all True by blast
next
  case False
  have k: "filter Kept (map (decide t r) bs) = map (decide t r) (filter (\<lambda>b. t (bID b) \<noteq> [] \<or> r (bID b) \<noteq> []) bs)"
    and d: "filter (\<lambda>d. \<not> Kept d) (map (decide t r) bs)
      = map (decide t r) (filter (\<lambda>b. \<not> (t (bID b) \<noteq> [] \<or> r (bID b) \<noteq> [])) bs)" for t r
    by (simp_all add: filter_map comp_def Kept_decide)
  show ?thesis
  proof (cases "f \<and> filter (\<lambda>b. \<not> plan_kept p bs b) bs \<noteq> []")
    case True
    then show ?thesis using False
      by (intro all [of failed_blocked failed_reason])
        (auto simp: plan_sorted_def Let_def k d plan_tiers_def [symmetric] plan_reasons_def plan_kept_def
          simp del: de_Morgan_disj)
  next
    case nofreeze: False
    then show ?thesis using False
      by (intro parted)
        (auto simp: plan_sorted_def Let_def k d plan_tiers_def [symmetric] plan_reasons_def plan_kept_def
          simp del: de_Morgan_disj)
  qed
qed

section \<open>Periods are calendar intervals\<close>

text \<open>The number of the period a local instant falls in; newer periods have larger numbers.\<close>

fun period :: "Tier \<Rightarrow> location \<Rightarrow> time \<Rightarrow> int" where
  "period TierHourly loc t = hour_number loc t"
| "period TierDaily loc t = day_number loc t"
| "period TierWeekly loc t = day_number loc t div 7"
| "period TierMonthly loc t = 12 * day_year (day_number loc t) + day_month (day_number loc t)"
| "period TierYearly loc t = day_year (day_number loc t)"
| "period (TierOther s) loc t = second_number loc t"

lemma hour_key_eq:
  "bucketKey a TierHourly loc = bucketKey b TierHourly loc \<longleftrightarrow> hour_number loc a = hour_number loc b"
proof -
  have len: "length (append_int 2 (time_Hour loc t)) = 2" for t
    by (rule length_append_int_2) (auto simp: time_Hour_def intro: order.strict_trans [OF pos_mod_bound])
  have "bucketKey a TierHourly loc = bucketKey b TierHourly loc
      \<longleftrightarrow> day_number loc a = day_number loc b \<and> time_Hour loc a = time_Hour loc b"
    by (simp add: append_eq_append_conv len)
  also have "\<dots> \<longleftrightarrow> hour_number loc a = hour_number loc b"
    unfolding time_Hour_def hour_day [symmetric] by (metis mult_div_mod_eq)
  finally show ?thesis .
qed

lemma week_key_eq:
  "bucketKey a TierWeekly loc = bucketKey b TierWeekly loc
     \<longleftrightarrow> day_number loc a div 7 = day_number loc b div 7"
proof -
  have len: "length (fmt_0d 2 (snd (day_isoweek d))) = 2" for d
    by (rule length_fmt_0d_2) (use isoweek_bound [of d] in auto)
  have "bucketKey a TierWeekly loc = bucketKey b TierWeekly loc
      \<longleftrightarrow> day_isoweek (day_number loc a) = day_isoweek (day_number loc b)"
    using len [of "day_number loc a"] len [of "day_number loc b"]
    by (auto simp: append_eq_append_conv split: prod.splits)
  then show ?thesis by (simp add: isoweek_eq_iff)
qed

lemma month_number_eq:
  "12 * day_year d + day_month d = 12 * day_year d' + day_month d'
     \<longleftrightarrow> day_year d = day_year d' \<and> day_month d = day_month d'"
  using day_month_mday_range(1,2) [of d] day_month_mday_range(1,2) [of d'] by presburger

lemma bucketKey_period:
  assumes "tier \<in> set rungs"
  shows "bucketKey a tier loc = bucketKey b tier loc \<longleftrightarrow> period tier loc a = period tier loc b"
  using assms hour_key_eq [of a loc b] week_key_eq [of a loc b]
  by (auto simp: rungs_def fmt_month_eq month_number_eq fmt_2006_def simp del: bucketKey.simps(1,3))

text \<open>
  A location whose local clock never runs backwards: UTC and every fixed offset. A zone
  with daylight saving time repeats an hour once a year and is not one.
\<close>

definition steady :: "location \<Rightarrow> bool" where
  "steady loc \<longleftrightarrow> (\<forall>t u. t \<le> u \<longrightarrow> local_ns loc t \<le> local_ns loc u)"

lemma steady_fixed: "steady (\<lambda>_. off)"
  by (simp add: steady_def local_ns_def)

lemma steady_UTC [simp]: "steady UTC"
  unfolding UTC_def by (rule steady_fixed)

lemma period_mono:
  assumes "steady loc" and "t \<le> u"
  shows "period tier loc t \<le> period tier loc u"
proof -
  have l: "local_ns loc t \<le> local_ns loc u" using assms by (simp add: steady_def)
  then have d: "day_number loc t \<le> day_number loc u" and h: "hour_number loc t \<le> hour_number loc u"
    and s: "second_number loc t \<le> second_number loc u"
    by (auto simp: day_number_def hour_number_def second_number_def unit_defs intro: zdiv_mono1)
  note y = day_year_mono [OF d]
  have "12 * day_year (day_number loc t) + day_month (day_number loc t)
      \<le> 12 * day_year (day_number loc u) + day_month (day_number loc u)"
    using y day_month_mono [OF d] day_month_mday_range [of "day_number loc t"]
      day_month_mday_range [of "day_number loc u"]
    by (cases "day_year (day_number loc t) = day_year (day_number loc u)") auto
  with d h s y show ?thesis by (cases tier) (auto intro: zdiv_mono1)
qed

text \<open>
  The interface between the tiers and the calendar: a key for each element that identifies
  a period, and a numbering of the periods that follows the instants.
\<close>

locale period_order =
  fixes at :: "'a \<Rightarrow> int" and key :: "'a \<Rightarrow> 'k" and num :: "'a \<Rightarrow> int"
  assumes num_mono: "at x \<le> at y \<Longrightarrow> num x \<le> num y"
    and key_num: "key x = key y \<longleftrightarrow> num x = num y"
begin

lemma newest_period_first:
  assumes "desc_by at (x # xs)" and "y \<in> set xs" and "key y = key x"
  shows "key (hd xs) = key x"
proof -
  have "at y \<le> at (hd xs)" and "at (hd xs) \<le> at x"
    using assms by (cases xs; auto)+
  then have "num y \<le> num (hd xs)" and "num (hd xs) \<le> num x" by (auto intro: num_mono)
  with assms(3) key_num show ?thesis by (metis order_antisym)
qed

lemma first_keys_filter:
  assumes "desc_by at bs"
  shows "first_keys key (filter Q bs)
           = filter (\<lambda>k. k \<in> key ` set (filter Q bs)) (first_keys key bs)"
  using assms
proof (induction bs)
  case (Cons x xs)
  let ?K = "key ` set (filter Q xs)"
  have IH: "first_keys key (filter Q xs) = filter (\<lambda>k. k \<in> ?K) (first_keys key xs)"
    using Cons by simp
  show ?case
  proof (cases "Q x")
    case True
    then show ?thesis by (auto simp: IH intro: filter_cong)
  next
    case False
    show ?thesis
    proof (cases "key x \<in> ?K")
      case True
      then have "xs \<noteq> []" and "key (hd xs) = key x"
        using newest_period_first [OF Cons.prems] by force+
      then have "first_keys key xs = key x # filter (\<lambda>k. k \<noteq> key x) (first_keys key (tl xs))"
        by (cases xs) auto
      then have "key x # filter (\<lambda>k. k \<noteq> key x) (first_keys key xs) = first_keys key xs" by simp
      with False IH show ?thesis by simp
    next
      case notin: False
      with False show ?thesis by (auto simp: IH intro: filter_cong)
    qed
  qed
qed simp

lemma take_first_keys_filter:
  assumes "desc_by at bs" and "\<forall>k\<in>set (take n (first_keys key bs)). k \<in> key ` set (filter Q bs)"
  shows "take n (first_keys key (filter Q bs)) = take n (first_keys key bs)"
proof -
  have *: "take n (filter P ks) = take n ks" if "\<forall>k\<in>set (take n ks). P k" for P and ks :: "'k list"
    using that by (induction ks arbitrary: n) (auto simp: take_Cons split: nat.splits)
  show ?thesis unfolding first_keys_filter [OF assms(1), of Q] by (rule *) (rule assms(2))
qed

text \<open>A period is retained exactly when fewer than \<open>n\<close> newer periods hold a backup.\<close>

lemma first_keys_drop_key:
  "first_keys key (filter (\<lambda>y. key y \<noteq> k) xs) = filter (\<lambda>j. j \<noteq> k) (first_keys key xs)"
  by (induction xs) (auto intro: filter_cong)

lemma retained_iff:
  assumes "desc_by at bs" and "b \<in> set bs"
  shows "key b \<in> set (take n (first_keys key bs))
           \<longleftrightarrow> card (num ` {x \<in> set bs. num b < num x}) < n"
  using assms
proof (induction "length bs" arbitrary: bs n rule: less_induct)
  case less
  then obtain x xs where bs: "bs = x # xs" by (cases bs) auto
  have top: "num y \<le> num x" if "y \<in> set bs" for y
    using less.prems(1) that num_mono by (auto simp: bs)
  show ?case
  proof (cases "key b = key x")
    case True
    then have none: "{y \<in> set bs. num b < num y} = {}" using top key_num by fastforce
    show ?thesis unfolding none using True by (cases n) (auto simp: bs)
  next
    case False
    let ?xs = "filter (\<lambda>y. key y \<noteq> key x) xs"
    have b: "b \<in> set ?xs" using False less.prems(2) by (auto simp: bs)
    have "num b < num x" using False top [OF less.prems(2)] key_num by (metis order_le_less)
    then have newer: "num ` {y \<in> set bs. num b < num y}
        = insert (num x) (num ` {y \<in> set ?xs. num b < num y})"
      by (auto simp: bs key_num)
    have fresh: "num x \<notin> num ` {y \<in> set ?xs. num b < num y}" using key_num by fastforce
    have IH: "key b \<in> set (take m (first_keys key ?xs))
        \<longleftrightarrow> card (num ` {y \<in> set ?xs. num b < num y}) < m" for m
      using less.hyps [of ?xs m] less.prems(1) b by (simp add: bs le_imp_less_Suc)
    show ?thesis
      using False IH [of "n - 1"] fresh unfolding newer
      by (cases n) (auto simp: bs first_keys_drop_key card_insert_if)
  qed
qed

end

lemma tier_periods:
  assumes "steady loc" and "tier \<in> set rungs"
  shows "period_order bAt (period_key tier loc) (\<lambda>b. period tier loc (bAt b))"
  using assms by unfold_locales (simp_all add: period_mono bucketKey_period)

interpretation utc_day: period_order bAt "period_key TierDaily UTC" "\<lambda>b. period TierDaily UTC (bAt b)"
  by (rule tier_periods) (simp_all add: rungs_def)

interpretation utc_week: period_order bAt "period_key TierWeekly UTC" "\<lambda>b. period TierWeekly UTC (bAt b)"
  by (rule tier_periods) (simp_all add: rungs_def)

end
