(* ===== verification/Retention_Plan.thy ===== *)
theory Retention_Plan
  imports Retention
begin

text \<open>
  The theorems of the retention plan: nothing is lost or invented, the floor and the newest
  verified backup survive, a failed run freezes deletion, each tier keeps exactly the
  representatives of its newest periods, and planning again over what was kept deletes
  nothing more. They hold for every order \<open>sort.Slice\<close> may leave the backups in.
\<close>

section \<open>Invariants of every plan\<close>

lemma plan_resultE:
  assumes "P \<in> Plan_results p inp"
  obtains bs where "P = plan_sorted p bs (inLastRunFailed inp)" and "desc_by bAt bs"
    and "mset bs = mset (inBackups inp)"
  using assms by (auto simp: Plan_results_def sort_slice_desc_def)

lemma keepAll_simps [simp]:
  "map dBackup (plKeep (keepAll bs reason)) = bs" "plDelete (keepAll bs reason) = []"
  "length (plKeep (keepAll bs reason)) = length bs"
  by (simp_all add: keepAll_def comp_def)

lemma dBackup_comp_decide [simp]: "dBackup \<circ> decide t r = id"
  by (simp add: fun_eq_iff)

lemma plan_kept_backups:
  "map dBackup (plKeep (plan_sorted p bs f)) = bs \<and> plDelete (plan_sorted p bs f) = [] \<or>
   map dBackup (plKeep (plan_sorted p bs f)) = filter (plan_kept p bs) bs \<and>
   map dBackup (plDelete (plan_sorted p bs f)) = filter (\<lambda>b. \<not> plan_kept p bs b) bs"
  by (cases rule: plan_sorted_cases [of p bs f]) auto

lemma plan_kept_count:
  "length (filter (plan_kept p bs) bs) = nat (countKept bs (plan_tiers p bs) (plan_reasons p bs))"
  by (simp add: countKept_eq plan_kept_def)

lemma plan_splits:
  assumes "P \<in> Plan_results p inp"
  shows "mset (map dBackup (plKeep P)) + mset (map dBackup (plDelete P)) = mset (inBackups inp)"
proof -
  from assms obtain bs where P: "P = plan_sorted p bs (inLastRunFailed inp)"
    and m: "mset bs = mset (inBackups inp)" by (rule plan_resultE)
  have "mset (filter (plan_kept p bs) bs) + mset (filter (\<lambda>b. \<not> plan_kept p bs b) bs) = mset bs"
    by (simp add: multiset_partition [symmetric])
  then show ?thesis
    using plan_kept_backups [of p bs "inLastRunFailed inp"] m unfolding P
    by (elim disjE conjE) (simp_all del: mset_map)
qed

text \<open>C8: Every backup handed to \<open>Policy.Plan\<close> is in exactly one of \<open>Keep\<close> and \<open>Delete\<close>,
  as often as it was given; the plan invents none and loses none.\<close>

theorem plan_partition:
  assumes "P \<in> Plan_results p inp"
  shows "mset (map dBackup (plKeep P)) + mset (map dBackup (plDelete P)) = mset (inBackups inp)"
  using assms by (rule plan_splits)

text \<open>C9: The floor. Whatever the tiers say, a plan keeps at least \<open>min_keep\<close> backups, or all of
  them when there are fewer.\<close>

theorem plan_min_keep:
  assumes "P \<in> Plan_results p inp"
  shows "min (pMinKeep p) (int (length (inBackups inp))) \<le> int (length (plKeep P))"
proof -
  from assms obtain bs where P: "P = plan_sorted p bs (inLastRunFailed inp)"
    and "mset bs = mset (inBackups inp)" by (rule plan_resultE)
  then have len: "length bs = length (inBackups inp)" by (metis size_mset)
  let ?t = "plan_tiers p bs" and ?r = "verified_reason (plan_tiers p bs) bs"
  have "min (pMinKeep p) (int (length bs)) \<le> countKept bs ?t (plan_reasons p bs)"
    using floor_loop_enough [of "countKept bs ?t ?r" "[]" bs ?t ?r "pMinKeep p"]
    by (simp add: plan_reasons_def Let_def)
  moreover have "length (plKeep P) = length bs \<or> length (plKeep P) = length (filter (plan_kept p bs) bs)"
    using plan_kept_backups [of p bs "inLastRunFailed inp"] unfolding P by (metis length_map)
  ultimately show ?thesis using len by (auto simp: plan_kept_count)
qed

text \<open>C10: The most recent verified backup outlives every tier: for each verified backup given,
  the plan keeps a verified one at least as recent.\<close>

theorem plan_keeps_newest_verified:
  assumes "P \<in> Plan_results p inp" and "b \<in> set (inBackups inp)" and "bVerified b"
  shows "\<exists>d\<in>set (plKeep P). bVerified (dBackup d) \<and> bAt b \<le> bAt (dBackup d)"
proof -
  from assms(1) obtain bs where P: "P = plan_sorted p bs (inLastRunFailed inp)"
    and desc: "desc_by bAt bs" and m: "mset bs = mset (inBackups inp)" by (rule plan_resultE)
  have b: "b \<in> set bs" using assms(2) m by (metis set_mset_mset)
  with assms(3) obtain v where v: "find bVerified bs = Some v"
    using find_None_all [of bVerified bs] by (cases "find bVerified bs") auto
  have newest: "bAt b \<le> bAt v" by (rule find_desc_max [OF desc v b assms(3)])
  have "plan_kept p bs v"
    using v verified_reason_neq [of "plan_tiers p bs" bs "bID v"] floor_loop_keeps
    by (auto simp: plan_kept_def plan_reasons_def newestVerified_find Let_def)
  with find_Some_mem [OF v] have "v \<in> set (map dBackup (plKeep P))"
    using plan_kept_backups [of p bs "inLastRunFailed inp"] unfolding P
    by (elim disjE conjE) (simp_all del: set_map)
  with newest find_Some_mem [OF v] show ?thesis by auto
qed

lemma plan_frozen:
  assumes "P \<in> Plan_results p inp" and "inLastRunFailed inp \<or> policy_empty p"
  shows "plDelete P = [] \<and> mset (map dBackup (plKeep P)) = mset (inBackups inp)"
proof -
  from assms(1) obtain bs where P: "P = plan_sorted p bs (inLastRunFailed inp)"
    and m: "mset bs = mset (inBackups inp)" by (rule plan_resultE)
  show ?thesis unfolding P
    by (cases rule: plan_sorted_cases [of p bs "inLastRunFailed inp"])
      (use assms(2) m in \<open>auto simp: filter_empty_conv filter_id_conv [THEN iffD2]\<close>)
qed

text \<open>C11: A failed last run freezes retention, and a policy with no tier configured keeps every
  backup forever, however low \<open>min_keep\<close> is: in both cases nothing is deleted.\<close>

theorem plan_frozen_or_unconfigured:
  assumes "P \<in> Plan_results p inp" and "inLastRunFailed inp \<or> policy_empty p"
  shows "plDelete P = [] \<and> mset (map dBackup (plKeep P)) = mset (inBackups inp)"
  using assms by (rule plan_frozen)

section \<open>What the tiers mean\<close>

text \<open>The day of the period a tier prefers: \<open>on: sunday\<close>, \<open>on: 1\<close>.\<close>

fun preferred :: "Policy \<Rightarrow> Tier \<Rightarrow> location \<Rightarrow> Backup \<Rightarrow> bool" where
  "preferred p TierWeekly loc b \<longleftrightarrow> time_Weekday loc (bAt b) = wOn (pWeekly p)"
| "preferred p TierMonthly loc b \<longleftrightarrow> time_Day loc (bAt b) = mOn (pMonthly p)"
| "preferred p _ loc b \<longleftrightarrow> False"

text \<open>\<open>x\<close> gives way to \<open>b\<close> as the representative of a period they share.\<close>

definition yields_to :: "Policy \<Rightarrow> Tier \<Rightarrow> location \<Rightarrow> Backup \<Rightarrow> Backup \<Rightarrow> bool" where
  "yields_to p tier loc x b \<longleftrightarrow>
     (preferred p tier loc x \<longrightarrow> preferred p tier loc b) \<and>
     (preferred p tier loc x = preferred p tier loc b \<longrightarrow> bAt x \<le> bAt b)"

text \<open>
  The specification of a tier: the period of \<open>b\<close> has fewer than \<open>keep\<close> newer periods with a
  backup, and every backup of its period yields to \<open>b\<close>.
\<close>

definition tier_keeps :: "Policy \<Rightarrow> Backup set \<Rightarrow> Tier \<Rightarrow> Backup \<Rightarrow> bool" where
  "tier_keeps p B tier b \<longleftrightarrow>
     (let loc = policy_location p; num = (\<lambda>x. period tier loc (bAt x))
      in tier \<in> set rungs \<and> int (card (num ` {x \<in> B. num b < num x})) < keepOf p tier \<and>
         (\<forall>x\<in>B. num x = num b \<longrightarrow> yields_to p tier loc x b))"

lemma representative_alt:
  "representative p tier l loc =
     (case find (preferred p tier loc) l of Some b \<Rightarrow> Some b | None \<Rightarrow> bucket0 l)"
proof -
  have none: "find (\<lambda>b. False) l = None" by (simp add: find_None_iff)
  have "preferred p tier loc = (case tier of
      TierWeekly \<Rightarrow> (\<lambda>b. time_Weekday loc (bAt b) = wOn (pWeekly p))
    | TierMonthly \<Rightarrow> (\<lambda>b. time_Day loc (bAt b) = mOn (pMonthly p)) | _ \<Rightarrow> (\<lambda>b. False))"
    by (cases tier) (simp_all add: fun_eq_iff)
  then show ?thesis by (cases tier) (simp_all add: none)
qed

lemma representative_yields:
  assumes "desc_by bAt l" and "representative p tier l loc = Some b" and "x \<in> set l"
  shows "yields_to p tier loc x b"
proof (cases "find (preferred p tier loc) l")
  case None
  then have "b = hd l" using assms(2,3)
    by (auto simp: representative_alt bucket0_def split: list.splits)
  then show ?thesis using None desc_by_hd [OF assms(1,3)] assms(3) representative_mem [OF assms(2)]
    by (auto simp: yields_to_def find_None_all)
next
  case (Some c)
  then show ?thesis using assms find_Some_mem [OF Some] find_desc_max [OF assms(1) Some assms(3)]
    by (auto simp: representative_alt yields_to_def)
qed

lemma yields_to_antisym:
  "yields_to p tier loc x y \<Longrightarrow> yields_to p tier loc y x \<Longrightarrow> bAt x = bAt y"
  by (auto simp: yields_to_def)

lemma representative_filter:
  assumes "representative p tier l loc = Some b" and "Q b"
  shows "representative p tier (filter Q l) loc = Some b"
proof (cases "find (preferred p tier loc) l")
  case None
  then have "find (preferred p tier loc) (filter Q l) = None" by (auto simp: find_None_all)
  with None assms show ?thesis
    by (cases l) (auto simp: representative_alt bucket0_def)
next
  case (Some c)
  with assms find_filter_same [OF Some, of Q] show ?thesis by (auto simp: representative_alt)
qed

lemma bucket_of_desc: "desc_by bAt bs \<Longrightarrow> desc_by bAt (bucket_of tier loc bs k)"
  by (simp add: bucket_of_def)

lemma rep_of_iff:
  assumes "desc_by bAt bs" and "inj_on bAt (set bs)" and "b \<in> set bs"
  shows "rep_of p tier bs loc (period_key tier loc b) = b \<longleftrightarrow>
    (\<forall>x\<in>set bs. period_key tier loc x = period_key tier loc b \<longrightarrow> yields_to p tier loc x b)"
    (is "?r = b \<longleftrightarrow> ?spec b")
proof -
  let ?k = "period_key tier loc b"
  have k: "?k \<in> set (first_keys (period_key tier loc) bs)" using assms(3) by (simp add: set_first_keys)
  note rep = rep_of_Some [OF k, of p] and mem = rep_of_mem [OF k, of p]
  have yr: "yields_to p tier loc x ?r" if "x \<in> set bs" "period_key tier loc x = ?k" for x
    by (rule representative_yields [OF bucket_of_desc [OF assms(1)] rep])
      (use that in \<open>simp add: bucket_of_def\<close>)
  show ?thesis
  proof
    assume "?spec b"
    then have "yields_to p tier loc ?r b" using mem by blast
    moreover have "yields_to p tier loc b ?r" using yr assms(3) by blast
    ultimately have "bAt ?r = bAt b" by (rule yields_to_antisym)
    then show "?r = b" using assms(2,3) mem(1) by (auto dest: inj_onD)
  next
    assume eq: "?r = b"
    show "?spec b" using yr unfolding eq by blast
  qed
qed

lemma plan_tiers_spec:
  assumes "desc_by bAt bs" and "inj_on bAt (set bs)" and "inj_on bID (set bs)"
    and "steady (policy_location p)" and "b \<in> set bs"
  shows "tier \<in> set (plan_tiers p bs (bID b)) \<longleftrightarrow> tier_keeps p (set bs) tier b"
proof (cases "tier \<in> set rungs")
  case False
  then show ?thesis by (simp add: plan_tiers_def classify_tiers_mem tier_keeps_def Let_def)
next
  case True
  let ?loc = "policy_location p"
  let ?key = "period_key tier ?loc" and ?num = "\<lambda>x. period tier ?loc (bAt x)"
  note po = tier_periods [OF assms(4) True]
  have kn: "?key x = ?key y \<longleftrightarrow> ?num x = ?num y" for x y
    using period_order.key_num [OF po] .
  have "bID b \<in> set (survivors p tier bs ?loc) \<longleftrightarrow>
      ?key b \<in> set (retained_keys p tier bs ?loc) \<and> rep_of p tier bs ?loc (?key b) = b"
    (is "?s \<longleftrightarrow> ?kept")
  proof
    assume ?s
    then obtain k where k: "k \<in> set (retained_keys p tier bs ?loc)"
      and ids: "bID (rep_of p tier bs ?loc k) = bID b" by (auto simp: survivors_eq)
    have kin: "k \<in> set (first_keys ?key bs)"
      using k unfolding retained_keys_def by (rule in_set_takeD)
    have rb: "rep_of p tier bs ?loc k = b"
      by (rule inj_onD [OF assms(3) ids rep_of_mem(1) [OF kin] assms(5)])
    with rep_of_mem(2) [OF kin, of p] have "?key b = k" by simp
    with k rb show ?kept by simp
  next
    assume ?kept
    then show ?s unfolding survivors_eq set_map by (metis (no_types, lifting) image_eqI)
  qed
  also have "\<dots> \<longleftrightarrow> tier_keeps p (set bs) tier b"
    unfolding retained_keys_def period_order.retained_iff [OF po assms(1,5)]
      rep_of_iff [OF assms(1,2,5)] kn zless_nat_eq_int_zless
    using True by (simp add: tier_keeps_def Let_def)
  finally show ?thesis using True by (simp add: plan_tiers_def classify_tiers_mem)
qed

text \<open>C7: A tier keeps a backup exactly when the tier's specification does: the backup's calendar
  period is among the \<open>keep\<close> most recent ones that hold a backup (gaps use no slot) and it is
  the newest backup of that period taken on the preferred day or, when that day has none, the
  newest of the period. For distinct ids and instants, in a location with a steady clock.\<close>

theorem plan_tier_exact:
  assumes "P \<in> Plan_results p inp" and "plBlocked P = []" and "\<not> policy_empty p"
    and "inj_on bAt (set (inBackups inp))" and "inj_on bID (set (inBackups inp))"
    and "steady (policy_location p)" and "d \<in> set (plKeep P @ plDelete P)"
  shows "tier \<in> set (dTiers d) \<longleftrightarrow> tier_keeps p (set (inBackups inp)) tier (dBackup d)"
proof -
  from assms(1) obtain bs where P: "P = plan_sorted p bs (inLastRunFailed inp)"
    and desc: "desc_by bAt bs" and m: "mset bs = mset (inBackups inp)" by (rule plan_resultE)
  have sets: "set (inBackups inp) = set bs" using m by (metis set_mset_mset)
  show ?thesis
  proof (cases rule: plan_sorted_cases [of p bs "inLastRunFailed inp"])
    case (all blocked reason)
    then show ?thesis using assms(2,3,7) unfolding P by (auto simp: keepAll_def)
  next
    case parted
    then obtain b where "b \<in> set bs" "d = decide (plan_tiers p bs) (plan_reasons p bs) b"
      using assms(7) unfolding P by auto
    then show ?thesis using plan_tiers_spec [OF desc _ _ assms(6), of b tier] assms(4,5)
      by (simp add: sets decide_def)
  qed
qed

section \<open>Planning again, and how much survives\<close>

lemma floor_loop_filter:
  "floor_loop m t n r (filter (\<lambda>b. t (bID b) \<noteq> [] \<or> floor_loop m t n r bs (bID b) \<noteq> []) bs)
     = floor_loop m t n r bs"
proof (induction bs arbitrary: n r)
  case (Cons b bs)
  show ?case
  proof (cases "n \<ge> m")
    case True
    then have "floor_loop m t n r cs = r" for cs by (cases cs) auto
    then show ?thesis by (simp only:)
  next
    case False
    define r' where "r' = r(bID b := floor_reason m)"
    have "floor_loop m t (n + 1) r' bs (bID b) \<noteq> []" by (rule floor_loop_keeps) (simp add: r'_def)
    then show ?thesis
      using False Cons.IH [of "n + 1" r'] Cons.IH [of n r] floor_loop_keeps [of r "bID b" m t n bs]
      by (cases "t (bID b) = [] \<and> r (bID b) = []") (auto simp: r'_def [symmetric])
  qed
qed simp

lemma survivors_kept:
  assumes "desc_by bAt bs" and "steady loc" and "tier \<in> set rungs"
    and "\<And>b. b \<in> set bs \<Longrightarrow> bID b \<in> set (survivors p tier bs loc) \<Longrightarrow> Q b"
  shows "survivors p tier (filter Q bs) loc = survivors p tier bs loc"
proof -
  let ?key = "period_key tier loc"
  have kin: "k \<in> set (first_keys ?key bs)" if "k \<in> set (retained_keys p tier bs loc)" for k
    using that unfolding retained_keys_def by (rule in_set_takeD)
  have Q: "Q (rep_of p tier bs loc k)" if "k \<in> set (retained_keys p tier bs loc)" for k
    using that assms(4) rep_of_mem(1) [OF kin [OF that]] by (auto simp: survivors_eq)
  have in_filter: "k \<in> ?key ` set (filter Q bs)" if "k \<in> set (retained_keys p tier bs loc)" for k
    using Q [OF that] rep_of_mem [OF kin [OF that], of p] by force
  then have keys: "retained_keys p tier (filter Q bs) loc = retained_keys p tier bs loc"
    unfolding retained_keys_def
    by (intro period_order.take_first_keys_filter [OF tier_periods [OF assms(2,3)] assms(1)]) blast
  have "bucket_of tier loc (filter Q bs) k = filter Q (bucket_of tier loc bs k)" for k
    by (simp add: bucket_of_def conj_commute)
  then have "rep_of p tier (filter Q bs) loc k = rep_of p tier bs loc k"
    if "k \<in> set (retained_keys p tier bs loc)" for k
    using representative_filter [OF rep_of_Some [OF kin [OF that], of p], of Q] Q [OF that] by (simp add: rep_of_def)
  then show ?thesis by (simp add: survivors_eq keys)
qed

lemma plan_kept_stable:
  assumes "desc_by bAt bs" and "steady (policy_location p)"
  shows "plan_kept p (filter (plan_kept p bs) bs) = plan_kept p bs"
proof -
  let ?bs = "filter (plan_kept p bs) bs" and ?t = "plan_tiers p bs"
  let ?r0 = "verified_reason ?t bs"
  have "survivors p tier ?bs (policy_location p) = survivors p tier bs (policy_location p)"
    if "tier \<in> set rungs" for tier
    by (rule survivors_kept [OF assms that])
      (use that in \<open>auto simp: plan_kept_def plan_tiers_def classify_tiers_Nil\<close>)
  then have t: "plan_tiers p ?bs = ?t"
    by (auto simp: plan_tiers_def classify_tiers_eq fun_eq_iff intro!: arg_cong [of _ _ concat])
  have v: "newestVerified ?bs = newestVerified bs"
  proof (cases "newestVerified bs")
    case None
    then have "\<forall>x\<in>set bs. \<not> bVerified x" by (simp add: newestVerified_find find_None_all)
    then have "newestVerified ?bs = None" by (simp add: newestVerified_find find_None_all)
    with None show ?thesis by simp
  next
    case (Some v)
    then have "plan_kept p bs v"
      using verified_reason_neq [of ?t bs "bID v"] floor_loop_keeps
      by (auto simp: plan_kept_def plan_reasons_def Let_def)
    with Some show ?thesis by (simp add: newestVerified_find find_filter_same)
  qed
  then have r0: "verified_reason ?t ?bs = ?r0" by (simp add: verified_reason_def)
  have "filter (\<lambda>b. ?t (bID b) \<noteq> [] \<or> ?r0 (bID b) \<noteq> []) ?bs
      = filter (\<lambda>b. ?t (bID b) \<noteq> [] \<or> ?r0 (bID b) \<noteq> []) bs"
    using floor_loop_keeps by (auto simp: plan_kept_def plan_reasons_def Let_def intro: filter_cong)
  then have c: "countKept ?bs ?t ?r0 = countKept bs ?t ?r0" by (simp add: countKept_eq)
  have "plan_reasons p ?bs = plan_reasons p bs"
    using floor_loop_filter [of "pMinKeep p" ?t "countKept bs ?t ?r0" ?r0 bs]
    by (simp add: plan_reasons_def [of p ?bs] Let_def t r0 c)
      (simp add: plan_kept_def plan_reasons_def Let_def)
  with t show ?thesis by (simp add: plan_kept_def)
qed

text \<open>Pruning is idempotent: planning again, with the same policy and no new backup, over
  exactly the backups a plan kept deletes nothing more. For distinct instants, in a location
  with a steady clock.\<close>

theorem plan_idempotent:
  assumes "P \<in> Plan_results p inp" and "\<not> inLastRunFailed inp"
    and "inj_on bAt (set (inBackups inp))" and "steady (policy_location p)"
    and "P' \<in> Plan_results p \<lparr>inBackups = map dBackup (plKeep P), inNow = now', inLastRunFailed = failed'\<rparr>"
  shows "plDelete P' = []"
proof -
  from assms(1) obtain bs where P: "P = plan_sorted p bs False"
    and desc: "desc_by bAt bs" and m: "mset bs = mset (inBackups inp)"
    using assms(2) by (auto elim: plan_resultE)
  have inj: "inj_on bAt (set bs)" using assms(3) m by (metis set_mset_mset)
  from assms(5) obtain cs where P': "P' = plan_sorted p cs failed'"
    and desc': "desc_by bAt cs" and m': "mset cs = mset (map dBackup (plKeep P))"
    by (auto elim: plan_resultE)
  show ?thesis
  proof (cases rule: plan_sorted_cases [of p bs False])
    case (all blocked reason)
    then have "cs = [] \<or> policy_empty p" using m' unfolding P by (auto simp: keepAll_def)
    then show ?thesis unfolding P' by (auto simp: plan_sorted_def keepAll_def)
  next
    case parted
    then have "mset cs = mset (filter (plan_kept p bs) bs)" using m' unfolding P by simp
    then have cs: "filter (plan_kept p bs) bs = cs"
      by (intro desc_by_unique [OF desc_by_filter [OF desc] desc'])
        (auto intro: inj_on_subset [OF inj])
    have "plan_kept p cs = plan_kept p bs"
      using plan_kept_stable [OF desc assms(4)] unfolding cs .
    then have "filter (\<lambda>b. \<not> plan_kept p cs b) cs = []" unfolding cs [symmetric]
      by (simp add: filter_empty_conv)
    then show ?thesis unfolding P' by (cases rule: plan_sorted_cases [of p cs failed']) auto
  qed
qed

lemma floor_loop_bound:
  assumes "inj_on bID (set (pre @ bs))" and "distinct (pre @ bs)"
    and "kept = countKept (pre @ bs) tiers reasons"
  shows "countKept (pre @ bs) tiers (floor_loop m tiers kept reasons bs) \<le> max m kept"
  using assms
proof (induction bs arbitrary: pre kept reasons)
  case (Cons b bs)
  let ?r' = "reasons(bID b := floor_reason m)"
  show ?case
  proof (cases "kept < m \<and> tiers (bID b) = [] \<and> reasons (bID b) = []")
    case True
    have other: "countKept cs tiers ?r' = countKept cs tiers reasons" if "set cs \<subseteq> set (pre @ bs)" for cs
    proof -
      have "bID c \<noteq> bID b" if "c \<in> set cs" for c
        using that Cons.prems(1,2) \<open>set cs \<subseteq> set (pre @ bs)\<close> by (auto simp: inj_on_def)
      then show ?thesis by (induction cs) (auto simp: countKept_Cons countKept_eq)
    qed
    have "kept + 1 = countKept ((pre @ [b]) @ bs) tiers ?r'"
      using True Cons.prems(3) other [of pre] other [of bs]
      by (simp add: countKept_append countKept_Cons)
    from Cons.IH [OF _ _ this] have
      "countKept ((pre @ [b]) @ bs) tiers (floor_loop m tiers (kept + 1) ?r' bs) \<le> max m (kept + 1)"
      using Cons.prems(1,2) by (simp del: fun_upd_apply)
    with True Cons.prems(3) show ?thesis by (simp del: fun_upd_apply)
  next
    case False
    then show ?thesis using Cons.IH [of "pre @ [b]" kept reasons] Cons.prems by auto
  qed
qed simp

lemma length_survivors: "int (length (survivors p tier bs loc)) \<le> max 0 (keepOf p tier)"
  by (simp add: survivors_eq retained_keys_def)

lemma length_filter_ids:
  assumes "inj_on bID (set bs)" and "distinct bs"
  shows "length (filter Q bs) = card (bID ` set (filter Q bs))"
proof -
  have "card (bID ` set (filter Q bs)) = card (set (filter Q bs))"
    by (rule card_image) (auto intro: inj_on_subset [OF assms(1)])
  then show ?thesis using distinct_card [of "filter Q bs"] assms(2) by simp
qed

lemma count_with_tiers:
  assumes "inj_on bID (set bs)" and "distinct bs"
  shows "int (length (filter (\<lambda>b. plan_tiers p bs (bID b) \<noteq> []) bs))
           \<le> (\<Sum>tier\<leftarrow>rungs. max 0 (keepOf p tier))"
proof -
  let ?S = "\<lambda>tier. survivors p tier bs (policy_location p)"
  let ?bs = "filter (\<lambda>b. plan_tiers p bs (bID b) \<noteq> []) bs"
  have "length ?bs = card (bID ` set ?bs)"
    by (rule length_filter_ids [OF assms])
  also have "bID ` set ?bs \<subseteq> set (concat (map ?S rungs))"
    by (auto simp: plan_tiers_def classify_tiers_Nil)
  then have "card (bID ` set ?bs) \<le> card (set (concat (map ?S rungs)))" by (rule card_mono [rotated]) simp
  also have "\<dots> \<le> length (concat (map ?S rungs))" by (rule card_length)
  also have "int \<dots> = (\<Sum>tier\<leftarrow>rungs. int (length (?S tier)))"
    by (simp add: length_concat comp_def rungs_def)
  also have "\<dots> \<le> (\<Sum>tier\<leftarrow>rungs. max 0 (keepOf p tier))"
    by (rule sum_list_mono) (rule length_survivors)
  finally show ?thesis by simp
qed

lemma count_verified_reason:
  assumes "inj_on bID (set bs)" and "distinct bs"
  shows "length (filter (\<lambda>b. verified_reason t bs (bID b) \<noteq> []) bs) \<le> 1"
proof -
  let ?bs = "filter (\<lambda>b. verified_reason t bs (bID b) \<noteq> []) bs"
  have "bID ` set ?bs \<subseteq> {bID (the (newestVerified bs))}" by (auto simp: verified_reason_neq)
  then have "card (bID ` set ?bs) \<le> card {bID (the (newestVerified bs))}"
    by (rule card_mono [rotated]) simp
  then show ?thesis by (simp add: length_filter_ids [OF assms])
qed

lemma length_filter_disj:
  "length (filter (\<lambda>x. A x \<or> B x) xs) \<le> length (filter A xs) + length (filter B xs)"
  by (induction xs) auto

text \<open>Retention really bounds storage: a plan that is not frozen keeps at most as many backups
  as the tiers' \<open>keep\<close> values add up to plus one for the newest verified backup, or
  \<open>min_keep\<close> when that is more.\<close>

theorem plan_keep_bound:
  assumes "P \<in> Plan_results p inp" and "plBlocked P = []" and "\<not> policy_empty p"
    and "inj_on bID (set (inBackups inp))" and "distinct (inBackups inp)"
  shows "int (length (plKeep P)) \<le> max (pMinKeep p) (1 + (\<Sum>tier\<leftarrow>rungs. max 0 (keepOf p tier)))"
proof -
  from assms(1) obtain bs where P: "P = plan_sorted p bs (inLastRunFailed inp)"
    and m: "mset bs = mset (inBackups inp)" by (rule plan_resultE)
  have inj: "inj_on bID (set bs)" and dist: "distinct bs"
    using assms(4,5) m by (metis set_mset_mset, metis mset_eq_imp_distinct_iff)
  let ?t = "plan_tiers p bs" let ?r0 = "verified_reason ?t bs"
  have "countKept bs ?t ?r0 \<le> int (length (filter (\<lambda>b. ?t (bID b) \<noteq> []) bs))
      + int (length (filter (\<lambda>b. ?r0 (bID b) \<noteq> []) bs))"
    unfolding countKept_eq of_nat_add [symmetric] of_nat_le_iff by (rule length_filter_disj)
  then have "countKept bs ?t ?r0 \<le> 1 + (\<Sum>tier\<leftarrow>rungs. max 0 (keepOf p tier))"
    using count_with_tiers [OF inj dist, of p] count_verified_reason [OF inj dist, of ?t] by linarith
  moreover have "countKept bs ?t (plan_reasons p bs) \<le> max (pMinKeep p) (countKept bs ?t ?r0)"
    using floor_loop_bound [of "[]" bs "countKept bs ?t ?r0" ?t ?r0 "pMinKeep p"] inj dist
    by (simp add: plan_reasons_def Let_def)
  moreover have "int (length (plKeep P)) = countKept bs ?t (plan_reasons p bs)"
    by (cases rule: plan_sorted_cases [of p bs "inLastRunFailed inp"])
      (use assms(2,3) in \<open>auto simp: P countKept_eq plan_kept_def plan_sorted_def\<close>)
  ultimately show ?thesis by linarith
qed

section \<open>Order of the deletions\<close>

text \<open>\<open>Plan.Keys\<close> is the concatenation of the deleted backups' keys from the newest deleted
  backup to the oldest.\<close>

theorem plan_keys_newest_first:
  assumes "P \<in> Plan_results p inp"
  shows "Plan_Keys P = concat (map bKeys (map dBackup (plDelete P)))
         \<and> desc_by bAt (map dBackup (plDelete P))"
proof -
  from assms obtain bs where P: "P = plan_sorted p bs (inLastRunFailed inp)"
    and desc: "desc_by bAt bs" by (rule plan_resultE)
  have "foldl (\<lambda>keys d. keys @ bKeys (dBackup d)) acc ds = acc @ concat (map bKeys (map dBackup ds))"
    for acc ds by (induction ds arbitrary: acc) auto
  from this [of "[]"] have "Plan_Keys P = concat (map bKeys (map dBackup (plDelete P)))"
    unfolding Plan_Keys_def by simp
  moreover have "desc_by bAt (map dBackup (plDelete P))"
    using plan_kept_backups [of p bs "inLastRunFailed inp"] desc unfolding P by auto
  ultimately show ?thesis by blast
qed

section \<open>A concrete run\<close>

text \<open>One backup a day under \<open>daily: 1\<close>, \<open>weekly: 1 on sunday\<close>, \<open>min_keep: 1\<close>: days 5 and 6
  after 0001-01-01 (a Saturday and a Sunday) and day 7.\<close>

definition week_policy :: Policy where
  "week_policy = \<lparr>pHourly = \<lparr>rKeep = 0\<rparr>, pDaily = \<lparr>rKeep = 1\<rparr>, pWeekly = \<lparr>wKeep = 1, wOn = 0\<rparr>,
     pMonthly = \<lparr>mKeep = 0, mOn = 1\<rparr>, pYearly = \<lparr>rKeep = 0\<rparr>, pMinKeep = 1, pLocation = None\<rparr>"

definition week_backup :: "string \<Rightarrow> int \<Rightarrow> bool \<Rightarrow> Backup" where
  "week_backup i day ok = \<lparr>bID = i, bAt = day * Day, bVerified = ok, bBytes = 7, bKeys = [i @ ''.zst'']\<rparr>"

definition week_input :: "bool \<Rightarrow> Input" where
  "week_input failed = \<lparr>inBackups = [week_backup ''sat'' 5 False, week_backup ''sun'' 6 True,
     week_backup ''mon'' 7 False], inNow = 8 * Day, inLastRunFailed = failed\<rparr>"

lemma week_plan_run:
  "map (bID \<circ> dBackup) (plKeep (Policy_Plan week_policy (week_input False))) = [''mon'', ''sun'']"
  "plBlocked (Policy_Plan week_policy (week_input False)) = []"
  by code_simp+

lemma week_input_facts:
  "inj_on bAt (set (inBackups (week_input f)))" "inj_on bID (set (inBackups (week_input f)))"
  "distinct (inBackups (week_input f))" "\<not> inLastRunFailed (week_input False)"
  "inLastRunFailed (week_input True)"
  by (auto simp: week_input_def week_backup_def Day_def)

lemma week_policy_facts: "\<not> policy_empty week_policy" "steady (policy_location week_policy)"
  by (simp_all add: policy_empty_def rungs_def week_policy_def policy_location_def)

theorem plan_partition_witness:
  "mset (map dBackup (plKeep (Policy_Plan week_policy (week_input False))))
     + mset (map dBackup (plDelete (Policy_Plan week_policy (week_input False))))
     = mset (inBackups (week_input False))"
  by (rule plan_partition [OF Policy_Plan_result])

theorem plan_min_keep_witness:
  "min (pMinKeep week_policy) (int (length (inBackups (week_input False))))
     \<le> int (length (plKeep (Policy_Plan week_policy (week_input False))))"
  by (rule plan_min_keep [OF Policy_Plan_result])

theorem plan_keeps_newest_verified_witness:
  "\<exists>d\<in>set (plKeep (Policy_Plan week_policy (week_input False))).
     bVerified (dBackup d) \<and> bAt (week_backup ''sun'' 6 True) \<le> bAt (dBackup d)"
  by (rule plan_keeps_newest_verified [OF Policy_Plan_result])
    (simp_all add: week_input_def week_backup_def)

theorem plan_frozen_or_unconfigured_witness:
  "plDelete (Policy_Plan week_policy (week_input True)) = []
   \<and> mset (map dBackup (plKeep (Policy_Plan week_policy (week_input True))))
       = mset (inBackups (week_input True))"
  by (rule plan_frozen_or_unconfigured [OF Policy_Plan_result]) (simp add: week_input_facts)

theorem plan_tier_exact_witness:
  "TierWeekly \<in> set (dTiers (hd (plDelete (Policy_Plan week_policy (week_input False)))))
     \<longleftrightarrow> tier_keeps week_policy (set (inBackups (week_input False))) TierWeekly
           (dBackup (hd (plDelete (Policy_Plan week_policy (week_input False)))))"
proof (rule plan_tier_exact [OF Policy_Plan_result])
  show "hd (plDelete (Policy_Plan week_policy (week_input False)))
      \<in> set (plKeep (Policy_Plan week_policy (week_input False))
               @ plDelete (Policy_Plan week_policy (week_input False)))"
    by code_simp
qed (rule week_plan_run week_input_facts week_policy_facts)+

theorem plan_idempotent_witness:
  "plDelete (Policy_Plan week_policy \<lparr>inBackups = map dBackup (plKeep (Policy_Plan week_policy (week_input False))),
      inNow = 9 * Day, inLastRunFailed = False\<rparr>) = []"
  by (rule plan_idempotent [OF Policy_Plan_result _ _ _ Policy_Plan_result])
    (rule week_input_facts week_policy_facts)+

theorem plan_keep_bound_witness:
  "int (length (plKeep (Policy_Plan week_policy (week_input False))))
     \<le> max (pMinKeep week_policy) (1 + (\<Sum>tier\<leftarrow>rungs. max 0 (keepOf week_policy tier)))"
  by (rule plan_keep_bound [OF Policy_Plan_result]) (rule week_plan_run week_input_facts week_policy_facts)+

theorem plan_keys_newest_first_witness:
  "Plan_Keys (Policy_Plan week_policy (week_input False))
     = concat (map bKeys (map dBackup (plDelete (Policy_Plan week_policy (week_input False)))))
   \<and> desc_by bAt (map dBackup (plDelete (Policy_Plan week_policy (week_input False))))"
  by (rule plan_keys_newest_first [OF Policy_Plan_result])

end
