(* ===== verification/Json.thy ===== *)
theory Json
  imports Go_Time
begin

text \<open>
  What the sources use of Go's \<open>encoding/json\<close> and \<open>unicode/utf8\<close>: the JSON value, the
  compact and the indented printers with Go's string escaping, and a parser for the JSON
  grammar. The main fact is that parsing what either printer wrote gives the value back.
\<close>

section \<open>UTF-8\<close>

abbreviation byte :: "char \<Rightarrow> nat" where
  "byte c \<equiv> of_char c"

definition cont_byte :: "char \<Rightarrow> bool" where
  "cont_byte c \<longleftrightarrow> 0x80 \<le> byte c \<and> byte c \<le> 0xBF"

text \<open>
  \<open>utf8.DecodeRune\<close>: the length of the valid encoding the string starts with, \<open>None\<close>
  where it reports \<open>RuneError\<close> of width one. The ranges of the second byte exclude
  overlong forms, surrogates and values above \<open>U+10FFFF\<close>.
\<close>

definition second_ok :: "nat \<Rightarrow> char \<Rightarrow> bool" where
  "second_ok b0 c \<longleftrightarrow>
     (if b0 = 0xE0 then 0xA0 else if b0 = 0xF0 then 0x90 else 0x80) \<le> byte c \<and>
     byte c \<le> (if b0 = 0xED then 0x9F else if b0 = 0xF4 then 0x8F else 0xBF)"

definition rune_size :: "string \<Rightarrow> nat option" where
  "rune_size s =
     (case s of [] \<Rightarrow> None
      | c0 # t \<Rightarrow> let b0 = byte c0 in
          if b0 < 0x80 then Some 1
          else case t of [] \<Rightarrow> None
          | c1 # t1 \<Rightarrow>
              if \<not> second_ok b0 c1 then None
              else if 0xC2 \<le> b0 \<and> b0 \<le> 0xDF then Some 2
              else case t1 of [] \<Rightarrow> None
              | c2 # t2 \<Rightarrow>
                  if \<not> cont_byte c2 then None
                  else if 0xE0 \<le> b0 \<and> b0 \<le> 0xEF then Some 3
                  else case t2 of [] \<Rightarrow> None
                  | c3 # _ \<Rightarrow> if cont_byte c3 \<and> 0xF0 \<le> b0 \<and> b0 \<le> 0xF4 then Some 4 else None)"

fun valid_utf8 :: "string \<Rightarrow> bool" where
  "valid_utf8 [] = True"
| "valid_utf8 (c # cs) =
     (case rune_size (c # cs) of None \<Rightarrow> False | Some n \<Rightarrow> valid_utf8 (drop (n - 1) cs))"

definition utf8_encode :: "nat \<Rightarrow> string" where
  "utf8_encode u =
     (if u < 0x80 then [char_of u]
      else if u < 0x800 then [char_of (0xC0 + u div 64), char_of (0x80 + u mod 64)]
      else if u < 0x10000 then
        [char_of (0xE0 + u div 4096), char_of (0x80 + u div 64 mod 64), char_of (0x80 + u mod 64)]
      else [char_of (0xF0 + u div 262144), char_of (0x80 + u div 4096 mod 64),
            char_of (0x80 + u div 64 mod 64), char_of (0x80 + u mod 64)])"

definition rune_error :: string where
  "rune_error = utf8_encode 0xFFFD"

lemma rune_size_pos: "rune_size s = Some n \<Longrightarrow> 1 \<le> n \<and> n \<le> length s"
  by (auto simp: rune_size_def Let_def split: list.splits if_splits)

lemma rune_size_cases:
  assumes "rune_size s = Some n"
  obtains (one) c0 u where "s = c0 # u" "n = 1" "byte c0 < 0x80"
  | (two) c0 c1 u where "s = c0 # c1 # u" "n = 2" "\<not> byte c0 < 0x80" "second_ok (byte c0) c1"
      "0xC2 \<le> byte c0" "byte c0 \<le> 0xDF"
  | (three) c0 c1 c2 u where "s = c0 # c1 # c2 # u" "n = 3" "\<not> byte c0 < 0x80"
      "second_ok (byte c0) c1" "cont_byte c2" "0xE0 \<le> byte c0" "byte c0 \<le> 0xEF"
  | (four) c0 c1 c2 c3 u where "s = c0 # c1 # c2 # c3 # u" "n = 4" "\<not> byte c0 < 0x80"
      "second_ok (byte c0) c1" "cont_byte c2" "cont_byte c3" "0xF0 \<le> byte c0" "byte c0 \<le> 0xF4"
  using assms unfolding rune_size_def Let_def
  by (auto split: list.split_asm if_split_asm)

lemma rune_size_prefix: "rune_size s = Some n \<Longrightarrow> rune_size (take n s @ t) = Some n"
  by (erule rune_size_cases) (simp_all add: rune_size_def)

lemma rune_size_ascii: "byte c < 0x80 \<Longrightarrow> rune_size (c # cs) = Some 1"
  by (simp add: rune_size_def)

lemma rune_size_ascii_iff: "rune_size (c # cs) = Some n \<Longrightarrow> byte c < 0x80 \<longleftrightarrow> n = 1"
  by (auto simp: rune_size_def Let_def split: list.splits if_splits)

section \<open>Strings\<close>

definition quote_char :: char where "quote_char = CHR 0x22"
definition backslash :: char where "backslash = CHR 0x5C"

definition hex_digit :: "nat \<Rightarrow> char" where
  "hex_digit d = (if d < 10 then char_of (d + 48) else char_of (d + 87))"

definition hex_val :: "char \<Rightarrow> nat option" where
  "hex_val c =
     (let b = byte c in
      if 48 \<le> b \<and> b \<le> 57 then Some (b - 48)
      else if 97 \<le> b \<and> b \<le> 102 then Some (b - 87)
      else if 65 \<le> b \<and> b \<le> 70 then Some (b - 55) else None)"

definition hex4 :: "string \<Rightarrow> nat option" where
  "hex4 s =
     (case s of
        a # b # c # d # _ \<Rightarrow>
          (case (hex_val a, hex_val b, hex_val c, hex_val d) of
             (Some w, Some x, Some y, Some z) \<Rightarrow> Some (4096 * w + 256 * x + 16 * y + z)
           | _ \<Rightarrow> None)
      | _ \<Rightarrow> None)"

definition u_escape :: "nat \<Rightarrow> string" where
  "u_escape u = [backslash, CHR ''u'', hex_digit (u div 4096 mod 16), hex_digit (u div 256 mod 16),
                 hex_digit (u div 16 mod 16), hex_digit (u mod 16)]"

text \<open>
  How \<open>json.Marshal\<close> writes one rune of a string: quotes, backslashes and control bytes are
  escaped, and so are \<open><\<close>, \<open>>\<close>, \<open>&\<close> and the two line separators of JavaScript.
\<close>

definition escape_byte :: "char \<Rightarrow> string" where
  "escape_byte c =
     (if c = quote_char \<or> c = backslash then [backslash, c]
      else if c = CHR 0x08 then [backslash, CHR ''b'']
      else if c = CHR 0x0C then [backslash, CHR ''f'']
      else if c = CHR 0x0A then [backslash, CHR ''n'']
      else if c = CHR 0x0D then [backslash, CHR ''r'']
      else if c = CHR 0x09 then [backslash, CHR ''t'']
      else if byte c < 0x20 \<or> c = CHR ''<'' \<or> c = CHR ''>'' \<or> c = CHR ''&'' then u_escape (byte c)
      else [c])"

definition escape_rune :: "string \<Rightarrow> string" where
  "escape_rune r =
     (case r of
        [c] \<Rightarrow> escape_byte c
      | _ \<Rightarrow> if r = utf8_encode 0x2028 then u_escape 0x2028
             else if r = utf8_encode 0x2029 then u_escape 0x2029 else r)"

fun escape_str :: "string \<Rightarrow> string" where
  "escape_str [] = []"
| "escape_str (c # cs) =
     (case rune_size (c # cs) of
        None \<Rightarrow> u_escape 0xFFFD @ escape_str cs
      | Some n \<Rightarrow> escape_rune (take n (c # cs)) @ escape_str (drop (n - 1) cs))"

definition print_str :: "string \<Rightarrow> string" where
  "print_str s = quote_char # escape_str s @ [quote_char]"

definition simple_escape :: "char \<Rightarrow> char option" where
  "simple_escape e =
     (if e = quote_char \<or> e = backslash \<or> e = CHR ''/'' then Some e
      else if e = CHR ''b'' then Some (CHR 0x08)
      else if e = CHR ''f'' then Some (CHR 0x0C)
      else if e = CHR ''n'' then Some (CHR 0x0A)
      else if e = CHR ''r'' then Some (CHR 0x0D)
      else if e = CHR ''t'' then Some (CHR 0x09) else None)"

definition prepend :: "string \<Rightarrow> (string \<times> 'a) option \<Rightarrow> (string \<times> 'a) option" where
  "prepend p r = map_option (\<lambda>(s, rest). (p @ s, rest)) r"

text \<open>A UTF-16 low surrogate escape that completes the high surrogate \<open>u\<close>.\<close>

definition low_surrogate :: "nat \<Rightarrow> string \<Rightarrow> nat option" where
  "low_surrogate u s =
     (case s of
        x # y # t \<Rightarrow>
          if x = backslash \<and> y = CHR ''u'' \<and> 0xD800 \<le> u \<and> u < 0xDC00
          then (case hex4 t of
                  Some v \<Rightarrow> if 0xDC00 \<le> v \<and> v < 0xE000
                            then Some (0x10000 + (u - 0xD800) * 1024 + (v - 0xDC00)) else None
                | None \<Rightarrow> None)
          else None
      | _ \<Rightarrow> None)"

text \<open>The rest of a string literal after its opening quote: its value and what follows it.\<close>

fun parse_str :: "string \<Rightarrow> (string \<times> string) option" where
  "parse_str [] = None"
| "parse_str (c # cs) =
     (if c = quote_char then Some ([], cs)
      else if c = backslash then
        (case cs of [] \<Rightarrow> None
         | e # es \<Rightarrow>
             if e = CHR ''u'' then
               (case hex4 es of None \<Rightarrow> None
                | Some u \<Rightarrow>
                    if 0xD800 \<le> u \<and> u < 0xE000 then
                      (case low_surrogate u (drop 4 es) of
                         Some v \<Rightarrow> prepend (utf8_encode v) (parse_str (drop 10 es))
                       | None \<Rightarrow> prepend rune_error (parse_str (drop 4 es)))
                    else prepend (utf8_encode u) (parse_str (drop 4 es)))
             else (case simple_escape e of None \<Rightarrow> None
                   | Some d \<Rightarrow> prepend [d] (parse_str es)))
      else if byte c < 0x20 then None
      else case rune_size (c # cs) of
             None \<Rightarrow> prepend rune_error (parse_str cs)
           | Some n \<Rightarrow> prepend (take n (c # cs)) (parse_str (drop (n - 1) cs)))"

lemma hex_val_digit [simp]: "d < 16 \<Longrightarrow> hex_val (hex_digit d) = Some d"
  by (auto simp: hex_val_def hex_digit_def Let_def)

lemma hex4_u_escape: "u < 0x10000 \<Longrightarrow> hex4 (drop 2 (u_escape u @ s)) = Some u"
proof -
  assume u: "u < 0x10000"
  have "4096 * (u div 4096) + 256 * (u div 256 mod 16) + 16 * (u div 16 mod 16) + u mod 16 = u"
  proof -
    have "u div 256 = 16 * (u div 4096) + u div 256 mod 16"
      using div_mult2_eq [of u 256 16] by simp
    moreover have "u div 16 = 16 * (u div 256) + u div 16 mod 16"
      using div_mult2_eq [of u 16 16] by simp
    moreover have "u = 16 * (u div 16) + u mod 16" by simp
    ultimately show ?thesis by linarith
  qed
  moreover have "u div 4096 mod 16 = u div 4096" and "u div 4096 < 16" using u by simp_all
  ultimately show ?thesis by (simp add: u_escape_def hex4_def)
qed

lemma parse_u_escape:
  assumes "u < 0x10000" and "\<not> (0xD800 \<le> u \<and> u < 0xE000)"
  shows "parse_str (u_escape u @ s) = prepend (utf8_encode u) (parse_str s)"
proof -
  have "hex4 (drop 2 (u_escape u @ s)) = Some u" by (rule hex4_u_escape [OF assms(1)])
  with assms(2) show ?thesis
    by (auto simp: u_escape_def quote_char_def backslash_def)
qed

lemma utf8_encode_byte: "byte c < 0x80 \<Longrightarrow> utf8_encode (byte c) = [c]"
  by (simp add: utf8_encode_def)

lemma parse_escape_byte:
  assumes "byte c < 0x80"
  shows "parse_str (escape_byte c @ s) = prepend [c] (parse_str s)"
proof (cases "byte c < 0x20 \<or> c = CHR ''<'' \<or> c = CHR ''>'' \<or> c = CHR ''&''")
  case True
  then have "byte c < 0x40" by auto
  then show ?thesis
    using parse_u_escape [of "byte c" s] utf8_encode_byte [OF assms] True
    by (auto simp: escape_byte_def quote_char_def backslash_def simple_escape_def)
next
  case False
  then show ?thesis using assms
    by (auto simp: escape_byte_def quote_char_def backslash_def simple_escape_def rune_size_ascii)
qed

lemma parse_escape_rune:
  assumes "rune_size (c # cs) = Some n"
  shows "parse_str (escape_rune (take n (c # cs)) @ s) = prepend (take n (c # cs)) (parse_str s)"
proof (cases "n = 1")
  case True
  then show ?thesis using rune_size_ascii_iff [OF assms] parse_escape_byte [of c s]
    by (simp add: escape_rune_def)
next
  case False
  then have hi: "\<not> byte c < 0x80" using rune_size_ascii_iff [OF assms] by simp
  obtain r where r: "take n (c # cs) = c # r" "r \<noteq> []"
    using False rune_size_pos [OF assms] by (cases n; cases cs) (auto simp: take_Cons')
  have len: "length (c # r) = n" using rune_size_pos [OF assms] r(1) by (metis length_take min_absorb2)
  have nq: "c \<noteq> quote_char" "c \<noteq> backslash" "\<not> byte c < 0x20"
    using hi by (auto simp: quote_char_def backslash_def)
  have "rune_size (c # r @ s) = Some n" using rune_size_prefix [OF assms] r by simp
  then have raw: "parse_str (c # r @ s) = prepend (c # r) (parse_str s)"
    using nq len by (simp add: take_Cons' )
  show ?thesis
    using raw r parse_u_escape [of "0x2028" s] parse_u_escape [of "0x2029" s]
    by (cases r) (auto simp: escape_rune_def)
qed

lemma parse_escape_str:
  "valid_utf8 s \<Longrightarrow> parse_str (escape_str s @ quote_char # rest) = Some (s, rest)"
proof (induction s rule: valid_utf8.induct)
  case (2 c cs)
  then obtain n where n: "rune_size (c # cs) = Some n" by (auto split: option.splits)
  have "take n (c # cs) @ drop (n - 1) cs = c # cs"
    using rune_size_pos [OF n] by (cases n) auto
  with 2 n show ?case by (simp add: parse_escape_rune prepend_def)
qed simp

section \<open>Numbers\<close>

definition num_char :: "char \<Rightarrow> bool" where
  "num_char c \<longleftrightarrow> is_digit c \<or> c \<in> {CHR ''-'', CHR ''+'', CHR ''.'', CHR ''e'', CHR ''E''}"

text \<open>The grammar of a JSON number: sign, integer part without leading zeros, fraction, exponent.\<close>

definition num_exp_ok :: "string \<Rightarrow> bool" where
  "num_exp_ok s =
     (case s of [] \<Rightarrow> True
      | c # t \<Rightarrow> (c = CHR ''e'' \<or> c = CHR ''E'') \<and>
          (let ds = (case t of d # u \<Rightarrow> if d = CHR ''+'' \<or> d = CHR ''-'' then u else t | [] \<Rightarrow> [])
           in ds \<noteq> [] \<and> list_all is_digit ds))"

definition num_frac_ok :: "string \<Rightarrow> bool" where
  "num_frac_ok s =
     (case s of [] \<Rightarrow> True
      | c # t \<Rightarrow> if c = CHR ''.'' then takeWhile is_digit t \<noteq> [] \<and> num_exp_ok (dropWhile is_digit t)
                 else num_exp_ok s)"

definition is_num_lit :: "string \<Rightarrow> bool" where
  "is_num_lit s =
     (let t = (case s of c # u \<Rightarrow> if c = CHR ''-'' then u else s | [] \<Rightarrow> []);
          ds = takeWhile is_digit t
      in ds \<noteq> [] \<and> (hd ds = CHR ''0'' \<longrightarrow> length ds = 1) \<and> num_frac_ok (dropWhile is_digit t))"

lemma itoa_nat_lead: "hd (itoa_nat n) = CHR ''0'' \<Longrightarrow> n = 0"
proof (induction n rule: itoa_nat.induct)
  case (1 n)
  show ?case
  proof (cases "n < 10")
    case True
    then have "itoa_nat n = [digit_char n]" by (subst itoa_nat.simps) simp
    with 1(2) have "byte (digit_char n) = byte (CHR ''0'')" by simp
    with True show ?thesis by simp
  next
    case False
    then have "itoa_nat n = itoa_nat (n div 10) @ [digit_char (n mod 10)]"
      by (subst itoa_nat.simps) simp
    with 1(2) have "hd (itoa_nat (n div 10)) = CHR ''0''" by simp
    with 1(1) False have "n div 10 = 0" by blast
    with False show ?thesis by simp
  qed
qed

lemma takeWhile_all: "list_all P xs \<Longrightarrow> takeWhile P xs = xs \<and> dropWhile P xs = []"
  by (induction xs) auto

lemma is_num_lit_itoa: "is_num_lit (itoa_nat n)" "is_num_lit (CHR ''-'' # itoa_nat n)"
proof -
  obtain c cs where c: "itoa_nat n = c # cs" "is_digit c" using itoa_nat_hd_digit by blast
  then have t: "(case itoa_nat n of c # u \<Rightarrow> if c = CHR ''-'' then u else itoa_nat n | [] \<Rightarrow> []) = itoa_nat n"
    by auto
  have "length (itoa_nat 0) = 1" by (subst itoa_nat.simps) simp
  then have "hd (itoa_nat n) = CHR ''0'' \<longrightarrow> length (itoa_nat n) = 1"
    using itoa_nat_lead [of n] by auto
  moreover have tw: "takeWhile is_digit (itoa_nat n) = itoa_nat n" and dw: "dropWhile is_digit (itoa_nat n) = []"
    using takeWhile_all [OF itoa_nat_digits [of n]] by blast+
  ultimately show "is_num_lit (itoa_nat n)" "is_num_lit (CHR ''-'' # itoa_nat n)"
    unfolding is_num_lit_def Let_def t list.case if_P [OF refl] tw dw by (simp_all add: num_frac_ok_def)
qed

lemma is_num_lit_Itoa [simp]: "is_num_lit (Itoa n)"
  by (simp add: Itoa_def is_num_lit_itoa)

lemma num_chars_rest: "num_exp_ok s \<Longrightarrow> list_all num_char s"
  by (auto simp: num_exp_ok_def num_char_def list_all_iff Let_def split: list.splits if_splits)

lemma num_chars_frac: "num_frac_ok s \<Longrightarrow> list_all num_char s"
proof -
  assume ok: "num_frac_ok s"
  have split_digits: "list_all num_char t" if "num_exp_ok (dropWhile is_digit t)" for t
  proof -
    have "list_all num_char (takeWhile is_digit t)"
      by (auto simp: list_all_iff num_char_def dest: set_takeWhileD)
    with num_chars_rest [OF that] show ?thesis by (metis list_all_append takeWhile_dropWhile_id)
  qed
  show ?thesis
  proof (cases s)
    case (Cons c t)
    show ?thesis
    proof (cases "c = CHR ''.''")
      case True
      with ok Cons split_digits [of t] show ?thesis by (simp add: num_frac_ok_def num_char_def)
    next
      case False
      with ok Cons show ?thesis by (intro num_chars_rest) (simp add: num_frac_ok_def)
    qed
  qed simp
qed

lemma num_lit_chars: "is_num_lit s \<Longrightarrow> list_all num_char s"
proof -
  assume lit: "is_num_lit s"
  have *: "list_all num_char t" if "num_frac_ok (dropWhile is_digit t)" for t
  proof -
    have "list_all num_char (takeWhile is_digit t)"
      by (auto simp: list_all_iff num_char_def dest: set_takeWhileD)
    with num_chars_frac [OF that] show ?thesis by (metis list_all_append takeWhile_dropWhile_id)
  qed
  show ?thesis
  proof (cases s)
    case (Cons c t)
    show ?thesis
    proof (cases "c = CHR ''-''")
      case True
      with lit Cons * [of t] show ?thesis by (simp add: is_num_lit_def Let_def num_char_def)
    next
      case False
      with lit Cons have "num_frac_ok (dropWhile is_digit s)" by (simp add: is_num_lit_def Let_def)
      then show ?thesis by (rule *)
    qed
  qed simp
qed

lemma num_lit_hd: "is_num_lit s \<Longrightarrow> \<exists>c cs. s = c # cs \<and> (is_digit c \<or> c = CHR ''-'')"
  by (cases s) (auto simp: is_num_lit_def Let_def split: if_splits)

section \<open>Values\<close>

text \<open>A number is kept as its literal, which is what decoding into a typed field reads.\<close>

datatype json =
    JNull
  | JBool bool
  | JNum string
  | JStr string
  | JArr "json list"
  | JObj "(string \<times> json) list"

text \<open>\<open>json.Marshal\<close> is \<open>ind = None\<close>; \<open>json.MarshalIndent(v, \"\", \"  \")\<close> starts at \<open>Some 0\<close>.\<close>

definition nl :: "nat option \<Rightarrow> string" where
  "nl ind = (case ind of None \<Rightarrow> [] | Some d \<Rightarrow> CHR 0x0A # replicate (2 * d) CHR 0x20)"

definition colon :: "nat option \<Rightarrow> string" where
  "colon ind = (case ind of None \<Rightarrow> '':'' | Some _ \<Rightarrow> '': '')"

fun print_json :: "nat option \<Rightarrow> json \<Rightarrow> string"
  and print_elems :: "nat option \<Rightarrow> json list \<Rightarrow> string"
  and print_fields :: "nat option \<Rightarrow> (string \<times> json) list \<Rightarrow> string" where
  "print_json ind JNull = ''null''"
| "print_json ind (JBool b) = (if b then ''true'' else ''false'')"
| "print_json ind (JNum l) = l"
| "print_json ind (JStr s) = print_str s"
| "print_json ind (JArr xs) =
     (if xs = [] then ''[]''
      else ''['' @ nl (map_option Suc ind) @ print_elems (map_option Suc ind) xs @ nl ind @ '']'')"
| "print_json ind (JObj fs) =
     (if fs = [] then ''{}''
      else ''{'' @ nl (map_option Suc ind) @ print_fields (map_option Suc ind) fs @ nl ind @ ''}'')"
| "print_elems ind [] = []"
| "print_elems ind (x # xs) =
     print_json ind x @ (if xs = [] then [] else '','' @ nl ind @ print_elems ind xs)"
| "print_fields ind [] = []"
| "print_fields ind (kv # fs) =
     print_str (fst kv) @ colon ind @ print_json ind (snd kv)
       @ (if fs = [] then [] else '','' @ nl ind @ print_fields ind fs)"

fun wf_json :: "json \<Rightarrow> bool" where
  "wf_json (JNum l) = is_num_lit l"
| "wf_json (JStr s) = valid_utf8 s"
| "wf_json (JArr xs) = (\<forall>x\<in>set xs. wf_json x)"
| "wf_json (JObj fs) = (\<forall>kv\<in>set fs. valid_utf8 (fst kv) \<and> wf_json (snd kv))"
| "wf_json _ = True"

section \<open>Parsing\<close>

definition json_ws :: "char \<Rightarrow> bool" where
  "json_ws c \<longleftrightarrow> c = CHR 0x20 \<or> c = CHR 0x09 \<or> c = CHR 0x0A \<or> c = CHR 0x0D"

definition skip_ws :: "string \<Rightarrow> string" where
  "skip_ws s = dropWhile json_ws s"

text \<open>
  The fuel bounds the nesting; the length of the text is always enough, because every
  level and every element has a byte of its own.
\<close>

fun parse_val :: "nat \<Rightarrow> string \<Rightarrow> (json \<times> string) option"
  and parse_elems :: "nat \<Rightarrow> string \<Rightarrow> (json list \<times> string) option"
  and parse_fields :: "nat \<Rightarrow> string \<Rightarrow> ((string \<times> json) list \<times> string) option" where
  "parse_val 0 s = None"
| "parse_val (Suc n) s =
     (case skip_ws s of
        [] \<Rightarrow> None
      | c # cs \<Rightarrow>
          if c = quote_char then map_option (apfst JStr) (parse_str cs)
          else if c = CHR ''['' then
            (case skip_ws cs of
               [] \<Rightarrow> None
             | d # ds \<Rightarrow> if d = CHR '']'' then Some (JArr [], ds)
                         else map_option (apfst JArr) (parse_elems n (d # ds)))
          else if c = CHR ''{'' then
            (case skip_ws cs of
               [] \<Rightarrow> None
             | d # ds \<Rightarrow> if d = CHR ''}'' then Some (JObj [], ds)
                         else map_option (apfst JObj) (parse_fields n (d # ds)))
          else if HasPrefix (c # cs) ''null'' then Some (JNull, drop 4 (c # cs))
          else if HasPrefix (c # cs) ''true'' then Some (JBool True, drop 4 (c # cs))
          else if HasPrefix (c # cs) ''false'' then Some (JBool False, drop 5 (c # cs))
          else (let l = takeWhile num_char (c # cs) in
                if is_num_lit l then Some (JNum l, dropWhile num_char (c # cs)) else None))"
| "parse_elems 0 s = None"
| "parse_elems (Suc n) s =
     (case parse_val n s of
        None \<Rightarrow> None
      | Some (v, r) \<Rightarrow>
          (case skip_ws r of
             [] \<Rightarrow> None
           | c # cs \<Rightarrow>
               if c = CHR '','' then map_option (apfst ((#) v)) (parse_elems n cs)
               else if c = CHR '']'' then Some ([v], cs) else None))"
| "parse_fields 0 s = None"
| "parse_fields (Suc n) s =
     (case skip_ws s of
        [] \<Rightarrow> None
      | q # qs \<Rightarrow>
          if q \<noteq> quote_char then None
          else case parse_str qs of
             None \<Rightarrow> None
           | Some (k, r) \<Rightarrow>
               (case skip_ws r of
                  [] \<Rightarrow> None
                | e # es \<Rightarrow>
                    if e \<noteq> CHR '':'' then None
                    else case parse_val n es of
                       None \<Rightarrow> None
                     | Some (v, r2) \<Rightarrow>
                         (case skip_ws r2 of
                            [] \<Rightarrow> None
                          | c # cs \<Rightarrow>
                              if c = CHR '','' then map_option (apfst ((#) (k, v))) (parse_fields n cs)
                              else if c = CHR ''}'' then Some ([(k, v)], cs) else None)))"

definition json_parse :: "string \<Rightarrow> json option" where
  "json_parse s =
     (case parse_val (Suc (length s)) s of
        Some (v, r) \<Rightarrow> if skip_ws r = [] then Some v else None
      | None \<Rightarrow> None)"

section \<open>Parsing what was printed\<close>

lemma skip_ws_append: "list_all json_ws w \<Longrightarrow> skip_ws (w @ s) = skip_ws s"
  by (induction w) (auto simp: skip_ws_def)

lemma skip_ws_id: "\<not> json_ws c \<Longrightarrow> skip_ws (c # s) = c # s"
  by (simp add: skip_ws_def)

lemma nl_ws [simp]: "list_all json_ws (nl ind)"
  by (auto simp: nl_def json_ws_def list_all_iff split: option.splits)

lemma skip_nl [simp]: "skip_ws (nl ind @ s) = skip_ws s"
  by (simp add: skip_ws_append)

lemma parse_val_nl [simp]: "parse_val n (nl ind @ s) = parse_val n s"
  by (cases n) simp_all

lemma parse_val_space [simp]: "parse_val n (CHR 0x20 # s) = parse_val n s"
  by (cases n) (simp_all add: skip_ws_def json_ws_def)

lemma parse_elems_nl [simp]: "parse_elems n (nl ind @ s) = parse_elems n s"
  by (cases n) simp_all

lemma parse_fields_nl [simp]: "parse_fields n (nl ind @ s) = parse_fields n s"
  by (cases n) simp_all

lemma token_ws [simp]:
  "\<not> json_ws quote_char" "\<not> json_ws CHR ''[''" "\<not> json_ws CHR '']''" "\<not> json_ws CHR ''{''"
  "\<not> json_ws CHR ''}''" "\<not> json_ws CHR '':''" "\<not> json_ws CHR '',''" "\<not> json_ws CHR ''n''"
  "\<not> json_ws CHR ''t''" "\<not> json_ws CHR ''f''"
  by (simp_all add: json_ws_def quote_char_def)

lemma token_num [simp]:
  "\<not> num_char CHR '',''" "\<not> num_char CHR '']''" "\<not> num_char CHR ''}''" "\<not> num_char CHR 0x0A"
  by (simp_all add: num_char_def is_digit_def)

text \<open>What follows a value must not extend a number.\<close>

definition ends_num :: "string \<Rightarrow> bool" where
  "ends_num r \<longleftrightarrow> (case r of [] \<Rightarrow> True | c # _ \<Rightarrow> \<not> num_char c)"

lemma ends_num_nl: "ends_num r \<Longrightarrow> ends_num (nl ind @ r)"
  by (auto simp: ends_num_def nl_def split: option.splits)

lemma parse_num:
  assumes "is_num_lit l" and "ends_num r"
  shows "parse_val (Suc n) (l @ r) = Some (JNum l, r)"
proof -
  obtain c cs where l: "l = c # cs" "is_digit c \<or> c = CHR ''-''" using num_lit_hd [OF assms(1)] by blast
  then have c: "\<not> json_ws c" "c \<noteq> quote_char" "c \<notin> {CHR ''['', CHR ''{'', CHR ''n'', CHR ''t'', CHR ''f''}"
    by (auto simp: json_ws_def is_digit_def quote_char_def)
  have "takeWhile num_char (l @ r) = l" and "dropWhile num_char (l @ r) = r"
    using num_lit_chars [OF assms(1)] assms(2)
    by (auto simp: takeWhile_append dropWhile_append list_all_iff ends_num_def split: list.splits)
  with c l assms(1) show ?thesis by (simp add: skip_ws_id HasPrefix_def)
qed

lemma parse_print_str:
  "valid_utf8 s \<Longrightarrow> parse_val (Suc n) (print_str s @ r) = Some (JStr s, r)"
  by (simp add: print_str_def skip_ws_id parse_escape_str)

lemma print_json_start:
  assumes "wf_json j"
  shows "\<exists>c cs. print_json ind j = c # cs \<and> \<not> json_ws c \<and> c \<noteq> CHR '']'' \<and> c \<noteq> CHR ''}''"
proof (cases j)
  case (JNum l)
  with assms obtain c cs where "l = c # cs" and "is_digit c \<or> c = CHR ''-''"
    using num_lit_hd [of l] by auto
  moreover from this(2) have "\<not> json_ws c" "c \<noteq> CHR '']''" "c \<noteq> CHR ''}''"
    by (auto simp: json_ws_def is_digit_def)
  ultimately show ?thesis using JNum by simp
qed (auto simp: print_str_def quote_char_def json_ws_def)

text \<open>\<open>n\<close> bytes of fuel are enough for a text of at most \<open>n\<close> bytes.\<close>

lemma parse_print_all:
  "wf_json j \<Longrightarrow> ends_num r \<Longrightarrow> length (print_json ind j) \<le> n
     \<Longrightarrow> parse_val n (print_json ind j @ r) = Some (j, r)"
  "xs \<noteq> [] \<Longrightarrow> \<forall>x\<in>set xs. wf_json x \<Longrightarrow> length (print_elems ind xs) < n
     \<Longrightarrow> parse_elems n (print_elems ind xs @ nl ind' @ CHR '']'' # r) = Some (xs, r)"
  "fs \<noteq> [] \<Longrightarrow> \<forall>kv\<in>set fs. valid_utf8 (fst kv) \<and> wf_json (snd kv) \<Longrightarrow> length (print_fields ind fs) < n
     \<Longrightarrow> parse_fields n (print_fields ind fs @ nl ind' @ CHR ''}'' # r) = Some (fs, r)"
proof (induction ind j and ind xs and ind fs arbitrary: n r and n r ind' and n r ind'
    rule: print_json_print_elems_print_fields.induct)
  case (5 ind xs)
  obtain m where n: "n = Suc m" using 5(4) by (cases n) (auto split: if_splits)
  show ?case
  proof (cases "xs = []")
    case False
    then obtain x ys where xs: "xs = x # ys" by (cases xs) auto
    with 5(2) obtain c cs where "print_json (map_option Suc ind) x = c # cs"
      and c: "\<not> json_ws c" "c \<noteq> CHR '']''"
      using print_json_start [of x "map_option Suc ind"] by auto
    then obtain t where t: "print_elems (map_option Suc ind) xs = c # t" by (simp add: xs)
    have "parse_elems m (print_elems (map_option Suc ind) xs @ nl ind @ CHR '']'' # r) = Some (xs, r)"
      using 5 False n by (intro 5(1)) auto
    then show ?thesis using n False c t by (simp add: skip_ws_id quote_char_def)
  qed (simp add: n skip_ws_id quote_char_def)
next
  case (6 ind fs)
  obtain m where n: "n = Suc m" using 6(4) by (cases n) (auto split: if_splits)
  show ?case
  proof (cases "fs = []")
    case False
    then obtain t where t: "print_fields (map_option Suc ind) fs = quote_char # t"
      by (cases fs) (auto simp: print_str_def)
    have "parse_fields m (print_fields (map_option Suc ind) fs @ nl ind @ CHR ''}'' # r) = Some (fs, r)"
      using 6 False n by (intro 6(1)) auto
    then show ?thesis using n False t by (simp add: skip_ws_id quote_char_def json_ws_def)
  qed (simp add: n skip_ws_id quote_char_def)
next
  case (8 ind x xs)
  obtain m where n: "n = Suc m" using 8(5) by (cases n) auto
  show ?case
  proof (cases "xs = []")
    case True
    have "parse_val m (print_json ind x @ nl ind' @ CHR '']'' # r) = Some (x, nl ind' @ CHR '']'' # r)"
      using 8 n True by (intro 8(1) ends_num_nl) (auto simp: ends_num_def)
    then show ?thesis using True n by (simp add: skip_ws_id)
  next
    case False
    have "parse_val m (print_json ind x @ CHR '','' # nl ind @ print_elems ind xs @ nl ind' @ CHR '']'' # r)
        = Some (x, CHR '','' # nl ind @ print_elems ind xs @ nl ind' @ CHR '']'' # r)"
      using 8 n False by (intro 8(1)) (auto simp: ends_num_def)
    moreover have "parse_elems m (print_elems ind xs @ nl ind' @ CHR '']'' # r) = Some (xs, r)"
      using 8 n False by (intro 8(2)) auto
    ultimately show ?thesis using False n by (simp add: skip_ws_id)
  qed
next
  case (10 ind kv fs)
  obtain m where n: "n = Suc m" using 10(5) by (cases n) auto
  have str: "parse_str (escape_str (fst kv) @ quote_char # s) = Some (fst kv, s)" for s
    using 10(4) by (simp add: parse_escape_str)
  show ?case
  proof (cases "fs = []")
    case True
    have "parse_val m (print_json ind (snd kv) @ nl ind' @ CHR ''}'' # r)
        = Some (snd kv, nl ind' @ CHR ''}'' # r)"
      using 10 n True by (intro 10(1) ends_num_nl) (auto simp: ends_num_def)
    then show ?thesis using True n str
      by (cases ind) (simp_all add: skip_ws_id print_str_def colon_def)
  next
    case False
    have "parse_val m (print_json ind (snd kv) @ CHR '','' # nl ind @ print_fields ind fs @ nl ind' @ CHR ''}'' # r)
        = Some (snd kv, CHR '','' # nl ind @ print_fields ind fs @ nl ind' @ CHR ''}'' # r)"
      using 10 n False by (intro 10(1)) (auto simp: ends_num_def)
    moreover have "parse_fields m (print_fields ind fs @ nl ind' @ CHR ''}'' # r) = Some (fs, r)"
      using 10 n False by (intro 10(2)) auto
    ultimately show ?thesis using False n str
      by (cases ind) (simp_all add: skip_ws_id print_str_def colon_def)
  qed
next
  case (1 ind)
  then show ?case by (cases n) (simp_all add: skip_ws_id HasPrefix_def quote_char_def)
next
  case (2 ind b)
  then show ?case by (cases n) (auto simp: skip_ws_id HasPrefix_def quote_char_def split: if_splits)
next
  case (3 ind l)
  then show ?case using num_lit_hd [of l] parse_num [of l r] by (cases n) auto
next
  case (4 ind s)
  then show ?case using parse_print_str [of s _ r] by (cases n) (auto simp: print_str_def)
qed simp_all

theorem json_parse_print:
  assumes "wf_json j" and "list_all json_ws w"
  shows "json_parse (print_json ind j @ w) = Some j"
proof -
  have "ends_num w" using assms(2)
    by (cases w) (auto simp: ends_num_def json_ws_def num_char_def is_digit_def)
  then have "parse_val (Suc (length (print_json ind j @ w))) (print_json ind j @ w) = Some (j, w)"
    using assms(1) by (intro parse_print_all(1)) auto
  moreover have "skip_ws w = []" using skip_ws_append [OF assms(2), of "[]"] by (simp add: skip_ws_def)
  ultimately show ?thesis by (simp add: json_parse_def)
qed

end
