(* ===== verification/Codec.thy ===== *)
theory Codec
  imports Json
begin

text \<open>
  How \<open>encoding/json\<close> moves the typed fields of a Go struct to and from JSON values:
  strings, 64-bit integers, booleans, pointers, slices and \<open>time.Time\<close> (RFC 3339 with
  nanoseconds), with the field matching and the \<open>omitempty\<close> rule the struct tags ask for.
\<close>

section \<open>RFC 3339 timestamps\<close>

text \<open>The year range \<open>time.MarshalJSON\<close> accepts.\<close>

definition json_time_ok :: "time \<Rightarrow> bool" where
  "json_time_ok t \<longleftrightarrow> 0 \<le> day_year (day_number UTC t) \<and> day_year (day_number UTC t) \<le> 9999"

definition fmt_frac :: "time \<Rightarrow> string" where
  "fmt_frac t =
     (let d = TrimRight (\<lambda>c. c = CHR ''0'') (append_int 9 (t mod Second))
      in if t mod Second = 0 then [] else CHR ''.'' # d)"

definition fmt_RFC3339Nano :: "time \<Rightarrow> string" where
  "fmt_RFC3339Nano t = fmt_date (day_number UTC t) @ ''T'' @ fmt_clock UTC t @ fmt_frac t @ ''Z''"

definition num_field :: "nat \<Rightarrow> string \<Rightarrow> (int \<times> string) option" where
  "num_field k s =
     (if length (take k s) = k \<and> list_all is_digit (take k s)
      then Some (int (dec_nat (take k s)), drop k s) else None)"

definition expect :: "char \<Rightarrow> string \<Rightarrow> string option" where
  "expect c s = (case s of d # t \<Rightarrow> if d = c then Some t else None | [] \<Rightarrow> None)"

definition month_start :: "bool \<Rightarrow> int \<Rightarrow> int" where
  "month_start leap m = sum_list (take (nat (m - 1)) (month_lengths leap))"

definition civil_day :: "int \<Rightarrow> int \<Rightarrow> int \<Rightarrow> int" where
  "civil_day y m d = days_before_year y + month_start (isLeap y) m + d - 1"

text \<open>The date and the clock of \<open>parseRFC3339\<close>, with their range checks.\<close>

definition parse_date :: "string \<Rightarrow> (int \<times> string) option" where
  "parse_date s =
     Option.bind (num_field 4 s) (\<lambda>(y, s1). Option.bind (expect CHR ''-'' s1) (\<lambda>s2.
     Option.bind (num_field 2 s2) (\<lambda>(m, s3). Option.bind (expect CHR ''-'' s3) (\<lambda>s4.
     Option.bind (num_field 2 s4) (\<lambda>(d, s5).
       if 1 \<le> m \<and> m \<le> 12 \<and> 1 \<le> d \<and> d \<le> month_lengths (isLeap y) ! nat (m - 1)
       then Some (civil_day y m d, s5) else None)))))"

definition parse_clock :: "string \<Rightarrow> (int \<times> string) option" where
  "parse_clock s =
     Option.bind (num_field 2 s) (\<lambda>(h, s1). Option.bind (expect CHR '':'' s1) (\<lambda>s2.
     Option.bind (num_field 2 s2) (\<lambda>(mi, s3). Option.bind (expect CHR '':'' s3) (\<lambda>s4.
     Option.bind (num_field 2 s4) (\<lambda>(sec, s5).
       if h < 24 \<and> mi < 60 \<and> sec < 60 then Some (3600 * h + 60 * mi + sec, s5) else None)))))"

text \<open>The fraction: digits beyond the ninth are dropped.\<close>

definition frac_ns :: "string \<Rightarrow> int" where
  "frac_ns ds = int (dec_nat (take 9 (ds @ replicate 9 CHR ''0'')))"

definition parse_frac :: "string \<Rightarrow> int \<times> string" where
  "parse_frac s =
     (case s of
        c # t \<Rightarrow> if c = CHR ''.'' \<and> takeWhile is_digit t \<noteq> []
                 then (frac_ns (takeWhile is_digit t), dropWhile is_digit t) else (0, s)
      | [] \<Rightarrow> (0, s))"

definition parse_zone :: "string \<Rightarrow> int option" where
  "parse_zone s =
     (if s = ''Z'' then Some 0
      else case s of
        c # t \<Rightarrow>
          if c = CHR ''+'' \<or> c = CHR ''-'' then
            Option.bind (num_field 2 t) (\<lambda>(h, t1). Option.bind (expect CHR '':'' t1) (\<lambda>t2.
            Option.bind (num_field 2 t2) (\<lambda>(m, t3).
              if t3 = [] \<and> h \<le> 24 \<and> m \<le> 60
              then Some ((if c = CHR ''-'' then -1 else 1) * (3600 * h + 60 * m)) else None)))
          else None
      | [] \<Rightarrow> None)"

definition parse_RFC3339 :: "string \<Rightarrow> time option" where
  "parse_RFC3339 s =
     Option.bind (parse_date s) (\<lambda>(day, s1). Option.bind (expect CHR ''T'' s1) (\<lambda>s2.
     Option.bind (parse_clock s2) (\<lambda>(sec, s3).
       case parse_frac s3 of (ns, s4) \<Rightarrow>
         Option.bind (parse_zone s4) (\<lambda>off. Some (day * Day + (sec - off) * Second + ns)))))"

subsection \<open>Reading back a printed timestamp\<close>

lemma length_itoa_le: "1 \<le> k \<Longrightarrow> n < 10 ^ k \<Longrightarrow> length (itoa_nat n) \<le> k"
proof (induction k arbitrary: n rule: dec_induct)
  case base
  then show ?case by (subst itoa_nat.simps) simp
next
  case (step k)
  show ?case
  proof (cases "n < 10")
    case True
    then show ?thesis by (subst itoa_nat.simps) simp
  next
    case False
    have "length (itoa_nat (n div 10)) \<le> k" using step(2) step.IH [of "n div 10"] step.prems by simp
    with False show ?thesis by (subst itoa_nat.simps) simp
  qed
qed

lemma length_append_int: "1 \<le> k \<Longrightarrow> 0 \<le> n \<Longrightarrow> n < 10 ^ k \<Longrightarrow> length (append_int k n) = k"
  using length_itoa_le [of k "nat n"] by (simp add: append_int_def pad0_def nat_less_iff)

lemma digits_append_int: "0 \<le> n \<Longrightarrow> list_all is_digit (append_int k n)"
  by (simp add: append_int_def digits_pad0)

lemma num_field_append_int:
  assumes "1 \<le> k" and "0 \<le> n" and "n < 10 ^ k"
  shows "num_field k (append_int k n @ s) = Some (n, s)"
  using length_append_int [OF assms] digits_append_int [OF assms(2), of k] assms(2)
  by (simp add: num_field_def append_int_def)

lemma month_day_start:
  assumes "0 \<le> d"
  shows "sum_list (take (nat (fst (month_day ls m d) - m)) ls) + snd (month_day ls m d) - 1 = d"
  using assms
proof (induction ls m d rule: month_day.induct)
  case (2 l ls m d)
  show ?case
  proof (cases "d < l")
    case False
    let ?m' = "fst (month_day ls (m + 1) (d - l))"
    have "m + 1 \<le> ?m'" by (rule month_day_lower)
    then have "nat (?m' - m) = Suc (nat (?m' - (m + 1)))" by simp
    with 2 False show ?thesis by simp
  qed simp
qed simp

lemma civil_day_inverse: "civil_day (day_year d) (day_month d) (day_mday d) = d"
proof -
  have "month_start (isLeap (day_year d)) (day_month d) + day_mday d - 1 = day_yday d"
    unfolding month_start_def day_month_def day_mday_def by (rule month_day_start [OF yday_nonneg])
  then show ?thesis using year_yday_day [of d] by (simp add: civil_day_def)
qed

lemma month_day_within:
  assumes "0 \<le> d" and "d < sum_list ls"
  shows "snd (month_day ls m d) \<le> ls ! nat (fst (month_day ls m d) - m)"
  using assms
proof (induction ls m d rule: month_day.induct)
  case (2 l ls m d)
  show ?case
  proof (cases "d < l")
    case False
    let ?m' = "fst (month_day ls (m + 1) (d - l))"
    have "m + 1 \<le> ?m'" by (rule month_day_lower)
    then have "nat (?m' - m) = Suc (nat (?m' - (m + 1)))" by simp
    with 2 False show ?thesis by simp
  qed simp
qed simp

lemma day_mday_within: "day_mday d \<le> month_lengths (isLeap (day_year d)) ! nat (day_month d - 1)"
  unfolding day_mday_def day_month_def
  by (rule month_day_within [OF yday_nonneg])
    (use yday_bound [of d] in \<open>auto simp: month_lengths_def split: if_splits\<close>)

lemma parse_date_fmt:
  assumes "0 \<le> day_year d" and "day_year d \<le> 9999"
  shows "parse_date (fmt_date d @ s) = Some (d, s)"
proof -
  have "num_field 4 (append_int 4 (day_year d) @ t) = Some (day_year d, t)"
    and "num_field 2 (append_int 2 (day_month d) @ t) = Some (day_month d, t)"
    and "num_field 2 (append_int 2 (day_mday d) @ t) = Some (day_mday d, t)" for t
    using assms day_month_mday_range [of d] by (auto intro: num_field_append_int)
  then show ?thesis
    using day_month_mday_range [of d] day_mday_within [of d]
    by (simp add: parse_date_def fmt_date_def fmt_month_def fmt_2006_def fmt_01_def fmt_02_def
        expect_def civil_day_inverse)
qed

lemma clock_bounds:
  "0 \<le> time_Hour loc t" "time_Hour loc t < 24" "0 \<le> time_Minute loc t" "time_Minute loc t < 60"
  "0 \<le> time_Second loc t" "time_Second loc t < 60"
  by (simp_all add: time_Hour_def time_Minute_def time_Second_def)

lemma parse_clock_fmt:
  "parse_clock (fmt_clock loc t @ s)
     = Some (3600 * time_Hour loc t + 60 * time_Minute loc t + time_Second loc t, s)"
proof -
  have nf: "num_field 2 (append_int 2 x @ u) = Some (x, u)" if "0 \<le> x" "x < 60" for x u
    using that by (auto intro: num_field_append_int)
  have "time_Hour loc t < 60" using clock_bounds(2) [of loc t] by simp
  then show ?thesis
    using clock_bounds [of loc t] by (simp add: parse_clock_def fmt_clock_def expect_def nf)
qed

lemma second_split:
  "t = day_number UTC t * Day
     + (3600 * time_Hour UTC t + 60 * time_Minute UTC t + time_Second UTC t) * Second + t mod Second"
proof -
  define q where "q = t div Second"
  have t: "t = q * Second + t mod Second" by (simp add: q_def mult.commute)
  have "t div (Second * 3600) = q div 3600" and "t div (Second * 86400) = q div 86400"
    by (simp_all add: q_def zdiv_zmult2_eq)
  then have h: "hour_number UTC t = q div 3600" and d: "day_number UTC t = q div 86400"
    and s: "second_number UTC t = q"
    by (simp_all add: hour_number_def day_number_def second_number_def local_ns_def UTC_def q_def
        unit_defs)
  have "q div 86400 = q div 3600 div 24" and "q div 3600 = q div 60 div 60"
    using zdiv_zmult2_eq [of 24 q 3600] zdiv_zmult2_eq [of 60 q 60] by simp_all
  then have "q = 86400 * (q div 86400) + (3600 * (q div 3600 mod 24) + 60 * (q div 60 mod 60) + q mod 60)"
    using mult_div_mod_eq [of 60 q] mult_div_mod_eq [of 60 "q div 60"] mult_div_mod_eq [of 24 "q div 3600"]
    by linarith
  then have "q * Second = day_number UTC t * Day
     + (3600 * time_Hour UTC t + 60 * time_Minute UTC t + time_Second UTC t) * Second"
    unfolding time_Hour_def time_Minute_def time_Second_def h d s
    by (simp add: unit_defs algebra_simps)
  with t show ?thesis by linarith
qed

lemma TrimRight_zeros: "\<exists>k. TrimRight (\<lambda>c. c = z) s @ replicate k z = s"
proof -
  have "rev s = takeWhile (\<lambda>c. c = z) (rev s) @ dropWhile (\<lambda>c. c = z) (rev s)" by simp
  then have "s = rev (dropWhile (\<lambda>c. c = z) (rev s)) @ rev (takeWhile (\<lambda>c. c = z) (rev s))"
    by (metis rev_append rev_rev_ident)
  moreover have "takeWhile (\<lambda>c. c = z) l = replicate (length (takeWhile (\<lambda>c. c = z) l)) z" for l
    by (rule replicate_eqI [symmetric, THEN sym]) (auto dest: set_takeWhileD)
  ultimately show ?thesis unfolding TrimRight_def by (metis rev_replicate)
qed

lemma dec_nat_zero: "list_all (\<lambda>c. c = CHR ''0'') s \<Longrightarrow> dec_nat s = 0"
  by (induction s rule: rev_induct) (simp_all add: dec_nat_def digit_val_def)

lemma parse_frac_fmt: "parse_frac (fmt_frac t @ ''Z'') = (t mod Second, ''Z'')"
proof (cases "t mod Second = 0")
  case True
  then show ?thesis by (simp add: fmt_frac_def parse_frac_def)
next
  case False
  let ?n = "t mod Second"
  let ?d = "TrimRight (\<lambda>c. c = CHR ''0'') (append_int 9 ?n)"
  have n: "0 \<le> ?n" "?n < 10 ^ 9" by (simp_all add: Second_def)
  obtain k where k: "?d @ replicate k CHR ''0'' = append_int 9 ?n" using TrimRight_zeros by blast
  have len: "length (?d @ replicate k CHR ''0'') = 9" unfolding k using n by (intro length_append_int) auto
  have "list_all is_digit (?d @ replicate k CHR ''0'')" unfolding k using n by (intro digits_append_int)
  then have digits: "list_all is_digit ?d" by simp
  have val: "dec_nat (?d @ replicate k CHR ''0'') = nat ?n" unfolding k using n(1) by (simp add: append_int_def)
  have ne: "?d \<noteq> []"
  proof
    assume "?d = []"
    with val have "nat ?n = 0" by (simp add: dec_nat_zero list_all_iff)
    with False n(1) show False by simp
  qed
  have tw: "takeWhile is_digit (?d @ ''Z'') = ?d" "dropWhile is_digit (?d @ ''Z'') = ''Z''"
    using digits by (auto simp: takeWhile_append dropWhile_append list_all_iff is_digit_def)
  have "take 9 (?d @ replicate 9 CHR ''0'') = ?d @ replicate k CHR ''0''"
    using len by simp
  then have "frac_ns ?d = ?n" using val n(1) by (simp add: frac_ns_def)
  then show ?thesis using False ne tw by (simp add: fmt_frac_def parse_frac_def)
qed

lemma parse_fmt_RFC3339Nano:
  assumes "json_time_ok t"
  shows "parse_RFC3339 (fmt_RFC3339Nano t) = Some t"
  using assms second_split [of t]
  by (simp add: parse_RFC3339_def fmt_RFC3339Nano_def parse_date_fmt json_time_ok_def expect_def
      parse_clock_fmt parse_frac_fmt parse_zone_def)

subsection \<open>Plain text\<close>

definition ascii :: "string \<Rightarrow> bool" where
  "ascii s \<longleftrightarrow> list_all (\<lambda>c. byte c < 0x80) s"

lemma ascii_simps [simp]:
  "ascii []" "ascii (c # s) \<longleftrightarrow> byte c < 0x80 \<and> ascii s" "ascii (s @ t) \<longleftrightarrow> ascii s \<and> ascii t"
  by (auto simp: ascii_def)

lemma valid_utf8_ascii: "ascii s \<Longrightarrow> valid_utf8 s"
  by (induction s) (simp_all add: rune_size_ascii)

lemma ascii_digits: "list_all is_digit s \<Longrightarrow> ascii s"
  by (auto simp: ascii_def list_all_iff is_digit_def)

lemma ascii_append_int [simp]: "ascii (append_int k n)"
  using ascii_digits [OF digits_pad0] by (simp add: append_int_def)

lemma ascii_TrimRight: "ascii s \<Longrightarrow> ascii (TrimRight P s)"
  unfolding TrimRight_def ascii_def list_all_iff
  by (metis set_dropWhileD set_rev)

lemma ascii_fmt_RFC3339Nano: "ascii (fmt_RFC3339Nano t)"
  by (simp add: fmt_RFC3339Nano_def fmt_date_def fmt_month_def fmt_2006_def fmt_01_def fmt_02_def
      fmt_clock_def fmt_frac_def Let_def ascii_TrimRight)

section \<open>Encoding fields\<close>

type_synonym fields = "(string \<times> json) list"

definition json_int :: "int \<Rightarrow> json" where
  "json_int n = JNum (Itoa n)"

definition json_time :: "time \<Rightarrow> json" where
  "json_time t = JStr (fmt_RFC3339Nano t)"

definition omit_str :: "string \<Rightarrow> string \<Rightarrow> fields" where
  "omit_str k s = (if s = [] then [] else [(k, JStr s)])"

definition omit_int :: "string \<Rightarrow> int \<Rightarrow> fields" where
  "omit_int k n = (if n = 0 then [] else [(k, json_int n)])"

definition omit_ptr :: "('a \<Rightarrow> json) \<Rightarrow> string \<Rightarrow> 'a option \<Rightarrow> fields" where
  "omit_ptr f k v = (case v of None \<Rightarrow> [] | Some x \<Rightarrow> [(k, f x)])"

definition json_ptr :: "('a \<Rightarrow> json) \<Rightarrow> 'a option \<Rightarrow> json" where
  "json_ptr f v = (case v of None \<Rightarrow> JNull | Some x \<Rightarrow> f x)"

section \<open>Decoding fields\<close>

text \<open>
  A decoder gets the value the field has so far: a JSON \<open>null\<close> leaves it alone. \<open>None\<close> is
  the error of a value of the wrong type.
\<close>

type_synonym 'a decoder = "json \<Rightarrow> 'a \<Rightarrow> 'a option"

fun dec_str :: "string decoder" where
  "dec_str (JStr s) old = Some s"
| "dec_str JNull old = Some old"
| "dec_str _ old = None"

fun dec_int :: "int decoder" where
  "dec_int (JNum l) old = Atoi l"
| "dec_int JNull old = Some old"
| "dec_int _ old = None"

fun dec_bool :: "bool decoder" where
  "dec_bool (JBool b) old = Some b"
| "dec_bool JNull old = Some old"
| "dec_bool _ old = None"

fun dec_time :: "time decoder" where
  "dec_time (JStr s) old = parse_RFC3339 s"
| "dec_time JNull old = Some old"
| "dec_time _ old = None"

definition dec_ptr :: "'a \<Rightarrow> 'a decoder \<Rightarrow> 'a option decoder" where
  "dec_ptr zero d j old =
     (if j = JNull then Some None
      else map_option Some (d j (case old of None \<Rightarrow> zero | Some x \<Rightarrow> x)))"

fun dec_elems :: "'a \<Rightarrow> 'a decoder \<Rightarrow> json list \<Rightarrow> 'a list option" where
  "dec_elems zero d [] = Some []"
| "dec_elems zero d (j # js) =
     (case d j zero of None \<Rightarrow> None
      | Some x \<Rightarrow> map_option ((#) x) (dec_elems zero d js))"

fun dec_slice :: "'a \<Rightarrow> 'a decoder \<Rightarrow> 'a list decoder" where
  "dec_slice zero d (JArr js) old = dec_elems zero d js"
| "dec_slice zero d JNull old = Some []"
| "dec_slice zero d _ old = None"

text \<open>
  A struct: each member of the object goes to the field of that name, whatever its case (of ASCII
  letters: \<open>encoding/json\<close> also takes U+017F for an s and U+212A for a k, which no writer of vaultd produces);
  unknown members are ignored, a later duplicate wins.
\<close>

type_synonym 'a field_table = "string \<Rightarrow> 'a decoder option"

fun dec_fields :: "'a field_table \<Rightarrow> fields \<Rightarrow> 'a \<Rightarrow> 'a option" where
  "dec_fields tbl [] r = Some r"
| "dec_fields tbl (kv # fs) r =
     (case tbl (ToLower (fst kv)) of
        None \<Rightarrow> dec_fields tbl fs r
      | Some d \<Rightarrow> Option.bind (d (snd kv) r) (dec_fields tbl fs))"

fun dec_struct :: "'a field_table \<Rightarrow> 'a decoder" where
  "dec_struct tbl (JObj fs) old = dec_fields tbl fs old"
| "dec_struct tbl JNull old = Some old"
| "dec_struct tbl _ old = None"

lemma dec_int_json [simp]: "in_int64 n \<Longrightarrow> dec_int (json_int n) old = Some n"
  by (simp add: json_int_def Atoi_Itoa)

lemma dec_time_json [simp]: "json_time_ok t \<Longrightarrow> dec_time (json_time t) old = Some t"
  by (simp add: json_time_def parse_fmt_RFC3339Nano)

lemma dec_fields_append:
  "dec_fields tbl (xs @ ys) r = Option.bind (dec_fields tbl xs r) (dec_fields tbl ys)"
  by (induction xs arbitrary: r) (auto split: option.splits Option.bind_splits)

lemma wf_json_time [simp]: "wf_json (json_time t)"
  by (simp add: json_time_def valid_utf8_ascii ascii_fmt_RFC3339Nano)

lemma wf_json_int [simp]: "wf_json (json_int n)"
  by (simp add: json_int_def)

end
