(* ===== verification/Core.thy ===== *)
theory Core
  imports Codec "HOL-Library.AList" "HOL-Library.List_Lexorder" "HOL-Library.Char_ord"
begin

text \<open>
  The ports of \<open>internal/core/ports.go\<close>: engines, events and their severity, the metadata
  of a stored object, and \<open>core.Store\<close> as a record of operations on a store state. Errors
  are values; \<open>fmt.Errorf\<close> with \<open>%w\<close> is \<open>ErrWrap\<close>, which \<open>errors.Is\<close> looks
  through; \<open>errors.Join\<close> and two \<open>%w\<close> of one format are \<open>ErrJoin\<close> with what stands
  between the two. The error types of other packages that callers recognise with
  \<open>errors.As\<close> are constructors too. The contract of a store is the locale \<open>object_store\<close>.
\<close>

section \<open>Errors\<close>

text \<open>\<open>lock.Owner\<close>, which \<open>lock.ErrLocked\<close> carries; \<open>engine.ExitError\<close>; \<open>backup.Error\<close>.\<close>

record Owner =
  owID :: string
  owTarget :: string
  owHost :: string
  owPID :: int
  owKind :: string
  owAcquiredAt :: time
  owExpiresAt :: time
  owVersion :: string

datatype err =
    ErrNotFound
  | ErrSandboxUnsupported
  | ErrQueryUnsupported
  | ErrCanceled
  | ErrDeadlineExceeded
  | ErrClosedPipe
  | ErrLost
  | ErrDestinationNotEmpty
  | ErrNoIdentityMatch
  | ErrText string
  | ErrWrap string err
  | ErrJoin string err err
  | ErrLocked string Owner
  | ErrExit string int string err
  | ErrBackup string string err string

fun errors_Is :: "err \<Rightarrow> err \<Rightarrow> bool" where
  "errors_Is (ErrWrap m e) target \<longleftrightarrow> ErrWrap m e = target \<or> errors_Is e target"
| "errors_Is (ErrJoin m d e) target \<longleftrightarrow> ErrJoin m d e = target \<or> errors_Is d target \<or> errors_Is e target"
| "errors_Is (ErrExit b c s e) target \<longleftrightarrow> ErrExit b c s e = target \<or> errors_Is e target"
| "errors_Is (ErrBackup p t e s) target \<longleftrightarrow> ErrBackup p t e s = target \<or> errors_Is e target"
| "errors_Is e target \<longleftrightarrow> e = target"

text \<open>\<open>errors.As\<close>: the first error of the tree, depth first, that \<open>P\<close> accepts.\<close>

fun errors_As :: "(err \<Rightarrow> 'a option) \<Rightarrow> err \<Rightarrow> 'a option" where
  "errors_As P (ErrWrap m e) = (case P (ErrWrap m e) of Some x \<Rightarrow> Some x | None \<Rightarrow> errors_As P e)"
| "errors_As P (ErrJoin m d e) =
     (case P (ErrJoin m d e) of Some x \<Rightarrow> Some x
      | None \<Rightarrow> (case errors_As P d of Some x \<Rightarrow> Some x | None \<Rightarrow> errors_As P e))"
| "errors_As P (ErrExit b c s e) = (case P (ErrExit b c s e) of Some x \<Rightarrow> Some x | None \<Rightarrow> errors_As P e)"
| "errors_As P (ErrBackup p t e s) = (case P (ErrBackup p t e s) of Some x \<Rightarrow> Some x | None \<Rightarrow> errors_As P e)"
| "errors_As P e = P e"

definition Owner_String :: "Owner \<Rightarrow> string" where
  "Owner_String o' =
     (if owHost o' = [] then ''an unknown host'' else owHost o')
     @ '' (pid '' @ Itoa (owPID o') @ ''), since '' @ fmt_RFC3339 UTC (owAcquiredAt o')
     @ '', expires '' @ fmt_RFC3339 UTC (owExpiresAt o')"

text \<open>The last \<open>n\<close> lines that are not blank.\<close>

definition LastLines :: "string \<Rightarrow> nat \<Rightarrow> string" where
  "LastLines s n =
     (let lines = Split_char CHR 0x0A (TrimRight (\<lambda>c. c = CHR 0x0A) s);
          shown = filter (\<lambda>l. TrimSpace l \<noteq> []) lines
      in Join [CHR 0x0A] (drop (length shown - n) shown))"

fun err_text :: "err \<Rightarrow> string" where
  "err_text ErrNotFound = ''object not found''"
| "err_text ErrSandboxUnsupported = ''this backup cannot be restored into an ephemeral database''"
| "err_text ErrQueryUnsupported = ''this engine has no queries to assert on''"
| "err_text ErrCanceled = ''context canceled''"
| "err_text ErrDeadlineExceeded = ''context deadline exceeded''"
| "err_text ErrClosedPipe = ''io: read/write on closed pipe''"
| "err_text ErrLost = ''the lock was lost''"
| "err_text ErrDestinationNotEmpty = ''the destination database is not empty''"
| "err_text ErrNoIdentityMatch = ''no identity matched any of the recipients''"
| "err_text (ErrText s) = s"
| "err_text (ErrWrap m e) = m @ '': '' @ err_text e"
| "err_text (ErrJoin m d e) = err_text d @ m @ err_text e"
| "err_text (ErrLocked k ow) = owTarget ow @ '' is already running: held by '' @ Owner_String ow"
| "err_text (ErrExit b c s e) =
     b @ '' exited with code '' @ Itoa c @ (let d = LastLines s 3 in if d = [] then [] else '': '' @ d)"
| "err_text (ErrBackup p t e s) = ''backup of '' @ t @ '' failed during '' @ p @ '': '' @ err_text e"

lemma errors_Is_wrap [simp]: "errors_Is e ErrNotFound \<Longrightarrow> errors_Is (ErrWrap m e) ErrNotFound"
  by simp

type_synonym 'a result = "err + 'a"
type_synonym ('s, 'a) action = "'s \<Rightarrow> 'a result \<times> 's"

section \<open>Engines, consistency, events\<close>

type_synonym Engine = string
type_synonym Consistency = string
type_synonym Event = string
type_synonym Severity = string

definition EnginePostgres :: Engine where "EnginePostgres = ''postgres''"
definition EngineMySQL :: Engine where "EngineMySQL = ''mysql''"
definition EngineMariaDB :: Engine where "EngineMariaDB = ''mariadb''"
definition EngineMongoDB :: Engine where "EngineMongoDB = ''mongodb''"

lemmas engine_defs = EnginePostgres_def EngineMySQL_def EngineMariaDB_def EngineMongoDB_def

definition Engines :: "Engine list" where
  "Engines = [EnginePostgres, EngineMySQL, EngineMariaDB, EngineMongoDB]"

definition Engine_Valid :: "Engine \<Rightarrow> bool" where
  "Engine_Valid e \<longleftrightarrow> list_ex (\<lambda>known. e = known) Engines"

definition EventBackupStarted :: Event where "EventBackupStarted = ''backup.started''"
definition EventBackupSucceeded :: Event where "EventBackupSucceeded = ''backup.succeeded''"
definition EventBackupFailed :: Event where "EventBackupFailed = ''backup.failed''"
definition EventVerifySucceeded :: Event where "EventVerifySucceeded = ''verify.succeeded''"
definition EventVerifyFailed :: Event where "EventVerifyFailed = ''verify.failed''"
definition EventRetentionPruned :: Event where "EventRetentionPruned = ''retention.pruned''"
definition EventRetentionBlocked :: Event where "EventRetentionBlocked = ''retention.blocked''"
definition EventScheduleMissed :: Event where "EventScheduleMissed = ''schedule.missed''"
definition EventStorageError :: Event where "EventStorageError = ''storage.error''"

lemmas event_defs = EventBackupStarted_def EventBackupSucceeded_def EventBackupFailed_def
  EventVerifySucceeded_def EventVerifyFailed_def EventRetentionPruned_def
  EventRetentionBlocked_def EventScheduleMissed_def EventStorageError_def

definition Events :: "Event list" where
  "Events = [EventBackupStarted, EventBackupSucceeded, EventBackupFailed,
     EventVerifySucceeded, EventVerifyFailed, EventRetentionPruned, EventRetentionBlocked,
     EventScheduleMissed, EventStorageError]"

definition Event_Valid :: "Event \<Rightarrow> bool" where
  "Event_Valid e \<longleftrightarrow> list_ex (\<lambda>known. e = known) Events"

definition SeverityOf :: "Event \<Rightarrow> Severity" where
  "SeverityOf event =
     (if event = EventBackupFailed \<or> event = EventVerifyFailed \<or> event = EventStorageError
      then ''critical''
      else if event = EventRetentionBlocked \<or> event = EventScheduleMissed then ''warning''
      else ''info'')"

record TableInfo =
  tiName :: string
  tiRows :: int
  tiRowsExact :: bool
  tiStorageEngine :: string

record Failure =
  fPhase :: string
  fCode :: string
  fMessage :: string
  fStderrTail :: string

text \<open>\<open>Details\<close> is a \<open>map[string]any\<close>; here the members it is filled with, in order.\<close>

record Notification =
  nEvent :: Event
  nAt :: time
  nTarget :: string
  nBackupID :: string
  nSeverity :: Severity
  nDurationMS :: int
  nError :: "Failure option"
  nSummary :: string
  nDetails :: fields

section \<open>The object store port\<close>

record ObjectInfo =
  oKey :: string
  oBytes :: int
  oETag :: string
  oSHA256 :: string
  oLastModified :: time

definition zero_ObjectInfo :: ObjectInfo where
  "zero_ObjectInfo = \<lparr>oKey = [], oBytes = 0, oETag = [], oSHA256 = [], oLastModified = 0\<rparr>"

text \<open>
  \<open>Put\<close> reads its body from a reader: the bytes, or the error the reader ended with.
  \<open>List\<close> yields the objects of a prefix; every caller gives up on the first error of the
  sequence, so the sequence is the objects or that error.
\<close>

record 's store_ops =
  sPut :: "string \<Rightarrow> string result \<Rightarrow> ('s, ObjectInfo) action"
  sGet :: "string \<Rightarrow> ('s, string) action"
  sHead :: "string \<Rightarrow> ('s, ObjectInfo) action"
  sList :: "string \<Rightarrow> ('s, ObjectInfo list) action"
  sDelete :: "string list \<Rightarrow> ('s, unit) action"
  sPutIfAbsent :: "string \<Rightarrow> string \<Rightarrow> ('s, bool) action"
  sPutIfMatch :: "string \<Rightarrow> string \<Rightarrow> string \<Rightarrow> ('s, ObjectInfo \<times> bool) action"

text \<open>
  What the rest of the program relies on, for a reachable store nobody else is writing to:
  \<open>view\<close> gives the body and the etag under a key, \<open>tag_ok\<close> holds of everything that can be an
  etag of the store, and of the empty one that stands for an object that should not exist.
\<close>

locale object_store =
  fixes ops :: "'s store_ops" and inv :: "'s \<Rightarrow> bool"
    and view :: "'s \<Rightarrow> string \<rightharpoonup> string \<times> string" and etag_of :: "string \<Rightarrow> string"
    and tag_ok :: "string \<Rightarrow> bool"
  assumes tag_view: "view s k = Some (b, e) \<Longrightarrow> tag_ok e" and tag_empty: "tag_ok []"
    and get_hit: "view s k = Some (b, e) \<Longrightarrow> sGet ops k s = (Inr b, s)"
    and get_miss: "view s k = None \<Longrightarrow> \<exists>x. sGet ops k s = (Inl x, s) \<and> errors_Is x ErrNotFound"
    and head_hit: "view s k = Some (b, e) \<Longrightarrow>
          \<exists>i. sHead ops k s = (Inr i, s) \<and> oKey i = k \<and> oETag i = e \<and> oBytes i = int (length b)"
    and head_miss: "view s k = None \<Longrightarrow> \<exists>x. sHead ops k s = (Inl x, s) \<and> errors_Is x ErrNotFound"
    and list_keys: "inv s \<Longrightarrow> \<exists>is. sList ops p s = (Inr is, s) \<and> distinct (map oKey is) \<and>
          set (map oKey is) = {k. view s k \<noteq> None \<and> HasPrefix k p}"
    and delete: "\<exists>s'. sDelete ops ks s = (Inr (), s') \<and> (inv s \<longrightarrow> inv s') \<and>
          view s' = (\<lambda>k. if k \<in> set ks then None else view s k)"
    and absent_free: "view s k = None \<Longrightarrow>
          \<exists>s'. sPutIfAbsent ops k b s = (Inr True, s') \<and> (inv s \<longrightarrow> inv s') \<and>
            view s' = (view s)(k \<mapsto> (b, etag_of b))"
    and absent_taken: "view s k = Some v \<Longrightarrow> sPutIfAbsent ops k b s = (Inr False, s)"
    and match_hit: "view s k = Some (b0, e) \<or> view s k = None \<and> e = [] \<Longrightarrow>
          \<exists>i s'. sPutIfMatch ops k b e s = (Inr (i, True), s') \<and> oETag i = etag_of b \<and>
            (inv s \<longrightarrow> inv s') \<and> view s' = (view s)(k \<mapsto> (b, etag_of b))"
    and match_miss: "(case view s k of None \<Rightarrow> e \<noteq> [] | Some (b0, e0) \<Rightarrow> e0 \<noteq> e) \<Longrightarrow> tag_ok e \<Longrightarrow>
          \<exists>i. sPutIfMatch ops k b e s = (Inr (i, False), s)"
begin

text \<open>A conditional write that reports success changed exactly its key.\<close>

lemma match_written:
  assumes "sPutIfMatch ops k b e s = (Inr (i, True), s')" and "tag_ok e"
  shows "view s' = (view s)(k \<mapsto> (b, etag_of b)) \<and> oETag i = etag_of b \<and> (inv s \<longrightarrow> inv s')
         \<and> (case view s k of None \<Rightarrow> e = [] | Some (b0, e0) \<Rightarrow> e0 = e)"
proof (cases "case view s k of None \<Rightarrow> e \<noteq> [] | Some (b0, e0) \<Rightarrow> e0 \<noteq> e")
  case True
  from match_miss [OF this assms(2), of b] assms(1) show ?thesis by auto
next
  case False
  then obtain b0 where "view s k = Some (b0, e) \<or> view s k = None \<and> e = []"
    by (auto split: option.splits prod.splits)
  from match_hit [OF this, of b] assms(1) False show ?thesis
    by (auto split: option.splits prod.splits)
qed

lemma match_unwritten: "sPutIfMatch ops k b e s = (Inr (i, False), s') \<Longrightarrow> tag_ok e \<Longrightarrow> s' = s"
proof (cases "case view s k of None \<Rightarrow> e \<noteq> [] | Some (b0, e0) \<Rightarrow> e0 \<noteq> e")
  case True
  assume "sPutIfMatch ops k b e s = (Inr (i, False), s')" and "tag_ok e"
  with match_miss [OF True, of b] show "s' = s" by auto
next
  case False
  assume *: "sPutIfMatch ops k b e s = (Inr (i, False), s')"
  from False obtain b0 where "view s k = Some (b0, e) \<or> view s k = None \<and> e = []"
    by (auto split: option.splits prod.splits)
  from match_hit [OF this, of b] * show "s' = s" by auto
qed

lemma match_no_error: "tag_ok e \<Longrightarrow> sPutIfMatch ops k b e s \<noteq> (Inl x, s')"
proof (cases "case view s k of None \<Rightarrow> e \<noteq> [] | Some (b0, e0) \<Rightarrow> e0 \<noteq> e")
  case True
  assume "tag_ok e"
  from match_miss [OF True this, of b] show ?thesis by auto
next
  case False
  then obtain b0 where "view s k = Some (b0, e) \<or> view s k = None \<and> e = []"
    by (auto split: option.splits prod.splits)
  from match_hit [OF this, of b] show ?thesis by auto
qed

text \<open>Of two callers that create one key, the second one is told it exists.\<close>

lemma create_once:
  assumes "sPutIfAbsent ops k b s = (Inr True, s')"
  shows "sPutIfAbsent ops k b' s' = (Inr False, s')"
proof (cases "view s k")
  case None
  from absent_free [OF this, of b] assms have "view s' k = Some (b, etag_of b)" by auto
  then show ?thesis by (rule absent_taken)
next
  case (Some v)
  from absent_taken [OF this, of b] assms show ?thesis by simp
qed

end

end
