(* ===== verification/Manifest.thy ===== *)
theory Manifest
  imports Core
begin

text \<open>
  The documents of \<open>internal/manifest\<close>: the manifest written beside each backup, the index
  entry that summarises it, their JSON encodings, and the object keys of a target.
\<close>

section \<open>The manifest document\<close>

type_synonym Kind = string

definition Schema :: int where "Schema = 1"
definition KindFull :: Kind where "KindFull = ''full''"

record StoredObject =
  soKey :: string
  soBytes :: int
  soSHA256 :: string

record Plaintext =
  ptBytes :: int
  ptSHA256 :: string

record PipelineRec =
  prCompression :: string
  prEncryption :: string
  prDumper :: string

record VerifyRec =
  vLevel :: string
  vAt :: time
  vOK :: bool
  vDetails :: fields

record Manifest =
  mfSchema :: int
  mfID :: string
  mfTarget :: string
  mfEngine :: Engine
  mfServerVersion :: string
  mfStartedAt :: time
  mfFinishedAt :: time
  mfDurationMS :: int
  mfKind :: Kind
  mfTier :: string
  mfObject :: StoredObject
  mfPlaintext :: Plaintext
  mfGlobals :: "StoredObject option"
  mfPipeline :: PipelineRec
  mfConsistency :: Consistency
  mfBinlog :: "string option"
  mfOplogEnd :: "string option"
  mfTables :: "TableInfo list"
  mfVerify :: "VerifyRec option"
  mfWarnings :: "string list"
  mfVaultdVersion :: string

definition Age :: "Manifest \<Rightarrow> time \<Rightarrow> duration" where
  "Age m now = time_Sub now (mfFinishedAt m)"

section \<open>Object keys\<close>

record Layout =
  lPrefix :: string
  lTarget :: string

definition fmt_TimeFormat :: "time \<Rightarrow> string" where
  "fmt_TimeFormat at =
     fmt_2006 (day_number UTC at) @ fmt_01 (day_number UTC at) @ fmt_02 (day_number UTC at) @ ''T''
       @ append_int 2 (time_Hour UTC at) @ append_int 2 (time_Minute UTC at)
       @ append_int 2 (time_Second UTC at) @ ''Z''"

definition layout_join :: "Layout \<Rightarrow> string list \<Rightarrow> string" where
  "layout_join l parts =
     (if lPrefix l = [] then path_Join parts
      else path_Join (Trim_char CHR ''/'' (lPrefix l) # parts))"

definition Layout_TargetPrefix :: "Layout \<Rightarrow> string" where
  "Layout_TargetPrefix l = layout_join l [lTarget l] @ ''/''"

definition Layout_Base :: "Layout \<Rightarrow> time \<Rightarrow> string" where
  "Layout_Base l at =
     layout_join l [lTarget l, fmt_2006 (day_number UTC at), fmt_01 (day_number UTC at),
       fmt_02 (day_number UTC at), lTarget l @ ''-'' @ fmt_TimeFormat at]"

definition Layout_Data :: "Layout \<Rightarrow> time \<Rightarrow> Kind \<Rightarrow> string \<Rightarrow> string" where
  "Layout_Data l at kind ext = Layout_Base l at @ ''-'' @ kind @ ext"

definition Layout_Manifest :: "Layout \<Rightarrow> time \<Rightarrow> Kind \<Rightarrow> string" where
  "Layout_Manifest l at kind = Layout_Base l at @ ''-'' @ kind @ ''.manifest.json''"

definition Layout_Globals :: "Layout \<Rightarrow> time \<Rightarrow> string \<Rightarrow> string" where
  "Layout_Globals l at ext = Layout_Base l at @ ''-globals'' @ ext"

definition Layout_Index :: "Layout \<Rightarrow> string" where
  "Layout_Index l = layout_join l [''_index'', lTarget l @ ''.jsonl'']"

definition Layout_Lock :: "Layout \<Rightarrow> string" where
  "Layout_Lock l = layout_join l [''_locks'', lTarget l @ ''.lock'']"

definition IsManifestKey :: "string \<Rightarrow> bool" where
  "IsManifestKey key \<longleftrightarrow> HasSuffix key ''.manifest.json''"

definition dumpExtension :: "Engine \<Rightarrow> string" where
  "dumpExtension engine =
     (if engine = EnginePostgres then ''.pgdump''
      else if engine = EngineMySQL \<or> engine = EngineMariaDB then ''.sql''
      else if engine = EngineMongoDB then ''.archive''
      else ''.dump'')"

definition pipelineSuffixes :: "string \<Rightarrow> string \<Rightarrow> string" where
  "pipelineSuffixes compression encryption =
     (if HasPrefix compression ''zstd'' then ''.zst''
      else if HasPrefix compression ''gzip'' then ''.gz'' else [])
     @ (if encryption \<noteq> [] \<and> encryption \<noteq> ''none'' then ''.age'' else [])"

definition DataExtension :: "Engine \<Rightarrow> string \<Rightarrow> string \<Rightarrow> string" where
  "DataExtension engine compression encryption =
     dumpExtension engine @ pipelineSuffixes compression encryption"

definition GlobalsExtension :: "string \<Rightarrow> string \<Rightarrow> string" where
  "GlobalsExtension compression encryption = ''.sql'' @ pipelineSuffixes compression encryption"

section \<open>Index entries\<close>

type_synonym Outcome = string

definition OutcomeSucceeded :: Outcome where "OutcomeSucceeded = ''succeeded''"
definition OutcomeFailed :: Outcome where "OutcomeFailed = ''failed''"

record Entry =
  eID :: string
  eTarget :: string
  eEngine :: Engine
  eOutcome :: Outcome
  eKind :: Kind
  eTier :: string
  eStartedAt :: time
  eFinishedAt :: time
  eKey :: string
  eManifestKey :: string
  eGlobalsKey :: string
  eBytes :: int
  ePlaintextBytes :: int
  eSHA256 :: string
  eVerifiedAt :: "time option"
  eVerifyLevel :: string
  eVerifyOK :: "bool option"
  ePhase :: string
  eError :: string

definition zero_Entry :: Entry where
  "zero_Entry = \<lparr>eID = [], eTarget = [], eEngine = [], eOutcome = [], eKind = [], eTier = [],
     eStartedAt = 0, eFinishedAt = 0, eKey = [], eManifestKey = [], eGlobalsKey = [], eBytes = 0,
     ePlaintextBytes = 0, eSHA256 = [], eVerifiedAt = None, eVerifyLevel = [], eVerifyOK = None,
     ePhase = [], eError = []\<rparr>"

definition Succeeded :: "Entry \<Rightarrow> bool" where
  "Succeeded e \<longleftrightarrow> eOutcome e = OutcomeSucceeded"

definition Verified :: "Entry \<Rightarrow> bool" where
  "Verified e \<longleftrightarrow> eVerifyOK e = Some True"

definition Entry_Keys :: "Entry \<Rightarrow> string list" where
  "Entry_Keys e = filter (\<lambda>key. key \<noteq> []) [eKey e, eManifestKey e, eGlobalsKey e]"

definition NewEntry :: "Manifest \<Rightarrow> string \<Rightarrow> Entry" where
  "NewEntry m manifestKey =
     (let e = zero_Entry\<lparr>eID := mfID m, eTarget := mfTarget m, eEngine := mfEngine m,
            eOutcome := OutcomeSucceeded, eKind := mfKind m, eTier := mfTier m,
            eStartedAt := mfStartedAt m, eFinishedAt := mfFinishedAt m,
            eKey := soKey (mfObject m), eManifestKey := manifestKey,
            eBytes := soBytes (mfObject m), ePlaintextBytes := ptBytes (mfPlaintext m),
            eSHA256 := soSHA256 (mfObject m)\<rparr>;
          e = (case mfGlobals m of None \<Rightarrow> e | Some g \<Rightarrow> e\<lparr>eGlobalsKey := soKey g\<rparr>)
      in case mfVerify m of
           None \<Rightarrow> e
         | Some v \<Rightarrow> e\<lparr>eVerifiedAt := Some (vAt v), eVerifyLevel := vLevel v,
                       eVerifyOK := Some (vOK v)\<rparr>)"

definition NewFailureEntry :: "string \<Rightarrow> time \<Rightarrow> time \<Rightarrow> string \<Rightarrow> string \<Rightarrow> Entry" where
  "NewFailureEntry target started finished phase message =
     zero_Entry\<lparr>eTarget := target, eOutcome := OutcomeFailed, eStartedAt := started,
       eFinishedAt := finished, ePhase := phase, eError := message\<rparr>"

section \<open>The index as JSON lines\<close>

text \<open>\<open>json.Marshal(e)\<close>: the members in field order; it fails on a year no timestamp can carry.\<close>

definition entry_fields :: "Entry \<Rightarrow> fields" where
  "entry_fields e =
     [(''id'', JStr (eID e)), (''target'', JStr (eTarget e))] @ omit_str ''engine'' (eEngine e)
     @ [(''outcome'', JStr (eOutcome e))] @ omit_str ''kind'' (eKind e) @ omit_str ''tier'' (eTier e)
     @ [(''started_at'', json_time (eStartedAt e)), (''finished_at'', json_time (eFinishedAt e))]
     @ omit_str ''key'' (eKey e) @ omit_str ''manifest_key'' (eManifestKey e)
     @ omit_str ''globals_key'' (eGlobalsKey e) @ omit_int ''bytes'' (eBytes e)
     @ omit_int ''plaintext_bytes'' (ePlaintextBytes e) @ omit_str ''sha256'' (eSHA256 e)
     @ omit_ptr json_time ''verified_at'' (eVerifiedAt e) @ omit_str ''verify_level'' (eVerifyLevel e)
     @ omit_ptr JBool ''verify_ok'' (eVerifyOK e) @ omit_str ''phase'' (ePhase e)
     @ omit_str ''error'' (eError e)"

definition entry_times_ok :: "Entry \<Rightarrow> bool" where
  "entry_times_ok e \<longleftrightarrow> json_time_ok (eStartedAt e) \<and> json_time_ok (eFinishedAt e)
     \<and> (case eVerifiedAt e of None \<Rightarrow> True | Some t \<Rightarrow> json_time_ok t)"

definition time_range_error :: err where
  "time_range_error = ErrText ''json: error calling MarshalJSON for type time.Time: Time.MarshalJSON: year outside of range [0,9999]''"

definition entry_Marshal :: "Entry \<Rightarrow> string result" where
  "entry_Marshal e =
     (if entry_times_ok e then Inr (print_json None (JObj (entry_fields e))) else Inl time_range_error)"

definition entry_table :: "Entry field_table" where
  "entry_table k =
     (if k = ''id'' then Some (\<lambda>j e. map_option (\<lambda>v. e\<lparr>eID := v\<rparr>) (dec_str j (eID e)))
      else if k = ''target'' then Some (\<lambda>j e. map_option (\<lambda>v. e\<lparr>eTarget := v\<rparr>) (dec_str j (eTarget e)))
      else if k = ''engine'' then Some (\<lambda>j e. map_option (\<lambda>v. e\<lparr>eEngine := v\<rparr>) (dec_str j (eEngine e)))
      else if k = ''outcome'' then Some (\<lambda>j e. map_option (\<lambda>v. e\<lparr>eOutcome := v\<rparr>) (dec_str j (eOutcome e)))
      else if k = ''kind'' then Some (\<lambda>j e. map_option (\<lambda>v. e\<lparr>eKind := v\<rparr>) (dec_str j (eKind e)))
      else if k = ''tier'' then Some (\<lambda>j e. map_option (\<lambda>v. e\<lparr>eTier := v\<rparr>) (dec_str j (eTier e)))
      else if k = ''started_at'' then Some (\<lambda>j e. map_option (\<lambda>v. e\<lparr>eStartedAt := v\<rparr>) (dec_time j (eStartedAt e)))
      else if k = ''finished_at'' then Some (\<lambda>j e. map_option (\<lambda>v. e\<lparr>eFinishedAt := v\<rparr>) (dec_time j (eFinishedAt e)))
      else if k = ''key'' then Some (\<lambda>j e. map_option (\<lambda>v. e\<lparr>eKey := v\<rparr>) (dec_str j (eKey e)))
      else if k = ''manifest_key'' then Some (\<lambda>j e. map_option (\<lambda>v. e\<lparr>eManifestKey := v\<rparr>) (dec_str j (eManifestKey e)))
      else if k = ''globals_key'' then Some (\<lambda>j e. map_option (\<lambda>v. e\<lparr>eGlobalsKey := v\<rparr>) (dec_str j (eGlobalsKey e)))
      else if k = ''bytes'' then Some (\<lambda>j e. map_option (\<lambda>v. e\<lparr>eBytes := v\<rparr>) (dec_int j (eBytes e)))
      else if k = ''plaintext_bytes'' then Some (\<lambda>j e. map_option (\<lambda>v. e\<lparr>ePlaintextBytes := v\<rparr>) (dec_int j (ePlaintextBytes e)))
      else if k = ''sha256'' then Some (\<lambda>j e. map_option (\<lambda>v. e\<lparr>eSHA256 := v\<rparr>) (dec_str j (eSHA256 e)))
      else if k = ''verified_at'' then Some (\<lambda>j e. map_option (\<lambda>v. e\<lparr>eVerifiedAt := v\<rparr>) (dec_ptr 0 dec_time j (eVerifiedAt e)))
      else if k = ''verify_level'' then Some (\<lambda>j e. map_option (\<lambda>v. e\<lparr>eVerifyLevel := v\<rparr>) (dec_str j (eVerifyLevel e)))
      else if k = ''verify_ok'' then Some (\<lambda>j e. map_option (\<lambda>v. e\<lparr>eVerifyOK := v\<rparr>) (dec_ptr False dec_bool j (eVerifyOK e)))
      else if k = ''phase'' then Some (\<lambda>j e. map_option (\<lambda>v. e\<lparr>ePhase := v\<rparr>) (dec_str j (ePhase e)))
      else if k = ''error'' then Some (\<lambda>j e. map_option (\<lambda>v. e\<lparr>eError := v\<rparr>) (dec_str j (eError e)))
      else None)"

definition entry_Unmarshal :: "string \<Rightarrow> Entry option" where
  "entry_Unmarshal raw = Option.bind (json_parse raw) (\<lambda>j. dec_struct entry_table j zero_Entry)"

definition AppendEntry :: "string \<Rightarrow> Entry \<Rightarrow> string result" where
  "AppendEntry index e =
     (case entry_Marshal e of
        Inl x \<Rightarrow> Inl (ErrWrap ''encoding index entry'' x)
      | Inr line \<Rightarrow>
          Inr (index @ (if index \<noteq> [] \<and> last index \<noteq> CHR 0x0A then [CHR 0x0A] else [])
                 @ line @ [CHR 0x0A]))"

text \<open>
  \<open>bufio.Scanner\<close> with a buffer of one MiB: the lines of the text, the last one even without
  a newline; a line that fills the buffer ends the scan with an error.
\<close>

definition scan_lines :: "string \<Rightarrow> string list" where
  "scan_lines b =
     (let ls = Split_char CHR 0x0A b in if last ls = [] then butlast ls else ls)"

definition max_line :: nat where
  "max_line = 1024 * 1024"

fun parse_lines :: "nat \<Rightarrow> string list \<Rightarrow> Entry list \<Rightarrow> Entry list \<times> err option" where
  "parse_lines line [] entries = (entries, None)"
| "parse_lines line (l # ls) entries =
     (if length l \<ge> max_line
      then (entries, Some (ErrWrap ''reading index'' (ErrText ''bufio.Scanner: token too long'')))
      else let raw = TrimSpace l in
        if raw = [] then parse_lines (line + 1) ls entries
        else case entry_Unmarshal raw of
               None \<Rightarrow> (entries, Some (ErrWrap (''index line '' @ Itoa (int line) @ '' is corrupt'') (ErrText ''invalid JSON'')))
             | Some e \<Rightarrow> parse_lines (line + 1) ls (entries @ [e]))"

definition ParseIndex :: "string \<Rightarrow> Entry list \<times> err option" where
  "ParseIndex b = parse_lines 1 (scan_lines b) []"

section \<open>Reading back what was written\<close>

lemma lower_names [simp]:
  "ToLower ''id'' = ''id''"
  "ToLower ''target'' = ''target''"
  "ToLower ''engine'' = ''engine''"
  "ToLower ''outcome'' = ''outcome''"
  "ToLower ''kind'' = ''kind''"
  "ToLower ''tier'' = ''tier''"
  "ToLower ''started_at'' = ''started_at''"
  "ToLower ''finished_at'' = ''finished_at''"
  "ToLower ''key'' = ''key''"
  "ToLower ''manifest_key'' = ''manifest_key''"
  "ToLower ''globals_key'' = ''globals_key''"
  "ToLower ''bytes'' = ''bytes''"
  "ToLower ''plaintext_bytes'' = ''plaintext_bytes''"
  "ToLower ''sha256'' = ''sha256''"
  "ToLower ''verified_at'' = ''verified_at''"
  "ToLower ''verify_level'' = ''verify_level''"
  "ToLower ''verify_ok'' = ''verify_ok''"
  "ToLower ''phase'' = ''phase''"
  "ToLower ''error'' = ''error''"
  "ToLower ''schema'' = ''schema''"
  "ToLower ''server_version'' = ''server_version''"
  "ToLower ''duration_ms'' = ''duration_ms''"
  "ToLower ''object'' = ''object''"
  "ToLower ''plaintext'' = ''plaintext''"
  "ToLower ''globals'' = ''globals''"
  "ToLower ''pipeline'' = ''pipeline''"
  "ToLower ''consistency'' = ''consistency''"
  "ToLower ''binlog'' = ''binlog''"
  "ToLower ''oplog_end'' = ''oplog_end''"
  "ToLower ''tables'' = ''tables''"
  "ToLower ''verify'' = ''verify''"
  "ToLower ''warnings'' = ''warnings''"
  "ToLower ''vaultd_version'' = ''vaultd_version''"
  "ToLower ''compression'' = ''compression''"
  "ToLower ''encryption'' = ''encryption''"
  "ToLower ''dumper'' = ''dumper''"
  "ToLower ''level'' = ''level''"
  "ToLower ''at'' = ''at''"
  "ToLower ''ok'' = ''ok''"
  "ToLower ''details'' = ''details''"
  "ToLower ''name'' = ''name''"
  "ToLower ''rows'' = ''rows''"
  "ToLower ''rows_exact'' = ''rows_exact''"
  "ToLower ''storage_engine'' = ''storage_engine''"
  by code_simp+

lemma dec_member:
  assumes "tbl (ToLower k) = Some d" and "d v r = Some r'"
  shows "dec_fields tbl ((k, v) # fs) r = dec_fields tbl fs r'"
  using assms by simp

text \<open>An omitted member leaves the zero value, which is what it stands for.\<close>

lemma dec_omit_str:
  assumes "tbl (ToLower k) = Some d" and "s \<noteq> [] \<Longrightarrow> d (JStr s) r = Some r'" and "s = [] \<Longrightarrow> r' = r"
  shows "dec_fields tbl (omit_str k s @ fs) r = dec_fields tbl fs r'"
  using assms by (auto simp: omit_str_def)

lemma dec_omit_int:
  assumes "tbl (ToLower k) = Some d" and "n \<noteq> 0 \<Longrightarrow> d (json_int n) r = Some r'" and "n = 0 \<Longrightarrow> r' = r"
  shows "dec_fields tbl (omit_int k n @ fs) r = dec_fields tbl fs r'"
  using assms by (auto simp: omit_int_def)

lemma dec_omit_ptr:
  assumes "tbl (ToLower k) = Some (\<lambda>j r. map_option (\<lambda>v. upd v r) (dec_ptr z d j (sel r)))"
    and "\<And>x. v = Some x \<Longrightarrow> f x \<noteq> JNull \<and> d (f x) z = Some x" and "sel r = None" and "upd None r = r"
  shows "dec_fields tbl (omit_ptr f k v @ fs) r = dec_fields tbl fs (upd v r)"
  using assms by (cases v) (auto simp: omit_ptr_def dec_ptr_def)

definition entry_ok :: "Entry \<Rightarrow> bool" where
  "entry_ok e \<longleftrightarrow> entry_times_ok e \<and> in_int64 (eBytes e) \<and> in_int64 (ePlaintextBytes e) \<and>
     list_all valid_utf8 [eID e, eTarget e, eEngine e, eOutcome e, eKind e, eTier e, eKey e,
       eManifestKey e, eGlobalsKey e, eSHA256 e, eVerifyLevel e, ePhase e, eError e]"

lemma json_time_neq [simp]: "json_time t \<noteq> JNull"
  by (simp add: json_time_def)

lemma entry_decode:
  assumes "entry_times_ok e" "in_int64 (eBytes e)" "in_int64 (ePlaintextBytes e)"
  shows "dec_fields entry_table (entry_fields e) zero_Entry = Some e"
proof (cases e)
  case (fields i tg en oc ki ti st fi ke mk gk bb pb sh va vl vo ph er)
  have ok: "json_time_ok st" "json_time_ok fi" "\<And>t. va = Some t \<Longrightarrow> json_time_ok t" "in_int64 bb" "in_int64 pb"
    using assms by (auto simp: fields entry_times_ok_def)
  have "dec_fields entry_table (entry_fields e @ []) zero_Entry = Some e"
    unfolding entry_fields_def append_assoc append_Cons append_Nil zero_Entry_def fields Entry.select_convs
    by ((rule trans [OF dec_member], simp add: entry_table_def, simp add: ok)
       | (rule trans [OF dec_omit_str] trans [OF dec_omit_int], simp add: entry_table_def, simp add: ok, simp)
       | (rule trans [OF dec_omit_ptr], simp add: entry_table_def, simp add: ok, simp, simp))+ simp
  then show ?thesis by simp
qed

text \<open>Well-formedness of a member list, member by member.\<close>

definition wf_fields :: "fields \<Rightarrow> bool" where
  "wf_fields fs \<longleftrightarrow> (\<forall>kv\<in>set fs. valid_utf8 (fst kv) \<and> wf_json (snd kv))"

lemma wf_fields_simps [simp]:
  "wf_fields []" "wf_fields (kv # fs) \<longleftrightarrow> valid_utf8 (fst kv) \<and> wf_json (snd kv) \<and> wf_fields fs"
  "wf_fields (fs @ gs) \<longleftrightarrow> wf_fields fs \<and> wf_fields gs" "wf_json (JObj fs) \<longleftrightarrow> wf_fields fs"
  by (auto simp: wf_fields_def)

lemma wf_fields_omit:
  "ascii k \<Longrightarrow> valid_utf8 s \<Longrightarrow> wf_fields (omit_str k s)"
  "ascii k \<Longrightarrow> wf_fields (omit_int k n)"
  "ascii k \<Longrightarrow> (\<And>x. v = Some x \<Longrightarrow> wf_json (f x)) \<Longrightarrow> wf_fields (omit_ptr f k v)"
  by (auto simp: omit_str_def omit_int_def omit_ptr_def valid_utf8_ascii split: option.splits)

lemma entry_fields_wf: "entry_ok e \<Longrightarrow> wf_json (JObj (entry_fields e))"
  by (simp add: entry_ok_def entry_fields_def wf_fields_omit valid_utf8_ascii del: wf_json.simps(4) valid_utf8.simps)

lemma entry_roundtrip:
  assumes "entry_ok e"
  shows "\<exists>line. entry_Marshal e = Inr line \<and> entry_Unmarshal line = Some e"
proof -
  have "json_parse (print_json None (JObj (entry_fields e)) @ []) = Some (JObj (entry_fields e))"
    by (rule json_parse_print [OF entry_fields_wf [OF assms]]) simp
  then show ?thesis using assms
    by (simp add: entry_Marshal_def entry_Unmarshal_def entry_decode entry_ok_def)
qed

subsection \<open>One entry is one line\<close>

lemma hex_digit_not_nl: "d < 16 \<Longrightarrow> CHR 0x0A \<noteq> hex_digit d"
proof
  assume "d < 16" and "CHR 0x0A = hex_digit d"
  then have "byte (hex_digit d) = byte (CHR 0x0A)" by presburger
  with \<open>d < 16\<close> show False by (auto simp: hex_digit_def split: if_splits)
qed

lemma u_escape_no_nl: "CHR 0x0A \<notin> set (u_escape u)"
  using hex_digit_not_nl [of "u div 4096 mod 16"] hex_digit_not_nl [of "u div 256 mod 16"]
    hex_digit_not_nl [of "u div 16 mod 16"] hex_digit_not_nl [of "u mod 16"]
  by (auto simp: u_escape_def backslash_def)

lemma escape_byte_no_nl: "CHR 0x0A \<notin> set (escape_byte c)"
  using u_escape_no_nl by (auto simp: escape_byte_def backslash_def quote_char_def)

lemma rune_high_bytes:
  "rune_size s = Some n \<Longrightarrow> n \<noteq> 1 \<Longrightarrow> \<forall>c\<in>set (take n s). 0x80 \<le> byte c"
  by (erule rune_size_cases) (auto simp: second_ok_def cont_byte_def split: if_splits)

lemma escape_rune_no_nl:
  assumes "rune_size (c # cs) = Some n"
  shows "CHR 0x0A \<notin> set (escape_rune (take n (c # cs)))"
proof (cases "n = 1")
  case True
  then show ?thesis by (simp add: escape_rune_def escape_byte_no_nl)
next
  case False
  then have "CHR 0x0A \<notin> set (take n (c # cs))" using rune_high_bytes [OF assms] by force
  then show ?thesis using u_escape_no_nl escape_byte_no_nl
    by (auto simp: escape_rune_def split: list.splits if_splits)
qed

lemma escape_str_no_nl: "CHR 0x0A \<notin> set (escape_str s)"
proof (induction s rule: escape_str.induct)
  case (2 c cs)
  then show ?case using escape_rune_no_nl [of c cs] u_escape_no_nl by (auto split: option.splits)
qed simp

lemma print_no_nl:
  "wf_json j \<Longrightarrow> ind = None \<Longrightarrow> CHR 0x0A \<notin> set (print_json ind j)"
  "\<forall>x\<in>set xs. wf_json x \<Longrightarrow> ind = None \<Longrightarrow> CHR 0x0A \<notin> set (print_elems ind xs)"
  "wf_fields fs \<Longrightarrow> ind = None \<Longrightarrow> CHR 0x0A \<notin> set (print_fields ind fs)"
proof (induction ind j and ind xs and ind fs rule: print_json_print_elems_print_fields.induct)
  case (3 ind l)
  then show ?case using num_lit_chars [of l] token_num(4) by (auto simp: list_all_iff)
next
  case (4 ind s)
  then show ?case by (simp add: print_str_def escape_str_no_nl quote_char_def)
next
  case (10 ind kv fs)
  then show ?case by (simp add: print_str_def escape_str_no_nl quote_char_def nl_def colon_def)
qed (simp_all add: nl_def wf_fields_def)

lemma TrimSpace_id:
  assumes "s \<noteq> []" and "\<not> is_space (hd s)" and "\<not> is_space (last s)"
  shows "TrimSpace s = s"
proof -
  have "dropWhile is_space s = s" using assms(1,2) by (cases s) auto
  moreover have "dropWhile is_space (rev s) = rev s" using assms(1,3) by (cases s rule: rev_cases) auto
  ultimately show ?thesis by (simp add: TrimSpace_def)
qed

definition lines_text :: "string list \<Rightarrow> string" where
  "lines_text ls = concat (map (\<lambda>l. l @ [CHR 0x0A]) ls)"

lemma scan_lines_text: "\<forall>l\<in>set ls. CHR 0x0A \<notin> set l \<Longrightarrow> scan_lines (lines_text ls) = ls"
proof -
  assume "\<forall>l\<in>set ls. CHR 0x0A \<notin> set l"
  then have "Split_char CHR 0x0A (lines_text ls) = ls @ [[]]"
    by (induction ls) (auto simp: lines_text_def Split_char_append)
  then show ?thesis by (simp add: scan_lines_def)
qed

definition entry_line :: "Entry \<Rightarrow> string" where
  "entry_line e = print_json None (JObj (entry_fields e))"

lemma entry_line_shape: "\<exists>t. entry_line e = CHR ''{'' # t @ [CHR ''}'']"
  by (auto simp: entry_line_def entry_fields_def nl_def)

lemma entry_line_facts:
  assumes "entry_ok e"
  shows "entry_Marshal e = Inr (entry_line e)" and "entry_Unmarshal (entry_line e) = Some e"
    and "TrimSpace (entry_line e) = entry_line e" and "CHR 0x0A \<notin> set (entry_line e)"
    and "entry_line e \<noteq> []"
proof -
  obtain t where t: "entry_line e = CHR ''{'' # t @ [CHR ''}'']" using entry_line_shape by blast
  then show "TrimSpace (entry_line e) = entry_line e" and "entry_line e \<noteq> []"
    by (auto intro!: TrimSpace_id simp: is_space_def)
  show "entry_Marshal e = Inr (entry_line e)" and "entry_Unmarshal (entry_line e) = Some e"
    using entry_roundtrip [OF assms] assms by (auto simp: entry_Marshal_def entry_line_def entry_ok_def)
  show "CHR 0x0A \<notin> set (entry_line e)"
    unfolding entry_line_def by (rule print_no_nl(1) [OF entry_fields_wf [OF assms] refl])
qed

text \<open>An entry whose line also fits the scanner's buffer.\<close>

definition entry_storable :: "Entry \<Rightarrow> bool" where
  "entry_storable e \<longleftrightarrow> entry_ok e \<and> length (entry_line e) < max_line"

lemma parse_lines_entries:
  assumes "\<forall>e\<in>set es. entry_storable e"
  shows "parse_lines n (map entry_line es) acc = (acc @ es, None)"
  using assms
proof (induction es arbitrary: n acc)
  case (Cons e es)
  then show ?case
    using entry_line_facts [of e] by (simp add: entry_storable_def)
qed simp

lemma ParseIndex_lines:
  assumes "\<forall>e\<in>set es. entry_storable e"
  shows "ParseIndex (lines_text (map entry_line es)) = (es, None)"
proof -
  have "scan_lines (lines_text (map entry_line es)) = map entry_line es"
    using assms by (intro scan_lines_text) (auto simp: entry_storable_def entry_line_facts)
  then show ?thesis using parse_lines_entries [OF assms, of 1 "[]"] by (simp add: ParseIndex_def)
qed

lemma lines_text_snoc: "lines_text (ls @ [l]) = lines_text ls @ l @ [CHR 0x0A]"
  by (simp add: lines_text_def)

lemma last_lines_text: "lines_text ls \<noteq> [] \<Longrightarrow> last (lines_text ls) = CHR 0x0A"
  by (cases ls rule: rev_cases) (simp_all add: lines_text_snoc, simp add: lines_text_def)

lemma AppendEntry_lines:
  assumes "entry_ok e"
  shows "AppendEntry (lines_text ls) e = Inr (lines_text (ls @ [entry_line e]))"
  using last_lines_text [of ls] entry_line_facts(1) [OF assms]
  by (auto simp: AppendEntry_def lines_text_snoc)

end
