(* ===== verification/Float64.thy ===== *)
theory Float64
  imports Codec "HOL-Library.List_Lexorder" "HOL-Library.Char_ord"
begin

text \<open>
  What \<open>encoding/json\<close> does to a value it decodes into an \<open>any\<close>: a number becomes a float64,
  an object a map. A float64 is kept as the literal the encoder writes for it, the shortest
  decimal that rounds to it; a map as its members in the order of their keys.
\<close>

section \<open>Rounding to float64\<close>

fun bit_len :: "nat \<Rightarrow> nat" where
  "bit_len n = (if n = 0 then 0 else Suc (bit_len (n div 2)))"

declare bit_len.simps [simp del]

text \<open>\<open>2 ^ k \<le> num / den\<close>, and the largest such \<open>k\<close>.\<close>

definition pow2_le :: "int \<Rightarrow> nat \<Rightarrow> nat \<Rightarrow> bool" where
  "pow2_le k num den \<longleftrightarrow> den * 2 ^ nat k \<le> num * 2 ^ nat (- k)"

definition floor_log2 :: "nat \<Rightarrow> nat \<Rightarrow> int" where
  "floor_log2 num den =
     (let k = int (bit_len num) - int (bit_len den) in if pow2_le k num den then k else k - 1)"

definition round_half_even :: "nat \<Rightarrow> nat \<Rightarrow> nat" where
  "round_half_even a b =
     (let q = a div b; r = a mod b in if 2 * r < b \<or> 2 * r = b \<and> even q then q else q + 1)"

text \<open>The float64 nearest to \<open>num / den\<close> as mantissa and exponent, \<open>None\<close> when it is out of range.\<close>

definition nearest64 :: "nat \<Rightarrow> nat \<Rightarrow> (nat \<times> int) option" where
  "nearest64 num den =
     (if num = 0 then Some (0, 0)
      else let e = max (-1074) (floor_log2 num den - 52);
               m = round_half_even (num * 2 ^ nat (- e)) (den * 2 ^ nat e);
               (m', e') = (if m = 2 ^ 53 then (2 ^ 52, e + 1) else (m, e))
           in if 0 \<le> e' \<and> 2 ^ 1024 \<le> m' * 2 ^ nat e' then None else Some (m', e'))"

text \<open>A JSON number: its sign, and the fraction it denotes.\<close>

definition lit_exponent :: "string \<Rightarrow> int" where
  "lit_exponent s =
     (case s of
        [] \<Rightarrow> 0
      | _ # t \<Rightarrow>
          (case t of
             [] \<Rightarrow> 0
           | d # u \<Rightarrow> if d = CHR ''-'' then - int (dec_nat u) else if d = CHR ''+'' then int (dec_nat u) else int (dec_nat t)))"

definition lit_value :: "string \<Rightarrow> bool \<times> nat \<times> nat" where
  "lit_value l =
     (let neg = HasPrefix l ''-''; s = (if neg then tl l else l);
          ip = takeWhile is_digit s; s1 = dropWhile is_digit s;
          fp = (if HasPrefix s1 ''.'' then takeWhile is_digit (tl s1) else []);
          s2 = (if HasPrefix s1 ''.'' then dropWhile is_digit (tl s1) else s1);
          k = lit_exponent s2 - int (length fp)
      in (neg, dec_nat (ip @ fp) * 10 ^ nat k, 10 ^ nat (- k)))"

section \<open>The literal of a float64\<close>

text \<open>
  The digits of \<open>m * 2 ^ e\<close> and the position of its decimal point. \<open>strconv\<close> writes an integer
  below \<open>2 ^ 53\<close> with its own digits; any other value with the fewest digits that round
  back to it, and of those the nearest.
\<close>

definition decimal_point :: "nat \<Rightarrow> nat \<Rightarrow> int" where
  "decimal_point num den =
     (case find (\<lambda>d. num * 10 ^ nat (- d) < den * 10 ^ nat d) (map (\<lambda>i. int i - 330) [0..<650]) of Some d \<Rightarrow> d | None \<Rightarrow> 320)"

text \<open>The decimals of \<open>k\<close> digits on both sides of \<open>num / den\<close>, the nearer one first.\<close>

definition decimals_near :: "nat \<Rightarrow> nat \<Rightarrow> int \<Rightarrow> nat \<Rightarrow> nat list" where
  "decimals_near num den dp k =
     (let a = num * 10 ^ nat (int k - dp); b = den * 10 ^ nat (dp - int k); lo = a div b; r = a mod b
      in if 2 * r < b \<or> 2 * r = b \<and> even lo then [lo, lo + 1] else [lo + 1, lo])"

definition shortest_from :: "nat \<Rightarrow> int \<Rightarrow> int \<Rightarrow> nat \<Rightarrow> (nat \<times> nat) option" where
  "shortest_from m e dp k =
     map_option (Pair k)
       (find (\<lambda>d. nearest64 (d * 10 ^ nat (dp - int k)) (10 ^ nat (int k - dp)) = Some (m, e))
          (decimals_near (m * 2 ^ nat e) (2 ^ nat (- e)) dp k))"

definition shortest_digits :: "nat \<Rightarrow> int \<Rightarrow> string \<times> int" where
  "shortest_digits m e =
     (if e \<le> 0 \<and> 2 ^ nat (- e) dvd m then (let s = itoa_nat (m div 2 ^ nat (- e)) in (s, int (length s)))
      else
        let dp = decimal_point (m * 2 ^ nat e) (2 ^ nat (- e)) in
        case List.map_filter (shortest_from m e dp) [1..<18] of
          (k, d) # _ \<Rightarrow> (let s = itoa_nat d in (s, dp + int (length s) - int k))
        | [] \<Rightarrow> (itoa_nat m, dp))"

definition digit_at :: "string \<Rightarrow> int \<Rightarrow> char" where
  "digit_at ds i = (if 0 \<le> i \<and> i < int (length ds) then ds ! nat i else CHR ''0'')"

definition fixed_text :: "string \<Rightarrow> int \<Rightarrow> string" where
  "fixed_text ds dp =
     (if 0 < dp then map (\<lambda>i. digit_at ds (int i)) [0..<nat dp] else ''0'')
     @ (if int (length ds) - dp > 0
        then CHR ''.'' # map (\<lambda>i. digit_at ds (dp + int i)) [0..<nat (int (length ds) - dp)] else [])"

definition scientific_text :: "string \<Rightarrow> int \<Rightarrow> string" where
  "scientific_text ds dp =
     take 1 ds @ (if length ds > 1 then CHR ''.'' # tl ds else []) @ ''e''
     @ (if dp - 1 < 0 then ''-'' else ''+'') @ itoa_nat (nat (abs (dp - 1)))"

text \<open>The encoder writes an exponent below \<open>1e-6\<close> and from \<open>1e21\<close> on, both as float64.\<close>

definition micro64 :: "nat \<times> nat" where
  "micro64 = (4722366482869645, 2 ^ 72)"

definition float_text :: "bool \<Rightarrow> nat \<times> int \<Rightarrow> string" where
  "float_text neg f =
     (case f of (m, e) \<Rightarrow>
        (if neg then ''-'' else []) @
        (if m = 0 then ''0''
         else let (ds0, dp) = shortest_digits m e;
                  num = m * 2 ^ nat e; den = 2 ^ nat (- e);
                  ds = TrimRight (\<lambda>c. c = CHR ''0'') ds0
              in if num * snd micro64 < den * fst micro64 \<or> den * 10 ^ 21 \<le> num then scientific_text ds dp else fixed_text ds dp))"

definition float_literal :: "string \<Rightarrow> string option" where
  "float_literal l = (case lit_value l of (neg, num, den) \<Rightarrow> map_option (float_text neg) (nearest64 num den))"

section \<open>Values of type any\<close>

text \<open>An entry of a map kept in the order of its keys.\<close>

fun map_put :: "string \<Rightarrow> 'v \<Rightarrow> (string \<times> 'v) list \<Rightarrow> (string \<times> 'v) list" where
  "map_put k v [] = [(k, v)]"
| "map_put k v ((k', v') # fs) =
     (if k < k' then (k, v) # (k', v') # fs else if k = k' then (k, v) # fs else (k', v') # map_put k v fs)"

fun dec_any :: "json \<Rightarrow> json option"
  and dec_anys :: "json list \<Rightarrow> json list option"
  and dec_members :: "fields \<Rightarrow> fields \<Rightarrow> fields option" where
  "dec_any (JNum l) = map_option JNum (float_literal l)"
| "dec_any (JArr xs) = map_option JArr (dec_anys xs)"
| "dec_any (JObj fs) = map_option JObj (dec_members fs [])"
| "dec_any j = Some j"
| "dec_anys [] = Some []"
| "dec_anys (x # xs) = (case dec_any x of None \<Rightarrow> None | Some y \<Rightarrow> map_option ((#) y) (dec_anys xs))"
| "dec_members [] acc = Some acc"
| "dec_members (kv # fs) acc = (case dec_any (snd kv) of None \<Rightarrow> None | Some v \<Rightarrow> dec_members fs (map_put (fst kv) v acc))"

section \<open>Small integers\<close>

text \<open>An integer below \<open>2 ^ 53\<close> is a float64, and is written with its own digits.\<close>

lemma bit_len_le: "n < 2 ^ k \<Longrightarrow> bit_len n \<le> k"
proof (induction k arbitrary: n)
  case (Suc k)
  then have "bit_len (n div 2) \<le> k" by simp
  then show ?case by (subst bit_len.simps) simp
qed (simp add: bit_len.simps)

lemma bit_len_pow: "0 < n \<Longrightarrow> 2 ^ (bit_len n - 1) \<le> n"
proof (induction n rule: bit_len.induct)
  case (1 n)
  show ?case
  proof (cases "n div 2 = 0")
    case True
    then have "bit_len n = 1" using "1.prems" by (simp add: bit_len.simps)
    then show ?thesis using "1.prems" by simp
  next
    case False
    then have pos: "0 < n div 2" and len: "bit_len n = Suc (bit_len (n div 2))" "bit_len (n div 2) \<noteq> 0"
      using "1.prems" by (simp_all add: bit_len.simps [of n] bit_len.simps [of "n div 2"])
    have "2 ^ (bit_len (n div 2) - 1) \<le> n div 2" using "1.IH" "1.prems" pos by simp
    moreover have "2 ^ (bit_len n - 1) = 2 * (2::nat) ^ (bit_len (n div 2) - 1)"
      using len by (cases "bit_len (n div 2)") simp_all
    ultimately show ?thesis by linarith
  qed
qed

lemma floor_log2_int:
  assumes "0 < n"
  shows "floor_log2 n 1 = int (bit_len n) - 1"
proof -
  have one: "bit_len (Suc 0) = 1" by (simp add: bit_len.simps)
  obtain k where k: "bit_len n = Suc k" using assms by (subst (asm) bit_len.simps) auto
  then have "2 ^ k \<le> n" using bit_len_pow [OF assms] by simp
  then show ?thesis by (simp add: floor_log2_def pow2_le_def Let_def one k)
qed

lemma round_exact: "0 < b \<Longrightarrow> round_half_even (a * b) b = a"
  by (simp add: round_half_even_def Let_def)

lemma nearest64_int:
  assumes "0 < n" and "n < 2 ^ 53"
  shows "\<exists>k. nearest64 n 1 = Some (n * 2 ^ k, - int k)"
proof -
  define k where "k = 53 - bit_len n"
  have len: "bit_len n \<le> 53" using bit_len_le assms(2) by blast
  have e: "max (- 1074) (floor_log2 n 1 - 52) = - int k"
    using floor_log2_int [OF assms(1)] len by (simp add: k_def)
  have "n < 2 ^ bit_len n"
  proof (induction n rule: bit_len.induct)
    case (1 n)
    show ?case
    proof (cases "n = 0")
      case False
      then have "n div 2 < 2 ^ bit_len (n div 2)" and "bit_len n = Suc (bit_len (n div 2))"
        using 1 by (blast, simp add: bit_len.simps [of n])
      then show ?thesis by simp
    qed simp
  qed
  then have "n * 2 ^ k < 2 ^ bit_len n * 2 ^ k" by simp
  also have "\<dots> = (2::nat) ^ 53" using len by (simp add: k_def flip: power_add)
  finally have "n * 2 ^ k \<noteq> 2 ^ 53" and small: "n * 2 ^ k < 2 ^ 53" by simp_all
  moreover have "round_half_even (n * 2 ^ nat (- (- int k))) (1 * 2 ^ nat (- int k)) = n * 2 ^ k"
    using round_exact [of 1 "n * 2 ^ k"] by simp
  moreover have "\<not> (0 \<le> - int k \<and> (2::nat) ^ 1024 \<le> n * 2 ^ k * 2 ^ nat (- int k))"
  proof
    assume "0 \<le> - int k \<and> (2::nat) ^ 1024 \<le> n * 2 ^ k * 2 ^ nat (- int k)"
    then have "k = 0" and "(2::nat) ^ 1024 \<le> n * 2 ^ k * 2 ^ nat (- int k)" by (linarith, blast)
    then have "(2::nat) ^ 1024 \<le> n" by simp
    moreover have "(2::nat) ^ 53 < 2 ^ 1024" by (rule power_strict_increasing) simp_all
    ultimately show False using assms(2) by linarith
  qed
  ultimately have "nearest64 n 1 = Some (n * 2 ^ k, - int k)"
    using assms(1) unfolding nearest64_def Let_def e by simp
  then show ?thesis ..
qed

lemma TrimRight_prefix: "\<exists>z. s = TrimRight P s @ z \<and> list_all P z"
proof -
  have "s = rev (dropWhile P (rev s)) @ rev (takeWhile P (rev s))"
    by (metis rev_append rev_rev_ident takeWhile_dropWhile_id)
  moreover have "list_all P (rev (takeWhile P (rev s)))"
    by (auto simp: list_all_iff dest: set_takeWhileD)
  ultimately show ?thesis by (auto simp: TrimRight_def)
qed

lemma fixed_text_digits:
  assumes "s = ds @ z" and "list_all (\<lambda>c. c = CHR ''0'') z" and "s \<noteq> []"
  shows "fixed_text ds (int (length s)) = s"
proof -
  have "map (\<lambda>i. digit_at ds (int i)) [0..<length s] = s"
  proof (rule nth_equalityI)
    fix i assume "i < length (map (\<lambda>i. digit_at ds (int i)) [0..<length s])"
    then have i: "i < length s" by simp
    show "map (\<lambda>i. digit_at ds (int i)) [0..<length s] ! i = s ! i"
    proof (cases "i < length ds")
      case True
      then show ?thesis using i assms(1) by (simp add: digit_at_def nth_append)
    next
      case False
      then have "i - length ds < length z" using i assms(1) by simp
      then have "z ! (i - length ds) = CHR ''0''" using assms(2) by (simp add: list_all_length)
      then show ?thesis using False i assms(1) by (simp add: digit_at_def nth_append)
    qed
  qed simp
  moreover have "0 < length s" "length ds \<le> length s" using assms(1,3) by auto
  ultimately show ?thesis by (simp add: fixed_text_def)
qed

lemma float_text_int:
  assumes "0 < n" and "n < 2 ^ 53"
  shows "float_text neg (n * 2 ^ k, - int k) = (if neg then ''-'' else []) @ itoa_nat n"
proof -
  have sd: "shortest_digits (n * 2 ^ k) (- int k) = (itoa_nat n, int (length (itoa_nat n)))"
    by (simp add: shortest_digits_def Let_def)
  obtain z where z: "itoa_nat n = TrimRight (\<lambda>c. c = CHR ''0'') (itoa_nat n) @ z" "list_all (\<lambda>c. c = CHR ''0'') z"
    using TrimRight_prefix by blast
  have fx: "fixed_text (TrimRight (\<lambda>c. c = CHR ''0'') (itoa_nat n)) (int (length (itoa_nat n))) = itoa_nat n"
    by (rule fixed_text_digits [OF z itoa_nat_nonempty])
  have "2 ^ k * fst micro64 < n * 2 ^ k * snd micro64"
  proof -
    have "fst micro64 < n * snd micro64" using assms(1) by (cases n) (simp_all add: micro64_def)
    then show ?thesis by simp
  qed
  moreover have "n * 2 ^ k < 2 ^ k * 10 ^ 21"
    using assms(2) by simp
  ultimately show ?thesis using assms(1) sd fx by (simp add: float_text_def Let_def)
qed

lemma lit_value_Itoa: "lit_value (Itoa n) = (n < 0, nat (abs n), 1)"
proof -
  have d: "takeWhile is_digit (itoa_nat k) = itoa_nat k" "dropWhile is_digit (itoa_nat k) = []" for k
    using takeWhile_all [OF itoa_nat_digits [of k]] by blast+
  obtain c cs where c: "itoa_nat (nat n) = c # cs" "is_digit c" using itoa_nat_hd_digit by blast
  then have m: "HasPrefix (itoa_nat (nat n)) ''-'' \<longleftrightarrow> False" by (auto simp: HasPrefix_def)
  have "HasPrefix (CHR ''-'' # s) ''-''" "\<not> HasPrefix [] ''.''" for s by (simp_all add: HasPrefix_def)
  then show ?thesis by (simp add: lit_value_def Itoa_def Let_def d m lit_exponent_def)
qed

lemma float_literal_Itoa:
  assumes "abs n < 2 ^ 53"
  shows "float_literal (Itoa n) = Some (Itoa n)"
proof (cases "n = 0")
  case True
  have "itoa_nat 0 = ''0''" by code_simp
  then show ?thesis using True lit_value_Itoa [of 0]
    by (simp add: float_literal_def nearest64_def float_text_def Itoa_def)
next
  case False
  then have pos: "0 < nat (abs n)" "nat (abs n) < 2 ^ 53" using assms by (simp_all add: nat_less_iff)
  obtain k where "nearest64 (nat (abs n)) 1 = Some (nat (abs n) * 2 ^ k, - int k)" using nearest64_int [OF pos] by blast
  then have "float_literal (Itoa n) = Some ((if n < 0 then ''-'' else []) @ itoa_nat (nat (abs n)))"
    using float_text_int [OF pos, of "n < 0" k] by (simp add: float_literal_def lit_value_Itoa)
  then show ?thesis by (simp add: Itoa_def)
qed

section \<open>Values that read back\<close>

text \<open>Values that decode to themselves: small integers, strings, and maps in the order of their keys.\<close>

fun plain_json :: "json \<Rightarrow> bool" where
  "plain_json (JNum l) = (case Atoi l of None \<Rightarrow> False | Some n \<Rightarrow> l = Itoa n \<and> abs n < 2 ^ 53)"
| "plain_json (JArr xs) = (\<forall>x\<in>set xs. plain_json x)"
| "plain_json (JObj fs) = (sorted_wrt (<) (map fst fs) \<and> (\<forall>kv\<in>set fs. plain_json (snd kv)))"
| "plain_json _ = True"

lemma map_put_last: "\<forall>k'\<in>set (map fst acc). k' < k \<Longrightarrow> map_put k v acc = acc @ [(k, v)]"
  by (induction acc) auto

lemma dec_plain:
  "plain_json j \<Longrightarrow> dec_any j = Some j"
  "\<forall>x\<in>set xs. plain_json x \<Longrightarrow> dec_anys xs = Some xs"
  "\<forall>kv\<in>set fs. plain_json (snd kv) \<Longrightarrow> sorted_wrt (<) (map fst (acc @ fs)) \<Longrightarrow> dec_members fs acc = Some (acc @ fs)"
proof (induction j and xs and fs acc rule: dec_any_dec_anys_dec_members.induct)
  case (1 l)
  then show ?case using float_literal_Itoa by (auto split: option.splits)
next
  case (8 kv fs acc)
  then have "map_put (fst kv) (snd kv) acc = acc @ [kv]"
    by (subst map_put_last) (auto simp: sorted_wrt_append)
  then show ?case using 8 by simp
qed auto

end
