(* ===== verification/Manifest_Codec.thy ===== *)
theory Manifest_Codec
  imports Manifest Float64
begin

text \<open>
  \<open>Manifest.Marshal\<close> and \<open>manifest.Unmarshal\<close>: the indented JSON document beside a backup,
  and that reading it back gives the manifest. A nil and an empty \<open>tables\<close> slice are one
  value here and are written as \<open>null\<close>. The details of a verification are a \<open>map[string]any\<close>:
  reading them back turns their numbers into float64 and their structs into maps.
\<close>

section \<open>Encoding\<close>

definition object_json :: "StoredObject \<Rightarrow> json" where
  "object_json ob = JObj [(''key'', JStr (soKey ob)), (''bytes'', json_int (soBytes ob)), (''sha256'', JStr (soSHA256 ob))]"

definition plaintext_json :: "Plaintext \<Rightarrow> json" where
  "plaintext_json p = JObj [(''bytes'', json_int (ptBytes p)), (''sha256'', JStr (ptSHA256 p))]"

definition pipeline_json :: "PipelineRec \<Rightarrow> json" where
  "pipeline_json p = JObj [(''compression'', JStr (prCompression p)),
     (''encryption'', JStr (prEncryption p)), (''dumper'', JStr (prDumper p))]"

definition table_json :: "TableInfo \<Rightarrow> json" where
  "table_json t = JObj ([(''name'', JStr (tiName t)), (''rows'', json_int (tiRows t)),
     (''rows_exact'', JBool (tiRowsExact t))] @ omit_str ''storage_engine'' (tiStorageEngine t))"

text \<open>\<open>json.Marshal\<close> writes a map with its keys in order.\<close>

definition verify_json :: "VerifyRec \<Rightarrow> json" where
  "verify_json v = JObj ([(''level'', JStr (vLevel v)), (''at'', json_time (vAt v)), (''ok'', JBool (vOK v))]
     @ (if vDetails v = [] then [] else [(''details'', JObj (sort_key fst (vDetails v)))]))"

definition json_slice :: "('a \<Rightarrow> json) \<Rightarrow> 'a list \<Rightarrow> json" where
  "json_slice f xs = (if xs = [] then JNull else JArr (map f xs))"

definition manifest_fields :: "Manifest \<Rightarrow> fields" where
  "manifest_fields m =
     [(''schema'', json_int (mfSchema m)), (''id'', JStr (mfID m)), (''target'', JStr (mfTarget m)),
      (''engine'', JStr (mfEngine m)), (''server_version'', JStr (mfServerVersion m)),
      (''started_at'', json_time (mfStartedAt m)), (''finished_at'', json_time (mfFinishedAt m)),
      (''duration_ms'', json_int (mfDurationMS m)), (''kind'', JStr (mfKind m)), (''tier'', JStr (mfTier m)),
      (''object'', object_json (mfObject m)), (''plaintext'', plaintext_json (mfPlaintext m))]
     @ omit_ptr object_json ''globals'' (mfGlobals m)
     @ [(''pipeline'', pipeline_json (mfPipeline m)), (''consistency'', JStr (mfConsistency m)),
        (''binlog'', json_ptr JStr (mfBinlog m)), (''oplog_end'', json_ptr JStr (mfOplogEnd m)),
        (''tables'', json_slice table_json (mfTables m)), (''verify'', json_ptr verify_json (mfVerify m))]
     @ (if mfWarnings m = [] then [] else [(''warnings'', JArr (map JStr (mfWarnings m)))])
     @ [(''vaultd_version'', JStr (mfVaultdVersion m))]"

definition manifest_times_ok :: "Manifest \<Rightarrow> bool" where
  "manifest_times_ok m \<longleftrightarrow> json_time_ok (mfStartedAt m) \<and> json_time_ok (mfFinishedAt m)
     \<and> (case mfVerify m of None \<Rightarrow> True | Some v \<Rightarrow> json_time_ok (vAt v))"

definition Manifest_Marshal :: "Manifest \<Rightarrow> string result" where
  "Manifest_Marshal m =
     (if manifest_times_ok m then Inr (print_json (Some 0) (JObj (manifest_fields m)) @ [CHR 0x0A])
      else Inl (ErrWrap ''encoding manifest'' time_range_error))"

section \<open>Decoding\<close>

definition object_table :: "StoredObject field_table" where
  "object_table k =
     (if k = ''key'' then Some (\<lambda>j r. map_option (\<lambda>v. r\<lparr>soKey := v\<rparr>) (dec_str j (soKey r)))
      else if k = ''bytes'' then Some (\<lambda>j r. map_option (\<lambda>v. r\<lparr>soBytes := v\<rparr>) (dec_int j (soBytes r)))
      else if k = ''sha256'' then Some (\<lambda>j r. map_option (\<lambda>v. r\<lparr>soSHA256 := v\<rparr>) (dec_str j (soSHA256 r)))
      else None)"

definition plaintext_table :: "Plaintext field_table" where
  "plaintext_table k =
     (if k = ''bytes'' then Some (\<lambda>j r. map_option (\<lambda>v. r\<lparr>ptBytes := v\<rparr>) (dec_int j (ptBytes r)))
      else if k = ''sha256'' then Some (\<lambda>j r. map_option (\<lambda>v. r\<lparr>ptSHA256 := v\<rparr>) (dec_str j (ptSHA256 r)))
      else None)"

definition pipeline_table :: "PipelineRec field_table" where
  "pipeline_table k =
     (if k = ''compression'' then Some (\<lambda>j r. map_option (\<lambda>v. r\<lparr>prCompression := v\<rparr>) (dec_str j (prCompression r)))
      else if k = ''encryption'' then Some (\<lambda>j r. map_option (\<lambda>v. r\<lparr>prEncryption := v\<rparr>) (dec_str j (prEncryption r)))
      else if k = ''dumper'' then Some (\<lambda>j r. map_option (\<lambda>v. r\<lparr>prDumper := v\<rparr>) (dec_str j (prDumper r)))
      else None)"

definition tableinfo_table :: "TableInfo field_table" where
  "tableinfo_table k =
     (if k = ''name'' then Some (\<lambda>j r. map_option (\<lambda>v. r\<lparr>tiName := v\<rparr>) (dec_str j (tiName r)))
      else if k = ''rows'' then Some (\<lambda>j r. map_option (\<lambda>v. r\<lparr>tiRows := v\<rparr>) (dec_int j (tiRows r)))
      else if k = ''rows_exact'' then Some (\<lambda>j r. map_option (\<lambda>v. r\<lparr>tiRowsExact := v\<rparr>) (dec_bool j (tiRowsExact r)))
      else if k = ''storage_engine'' then Some (\<lambda>j r. map_option (\<lambda>v. r\<lparr>tiStorageEngine := v\<rparr>) (dec_str j (tiStorageEngine r)))
      else None)"

text \<open>An object goes into the map that is there already.\<close>

fun dec_details :: "fields decoder" where
  "dec_details (JObj fs) old = dec_members fs old"
| "dec_details JNull old = Some []"
| "dec_details _ old = None"

definition verify_table :: "VerifyRec field_table" where
  "verify_table k =
     (if k = ''level'' then Some (\<lambda>j r. map_option (\<lambda>v. r\<lparr>vLevel := v\<rparr>) (dec_str j (vLevel r)))
      else if k = ''at'' then Some (\<lambda>j r. map_option (\<lambda>v. r\<lparr>vAt := v\<rparr>) (dec_time j (vAt r)))
      else if k = ''ok'' then Some (\<lambda>j r. map_option (\<lambda>v. r\<lparr>vOK := v\<rparr>) (dec_bool j (vOK r)))
      else if k = ''details'' then Some (\<lambda>j r. map_option (\<lambda>v. r\<lparr>vDetails := v\<rparr>) (dec_details j (vDetails r)))
      else None)"

definition zero_Object :: StoredObject where "zero_Object = \<lparr>soKey = [], soBytes = 0, soSHA256 = []\<rparr>"
definition zero_Table :: TableInfo where
  "zero_Table = \<lparr>tiName = [], tiRows = 0, tiRowsExact = False, tiStorageEngine = []\<rparr>"
definition zero_Verify :: VerifyRec where "zero_Verify = \<lparr>vLevel = [], vAt = 0, vOK = False, vDetails = []\<rparr>"

definition zero_Manifest :: Manifest where
  "zero_Manifest = \<lparr>mfSchema = 0, mfID = [], mfTarget = [], mfEngine = [], mfServerVersion = [],
     mfStartedAt = 0, mfFinishedAt = 0, mfDurationMS = 0, mfKind = [], mfTier = [], mfObject = zero_Object,
     mfPlaintext = \<lparr>ptBytes = 0, ptSHA256 = []\<rparr>, mfGlobals = None,
     mfPipeline = \<lparr>prCompression = [], prEncryption = [], prDumper = []\<rparr>, mfConsistency = [],
     mfBinlog = None, mfOplogEnd = None, mfTables = [], mfVerify = None, mfWarnings = [],
     mfVaultdVersion = []\<rparr>"

definition manifest_table :: "Manifest field_table" where
  "manifest_table k =
     (if k = ''schema'' then Some (\<lambda>j r. map_option (\<lambda>v. r\<lparr>mfSchema := v\<rparr>) (dec_int j (mfSchema r)))
      else if k = ''id'' then Some (\<lambda>j r. map_option (\<lambda>v. r\<lparr>mfID := v\<rparr>) (dec_str j (mfID r)))
      else if k = ''target'' then Some (\<lambda>j r. map_option (\<lambda>v. r\<lparr>mfTarget := v\<rparr>) (dec_str j (mfTarget r)))
      else if k = ''engine'' then Some (\<lambda>j r. map_option (\<lambda>v. r\<lparr>mfEngine := v\<rparr>) (dec_str j (mfEngine r)))
      else if k = ''server_version'' then Some (\<lambda>j r. map_option (\<lambda>v. r\<lparr>mfServerVersion := v\<rparr>) (dec_str j (mfServerVersion r)))
      else if k = ''started_at'' then Some (\<lambda>j r. map_option (\<lambda>v. r\<lparr>mfStartedAt := v\<rparr>) (dec_time j (mfStartedAt r)))
      else if k = ''finished_at'' then Some (\<lambda>j r. map_option (\<lambda>v. r\<lparr>mfFinishedAt := v\<rparr>) (dec_time j (mfFinishedAt r)))
      else if k = ''duration_ms'' then Some (\<lambda>j r. map_option (\<lambda>v. r\<lparr>mfDurationMS := v\<rparr>) (dec_int j (mfDurationMS r)))
      else if k = ''kind'' then Some (\<lambda>j r. map_option (\<lambda>v. r\<lparr>mfKind := v\<rparr>) (dec_str j (mfKind r)))
      else if k = ''tier'' then Some (\<lambda>j r. map_option (\<lambda>v. r\<lparr>mfTier := v\<rparr>) (dec_str j (mfTier r)))
      else if k = ''object'' then Some (\<lambda>j r. map_option (\<lambda>v. r\<lparr>mfObject := v\<rparr>) (dec_struct object_table j (mfObject r)))
      else if k = ''plaintext'' then Some (\<lambda>j r. map_option (\<lambda>v. r\<lparr>mfPlaintext := v\<rparr>) (dec_struct plaintext_table j (mfPlaintext r)))
      else if k = ''globals'' then Some (\<lambda>j r. map_option (\<lambda>v. r\<lparr>mfGlobals := v\<rparr>) (dec_ptr zero_Object (dec_struct object_table) j (mfGlobals r)))
      else if k = ''pipeline'' then Some (\<lambda>j r. map_option (\<lambda>v. r\<lparr>mfPipeline := v\<rparr>) (dec_struct pipeline_table j (mfPipeline r)))
      else if k = ''consistency'' then Some (\<lambda>j r. map_option (\<lambda>v. r\<lparr>mfConsistency := v\<rparr>) (dec_str j (mfConsistency r)))
      else if k = ''binlog'' then Some (\<lambda>j r. map_option (\<lambda>v. r\<lparr>mfBinlog := v\<rparr>) (dec_ptr [] dec_str j (mfBinlog r)))
      else if k = ''oplog_end'' then Some (\<lambda>j r. map_option (\<lambda>v. r\<lparr>mfOplogEnd := v\<rparr>) (dec_ptr [] dec_str j (mfOplogEnd r)))
      else if k = ''tables'' then Some (\<lambda>j r. map_option (\<lambda>v. r\<lparr>mfTables := v\<rparr>) (dec_slice zero_Table (dec_struct tableinfo_table) j (mfTables r)))
      else if k = ''verify'' then Some (\<lambda>j r. map_option (\<lambda>v. r\<lparr>mfVerify := v\<rparr>) (dec_ptr zero_Verify (dec_struct verify_table) j (mfVerify r)))
      else if k = ''warnings'' then Some (\<lambda>j r. map_option (\<lambda>v. r\<lparr>mfWarnings := v\<rparr>) (dec_slice [] dec_str j (mfWarnings r)))
      else if k = ''vaultd_version'' then Some (\<lambda>j r. map_option (\<lambda>v. r\<lparr>mfVaultdVersion := v\<rparr>) (dec_str j (mfVaultdVersion r)))
      else None)"

definition Manifest_Unmarshal :: "string \<Rightarrow> Manifest result" where
  "Manifest_Unmarshal b =
     (case Option.bind (json_parse b) (\<lambda>j. dec_struct manifest_table j zero_Manifest) of
        None \<Rightarrow> Inl (ErrWrap ''decoding manifest'' (ErrText ''invalid JSON''))
      | Some m \<Rightarrow>
          if mfSchema m \<noteq> Schema
          then Inl (ErrText (''manifest schema '' @ Itoa (mfSchema m)
                 @ '' is not supported by this build (expected '' @ Itoa Schema @ '')''))
          else Inr m)"

section \<open>Round trip\<close>

lemma object_decode:
  "in_int64 (soBytes ob) \<Longrightarrow> dec_struct object_table (object_json ob) r = Some ob"
  by (simp add: object_json_def object_table_def)

lemma plaintext_decode:
  "in_int64 (ptBytes p) \<Longrightarrow> dec_struct plaintext_table (plaintext_json p) r = Some p"
  by (simp add: plaintext_json_def plaintext_table_def)

lemma pipeline_decode: "dec_struct pipeline_table (pipeline_json p) r = Some p"
  by (simp add: pipeline_json_def pipeline_table_def)

lemma table_decode:
  "in_int64 (tiRows t) \<Longrightarrow> dec_struct tableinfo_table (table_json t) zero_Table = Some t"
  by (simp add: table_json_def tableinfo_table_def zero_Table_def omit_str_def)

text \<open>What reading back makes of the details, \<open>None\<close> when one of their numbers is no float64.\<close>

definition details_back :: "fields \<Rightarrow> fields option" where
  "details_back fs = dec_members (sort_key fst fs) []"

definition verify_back :: "VerifyRec \<Rightarrow> VerifyRec" where
  "verify_back v = v\<lparr>vDetails := the (details_back (vDetails v))\<rparr>"

lemma verify_decode:
  "json_time_ok (vAt v) \<Longrightarrow> details_back (vDetails v) \<noteq> None
     \<Longrightarrow> dec_struct verify_table (verify_json v) zero_Verify = Some (verify_back v)"
  by (auto simp: verify_json_def verify_table_def zero_Verify_def verify_back_def details_back_def)

lemma dec_elems_map:
  "(\<And>x. x \<in> set xs \<Longrightarrow> d (f x) z = Some x) \<Longrightarrow> dec_elems z d (map f xs) = Some xs"
  by (induction xs) auto

definition manifest_ok :: "Manifest \<Rightarrow> bool" where
  "manifest_ok m \<longleftrightarrow> manifest_times_ok m \<and> mfSchema m = Schema \<and> in_int64 (mfDurationMS m)
     \<and> in_int64 (soBytes (mfObject m)) \<and> in_int64 (ptBytes (mfPlaintext m))
     \<and> (\<forall>g. mfGlobals m = Some g \<longrightarrow> in_int64 (soBytes g))
     \<and> (\<forall>t\<in>set (mfTables m). in_int64 (tiRows t))
     \<and> (\<forall>v. mfVerify m = Some v \<longrightarrow> details_back (vDetails v) \<noteq> None)
     \<and> wf_json (JObj (manifest_fields m))"

text \<open>The manifest a reader gets.\<close>

definition manifest_back :: "Manifest \<Rightarrow> Manifest" where
  "manifest_back m = m\<lparr>mfVerify := map_option verify_back (mfVerify m)\<rparr>"

lemma manifest_back_plain:
  assumes "\<forall>v. mfVerify m = Some v \<longrightarrow> plain_json (JObj (vDetails v))"
  shows "manifest_back m = m"
proof (cases "mfVerify m")
  case (Some v)
  then have plain: "sorted_wrt (<) (map fst (vDetails v))" "\<forall>kv\<in>set (vDetails v). plain_json (snd kv)" using assms by auto
  then have "sort_key fst (vDetails v) = vDetails v"
    by (intro sort_key_id_if_sorted) (simp add: strict_sorted_iff)
  then have "details_back (vDetails v) = Some (vDetails v)"
    using dec_plain(3) [OF plain(2), of "[]"] plain(1) by (simp add: details_back_def)
  then show ?thesis using Some by (simp add: manifest_back_def verify_back_def)
qed (simp add: manifest_back_def)

text \<open>The index line of a backup shows nothing of the details.\<close>

lemma NewEntry_back: "NewEntry (manifest_back m) k = NewEntry m k"
  by (cases "mfVerify m") (simp_all add: NewEntry_def manifest_back_def verify_back_def Let_def)

lemma manifest_decode:
  assumes "manifest_ok m"
  shows "dec_fields manifest_table (manifest_fields m) zero_Manifest = Some (manifest_back m)"
proof (cases m)
  case (fields sc i tg en sv st fi du ki ti ob pt gl pi co bl oe ta ve wa vv)
  have ok: "json_time_ok st" "json_time_ok fi" "in_int64 sc" "in_int64 du" "in_int64 (soBytes ob)"
    "in_int64 (ptBytes pt)" "\<And>g. gl = Some g \<Longrightarrow> in_int64 (soBytes g)"
    "\<And>t. t \<in> set ta \<Longrightarrow> in_int64 (tiRows t)"
    "\<And>v. ve = Some v \<Longrightarrow> json_time_ok (vAt v) \<and> details_back (vDetails v) \<noteq> None"
    using assms by (auto simp: fields manifest_ok_def manifest_times_ok_def Schema_def in_int64_def)
  have tables: "dec_slice zero_Table (dec_struct tableinfo_table) (json_slice table_json ta) [] = Some ta"
    by (auto simp: json_slice_def intro!: dec_elems_map table_decode ok)
  have warn: "dec_elems [] dec_str (map JStr wa) = Some wa" by (rule dec_elems_map) simp
  have str: "dec_ptr [] dec_str (json_ptr JStr v) None = Some v" for v
    by (cases v) (simp_all add: json_ptr_def dec_ptr_def)
  have verify: "dec_ptr zero_Verify (dec_struct verify_table) (json_ptr verify_json ve) None = Some (map_option verify_back ve)"
    using ok(9) by (cases ve) (simp_all add: json_ptr_def dec_ptr_def verify_decode, simp add: verify_json_def)
  have wopt: "dec_fields manifest_table ((if wa = [] then [] else [(''warnings'', JArr (map JStr wa))]) @ fs) r
      = dec_fields manifest_table fs (r\<lparr>mfWarnings := wa\<rparr>)" if "mfWarnings r = []" for fs r
    using warn that by (cases r) (simp add: manifest_table_def)
  have glb: "\<And>g. gl = Some g \<Longrightarrow> object_json g \<noteq> JNull \<and> dec_struct object_table (object_json g) zero_Object = Some g"
    using ok(7) object_decode by (simp add: object_json_def)
  show ?thesis
    unfolding manifest_fields_def append_assoc append_Cons append_Nil zero_Manifest_def fields manifest_back_def Manifest.Manifest.select_convs
    by ((rule trans [OF dec_member], simp add: manifest_table_def,
          simp add: ok object_decode plaintext_decode pipeline_decode str tables verify)
       | (rule trans [OF dec_omit_ptr], simp add: manifest_table_def, rule glb, assumption, simp, simp)
       | (rule trans [OF wopt], simp))+ simp
qed

definition manifest_text :: "Manifest \<Rightarrow> string" where
  "manifest_text m = print_json (Some 0) (JObj (manifest_fields m)) @ [CHR 0x0A]"

lemma manifest_read_back:
  assumes "manifest_ok m"
  shows "Manifest_Marshal m = Inr (manifest_text m)" and "Manifest_Unmarshal (manifest_text m) = Inr (manifest_back m)"
proof -
  have "json_parse (manifest_text m) = Some (JObj (manifest_fields m))"
    unfolding manifest_text_def
    by (rule json_parse_print) (use assms in \<open>auto simp: manifest_ok_def json_ws_def\<close>)
  moreover have "dec_fields manifest_table (manifest_fields m) zero_Manifest = Some (manifest_back m)"
    by (rule manifest_decode [OF assms])
  ultimately show "Manifest_Marshal m = Inr (manifest_text m)" and "Manifest_Unmarshal (manifest_text m) = Inr (manifest_back m)"
    using assms by (auto simp: Manifest_Marshal_def Manifest_Unmarshal_def manifest_ok_def manifest_text_def manifest_back_def)
qed

text \<open>C12: The manifest is enough to restore from: reading back the document \<open>Marshal\<close> wrote gives
  the manifest of the backup, every field as it was, for every manifest with timestamps and
  sizes in range. Only the details of a verification are converted, being dynamic values: a number
  becomes the nearest float64 and a struct a map. Details of strings, of integers below
  \<open>2 ^ 53\<close> and of maps of them come back as they were, so such a manifest is read back exactly.\<close>

theorem manifest_roundtrip:
  assumes "manifest_ok m"
  shows "\<exists>b. Manifest_Marshal m = Inr b \<and> Manifest_Unmarshal b = Inr (manifest_back m) \<and>
    ((\<forall>v. mfVerify m = Some v \<longrightarrow> plain_json (JObj (vDetails v))) \<longrightarrow> manifest_back m = m)"
  using manifest_read_back [OF assms] manifest_back_plain by blast

definition demo_manifest :: Manifest where
  "demo_manifest = zero_Manifest\<lparr>mfSchema := Schema, mfID := ''01J'', mfTarget := ''app'',
     mfEngine := EnginePostgres, mfStartedAt := 63890000000 * Second, mfFinishedAt := 63890000060 * Second + 5,
     mfDurationMS := 60000, mfKind := KindFull, mfObject := \<lparr>soKey = ''app/x'', soBytes = 512, soSHA256 = ''ab''\<rparr>,
     mfGlobals := Some \<lparr>soKey = ''app/g'', soBytes = 9, soSHA256 = ''cd''\<rparr>, mfBinlog := Some ''pos'',
     mfTables := [\<lparr>tiName = ''public.users'', tiRows = 3, tiRowsExact = True, tiStorageEngine = []\<rparr>],
     mfVerify := Some \<lparr>vLevel = ''l2'', vAt = 63890000100 * Second, vOK = True, vDetails = [(''n'', json_int 4)]\<rparr>,
     mfWarnings := [''a < b'']\<rparr>"

lemma demo_manifest_plain: "\<forall>v. mfVerify demo_manifest = Some v \<longrightarrow> plain_json (JObj (vDetails v))"
  by (simp add: demo_manifest_def json_int_def Atoi_Itoa in_int64_def)

lemma demo_manifest_back: "manifest_back demo_manifest = demo_manifest"
  using demo_manifest_plain by (rule manifest_back_plain)

lemma demo_manifest_ok: "manifest_ok demo_manifest"
proof -
  have "details_back [(''n'', json_int 4)] = Some [(''n'', json_int 4)]"
    using float_literal_Itoa [of 4] by (simp add: details_back_def json_int_def)
  moreover
  have "manifest_times_ok demo_manifest" by code_simp
  moreover have "wf_json (JObj (manifest_fields demo_manifest))"
    by (simp add: demo_manifest_def manifest_fields_def zero_Manifest_def wf_fields_omit object_json_def
        plaintext_json_def pipeline_json_def table_json_def verify_json_def json_slice_def json_ptr_def
        omit_ptr_def omit_str_def zero_Object_def valid_utf8_ascii engine_defs KindFull_def
        del: valid_utf8.simps wf_json.simps(4))
  ultimately show ?thesis
    by (simp add: manifest_ok_def demo_manifest_def zero_Manifest_def in_int64_def)
qed

theorem manifest_roundtrip_witness:
  "\<exists>b. Manifest_Marshal demo_manifest = Inr b \<and> Manifest_Unmarshal b = Inr demo_manifest"
  using manifest_roundtrip [OF demo_manifest_ok] demo_manifest_plain by auto

end
