(* ===== verification/Keys.thy ===== *)
theory Keys
  imports Manifest_Codec
begin

text \<open>
  The object keys of \<open>manifest.Layout\<close> do not get in each other's way: the keys of one target
  lie under its prefix and under no other target's, the index and the lock lie under none,
  and two backups that do not start in the same second share no key.
\<close>

section \<open>Components of a key\<close>

lemma Join_Split: "Join [ch] (Split_char ch s) = s"
proof (induction s)
  case (Cons c s)
  obtain w ws where sp: "Split_char ch s = w # ws" by (cases "Split_char ch s") auto
  then show ?case using Cons by (cases ws) auto
qed simp

lemma Split_Join_append:
  assumes "us \<noteq> []" and "\<forall>u\<in>set us. ch \<notin> set u"
  shows "Split_char ch (Join [ch] us @ ch # w) = us @ Split_char ch w"
  using assms
proof (induction us rule: induct_list012)
  case (3 u v us)
  then show ?case by (simp add: Split_char_append)
qed (simp_all add: Split_char_append)

definition prefix_comps :: "Layout \<Rightarrow> string list" where
  "prefix_comps l = (if lPrefix l = [] then [] else Split_char CHR ''/'' (Trim_char CHR ''/'' (lPrefix l)))"

text \<open>A target name that is one path component, under a prefix of proper components.\<close>

definition layout_ok :: "Layout \<Rightarrow> bool" where
  "layout_ok l \<longleftrightarrow> plain_comp (lTarget l) \<and> list_all plain_comp (prefix_comps l)"

lemma layout_join_plain:
  assumes "layout_ok l" and "parts \<noteq> []" and "list_all plain_comp parts"
  shows "layout_join l parts = Join ''/'' (prefix_comps l @ parts)"
proof (cases "lPrefix l = []")
  case True
  then show ?thesis using path_Join_plain [OF assms(2,3)] by (simp add: layout_join_def prefix_comps_def)
next
  case False
  let ?p = "Trim_char CHR ''/'' (lPrefix l)" and ?ps = "prefix_comps l"
  have p: "Join ''/'' ?ps = ?p" and ne: "?ps \<noteq> []"
    using False Join_Split [of "CHR ''/''" ?p] by (simp_all add: prefix_comps_def)
  have plain: "list_all plain_comp ?ps" using assms(1) by (simp add: layout_ok_def)
  have "?p \<noteq> []" using Join_plain_hd(1) [OF ne plain] p by simp
  moreover have "filter (\<lambda>e. e \<noteq> []) parts = parts"
    using assms(3) by (auto simp: filter_id_conv list_all_iff plain_comp_def)
  moreover have "Join ''/'' (?p # parts) = Join ''/'' (?ps @ parts)"
    using Join_append [OF ne assms(2), of "''/''"] p assms(2) by (cases parts) simp_all
  ultimately show ?thesis
    using False path_Clean_plain [of "?ps @ parts"] plain assms(2,3)
    by (simp add: layout_join_def path_Join_def)
qed

lemma under_prefix_iff:
  assumes "us \<noteq> []" and "list_all plain_comp us" and "cs \<noteq> []" and "\<forall>c\<in>set cs. CHR ''/'' \<notin> set c"
  shows "HasPrefix (Join ''/'' cs) (Join ''/'' us @ ''/'') \<longleftrightarrow> (\<exists>vs. vs \<noteq> [] \<and> cs = us @ vs)"
proof
  have us: "\<forall>u\<in>set us. CHR ''/'' \<notin> set u" using assms(2) by (auto simp: list_all_iff plain_comp_def)
  assume "HasPrefix (Join ''/'' cs) (Join ''/'' us @ ''/'')"
  then obtain w where "Join ''/'' cs = Join ''/'' us @ CHR ''/'' # w" by (auto simp: HasPrefix_iff)
  then have "cs = us @ Split_char CHR ''/'' w"
    using Split_Join [OF assms(3,4)] Split_Join_append [OF assms(1) us, of w] by simp
  then show "\<exists>vs. vs \<noteq> [] \<and> cs = us @ vs" by force
next
  assume "\<exists>vs. vs \<noteq> [] \<and> cs = us @ vs"
  then show "HasPrefix (Join ''/'' cs) (Join ''/'' us @ ''/'')"
    using Join_append [OF assms(1), of _ "''/''"] HasPrefix_append [of "Join ''/'' us @ ''/''"] by auto
qed

section \<open>Time stamps in keys\<close>

lemma plain_digits: "s \<noteq> [] \<Longrightarrow> list_all is_digit s \<Longrightarrow> plain_comp s"
  by (auto simp: plain_comp_def list_all_iff is_digit_def)

lemma append_int_plain:
  assumes "0 \<le> n" and "1 \<le> k"
  shows "plain_comp (append_int k n)"
proof -
  have "append_int k n \<noteq> []" using assms by (simp add: append_int_def pad0_def)
  then show ?thesis using digits_append_int [OF assms(1)] plain_digits by blast
qed

lemma length_TimeFormat:
  assumes "json_time_ok t"
  shows "length (fmt_TimeFormat t) = 16"
proof -
  have "length (fmt_2006 (day_number UTC t)) = 4"
    using assms by (simp add: fmt_2006_def json_time_ok_def length_append_int)
  then show ?thesis
    using clock_bounds [of UTC t] by (simp add: fmt_TimeFormat_def length_append_int_2)
qed

lemma TimeFormat_no_slash: "json_time_ok t \<Longrightarrow> CHR ''/'' \<notin> set (fmt_TimeFormat t)"
  using append_int_plain [of "day_year (day_number UTC t)" 4] append_int_plain [of "day_month (day_number UTC t)" 2]
    append_int_plain [of "day_mday (day_number UTC t)" 2] append_int_plain [of "time_Hour UTC t" 2]
    append_int_plain [of "time_Minute UTC t" 2] append_int_plain [of "time_Second UTC t" 2]
    day_month_mday_range [of "day_number UTC t"] clock_bounds [of UTC t]
  by (simp add: fmt_TimeFormat_def fmt_2006_def fmt_01_def fmt_02_def plain_comp_def json_time_ok_def)

lemma TimeFormat_inject:
  assumes "json_time_ok t" and "json_time_ok u" and "fmt_TimeFormat t = fmt_TimeFormat u"
  shows "second_number UTC t = second_number UTC u"
proof -
  have l4: "length (fmt_2006 (day_number UTC t)) = 4" "length (fmt_2006 (day_number UTC u)) = 4"
    using assms(1,2) by (simp_all add: fmt_2006_def json_time_ok_def length_append_int)
  have l2: "length (append_int 2 (time_Hour UTC x)) = 2" "length (append_int 2 (time_Minute UTC x)) = 2"
    "length (append_int 2 (time_Second UTC x)) = 2" for x
    using clock_bounds [of UTC x] by (simp_all add: length_append_int_2)
  have parts: "fmt_2006 (day_number UTC t) = fmt_2006 (day_number UTC u) \<and>
      fmt_01 (day_number UTC t) = fmt_01 (day_number UTC u) \<and> fmt_02 (day_number UTC t) = fmt_02 (day_number UTC u) \<and>
      append_int 2 (time_Hour UTC t) = append_int 2 (time_Hour UTC u) \<and>
      append_int 2 (time_Minute UTC t) = append_int 2 (time_Minute UTC u) \<and>
      append_int 2 (time_Second UTC t) = append_int 2 (time_Second UTC u)"
    using assms(3) unfolding fmt_TimeFormat_def
    by (simp add: append_eq_append_conv l4 l2 del: append_int_inject)
  then have clock: "time_Hour UTC t = time_Hour UTC u" "time_Minute UTC t = time_Minute UTC u"
    "time_Second UTC t = time_Second UTC u" by (simp_all only: append_int_inject)
  have "day_number UTC t = day_number UTC u"
    by (rule civil_inject) (use parts in \<open>simp_all only: fmt_2006_def fmt_01_def fmt_02_def append_int_inject\<close>)
  moreover have whole: "x - x mod Second = day_number UTC x * Day
      + (3600 * time_Hour UTC x + 60 * time_Minute UTC x + time_Second UTC x) * Second" for x
    unfolding diff_eq_eq by (rule second_split)
  ultimately have "t - t mod Second = u - u mod Second" unfolding whole by (simp only: clock)
  then have "Second * (t div Second) = Second * (u div Second)" by (simp add: minus_mod_eq_mult_div)
  then show ?thesis by (simp add: second_number_def local_ns_def UTC_def Second_def)
qed

section \<open>The keys of a backup\<close>

definition base_comps :: "Layout \<Rightarrow> time \<Rightarrow> string list" where
  "base_comps l at = [lTarget l, fmt_2006 (day_number UTC at), fmt_01 (day_number UTC at), fmt_02 (day_number UTC at)]"

definition stem :: "Layout \<Rightarrow> time \<Rightarrow> string" where
  "stem l at = lTarget l @ ''-'' @ fmt_TimeFormat at"

lemma base_comps_plain: "layout_ok l \<Longrightarrow> json_time_ok at \<Longrightarrow> list_all plain_comp (base_comps l at)"
  using append_int_plain day_month_mday_range [of "day_number UTC at"]
  by (simp add: base_comps_def layout_ok_def fmt_2006_def fmt_01_def fmt_02_def json_time_ok_def)

lemma stem_plain: "layout_ok l \<Longrightarrow> json_time_ok at \<Longrightarrow> plain_comp (stem l at)"
  using TimeFormat_no_slash [of at] length_TimeFormat [of at]
  by (auto simp: stem_def plain_comp_def layout_ok_def Cons_eq_append_conv dest: arg_cong [of _ _ length])

lemma Join_snoc: "us \<noteq> [] \<Longrightarrow> Join ''/'' (us @ [w @ v]) = Join ''/'' (us @ [w]) @ v"
  by (simp add: Join_append)

text \<open>\<open>Data\<close>, \<open>Manifest\<close> and \<open>Globals\<close> only extend the last component of \<open>Base\<close>.\<close>

lemma Base_suffix:
  assumes "layout_ok l" and "json_time_ok at"
  shows "Layout_Base l at @ sfx = Join ''/'' (prefix_comps l @ base_comps l at @ [stem l at @ sfx])"
proof -
  have "layout_join l (base_comps l at @ [stem l at]) = Join ''/'' (prefix_comps l @ base_comps l at @ [stem l at])"
    using assms base_comps_plain stem_plain by (intro layout_join_plain) (auto simp: base_comps_def)
  then show ?thesis
    using Join_snoc [of "prefix_comps l @ base_comps l at" "stem l at" sfx]
    by (simp add: Layout_Base_def base_comps_def stem_def)
qed

definition backup_keys :: "Layout \<Rightarrow> time \<Rightarrow> Kind \<Rightarrow> string \<Rightarrow> string \<Rightarrow> string set" where
  "backup_keys l at kind ext gext =
     {Layout_Data l at kind ext, Layout_Manifest l at kind, Layout_Globals l at gext}"

lemma backup_keys_suffix:
  "k \<in> backup_keys l at kind ext gext \<Longrightarrow> CHR ''/'' \<notin> set (kind @ ext @ gext) \<Longrightarrow>
     \<exists>sfx. k = Layout_Base l at @ sfx \<and> CHR ''/'' \<notin> set sfx"
  by (auto simp: backup_keys_def Layout_Data_def Layout_Manifest_def Layout_Globals_def)

lemma backup_key_comps:
  assumes "layout_ok l" "json_time_ok at" "CHR ''/'' \<notin> set (kind @ ext @ gext)"
    and "k \<in> backup_keys l at kind ext gext"
  obtains sfx where "k = Join ''/'' (prefix_comps l @ base_comps l at @ [stem l at @ sfx])"
    and "\<forall>c\<in>set (prefix_comps l @ base_comps l at @ [stem l at @ sfx]). CHR ''/'' \<notin> set c"
proof -
  obtain sfx where s: "k = Layout_Base l at @ sfx" "CHR ''/'' \<notin> set sfx"
    using backup_keys_suffix [OF assms(4,3)] by blast
  have "\<forall>c\<in>set (prefix_comps l @ base_comps l at @ [stem l at @ sfx]). CHR ''/'' \<notin> set c"
    using assms(1) base_comps_plain [OF assms(1,2)] stem_plain [OF assms(1,2)] s(2)
    by (auto simp: layout_ok_def list_all_iff plain_comp_def)
  with s(1) Base_suffix [OF assms(1,2)] that show ?thesis by simp
qed

lemma TargetPrefix_Join:
  "layout_ok l \<Longrightarrow> Layout_TargetPrefix l = Join ''/'' (prefix_comps l @ [lTarget l]) @ ''/''"
  by (simp add: Layout_TargetPrefix_def layout_join_plain layout_ok_def)

lemma under_target_iff:
  assumes "layout_ok l" and "\<forall>c\<in>set cs. CHR ''/'' \<notin> set c" and "cs \<noteq> []"
  shows "HasPrefix (Join ''/'' cs) (Layout_TargetPrefix l)
           \<longleftrightarrow> (\<exists>vs. vs \<noteq> [] \<and> cs = (prefix_comps l @ [lTarget l]) @ vs)"
  unfolding TargetPrefix_Join [OF assms(1)]
  using assms by (intro under_prefix_iff) (auto simp: layout_ok_def)

text \<open>C14: Keys never collide across targets: the data, manifest and globals keys of a backup lie
  under its own target's prefix and under no other target's of the same destination, and the
  index and lock keys lie under no target's prefix, unless a target is called like them.\<close>

theorem keys_stay_under_target:
  assumes "layout_ok l" and "layout_ok l'" and "lPrefix l' = lPrefix l" and "json_time_ok at"
    and "CHR ''/'' \<notin> set (kind @ ext @ gext)" and "k \<in> backup_keys l at kind ext gext"
    and "lTarget l' \<noteq> ''_index''" and "lTarget l' \<noteq> ''_locks''"
  shows "(HasPrefix k (Layout_TargetPrefix l') \<longleftrightarrow> lTarget l' = lTarget l)
    \<and> \<not> HasPrefix (Layout_Index l) (Layout_TargetPrefix l')
    \<and> \<not> HasPrefix (Layout_Lock l) (Layout_TargetPrefix l')"
proof -
  obtain sfx where k: "k = Join ''/'' (prefix_comps l @ base_comps l at @ [stem l at @ sfx])"
    and ns: "\<forall>c\<in>set (prefix_comps l @ base_comps l at @ [stem l at @ sfx]). CHR ''/'' \<notin> set c"
    using backup_key_comps [OF assms(1,4,5,6)] .
  have pc: "prefix_comps l' = prefix_comps l" using assms(3) by (simp add: prefix_comps_def)
  have "plain_comp (lTarget l @ ''.jsonl'')" "plain_comp (lTarget l @ ''.lock'')"
    using assms(1) by (auto simp: layout_ok_def plain_comp_def)
  then have idx: "Layout_Index l = Join ''/'' (prefix_comps l @ [''_index'', lTarget l @ ''.jsonl''])"
    and lck: "Layout_Lock l = Join ''/'' (prefix_comps l @ [''_locks'', lTarget l @ ''.lock''])"
    and ni: "\<forall>c\<in>set (prefix_comps l @ [''_index'', lTarget l @ ''.jsonl'']). CHR ''/'' \<notin> set c"
    and nl: "\<forall>c\<in>set (prefix_comps l @ [''_locks'', lTarget l @ ''.lock'']). CHR ''/'' \<notin> set c"
    using assms(1) by (auto simp: Layout_Index_def Layout_Lock_def layout_join_plain plain_comp_def
        layout_ok_def list_all_iff)
  show ?thesis
    unfolding k idx lck
    using under_target_iff [OF assms(2) ns] under_target_iff [OF assms(2) ni]
      under_target_iff [OF assms(2) nl] assms(7,8)
    by (auto simp: pc base_comps_def)
qed

text \<open>Two backups of a target that did not start in the same second share no object key,
  so no backup ever overwrites another's objects.\<close>

theorem backup_keys_disjoint:
  assumes "layout_ok l" and "json_time_ok t" and "json_time_ok u"
    and "second_number UTC t \<noteq> second_number UTC u" and "CHR ''/'' \<notin> set (kind @ ext @ gext)"
  shows "backup_keys l t kind ext gext \<inter> backup_keys l u kind ext gext = {}"
proof -
  have False if k: "k \<in> backup_keys l t kind ext gext" "k \<in> backup_keys l u kind ext gext" for k
  proof -
    obtain s where s: "k = Join ''/'' (prefix_comps l @ base_comps l t @ [stem l t @ s])"
      "\<forall>c\<in>set (prefix_comps l @ base_comps l t @ [stem l t @ s]). CHR ''/'' \<notin> set c"
      using backup_key_comps [OF assms(1,2,5) k(1)] .
    obtain s' where s': "k = Join ''/'' (prefix_comps l @ base_comps l u @ [stem l u @ s'])"
      "\<forall>c\<in>set (prefix_comps l @ base_comps l u @ [stem l u @ s']). CHR ''/'' \<notin> set c"
      using backup_key_comps [OF assms(1,3,5) k(2)] .
    have "prefix_comps l @ base_comps l t @ [stem l t @ s] = prefix_comps l @ base_comps l u @ [stem l u @ s']"
      using Split_Join [OF _ s(2)] Split_Join [OF _ s'(2)] s(1) s'(1)
      by (metis append_is_Nil_conv list.distinct(1))
    then have "fmt_TimeFormat t @ s = fmt_TimeFormat u @ s'" by (simp add: base_comps_def stem_def)
    then have "fmt_TimeFormat t = fmt_TimeFormat u"
      using length_TimeFormat [OF assms(2)] length_TimeFormat [OF assms(3)] by (simp add: append_eq_append_conv)
    with TimeFormat_inject [OF assms(2,3)] assms(4) show False by simp
  qed
  then show ?thesis by blast
qed

lemma Layout_Index_comps:
  assumes "layout_ok l"
  shows "Layout_Index l = Join ''/'' (prefix_comps l @ [''_index'', lTarget l @ ''.jsonl''])"
    and "\<forall>c\<in>set (prefix_comps l @ [''_index'', lTarget l @ ''.jsonl'']). CHR ''/'' \<notin> set c"
  using assms by (auto simp: Layout_Index_def layout_join_plain plain_comp_def layout_ok_def list_all_iff)

lemma backup_key_not_index:
  assumes "layout_ok l" and "json_time_ok at" and "CHR ''/'' \<notin> set (kind @ ext @ gext)"
    and "k \<in> backup_keys l at kind ext gext"
  shows "k \<noteq> Layout_Index l"
proof
  assume "k = Layout_Index l"
  obtain s where s: "k = Join ''/'' (prefix_comps l @ base_comps l at @ [stem l at @ s])"
    "\<forall>c\<in>set (prefix_comps l @ base_comps l at @ [stem l at @ s]). CHR ''/'' \<notin> set c"
    using backup_key_comps [OF assms] .
  have "prefix_comps l @ base_comps l at @ [stem l at @ s] = prefix_comps l @ [''_index'', lTarget l @ ''.jsonl'']"
    using Split_Join [OF _ s(2)] Split_Join [OF _ Layout_Index_comps(2) [OF assms(1)]] s(1)
      Layout_Index_comps(1) [OF assms(1)] \<open>k = Layout_Index l\<close>
    by (metis append_is_Nil_conv list.distinct(1))
  then show False by (simp add: base_comps_def)
qed

section \<open>Concrete keys\<close>

definition demo_layout :: "string \<Rightarrow> Layout" where
  "demo_layout target = \<lparr>lPrefix = ''/backups/prod/'', lTarget = target\<rparr>"

lemma demo_layout_ok: "layout_ok (demo_layout ''app'')" "layout_ok (demo_layout ''app-2'')"
  by code_simp+

lemma demo_times_ok: "json_time_ok (63890000000 * Second)" "json_time_ok (63890000001 * Second)"
  by code_simp+

theorem keys_stay_under_target_witness:
  "(HasPrefix (Layout_Manifest (demo_layout ''app'') (63890000000 * Second) KindFull) (Layout_TargetPrefix (demo_layout ''app-2''))
      \<longleftrightarrow> lTarget (demo_layout ''app-2'') = lTarget (demo_layout ''app''))
    \<and> \<not> HasPrefix (Layout_Index (demo_layout ''app'')) (Layout_TargetPrefix (demo_layout ''app-2''))
    \<and> \<not> HasPrefix (Layout_Lock (demo_layout ''app'')) (Layout_TargetPrefix (demo_layout ''app-2''))"
  by (rule keys_stay_under_target [OF demo_layout_ok _ demo_times_ok(1), of KindFull "''.sql''" "''.sql''"])
    (simp_all add: demo_layout_def KindFull_def backup_keys_def)

theorem backup_keys_disjoint_witness:
  "backup_keys (demo_layout ''app'') (63890000000 * Second) KindFull ''.sql'' ''.sql''
     \<inter> backup_keys (demo_layout ''app'') (63890000001 * Second) KindFull ''.sql'' ''.sql'' = {}"
  by (rule backup_keys_disjoint [OF demo_layout_ok(1) demo_times_ok])
    (simp_all add: KindFull_def second_number_def local_ns_def UTC_def Second_def)

end
