(* ===== verification/Memory.thy ===== *)
theory Memory
  imports Core
begin

text \<open>
  The in-memory \<open>core.Store\<close> of \<open>internal/storage/memory/memory.go\<close>, and the interpretation
  that shows it keeps the store contract. The content hash behind an etag is a parameter
  \<open>h\<close>: the first eight bytes of a SHA-256 in the program. A second part wraps any store in
  a script of what happens between two calls of a client, so that clients can be verified
  against concurrent writers, lost answers and failing calls.
\<close>

section \<open>The store\<close>

record object =
  obData :: string
  obEtag :: string
  obModified :: time

text \<open>\<open>objects\<close> is a Go map: an association list with distinct keys. \<open>Now\<close> is the clock.\<close>

record memory =
  mObjects :: "(string \<times> object) list"
  mNow :: time
  mFailPut :: "err option"

definition memory_New :: "time \<Rightarrow> memory" where
  "memory_New now = \<lparr>mObjects = [], mNow = now, mFailPut = None\<rparr>"

definition mem_notFound :: "string \<Rightarrow> err" where
  "mem_notFound key = ErrWrap (''object '' @ fmt_q key) ErrNotFound"

definition mem_object :: "(string \<Rightarrow> string) \<Rightarrow> memory \<Rightarrow> string \<Rightarrow> object" where
  "mem_object h s data = \<lparr>obData = data, obEtag = h data, obModified = mNow s\<rparr>"

definition mem_info :: "string \<Rightarrow> object \<Rightarrow> ObjectInfo" where
  "mem_info key obj = \<lparr>oKey = key, oBytes = int (length (obData obj)), oETag = obEtag obj,
     oSHA256 = [], oLastModified = obModified obj\<rparr>"

definition memory_write :: "(string \<Rightarrow> string) \<Rightarrow> string \<Rightarrow> string \<Rightarrow> memory \<Rightarrow> ObjectInfo \<times> memory" where
  "memory_write h key data s =
     (let obj = mem_object h s data
      in (mem_info key obj, s\<lparr>mObjects := AList.update key obj (mObjects s)\<rparr>))"

text \<open>\<open>ctxErr\<close> is \<open>ctx.Err()\<close>: set once the caller's context is cancelled.\<close>

definition memory_Put ::
  "(string \<Rightarrow> string) \<Rightarrow> err option \<Rightarrow> string \<Rightarrow> string result \<Rightarrow> (memory, ObjectInfo) action" where
  "memory_Put h ctxErr key r s =
     (case mFailPut s of
        Some e \<Rightarrow> (Inl e, s)
      | None \<Rightarrow>
          (case ctxErr of
             Some e \<Rightarrow> (Inl e, s)
           | None \<Rightarrow>
               (case r of
                  Inl e \<Rightarrow> (Inl e, s)
                | Inr data \<Rightarrow> apfst Inr (memory_write h key data s))))"

definition memory_Get :: "string \<Rightarrow> (memory, string) action" where
  "memory_Get key s =
     (case map_of (mObjects s) key of
        None \<Rightarrow> (Inl (mem_notFound key), s)
      | Some obj \<Rightarrow> (Inr (obData obj), s))"

definition memory_Head :: "string \<Rightarrow> (memory, ObjectInfo) action" where
  "memory_Head key s =
     (case map_of (mObjects s) key of
        None \<Rightarrow> (Inl (mem_notFound key), s)
      | Some obj \<Rightarrow> (Inr (mem_info key obj), s))"

definition memory_List :: "string \<Rightarrow> (memory, ObjectInfo list) action" where
  "memory_List prefix s =
     (let keys = sort (filter (\<lambda>key. HasPrefix key prefix) (map fst (mObjects s)))
      in (Inr (map (\<lambda>key. mem_info key (the (map_of (mObjects s) key))) keys), s))"

definition memory_Delete :: "string list \<Rightarrow> (memory, unit) action" where
  "memory_Delete keys s = (Inr (), s\<lparr>mObjects := foldl (\<lambda>m key. AList.delete key m) (mObjects s) keys\<rparr>)"

definition memory_PutIfAbsent :: "(string \<Rightarrow> string) \<Rightarrow> string \<Rightarrow> string \<Rightarrow> (memory, bool) action" where
  "memory_PutIfAbsent h key b s =
     (if map_of (mObjects s) key \<noteq> None then (Inr False, s)
      else (Inr True, s\<lparr>mObjects := AList.update key (mem_object h s b) (mObjects s)\<rparr>))"

definition memory_PutIfMatch ::
  "(string \<Rightarrow> string) \<Rightarrow> string \<Rightarrow> string \<Rightarrow> string \<Rightarrow> (memory, ObjectInfo \<times> bool) action" where
  "memory_PutIfMatch h key b etag s =
     (let existing = map_of (mObjects s) key in
      if existing = None \<and> etag \<noteq> [] then (Inr (zero_ObjectInfo, False), s)
      else if existing \<noteq> None \<and> obEtag (the existing) \<noteq> etag then (Inr (zero_ObjectInfo, False), s)
      else let (info, s') = memory_write h key b s in (Inr (info, True), s'))"

definition memory_ops :: "(string \<Rightarrow> string) \<Rightarrow> memory store_ops" where
  "memory_ops h = \<lparr>sPut = memory_Put h None, sGet = memory_Get, sHead = memory_Head,
     sList = memory_List, sDelete = memory_Delete, sPutIfAbsent = memory_PutIfAbsent h,
     sPutIfMatch = memory_PutIfMatch h\<rparr>"

definition mem_wf :: "memory \<Rightarrow> bool" where
  "mem_wf s \<longleftrightarrow> distinct (map fst (mObjects s))"

definition mem_view :: "memory \<Rightarrow> string \<rightharpoonup> string \<times> string" where
  "mem_view s k = map_option (\<lambda>obj. (obData obj, obEtag obj)) (map_of (mObjects s) k)"

section \<open>The contract\<close>

lemma mem_wf_ops:
  assumes "mem_wf s"
  shows "mem_wf (snd (memory_Put h c k r s))" "mem_wf (snd (memory_Delete ks s))"
    "mem_wf (snd (memory_PutIfAbsent h k b s))" "mem_wf (snd (memory_PutIfMatch h k b e s))"
  using assms
  by (auto simp: mem_wf_def memory_Put_def memory_write_def memory_PutIfAbsent_def
      memory_PutIfMatch_def memory_Delete_def Let_def distinct_update
      split: option.splits sum.splits)
    (induction ks arbitrary: s rule: rev_induct, auto simp: distinct_delete)

lemma mem_view_write:
  "mem_view (snd (memory_write h k b s)) = (mem_view s)(k \<mapsto> (b, h b))"
  by (auto simp: mem_view_def memory_write_def mem_object_def Let_def update_conv' fun_eq_iff)

lemma map_of_deletes:
  "map_of (foldl (\<lambda>m key. AList.delete key m) m ks) = (\<lambda>k. if k \<in> set ks then None else map_of m k)"
  by (induction ks arbitrary: m) (auto simp: delete_conv' fun_eq_iff)

lemma mem_list_keys:
  assumes "mem_wf s"
  shows "\<exists>is. memory_List p s = (Inr is, s) \<and> distinct (map oKey is) \<and>
    set (map oKey is) = {k. mem_view s k \<noteq> None \<and> HasPrefix k p}"
proof -
  let ?ks = "sort (filter (\<lambda>key. HasPrefix key p) (map fst (mObjects s)))"
  let ?is = "map (\<lambda>key. mem_info key (the (map_of (mObjects s) key))) ?ks"
  have keys: "map oKey ?is = ?ks" by (simp add: mem_info_def comp_def)
  have "set ?ks = {k. mem_view s k \<noteq> None \<and> HasPrefix k p}"
    by (auto simp: mem_view_def map_of_eq_None_iff)
  moreover have "distinct ?ks" using assms by (simp add: mem_wf_def)
  ultimately show ?thesis using keys by (intro exI [of _ ?is]) (simp add: memory_List_def Let_def)
qed

lemma memory_ops_simps [simp]:
  "sPut (memory_ops h) = memory_Put h None" "sGet (memory_ops h) = memory_Get"
  "sHead (memory_ops h) = memory_Head" "sList (memory_ops h) = memory_List"
  "sDelete (memory_ops h) = memory_Delete" "sPutIfAbsent (memory_ops h) = memory_PutIfAbsent h"
  "sPutIfMatch (memory_ops h) = memory_PutIfMatch h"
  by (simp_all add: memory_ops_def)

lemma mem_match_hit:
  assumes "mem_view s k = Some (b0, e) \<or> mem_view s k = None \<and> e = []"
  shows "\<exists>i s'. memory_PutIfMatch h k b e s = (Inr (i, True), s') \<and> oETag i = h b \<and>
    (mem_wf s \<longrightarrow> mem_wf s') \<and> mem_view s' = (mem_view s)(k \<mapsto> (b, h b))"
proof -
  obtain i s' where w: "memory_write h k b s = (i, s')" by (cases "memory_write h k b s")
  have "memory_PutIfMatch h k b e s = (Inr (i, True), s')"
    using assms w by (auto simp: memory_PutIfMatch_def mem_view_def Let_def)
  moreover have "oETag i = h b"
    using w by (auto simp: memory_write_def mem_info_def mem_object_def Let_def)
  moreover have "mem_view s' = (mem_view s)(k \<mapsto> (b, h b))" using mem_view_write [of h k b s] w by simp
  moreover have "mem_wf s \<longrightarrow> mem_wf s'"
    using mem_wf_ops(4) [of s h k b e] calculation(1) by simp
  ultimately show ?thesis by blast
qed

lemma mem_absent_free:
  assumes "mem_view s k = None"
  shows "\<exists>s'. memory_PutIfAbsent h k b s = (Inr True, s') \<and> (mem_wf s \<longrightarrow> mem_wf s') \<and>
    mem_view s' = (mem_view s)(k \<mapsto> (b, h b))"
proof -
  have "map_of (mObjects s) k = None" using assms by (simp add: mem_view_def)
  then have "memory_PutIfAbsent h k b s = (Inr True, snd (memory_write h k b s))"
    by (simp add: memory_PutIfAbsent_def memory_write_def Let_def)
  moreover have "mem_wf s \<longrightarrow> mem_wf (snd (memory_PutIfAbsent h k b s))" using mem_wf_ops(3) by blast
  ultimately show ?thesis using mem_view_write [of h k b s] by simp
qed

interpretation mem: object_store "memory_ops h" mem_wf mem_view h "\<lambda>_. True" for h
proof unfold_locales
  fix s k b e
  assume "mem_view s k = Some (b, e)"
  then obtain obj where obj: "map_of (mObjects s) k = Some obj" "b = obData obj" "e = obEtag obj"
    by (auto simp: mem_view_def)
  then show "sGet (memory_ops h) k s = (Inr b, s)" by (simp add: memory_Get_def)
  show "\<exists>i. sHead (memory_ops h) k s = (Inr i, s) \<and> oKey i = k \<and> oETag i = e \<and> oBytes i = int (length b)"
    using obj by (simp add: memory_Head_def mem_info_def)
next
  fix s k
  assume "mem_view s k = None"
  then have "map_of (mObjects s) k = None" by (simp add: mem_view_def)
  then show "\<exists>x. sGet (memory_ops h) k s = (Inl x, s) \<and> errors_Is x ErrNotFound"
    and "\<exists>x. sHead (memory_ops h) k s = (Inl x, s) \<and> errors_Is x ErrNotFound"
    by (simp_all add: memory_Get_def memory_Head_def mem_notFound_def)
next
  fix s p
  assume "mem_wf s"
  then show "\<exists>is. sList (memory_ops h) p s = (Inr is, s) \<and> distinct (map oKey is) \<and>
      set (map oKey is) = {k. mem_view s k \<noteq> None \<and> HasPrefix k p}"
    using mem_list_keys [of s p] by simp
next
  fix ks s
  show "\<exists>s'. sDelete (memory_ops h) ks s = (Inr (), s') \<and> (mem_wf s \<longrightarrow> mem_wf s') \<and>
      mem_view s' = (\<lambda>k. if k \<in> set ks then None else mem_view s k)"
    using mem_wf_ops(2) [of s ks]
    by (auto simp: memory_Delete_def mem_view_def map_of_deletes fun_eq_iff)
next
  fix s k b
  assume "mem_view s k = None"
  then show "\<exists>s'. sPutIfAbsent (memory_ops h) k b s = (Inr True, s') \<and> (mem_wf s \<longrightarrow> mem_wf s') \<and>
      mem_view s' = (mem_view s)(k \<mapsto> (b, h b))"
    using mem_absent_free [of s k h b] by simp
next
  fix s k v b
  assume "mem_view s k = Some v"
  then show "sPutIfAbsent (memory_ops h) k b s = (Inr False, s)"
    by (auto simp: memory_PutIfAbsent_def mem_view_def)
next
  fix s k b0 e b
  assume "mem_view s k = Some (b0, e) \<or> mem_view s k = None \<and> e = []"
  then show "\<exists>i s'. sPutIfMatch (memory_ops h) k b e s = (Inr (i, True), s') \<and> oETag i = h b \<and>
      (mem_wf s \<longrightarrow> mem_wf s') \<and> mem_view s' = (mem_view s)(k \<mapsto> (b, h b))"
    using mem_match_hit [of s k b0 e h b] by simp
next
  fix s k e b
  assume "case mem_view s k of None \<Rightarrow> e \<noteq> [] | Some (b0, e0) \<Rightarrow> e0 \<noteq> e"
  then show "\<exists>i. sPutIfMatch (memory_ops h) k b e s = (Inr (i, False), s)"
    by (auto simp: memory_PutIfMatch_def mem_view_def Let_def split: option.splits)
qed simp_all

lemmas mem_match_written = mem.match_written [OF _ TrueI]
lemmas mem_match_unwritten = mem.match_unwritten [OF _ TrueI]
lemmas mem_match_no_error = mem.match_no_error [OF TrueI]
lemmas mem_match_miss = mem.match_miss [OF _ TrueI]

section \<open>Other actors\<close>

text \<open>
  What happens to a client's call on a shared store. Before it takes effect another process
  may change the store (\<open>Disturb\<close>); the call may fail without effect (\<open>FailCall\<close>), or take
  effect and lose its answer (\<open>FailAfter\<close>). A script is one entry per call; when it runs
  out the store is quiet.
\<close>

datatype 's happening = Quiet | Disturb "'s \<Rightarrow> 's" | FailCall err | FailAfter err

type_synonym 's scripted = "'s \<times> 's happening list"

definition scripted_call :: "('s, 'a) action \<Rightarrow> ('s scripted, 'a) action" where
  "scripted_call f st =
     (case st of (s, script) \<Rightarrow>
        (case script of
           [] \<Rightarrow> (case f s of (r, s') \<Rightarrow> (r, (s', [])))
         | hp # rest \<Rightarrow>
             (case hp of
                Quiet \<Rightarrow> (case f s of (r, s') \<Rightarrow> (r, (s', rest)))
              | Disturb g \<Rightarrow> (case f (g s) of (r, s') \<Rightarrow> (r, (s', rest)))
              | FailCall e \<Rightarrow> (Inl e, (s, rest))
              | FailAfter e \<Rightarrow> (case f s of (r, s') \<Rightarrow> (Inl e, (s', rest))))))"

definition scripted :: "'s store_ops \<Rightarrow> 's scripted store_ops" where
  "scripted ops = \<lparr>sPut = (\<lambda>k r. scripted_call (sPut ops k r)), sGet = (\<lambda>k. scripted_call (sGet ops k)),
     sHead = (\<lambda>k. scripted_call (sHead ops k)), sList = (\<lambda>p. scripted_call (sList ops p)),
     sDelete = (\<lambda>ks. scripted_call (sDelete ops ks)),
     sPutIfAbsent = (\<lambda>k b. scripted_call (sPutIfAbsent ops k b)),
     sPutIfMatch = (\<lambda>k b e. scripted_call (sPutIfMatch ops k b e))\<rparr>"

lemma scripted_simps [simp]:
  "sPut (scripted ops) k r = scripted_call (sPut ops k r)"
  "sGet (scripted ops) k = scripted_call (sGet ops k)"
  "sHead (scripted ops) k = scripted_call (sHead ops k)"
  "sList (scripted ops) p = scripted_call (sList ops p)"
  "sDelete (scripted ops) ks = scripted_call (sDelete ops ks)"
  "sPutIfAbsent (scripted ops) k b = scripted_call (sPutIfAbsent ops k b)"
  "sPutIfMatch (scripted ops) k b e = scripted_call (sPutIfMatch ops k b e)"
  by (simp_all add: scripted_def)

text \<open>The changes other actors make along a script all satisfy \<open>R\<close>.\<close>

definition disturbances :: "('s \<Rightarrow> 's \<Rightarrow> bool) \<Rightarrow> 's happening list \<Rightarrow> bool" where
  "disturbances R script \<longleftrightarrow> (\<forall>g. Disturb g \<in> set script \<longrightarrow> (\<forall>s. R s (g s)))"

lemma disturbances_simps [simp]:
  "disturbances R []"
  "disturbances R (hp # rest) \<longleftrightarrow> (\<forall>g. hp = Disturb g \<longrightarrow> (\<forall>s. R s (g s))) \<and> disturbances R rest"
  by (auto simp: disturbances_def)

text \<open>What the other actors of a script have done to the store.\<close>

fun others :: "'s happening list \<Rightarrow> 's \<Rightarrow> 's" where
  "others [] s = s"
| "others (hp # rest) s = others rest (case hp of Disturb g \<Rightarrow> g s | _ \<Rightarrow> s)"

lemma others_append: "others (p @ q) s = others q (others p s)"
  by (induction p arbitrary: s) simp_all

text \<open>The part of the script a call used up, and what others did meanwhile.\<close>

definition meanwhile :: "'s \<Rightarrow> 's happening list \<Rightarrow> 's \<Rightarrow> 's happening list \<Rightarrow> bool" where
  "meanwhile s script t script' \<longleftrightarrow> (\<exists>pre. script = pre @ script' \<and> t = others pre s)"

lemma meanwhile_refl: "meanwhile s script s script"
  by (auto simp: meanwhile_def)

lemma meanwhile_trans:
  "meanwhile s sc t sc1 \<Longrightarrow> meanwhile t sc1 u sc2 \<Longrightarrow> meanwhile s sc u sc2"
  unfolding meanwhile_def by (metis append_assoc others_append)

lemma meanwhile_step:
  "meanwhile s (Quiet # rest) s rest" "meanwhile s (FailCall e # rest) s rest"
  "meanwhile s (FailAfter e # rest) s rest" "meanwhile s (Disturb g # rest) (g s) rest"
proof -
  have "meanwhile s (hp # rest) (others [hp] s) rest" for hp
    unfolding meanwhile_def by (metis append_Cons append_Nil)
  from this [of Quiet] this [of "FailCall e"] this [of "FailAfter e"] this [of "Disturb g"]
  show "meanwhile s (Quiet # rest) s rest" "meanwhile s (FailCall e # rest) s rest"
    "meanwhile s (FailAfter e # rest) s rest" "meanwhile s (Disturb g # rest) (g s) rest" by simp_all
qed

text \<open>
  A call that answers ran on a state \<open>t\<close> that others reached from \<open>s\<close>; what it left is the
  state of the script afterwards.
\<close>

lemma scripted_call_answer:
  assumes "scripted_call f (s, script) = (Inr x, (s', script'))" and "disturbances R script"
    and "\<And>s. R s s"
  shows "\<exists>t. R s t \<and> f t = (Inr x, s') \<and> disturbances R script' \<and> meanwhile s script t script'"
proof (cases script)
  case Nil
  with assms show ?thesis
    by (intro exI [of _ s]) (auto simp: scripted_call_def meanwhile_refl split: prod.splits)
next
  case (Cons hp rest)
  show ?thesis
  proof (cases hp)
    case Quiet
    with assms Cons show ?thesis
      by (intro exI [of _ s]) (auto simp: scripted_call_def meanwhile_step split: prod.splits)
  next
    case (Disturb g)
    with assms Cons show ?thesis
      by (intro exI [of _ "g s"]) (auto simp: scripted_call_def meanwhile_step split: prod.splits)
  qed (use assms Cons in \<open>auto simp: scripted_call_def split: prod.splits\<close>)
qed

text \<open>A read-only call leaves a state others reached, and answers for that state.\<close>

lemma scripted_read:
  assumes "scripted_call f (s, script) = (r, (s', script'))" and "disturbances R script"
    and "\<And>s. R s s" and "\<And>s. snd (f s) = s"
  shows "R s s' \<and> disturbances R script' \<and> meanwhile s script s' script'
         \<and> (\<forall>x. r = Inr x \<longrightarrow> fst (f s') = Inr x)"
proof (cases script)
  case Nil
  with assms(1) have "r = fst (f s)" "s' = s" "script' = []"
    by (auto simp: scripted_call_def case_prod_beta assms(4))
  then show ?thesis using assms(3) Nil by (simp add: meanwhile_refl)
next
  case (Cons hp rest)
  have rest: "script' = rest" "disturbances R rest"
    using assms(1,2) Cons by (auto simp: scripted_call_def case_prod_beta split: happening.splits)
  show ?thesis
  proof (cases hp)
    case Quiet
    with assms(1) Cons have "r = fst (f s)" "s' = s" by (auto simp: scripted_call_def case_prod_beta assms(4))
    then show ?thesis using assms(3) rest Cons Quiet by (simp add: meanwhile_step)
  next
    case (Disturb g)
    with assms(1) Cons have "r = fst (f (g s))" "s' = g s"
      by (auto simp: scripted_call_def case_prod_beta assms(4))
    then show ?thesis using assms(2) Cons Disturb rest by (simp add: meanwhile_step)
  next
    case (FailCall e)
    with assms(1) Cons have "r = Inl e" "s' = s" by (auto simp: scripted_call_def)
    then show ?thesis using assms(3) rest Cons FailCall by (simp add: meanwhile_step)
  next
    case (FailAfter e)
    with assms(1) Cons have "r = Inl e" "s' = s" by (auto simp: scripted_call_def case_prod_beta assms(4))
    then show ?thesis using assms(3) rest Cons FailAfter by (simp add: meanwhile_step)
  qed
qed

end
