(* ===== verification/Index.thy ===== *)
theory Index
  imports Keys Memory
begin

text \<open>
  The per-target listing cache of \<open>internal/index/index.go\<close>: \<open>Load\<close>, the conditional
  read-modify-write operations \<open>Append\<close>, \<open>Remove\<close> and \<open>SetVerification\<close>, and \<open>Rebuild\<close>
  from the manifests. The manifests of a rebuild are fetched one after the other here and
  eight at a time in the program, which writes each result into its own slot.
\<close>

section \<open>Operations\<close>

definition appendAttempts :: nat where "appendAttempts = 5"

record Index =
  ixEntries :: "Entry list"
  ixETag :: string

definition latest_entry :: "Entry list \<Rightarrow> Entry option" where
  "latest_entry entries =
     (case entries of
        [] \<Rightarrow> None
      | e # es \<Rightarrow> Some (foldl (\<lambda>latest entry.
            if eFinishedAt latest < eFinishedAt entry then entry else latest) e es))"

definition Index_Latest :: "Index \<Rightarrow> Entry option" where
  "Index_Latest i = latest_entry (ixEntries i)"

definition Index_Backups :: "Index \<Rightarrow> Entry list" where
  "Index_Backups i = sort_key eFinishedAt (filter Succeeded (ixEntries i))"

fun marshal_from :: "string \<Rightarrow> Entry list \<Rightarrow> string result" where
  "marshal_from raw [] = Inr raw"
| "marshal_from raw (e # es) =
     (case AppendEntry raw e of Inl x \<Rightarrow> Inl x | Inr appended \<Rightarrow> marshal_from appended es)"

definition index_marshal :: "Entry list \<Rightarrow> string result" where
  "index_marshal entries = marshal_from [] entries"

definition index_Load :: "'s store_ops \<Rightarrow> Layout \<Rightarrow> ('s, Index) action" where
  "index_Load ops l s =
     (case sHead ops (Layout_Index l) s of
        (Inl err, s1) \<Rightarrow>
          if errors_Is err ErrNotFound then (Inr \<lparr>ixEntries = [], ixETag = []\<rparr>, s1)
          else (Inl (ErrWrap ''reading the index'' err), s1)
      | (Inr info, s1) \<Rightarrow>
          (case sGet ops (Layout_Index l) s1 of
             (Inl err, s2) \<Rightarrow>
               if errors_Is err ErrNotFound then (Inr \<lparr>ixEntries = [], ixETag = []\<rparr>, s2)
               else (Inl (ErrWrap ''reading the index'' err), s2)
           | (Inr raw, s2) \<Rightarrow>
               (case ParseIndex raw of
                  (entries, Some err) \<Rightarrow> (Inl err, s2)
                | (entries, None) \<Rightarrow> (Inr \<lparr>ixEntries = entries, ixETag = oETag info\<rparr>, s2))))"

text \<open>
  The loop \<open>Append\<close>, \<open>Remove\<close> and \<open>SetVerification\<close> share: load, compute the new contents,
  write them on condition that the index has not changed, and start over when it has.
\<close>

definition attempts_error :: "Layout \<Rightarrow> err" where
  "attempts_error l = ErrText (''the index of '' @ lTarget l @ '' changed under ''
     @ Itoa (int appendAttempts) @ '' successive attempts; run `vaultd reindex` if this persists'')"

fun rmw_loop :: "'s store_ops \<Rightarrow> Layout \<Rightarrow> (Entry list \<Rightarrow> string result) \<Rightarrow> nat \<Rightarrow> ('s, unit) action" where
  "rmw_loop ops l upd 0 s = (Inl (attempts_error l), s)"
| "rmw_loop ops l upd (Suc n) s =
     (case index_Load ops l s of
        (Inl err, s1) \<Rightarrow> (Inl err, s1)
      | (Inr current, s1) \<Rightarrow>
          (case upd (ixEntries current) of
             Inl err \<Rightarrow> (Inl err, s1)
           | Inr raw \<Rightarrow>
               (case sPutIfMatch ops (Layout_Index l) raw (ixETag current) s1 of
                  (Inl err, s2) \<Rightarrow> (Inl (ErrWrap ''updating the index'' err), s2)
                | (Inr (info, written), s2) \<Rightarrow>
                    if written then (Inr (), s2) else rmw_loop ops l upd n s2)))"

definition append_update :: "Entry \<Rightarrow> Entry list \<Rightarrow> string result" where
  "append_update entry entries =
     (case index_marshal entries of Inl err \<Rightarrow> Inl err | Inr raw \<Rightarrow> AppendEntry raw entry)"

definition index_Append :: "'s store_ops \<Rightarrow> Layout \<Rightarrow> Entry \<Rightarrow> ('s, unit) action" where
  "index_Append ops l entry = rmw_loop ops l (append_update entry) appendAttempts"

definition index_Replace :: "'s store_ops \<Rightarrow> Layout \<Rightarrow> Entry list \<Rightarrow> ('s, unit) action" where
  "index_Replace ops l entries s =
     (case index_marshal entries of
        Inl err \<Rightarrow> (Inl err, s)
      | Inr raw \<Rightarrow>
          (case sPut ops (Layout_Index l) (Inr raw) s of
             (Inl err, s1) \<Rightarrow> (Inl (ErrWrap ''writing the index'' err), s1)
           | (Inr info, s1) \<Rightarrow> (Inr (), s1)))"

definition prune_entries :: "Entry list \<Rightarrow> string list \<Rightarrow> time \<Rightarrow> Entry list" where
  "prune_entries entries deleted oldestKept =
     filter (\<lambda>e. if Succeeded e then eID e \<notin> set deleted
                 else IsZero oldestKept \<or> \<not> eFinishedAt e < oldestKept) entries"

definition index_Remove :: "'s store_ops \<Rightarrow> Layout \<Rightarrow> string list \<Rightarrow> time \<Rightarrow> ('s, unit) action" where
  "index_Remove ops l deleted oldestKept =
     rmw_loop ops l (\<lambda>entries. index_marshal (prune_entries entries deleted oldestKept)) appendAttempts"

definition set_verified :: "string \<Rightarrow> string \<Rightarrow> bool \<Rightarrow> time \<Rightarrow> Entry \<Rightarrow> Entry" where
  "set_verified i level ok at e =
     (if eID e \<noteq> i then e
      else e\<lparr>eVerifiedAt := Some at, eVerifyLevel := level, eVerifyOK := Some ok\<rparr>)"

definition verification_update ::
  "Layout \<Rightarrow> string \<Rightarrow> string \<Rightarrow> bool \<Rightarrow> time \<Rightarrow> Entry list \<Rightarrow> string result" where
  "verification_update l i level ok at entries =
     (if \<not> list_ex (\<lambda>e. eID e = i) entries
      then Inl (ErrText (''backup '' @ i @ '' is not in the index; run `vaultd reindex '' @ lTarget l @ ''`''))
      else index_marshal (map (set_verified i level ok at) entries))"

definition index_SetVerification ::
  "'s store_ops \<Rightarrow> Layout \<Rightarrow> string \<Rightarrow> string \<Rightarrow> bool \<Rightarrow> time \<Rightarrow> ('s, unit) action" where
  "index_SetVerification ops l i level ok at =
     rmw_loop ops l (verification_update l i level ok at) appendAttempts"

definition index_fetch :: "'s store_ops \<Rightarrow> string \<Rightarrow> ('s, Manifest) action" where
  "index_fetch ops key s =
     (case sGet ops key s of
        (Inl err, s1) \<Rightarrow> (Inl (ErrWrap (''reading '' @ key) err), s1)
      | (Inr raw, s1) \<Rightarrow>
          (case Manifest_Unmarshal raw of
             Inl err \<Rightarrow> (Inl (ErrWrap (''reading '' @ key) err), s1)
           | Inr m \<Rightarrow> (Inr m, s1)))"

fun fetch_entries :: "'s store_ops \<Rightarrow> string list \<Rightarrow> ('s, Entry list) action" where
  "fetch_entries ops [] s = (Inr [], s)"
| "fetch_entries ops (key # keys) s =
     (case index_fetch ops key s of
        (Inl err, s1) \<Rightarrow> (Inl err, s1)
      | (Inr m, s1) \<Rightarrow>
          (case fetch_entries ops keys s1 of
             (Inl err, s2) \<Rightarrow> (Inl err, s2)
           | (Inr es, s2) \<Rightarrow> (Inr (NewEntry m key # es), s2)))"

definition index_Rebuild :: "'s store_ops \<Rightarrow> Layout \<Rightarrow> ('s, Entry list) action" where
  "index_Rebuild ops l s =
     (case sList ops (Layout_TargetPrefix l) s of
        (Inl err, s1) \<Rightarrow> (Inl (ErrWrap (''listing '' @ lTarget l) err), s1)
      | (Inr objects, s1) \<Rightarrow>
          (case fetch_entries ops (filter IsManifestKey (map oKey objects)) s1 of
             (Inl err, s2) \<Rightarrow> (Inl err, s2)
           | (Inr entries, s2) \<Rightarrow> (Inr (sort_key eFinishedAt entries), s2)))"

text \<open>\<open>Entries\<close> also reports whether the index object was there (\<open>cached\<close>).\<close>

definition index_Entries :: "'s store_ops \<Rightarrow> Layout \<Rightarrow> ('s, Entry list \<times> bool) action" where
  "index_Entries ops l s =
     (case index_Load ops l s of
        (Inl err, s1) \<Rightarrow> (Inl err, s1)
      | (Inr current, s1) \<Rightarrow>
          if ixETag current \<noteq> [] then (Inr (ixEntries current, True), s1)
          else (case index_Rebuild ops l s1 of
                  (Inl err, s2) \<Rightarrow> (Inl err, s2)
                | (Inr rebuilt, s2) \<Rightarrow> (Inr (rebuilt, False), s2)))"

section \<open>Writing and reading back the lines\<close>

definition index_text :: "Entry list \<Rightarrow> string" where
  "index_text es = lines_text (map entry_line es)"

lemma marshal_from_lines:
  "\<forall>e\<in>set es. entry_ok e \<Longrightarrow> marshal_from (lines_text ls) es = Inr (lines_text (ls @ map entry_line es))"
  by (induction es arbitrary: ls) (simp_all add: AppendEntry_lines)

lemma index_marshal_text: "\<forall>e\<in>set es. entry_ok e \<Longrightarrow> index_marshal es = Inr (index_text es)"
  using marshal_from_lines [of es "[]"] by (simp add: index_marshal_def index_text_def lines_text_def)

lemma append_update_text:
  assumes "\<forall>e\<in>set es. entry_ok e" and "entry_ok e"
  shows "append_update e es = Inr (index_text (es @ [e]))"
  using assms index_marshal_text [OF assms(1)] AppendEntry_lines [OF assms(2), of "map entry_line es"]
  by (simp add: append_update_def index_text_def)

lemma ParseIndex_text: "\<forall>e\<in>set es. entry_storable e \<Longrightarrow> ParseIndex (index_text es) = (es, None)"
  unfolding index_text_def by (rule ParseIndex_lines)

text \<open>C13: The index round-trips: parsing what \<open>marshal\<close> writes for any list of storable entries
  (UTF-8 strings, timestamps in range, lines under one MiB) gives the same entries in order.\<close>

theorem index_roundtrip:
  assumes "\<forall>e\<in>set es. entry_storable e"
  shows "\<exists>b. index_marshal es = Inr b \<and> ParseIndex b = (es, None)"
  using index_marshal_text [of es] ParseIndex_text [OF assms] assms by (auto simp: entry_storable_def)

section \<open>Concurrent writers\<close>

type_synonym 's store_view = "'s \<Rightarrow> string \<rightharpoonup> string \<times> string"

text \<open>What the index object holds, read at one instant.\<close>

definition index_at :: "'s store_view \<Rightarrow> Layout \<Rightarrow> 's \<Rightarrow> Entry list \<times> err option" where
  "index_at view l s = (case view s (Layout_Index l) of None \<Rightarrow> ([], None) | Some (b, e) \<Rightarrow> ParseIndex b)"

text \<open>
  How other processes may change the store between two calls: the object under \<open>k\<close> stays, or
  it changes to one whose etag has a higher \<open>rank\<close>, so that no earlier version comes back.
  Every etag is non-empty.
\<close>

definition advances :: "'s store_view \<Rightarrow> (string option \<Rightarrow> nat) \<Rightarrow> string \<Rightarrow> 's \<Rightarrow> 's \<Rightarrow> bool" where
  "advances view rank k s t \<longleftrightarrow>
     view t k = view s k \<or>
     rank (map_option snd (view s k)) < rank (map_option snd (view t k)) \<and>
     (\<forall>b. view t k \<noteq> Some (b, []))"

lemma advances_refl: "advances view rank k s s"
  by (simp add: advances_def)

lemma advances_same_etag:
  assumes "advances view rank k s t" and "advances view rank k t u"
    and "map_option snd (view u k) = map_option snd (view s k)"
  shows "view t k = view s k \<and> view u k = view s k"
  using assms by (auto simp: advances_def)

lemma advances_nonempty:
  "advances view rank k s t \<Longrightarrow> (\<forall>b. view s k \<noteq> Some (b, [])) \<Longrightarrow> (\<forall>b. view t k \<noteq> Some (b, []))"
  by (auto simp: advances_def)

context object_store
begin

lemma head_result:
  "snd (sHead ops k s) = s"
  "fst (sHead ops k s) = Inr i \<Longrightarrow> \<exists>b. view s k = Some (b, oETag i)"
proof -
  have "snd (sHead ops k s) = s \<and> (fst (sHead ops k s) = Inr i \<longrightarrow> (\<exists>b. view s k = Some (b, oETag i)))"
  proof (cases "view s k")
    case None
    from head_miss [OF this] show ?thesis by auto
  next
    case (Some v)
    then obtain b e where "view s k = Some (b, e)" by (cases v) auto
    from head_hit [OF this] this show ?thesis by auto
  qed
  then show "snd (sHead ops k s) = s" "fst (sHead ops k s) = Inr i \<Longrightarrow> \<exists>b. view s k = Some (b, oETag i)"
    by blast+
qed

lemma get_result:
  "snd (sGet ops k s) = s"
  "fst (sGet ops k s) = Inr b \<Longrightarrow> \<exists>e. view s k = Some (b, e)"
proof -
  have "snd (sGet ops k s) = s \<and> (fst (sGet ops k s) = Inr b \<longrightarrow> (\<exists>e. view s k = Some (b, e)))"
  proof (cases "view s k")
    case None
    from get_miss [OF this] show ?thesis by auto
  next
    case (Some v)
    then obtain b' e where "view s k = Some (b', e)" by (cases v) auto
    from get_hit [OF this] this show ?thesis by auto
  qed
  then show "snd (sGet ops k s) = s" "fst (sGet ops k s) = Inr b \<Longrightarrow> \<exists>e. view s k = Some (b, e)"
    by blast+
qed

lemma scripted_load:
  assumes "index_Load (scripted ops) l (s, script) = (Inr cur, (s', script'))"
    and "disturbances (advances view rank (Layout_Index l)) script"
  shows "disturbances (advances view rank (Layout_Index l)) script' \<and> meanwhile s script s' script' \<and>
    (\<exists>s1. advances view rank (Layout_Index l) s s1 \<and> advances view rank (Layout_Index l) s1 s' \<and>
       (cur = \<lparr>ixEntries = [], ixETag = []\<rparr> \<or>
        (\<exists>b1 raw e2. view s1 (Layout_Index l) = Some (b1, ixETag cur) \<and>
           view s' (Layout_Index l) = Some (raw, e2) \<and> ParseIndex raw = (ixEntries cur, None))))"
proof -
  let ?K = "Layout_Index l" let ?R = "advances view rank ?K"
  obtain r1 s1 sc1 where h: "scripted_call (sHead ops ?K) (s, script) = (r1, (s1, sc1))"
    by (metis prod.exhaust)
  have head: "?R s s1" "disturbances ?R sc1" "\<And>x. r1 = Inr x \<Longrightarrow> fst (sHead ops ?K s1) = Inr x"
    "meanwhile s script s1 sc1" using scripted_read [OF h assms(2) advances_refl head_result(1)] by simp_all
  show ?thesis
  proof (cases r1)
    case (Inl err)
    then have "cur = \<lparr>ixEntries = [], ixETag = []\<rparr>" "s' = s1" "script' = sc1"
      using assms(1) h by (auto simp: index_Load_def split: if_splits)
    with head(1,2,4) show ?thesis by (intro conjI exI [of _ s1]) (simp_all add: advances_refl)
  next
    case (Inr info)
    obtain b1 where b1: "view s1 ?K = Some (b1, oETag info)"
      using head_result(2) [OF head(3) [OF Inr]] by blast
    obtain r2 s2 sc2 where g: "scripted_call (sGet ops ?K) (s1, sc1) = (r2, (s2, sc2))"
      by (metis prod.exhaust)
    have get: "?R s1 s2" "disturbances ?R sc2" "\<And>x. r2 = Inr x \<Longrightarrow> fst (sGet ops ?K s2) = Inr x"
      and mw: "meanwhile s script s2 sc2"
      using scripted_read [OF g head(2) advances_refl get_result(1)] meanwhile_trans [OF head(4)] by simp_all
    show ?thesis
    proof (cases r2)
      case (Inl err)
      then have "cur = \<lparr>ixEntries = [], ixETag = []\<rparr>" "s' = s2" "script' = sc2"
        using assms(1) h g Inr by (auto simp: index_Load_def split: if_splits)
      with head(1) get(1,2) mw show ?thesis by (intro conjI exI [of _ s1]) simp_all
    next
      case raw: (Inr raw)
      obtain e2 where "view s2 ?K = Some (raw, e2)" using get_result(2) [OF get(3) [OF raw]] by blast
      moreover have "ParseIndex raw = (ixEntries cur, None)" "ixETag cur = oETag info" "s' = s2" "script' = sc2"
        using assms(1) h g Inr raw by (auto simp: index_Load_def split: prod.splits option.splits)
      ultimately show ?thesis using head(1) get(1,2) b1 mw by (intro conjI exI [of _ s1]) simp_all
    qed
  qed
qed

lemma rmw_linearizes:
  assumes "rmw_loop (scripted ops) l upd n (s, script) = (Inr (), (s', script'))"
    and "disturbances (advances view rank (Layout_Index l)) script"
    and "\<forall>b. view s (Layout_Index l) \<noteq> Some (b, [])"
  shows "\<exists>t es raw. meanwhile s script t script' \<and> index_at view l t = (es, None) \<and> upd es = Inr raw \<and>
           view s' = (view t)(Layout_Index l \<mapsto> (raw, etag_of raw))"
  using assms
proof (induction n arbitrary: s script)
  case (Suc n)
  let ?K = "Layout_Index l" let ?R = "advances view rank ?K"
  obtain cur s1 sc1 raw where load: "index_Load (scripted ops) l (s, script) = (Inr cur, (s1, sc1))"
    and upd: "upd (ixEntries cur) = Inr raw"
    using Suc.prems(1) by (auto split: prod.splits sum.splits)
  obtain info written s2 sc2 where
    put: "scripted_call (sPutIfMatch ops ?K raw (ixETag cur)) (s1, sc1) = (Inr (info, written), (s2, sc2))"
    using Suc.prems(1) load upd by (auto split: prod.splits sum.splits)
  have after: "if written then s' = s2 \<and> script' = sc2 else rmw_loop (scripted ops) l upd n (s2, sc2) = (Inr (), (s', script'))"
    using Suc.prems(1) load upd put by (auto split: if_splits)
  from scripted_load [OF load Suc.prems(2)] obtain s0 where sc1: "disturbances ?R sc1"
    and m1: "meanwhile s script s1 sc1" and R0: "?R s s0" and R1: "?R s0 s1"
    and cur: "cur = \<lparr>ixEntries = [], ixETag = []\<rparr> \<or>
        (\<exists>b1 raw e2. view s0 ?K = Some (b1, ixETag cur) \<and> view s1 ?K = Some (raw, e2) \<and>
           ParseIndex raw = (ixEntries cur, None))" by blast
  obtain t where Rt: "?R s1 t" and t: "sPutIfMatch ops ?K raw (ixETag cur) t = (Inr (info, written), s2)"
    and sc2: "disturbances ?R sc2" and m2: "meanwhile s1 sc1 t sc2"
    using scripted_call_answer [OF put sc1 advances_refl] by blast
  have tag: "tag_ok (ixETag cur)" using cur tag_view tag_empty by auto
  have mt: "meanwhile s script t sc2" by (rule meanwhile_trans [OF m1 m2])
  have ne0: "\<forall>b. view s0 ?K \<noteq> Some (b, [])" by (rule advances_nonempty [OF R0 Suc.prems(3)])
  have net: "\<forall>b. view t ?K \<noteq> Some (b, [])"
    by (rule advances_nonempty [OF Rt advances_nonempty [OF R1 ne0]])
  show ?case
  proof (cases written)
    case False
    with t have "sPutIfMatch ops ?K raw (ixETag cur) t = (Inr (info, False), s2)" by simp
    then have "s2 = t" using tag by (rule match_unwritten)
    then have "rmw_loop (scripted ops) l upd n (t, sc2) = (Inr (), (s', script'))" using after False by simp
    from Suc.IH [OF this sc2 net] show ?thesis using meanwhile_trans [OF mt] by blast
  next
    case True
    then have w: "view s2 = (view t)(?K \<mapsto> (raw, etag_of raw))"
      "case view t ?K of None \<Rightarrow> ixETag cur = [] | Some (b0, e0) \<Rightarrow> e0 = ixETag cur"
      using match_written [of ?K raw "ixETag cur" t info s2, OF _ tag] t by simp_all
    have "index_at view l t = (ixEntries cur, None)"
    proof (cases "cur = \<lparr>ixEntries = [], ixETag = []\<rparr>")
      case True
      with w(2) net show ?thesis by (auto simp: index_at_def split: option.splits)
    next
      case False
      then obtain b1 raw' e2 where v: "view s0 ?K = Some (b1, ixETag cur)" "view s1 ?K = Some (raw', e2)"
        "ParseIndex raw' = (ixEntries cur, None)" using cur by blast
      then have "map_option snd (view t ?K) = map_option snd (view s0 ?K)"
        using w(2) ne0 by (auto split: option.splits)
      from advances_same_etag [OF R1 Rt this] v show ?thesis by (simp add: index_at_def)
    qed
    with upd w(1) after True mt show ?thesis by (intro exI [of _ t]) auto
  qed
qed simp

text \<open>With nobody else writing, a load reads the index and the first attempt succeeds.\<close>

lemma load_quiet:
  assumes "index_at view l s = (es, None)" and "\<forall>b. view s (Layout_Index l) \<noteq> Some (b, [])"
  shows "index_Load ops l s =
    (Inr \<lparr>ixEntries = es, ixETag = (case view s (Layout_Index l) of None \<Rightarrow> [] | Some (b, e) \<Rightarrow> e)\<rparr>, s)"
proof (cases "view s (Layout_Index l)")
  case None
  from head_miss [OF None] assms(1) None show ?thesis by (auto simp: index_Load_def index_at_def)
next
  case (Some v)
  then obtain b e where v: "view s (Layout_Index l) = Some (b, e)" by (cases v) auto
  from head_hit [OF v] get_hit [OF v] assms(1) v show ?thesis by (auto simp: index_Load_def index_at_def)
qed

lemma rmw_quiet:
  assumes "index_at view l s = (es, None)" and "\<forall>b. view s (Layout_Index l) \<noteq> Some (b, [])"
    and "upd es = Inr raw"
  shows "\<exists>s'. rmw_loop ops l upd (Suc n) s = (Inr (), s') \<and> (inv s \<longrightarrow> inv s') \<and>
           view s' = (view s)(Layout_Index l \<mapsto> (raw, etag_of raw))"
proof -
  let ?e = "case view s (Layout_Index l) of None \<Rightarrow> [] | Some (b, e) \<Rightarrow> e"
  obtain b0 where "view s (Layout_Index l) = Some (b0, ?e) \<or> view s (Layout_Index l) = None \<and> ?e = []"
    by (cases "view s (Layout_Index l)") auto
  from match_hit [OF this, of raw] load_quiet [OF assms(1,2)] assms(3) show ?thesis by auto
qed

lemma fetch_entries_quiet:
  assumes "\<forall>k\<in>set ks. \<exists>e. view s k = Some (manifest_text (mf k), e) \<and> manifest_ok (mf k)"
  shows "fetch_entries ops ks s = (Inr (map (\<lambda>k. NewEntry (mf k) k) ks), s)"
  using assms
proof (induction ks)
  case (Cons k ks)
  then obtain e where "view s k = Some (manifest_text (mf k), e)" and ok: "manifest_ok (mf k)" by auto
  from get_hit [OF this(1)] manifest_read_back(2) [OF ok]
  have "index_fetch ops k s = (Inr (manifest_back (mf k)), s)" by (simp add: index_fetch_def)
  with Cons show ?case by (simp add: NewEntry_back)
qed simp

lemma rebuild_quiet:
  assumes "inv s"
    and "\<forall>k. view s k \<noteq> None \<and> HasPrefix k (Layout_TargetPrefix l) \<and> IsManifestKey k \<longrightarrow>
             (\<exists>e. view s k = Some (manifest_text (mf k), e) \<and> manifest_ok (mf k))"
  shows "\<exists>es ks. index_Rebuild ops l s = (Inr es, s) \<and> distinct ks \<and>
    set ks = {k. view s k \<noteq> None \<and> HasPrefix k (Layout_TargetPrefix l) \<and> IsManifestKey k} \<and>
    mset es = mset (map (\<lambda>k. NewEntry (mf k) k) ks) \<and> sorted (map eFinishedAt es)"
proof -
  obtain infos where infos: "sList ops (Layout_TargetPrefix l) s = (Inr infos, s)"
    "distinct (map oKey infos)"
    "set (map oKey infos) = {k. view s k \<noteq> None \<and> HasPrefix k (Layout_TargetPrefix l)}"
    using list_keys [OF assms(1), of "Layout_TargetPrefix l"] by blast
  let ?ks = "filter IsManifestKey (map oKey infos)"
  have ks: "set ?ks = {k. view s k \<noteq> None \<and> HasPrefix k (Layout_TargetPrefix l) \<and> IsManifestKey k}"
    using infos(3) by auto
  then have "fetch_entries ops ?ks s = (Inr (map (\<lambda>k. NewEntry (mf k) k) ?ks), s)"
    using assms(2) by (intro fetch_entries_quiet) blast
  with infos(1) have "index_Rebuild ops l s = (Inr (sort_key eFinishedAt (map (\<lambda>k. NewEntry (mf k) k) ?ks)), s)"
    by (simp add: index_Rebuild_def)
  moreover have "distinct ?ks" using infos(2) by simp
  ultimately show ?thesis using ks
    by (intro exI [of _ "sort_key eFinishedAt (map (\<lambda>k. NewEntry (mf k) k) ?ks)"] exI [of _ ?ks])
      (simp del: filter_map)
qed

end

section \<open>The index of the program's store\<close>

lemma index_at_text:
  "\<forall>e\<in>set es. entry_storable e \<Longrightarrow> view s (Layout_Index l) = Some (index_text es, x)
     \<Longrightarrow> index_at view l s = (es, None)"
  by (simp add: index_at_def ParseIndex_text)

lemma appendAttempts_Suc: "appendAttempts = Suc 4"
  by (simp add: appendAttempts_def)

lemma rmw_first_try:
  assumes "index_at mem_view l s = (es, None)" and "\<forall>b. mem_view s (Layout_Index l) \<noteq> Some (b, [])"
    and "upd es = Inr raw"
  shows "\<exists>s'. rmw_loop (memory_ops h) l upd appendAttempts s = (Inr (), s') \<and> (mem_wf s \<longrightarrow> mem_wf s') \<and>
    mem_view s' = (mem_view s)(Layout_Index l \<mapsto> (raw, h raw))"
  unfolding appendAttempts_Suc using mem.rmw_quiet [where upd = upd] assms by blast

text \<open>C4: No update is lost. However other processes interleave with \<open>Append\<close>, and whichever of its
  calls fail, an \<open>Append\<close> that reports success wrote exactly one line more than the index held
  at the instant of the write: every entry others had committed by then is still there, the new
  one is last, and no other object changed. Others may write anything that does not bring an
  earlier version of the index back.\<close>

theorem append_no_lost_update:
  assumes "index_Append (scripted (memory_ops h)) l entry (s, script) = (Inr (), (s', script'))"
    and "disturbances (advances mem_view rank (Layout_Index l)) script"
    and "\<forall>b. mem_view s (Layout_Index l) \<noteq> Some (b, [])" and "entry_storable entry"
  shows "\<exists>t es. meanwhile s script t script' \<and> index_at mem_view l t = (es, None) \<and>
    (\<forall>k. k \<noteq> Layout_Index l \<longrightarrow> mem_view s' k = mem_view t k) \<and>
    ((\<forall>e\<in>set es. entry_storable e) \<longrightarrow> index_at mem_view l s' = (es @ [entry], None))"
proof -
  obtain t es raw where t: "meanwhile s script t script'" "index_at mem_view l t = (es, None)"
    and raw: "append_update entry es = Inr raw"
    and v: "mem_view s' = (mem_view t)(Layout_Index l \<mapsto> (raw, h raw))"
    using mem.rmw_linearizes [OF assms(1) [unfolded index_Append_def] assms(2,3)] by blast
  have "index_at mem_view l s' = (es @ [entry], None)" if "\<forall>e\<in>set es. entry_storable e"
    using that raw v assms(4) append_update_text [of es entry]
    by (intro index_at_text) (auto simp: entry_storable_def)
  with t v show ?thesis by auto
qed

text \<open>C15: With nobody interfering, \<open>Append\<close> returns at its first attempt, and the index then lists
  what it listed before, followed by the new entry.\<close>

theorem append_succeeds:
  assumes "index_at mem_view l s = (es, None)" and "\<forall>b. mem_view s (Layout_Index l) \<noteq> Some (b, [])"
    and "\<forall>e\<in>set es. entry_storable e" and "entry_storable entry"
  shows "\<exists>s'. index_Append (memory_ops h) l entry s = (Inr (), s') \<and>
    index_at mem_view l s' = (es @ [entry], None) \<and>
    (\<forall>k. k \<noteq> Layout_Index l \<longrightarrow> mem_view s' k = mem_view s k)"
proof -
  have upd: "append_update entry es = Inr (index_text (es @ [entry]))"
    using assms(3,4) by (intro append_update_text) (auto simp: entry_storable_def)
  obtain s' where s': "index_Append (memory_ops h) l entry s = (Inr (), s')"
    "mem_view s' = (mem_view s)(Layout_Index l \<mapsto> (index_text (es @ [entry]), h (index_text (es @ [entry]))))"
    using rmw_first_try [OF assms(1,2), of "append_update entry", OF upd]
    unfolding index_Append_def by blast
  moreover have "index_at mem_view l s' = (es @ [entry], None)"
    using assms(3,4) s'(2) by (intro index_at_text) auto
  ultimately show ?thesis by auto
qed

lemma remove_succeeds:
  assumes "index_at mem_view l s = (es, None)" and "\<forall>b. mem_view s (Layout_Index l) \<noteq> Some (b, [])"
    and "\<forall>e\<in>set es. entry_storable e"
  shows "\<exists>s'. index_Remove (memory_ops h) l ids oldest s = (Inr (), s') \<and> (mem_wf s \<longrightarrow> mem_wf s') \<and>
    index_at mem_view l s' = (prune_entries es ids oldest, None) \<and>
    (\<forall>k. k \<noteq> Layout_Index l \<longrightarrow> mem_view s' k = mem_view s k)"
proof -
  let ?es = "prune_entries es ids oldest"
  have "set ?es \<subseteq> set es" by (auto simp: prune_entries_def)
  then have st: "\<forall>e\<in>set ?es. entry_storable e" using assms(3) by auto
  then have upd: "index_marshal ?es = Inr (index_text ?es)"
    by (intro index_marshal_text) (auto simp: entry_storable_def)
  obtain s' where s': "index_Remove (memory_ops h) l ids oldest s = (Inr (), s')" "mem_wf s \<longrightarrow> mem_wf s'"
    "mem_view s' = (mem_view s)(Layout_Index l \<mapsto> (index_text ?es, h (index_text ?es)))"
    using rmw_first_try [OF assms(1,2), of "\<lambda>es. index_marshal (prune_entries es ids oldest)", OF upd]
    unfolding index_Remove_def by blast
  moreover have "index_at mem_view l s' = (?es, None)" using st s'(3) by (intro index_at_text) auto
  ultimately show ?thesis by auto
qed

text \<open>Recording a verification on a quiet store marks exactly the entries of that backup with the
  level, the verdict and the time, leaves every other entry alone, and is refused with an error
  and no write when the index does not know the backup.\<close>

theorem set_verification_exact:
  assumes "index_at mem_view l s = (es, None)" and "\<forall>b. mem_view s (Layout_Index l) \<noteq> Some (b, [])"
    and "\<forall>e\<in>set es. entry_storable (set_verified i level ok at e)"
  shows "(i \<in> eID ` set es \<longrightarrow>
           (\<exists>s'. index_SetVerification (memory_ops h) l i level ok at s = (Inr (), s') \<and>
              index_at mem_view l s' = (map (set_verified i level ok at) es, None) \<and>
              (\<forall>k. k \<noteq> Layout_Index l \<longrightarrow> mem_view s' k = mem_view s k)))
       \<and> (i \<notin> eID ` set es \<longrightarrow> (\<exists>x. index_SetVerification (memory_ops h) l i level ok at s = (Inl x, s)))"
proof -
  let ?es = "map (set_verified i level ok at) es"
  have st: "\<forall>e\<in>set ?es. entry_storable e" using assms(3) by auto
  have "\<exists>s'. index_SetVerification (memory_ops h) l i level ok at s = (Inr (), s') \<and>
      index_at mem_view l s' = (?es, None) \<and> (\<forall>k. k \<noteq> Layout_Index l \<longrightarrow> mem_view s' k = mem_view s k)"
    if "i \<in> eID ` set es"
  proof -
    have upd: "verification_update l i level ok at es = Inr (index_text ?es)"
      using that st index_marshal_text [of ?es]
      by (auto simp: verification_update_def list_ex_iff entry_storable_def)
    obtain s' where s': "index_SetVerification (memory_ops h) l i level ok at s = (Inr (), s')"
      "mem_view s' = (mem_view s)(Layout_Index l \<mapsto> (index_text ?es, h (index_text ?es)))"
      using rmw_first_try [OF assms(1,2), of "verification_update l i level ok at", OF upd]
      unfolding index_SetVerification_def by blast
    moreover have "index_at mem_view l s' = (?es, None)" using st s'(2) by (intro index_at_text) auto
    ultimately show ?thesis by auto
  qed
  moreover have "\<exists>x. index_SetVerification (memory_ops h) l i level ok at s = (Inl x, s)" if "i \<notin> eID ` set es"
    using that mem.load_quiet [OF assms(1,2)]
    unfolding index_SetVerification_def appendAttempts_Suc rmw_loop.simps(2)
    by (auto simp: verification_update_def list_ex_iff)
  ultimately show ?thesis by blast
qed

text \<open>C16: The bucket is the source of truth: \<open>Rebuild\<close> returns one entry for every manifest under the
  target's prefix, the summary of that manifest, and nothing else, oldest first.\<close>

theorem rebuild_from_manifests:
  assumes "mem_wf s"
    and "\<forall>k. mem_view s k \<noteq> None \<and> HasPrefix k (Layout_TargetPrefix l) \<and> IsManifestKey k \<longrightarrow>
             (\<exists>e. mem_view s k = Some (manifest_text (mf k), e) \<and> manifest_ok (mf k))"
  shows "\<exists>es ks. index_Rebuild (memory_ops h) l s = (Inr es, s) \<and> distinct ks \<and>
    set ks = {k. mem_view s k \<noteq> None \<and> HasPrefix k (Layout_TargetPrefix l) \<and> IsManifestKey k} \<and>
    mset es = mset (map (\<lambda>k. NewEntry (mf k) k) ks) \<and> sorted (map eFinishedAt es)"
  by (rule mem.rebuild_quiet [OF assms])

section \<open>A concrete store\<close>

text \<open>An etag function, a store that holds one index line, and another writer that adds a line.\<close>

definition demo_hash :: "string \<Rightarrow> string" where
  "demo_hash b = CHR ''h'' # b"

definition demo_entry :: "string \<Rightarrow> time \<Rightarrow> Entry" where
  "demo_entry i at = (NewFailureEntry ''app'' at at ''dump'' ''exit 1'')\<lparr>eID := i, eOutcome := OutcomeSucceeded,
     eKey := ''app/'' @ i\<rparr>"

definition demo_store :: "Entry list \<Rightarrow> memory" where
  "demo_store es = snd (memory_write demo_hash (Layout_Index (demo_layout ''app'')) (index_text es) (memory_New 0))"

definition demo_time :: time where "demo_time = 63890000000 * Second"

lemma demo_entry_valid:
  "entry_ok (demo_entry ''a'' demo_time)" "entry_ok (demo_entry ''b'' demo_time)"
  "entry_ok (set_verified ''a'' ''l1'' True demo_time (demo_entry ''a'' demo_time))"
  by code_simp+

lemma escape_str_length: "length (escape_str s) \<le> 6 * length s"
proof (induction s rule: escape_str.induct)
  case (2 c cs)
  have byte: "length (escape_byte d) \<le> 6" for d by (simp add: escape_byte_def u_escape_def)
  have rune: "length (escape_rune r) \<le> 6 * length r" if "r \<noteq> []" for r
    using that byte [of "hd r"] by (auto simp: escape_rune_def u_escape_def neq_Nil_conv split: list.splits)
  show ?case
  proof (cases "rune_size (c # cs)")
    case None
    then show ?thesis using 2(1) by (simp add: u_escape_def)
  next
    case (Some n)
    then have "length (escape_rune (take n (c # cs))) \<le> 6 * n"
      using rune [of "take n (c # cs)"] rune_size_pos [OF Some] by simp
    moreover have "length (escape_str (drop (n - 1) cs)) \<le> 6 * length (drop (n - 1) cs)"
      using 2(2) Some by simp
    moreover have "6 * n + 6 * (length cs + 1 - n) = 6 * length (c # cs)" "n \<ge> 1"
      using rune_size_pos [OF Some] by auto
    ultimately have "length (escape_rune (take n (c # cs)) @ escape_str (drop (n - 1) cs)) \<le> 6 * length (c # cs)"
      by (simp del: take_Suc_Cons)
    then show ?thesis using Some by (simp del: take_Suc_Cons)
  qed
qed simp

lemma print_fields_length:
  "length (print_fields None fs) \<le> (\<Sum>kv\<leftarrow>fs. 6 * length (fst kv) + 4 + length (print_json None (snd kv)))"
proof (induction fs)
  case (Cons kv fs)
  then show ?case using escape_str_length [of "fst kv"]
    by (simp add: print_str_def nl_def colon_def)
qed simp

lemma print_JStr_length: "length (print_json None (JStr s)) \<le> 6 * length s + 2"
  using escape_str_length [of s] by (simp add: print_str_def)

lemma entry_line_length:
  "length (entry_line e) \<le> 2 + (\<Sum>kv\<leftarrow>entry_fields e. 6 * length (fst kv) + 4 + length (print_json None (snd kv)))"
  using print_fields_length [of "entry_fields e"] by (simp add: entry_line_def nl_def)

lemma demo_time_length: "length (fmt_RFC3339Nano demo_time) = 20"
  by code_simp

lemma demo_entry_short:
  "length i \<le> 1 \<Longrightarrow> length (entry_line (demo_entry i demo_time)) < 2000"
  "length i \<le> 1 \<Longrightarrow> length (entry_line (set_verified i ''l1'' True demo_time (demo_entry i demo_time))) < 2000"
proof -
  note b = entry_line_length
  note str = print_JStr_length [of i] print_JStr_length [of "''app''"] print_JStr_length [of OutcomeSucceeded]
    print_JStr_length [of "fmt_RFC3339Nano demo_time"] print_JStr_length [of "''app/'' @ i"]
    print_JStr_length [of "''dump''"] print_JStr_length [of "''exit 1''"] print_JStr_length [of "''l1''"]
  show "length (entry_line (demo_entry i demo_time)) < 2000" if "length i \<le> 1"
    using b [of "demo_entry i demo_time"] str that demo_time_length
    by (simp add: demo_entry_def NewFailureEntry_def zero_Entry_def entry_fields_def omit_str_def omit_int_def
        omit_ptr_def json_time_def OutcomeSucceeded_def del: print_json.simps(4))
  show "length (entry_line (set_verified i ''l1'' True demo_time (demo_entry i demo_time))) < 2000" if "length i \<le> 1"
    using b [of "set_verified i ''l1'' True demo_time (demo_entry i demo_time)"] str that demo_time_length
    by (simp add: set_verified_def demo_entry_def NewFailureEntry_def zero_Entry_def entry_fields_def omit_str_def
        omit_int_def omit_ptr_def json_time_def OutcomeSucceeded_def del: print_json.simps(4))
qed

lemma demo_entry_ok [simp]:
  "entry_storable (demo_entry ''a'' demo_time)" "entry_storable (demo_entry ''b'' demo_time)"
  "entry_storable (set_verified ''a'' ''l1'' True demo_time (demo_entry ''a'' demo_time))"
  using demo_entry_valid demo_entry_short [of "''a''"] demo_entry_short [of "''b''"]
  by (simp_all add: entry_storable_def max_line_def)

lemma demo_store_view:
  "mem_view (demo_store es) (Layout_Index (demo_layout ''app'')) = Some (index_text es, demo_hash (index_text es))"
  by (simp add: demo_store_def mem_view_write)

lemma demo_store_index:
  "index_at mem_view (demo_layout ''app'') (demo_store [demo_entry ''a'' demo_time])
     = ([demo_entry ''a'' demo_time], None)"
  by (rule index_at_text) (simp_all add: demo_store_view)

lemma demo_store_etag:
  "\<forall>b. mem_view (demo_store es) (Layout_Index (demo_layout ''app'')) \<noteq> Some (b, [])"
  by (simp add: demo_store_view demo_hash_def)

definition other_writer :: "memory \<Rightarrow> memory" where
  "other_writer s =
     (let k = Layout_Index (demo_layout ''app'');
          old = (case mem_view s k of None \<Rightarrow> [] | Some (b, e) \<Rightarrow> if e = demo_hash b then b else b @ e)
      in snd (memory_write demo_hash k (old @ entry_line (demo_entry ''b'' demo_time) @ [CHR 0x0A]) s))"

definition demo_rank :: "string option \<Rightarrow> nat" where
  "demo_rank e = (case e of None \<Rightarrow> 0 | Some t \<Rightarrow> length t)"

lemma other_writer_advances:
  "advances mem_view demo_rank (Layout_Index (demo_layout ''app'')) s (other_writer s)"
  by (auto simp: advances_def other_writer_def mem_view_write demo_rank_def demo_hash_def Let_def
      split: option.splits)

theorem index_roundtrip_witness:
  "\<exists>b. index_marshal [demo_entry ''a'' demo_time, demo_entry ''b'' demo_time] = Inr b
     \<and> ParseIndex b = ([demo_entry ''a'' demo_time, demo_entry ''b'' demo_time], None)"
  by (rule index_roundtrip) simp

theorem append_succeeds_witness:
  "\<exists>s'. index_Append (memory_ops demo_hash) (demo_layout ''app'') (demo_entry ''b'' demo_time)
      (demo_store [demo_entry ''a'' demo_time]) = (Inr (), s') \<and>
    index_at mem_view (demo_layout ''app'') s' = ([demo_entry ''a'' demo_time] @ [demo_entry ''b'' demo_time], None) \<and>
    (\<forall>k. k \<noteq> Layout_Index (demo_layout ''app'') \<longrightarrow>
       mem_view s' k = mem_view (demo_store [demo_entry ''a'' demo_time]) k)"
  by (rule append_succeeds [OF demo_store_index demo_store_etag]) simp_all

theorem set_verification_exact_witness:
  "\<exists>s'. index_SetVerification (memory_ops demo_hash) (demo_layout ''app'') ''a'' ''l1'' True demo_time
      (demo_store [demo_entry ''a'' demo_time]) = (Inr (), s') \<and>
    index_at mem_view (demo_layout ''app'') s'
      = (map (set_verified ''a'' ''l1'' True demo_time) [demo_entry ''a'' demo_time], None) \<and>
    (\<forall>k. k \<noteq> Layout_Index (demo_layout ''app'') \<longrightarrow>
       mem_view s' k = mem_view (demo_store [demo_entry ''a'' demo_time]) k)"
proof -
  have "eID (demo_entry ''a'' demo_time) = ''a''" by (simp add: demo_entry_def)
  then show ?thesis
    using set_verification_exact [OF demo_store_index demo_store_etag, of "''a''" "''l1''" True demo_time demo_hash]
    by simp
qed

text \<open>An \<open>Append\<close> with another writer's line landing before its first call.\<close>

lemma scripted_nil: "scripted_call f (s, []) = (case f s of (r, s') \<Rightarrow> (r, (s', [])))"
  by (simp add: scripted_call_def)

lemma load_nil: "index_Load (scripted ops) l (s, []) = (case index_Load ops l s of (r, s') \<Rightarrow> (r, (s', [])))"
  by (auto simp: index_Load_def scripted_nil split: prod.splits sum.splits option.splits)

lemma rmw_nil:
  "rmw_loop (scripted ops) l upd n (s, []) = (case rmw_loop ops l upd n s of (r, s') \<Rightarrow> (r, (s', [])))"
proof (induction n arbitrary: s)
  case (Suc n)
  then show ?case
    by (simp add: load_nil scripted_nil split: prod.splits sum.splits)
qed simp

lemma rmw_disturbed:
  "rmw_loop (scripted ops) l upd (Suc n) (s, [Disturb g]) = rmw_loop (scripted ops) l upd (Suc n) (g s, [])"
proof -
  have "index_Load (scripted ops) l (s, [Disturb g]) = index_Load (scripted ops) l (g s, [])"
    by (simp add: index_Load_def scripted_call_def)
  then show ?thesis by simp
qed

lemma disturbed_view:
  "mem_view (other_writer (demo_store [demo_entry ''a'' demo_time])) (Layout_Index (demo_layout ''app''))
     = Some (index_text [demo_entry ''a'' demo_time, demo_entry ''b'' demo_time],
             demo_hash (index_text [demo_entry ''a'' demo_time, demo_entry ''b'' demo_time]))"
  by (simp add: other_writer_def Let_def mem_view_write demo_store_view index_text_def lines_text_def)

theorem append_no_lost_update_witness:
  "\<exists>s' script'. index_Append (scripted (memory_ops demo_hash)) (demo_layout ''app'') (demo_entry ''a'' demo_time)
       (demo_store [demo_entry ''a'' demo_time], [Disturb other_writer]) = (Inr (), (s', script')) \<and>
    (\<exists>t es. meanwhile (demo_store [demo_entry ''a'' demo_time]) [Disturb other_writer] t script' \<and>
       index_at mem_view (demo_layout ''app'') t = (es, None) \<and>
       (\<forall>k. k \<noteq> Layout_Index (demo_layout ''app'') \<longrightarrow> mem_view s' k = mem_view t k) \<and>
       ((\<forall>e\<in>set es. entry_storable e) \<longrightarrow>
          index_at mem_view (demo_layout ''app'') s' = (es @ [demo_entry ''a'' demo_time], None)))"
proof -
  let ?l = "demo_layout ''app''" and ?a = "demo_entry ''a'' demo_time" and ?b = "demo_entry ''b'' demo_time"
  let ?t = "other_writer (demo_store [?a])"
  have at: "index_at mem_view ?l ?t = ([?a, ?b], None)" by (rule index_at_text) (simp_all add: disturbed_view)
  have ne: "\<forall>b. mem_view ?t (Layout_Index ?l) \<noteq> Some (b, [])" by (simp add: disturbed_view demo_hash_def)
  have upd: "append_update ?a [?a, ?b] = Inr (index_text ([?a, ?b] @ [?a]))"
    by (rule append_update_text) (use demo_entry_valid in auto)
  obtain s' where "rmw_loop (memory_ops demo_hash) ?l (append_update ?a) appendAttempts ?t = (Inr (), s')"
    using rmw_first_try [OF at ne, of "append_update ?a", OF upd] by blast
  then have run: "index_Append (scripted (memory_ops demo_hash)) ?l ?a (demo_store [?a], [Disturb other_writer])
      = (Inr (), (s', []))"
    unfolding index_Append_def appendAttempts_Suc rmw_disturbed rmw_nil by simp
  moreover have "disturbances (advances mem_view demo_rank (Layout_Index ?l)) [Disturb other_writer]"
    by (simp add: other_writer_advances)
  ultimately show ?thesis
    using append_no_lost_update [OF run _ demo_store_etag demo_entry_ok(1)] by blast
qed

definition demo_manifest_key :: string where
  "demo_manifest_key = Layout_Manifest (demo_layout ''app'') demo_time KindFull"

definition demo_bucket :: memory where
  "demo_bucket = snd (memory_write demo_hash demo_manifest_key (manifest_text demo_manifest) (memory_New 0))"

theorem rebuild_from_manifests_witness:
  "\<exists>es ks. index_Rebuild (memory_ops demo_hash) (demo_layout ''app'') demo_bucket = (Inr es, demo_bucket) \<and> distinct ks \<and>
    set ks = {k. mem_view demo_bucket k \<noteq> None \<and> HasPrefix k (Layout_TargetPrefix (demo_layout ''app'')) \<and> IsManifestKey k} \<and>
    mset es = mset (map (\<lambda>k. NewEntry ((\<lambda>_. demo_manifest) k) k) ks) \<and> sorted (map eFinishedAt es)"
proof (rule rebuild_from_manifests)
  show "mem_wf demo_bucket"
    by (simp add: mem_wf_def demo_bucket_def memory_write_def memory_New_def Let_def)
  show "\<forall>k. mem_view demo_bucket k \<noteq> None \<and> HasPrefix k (Layout_TargetPrefix (demo_layout ''app'')) \<and> IsManifestKey k \<longrightarrow>
      (\<exists>e. mem_view demo_bucket k = Some (manifest_text demo_manifest, e) \<and> manifest_ok demo_manifest)"
    using demo_manifest_ok
    by (auto simp: demo_bucket_def mem_view_write, simp add: mem_view_def memory_New_def)
qed

end
