(* ===== verification/Notify.thy ===== *)
theory Notify
  imports Core
begin

text \<open>
  Notifications: \<open>internal/notify\<close>. The payload templates, the webhook with its retries, the
  fanout with its dedup windows and \<open>Emit\<close>. What is outside the process, an HTTP exchange
  or another notifier, is an argument: its answers are given, and what is checked is what
  the code makes of them. The formatting of sizes and durations for humans is here too.
\<close>

section \<open>Numbers for humans\<close>

definition round_half_even :: "int \<Rightarrow> int \<Rightarrow> int" where
  "round_half_even a b =
     (let q = a div b; r = a mod b
      in if 2 * r < b then q else if b < 2 * r then q + 1 else if even q then q else q + 1)"

text \<open>\<open>float64(n)\<close> of a non-negative integer: 53 significant bits, ties to even.\<close>

fun float_shift :: "nat \<Rightarrow> int \<Rightarrow> nat" where
  "float_shift 0 n = 0"
| "float_shift (Suc k) n = (if n < 2 ^ 53 then 0 else Suc (float_shift k (n div 2)))"

definition float64_of_int :: "int \<Rightarrow> int" where
  "float64_of_int n = (let k = float_shift 11 n in round_half_even n (2 ^ k) * 2 ^ k)"

fun unit_loop :: "nat \<Rightarrow> int \<Rightarrow> int \<Rightarrow> nat \<Rightarrow> int \<times> nat" where
  "unit_loop 0 sz divisor ex = (divisor, ex)"
| "unit_loop (Suc fuel) sz divisor ex =
     (if 1024 \<le> sz \<and> ex < 4 then unit_loop fuel (sz div 1024) (divisor * 1024) (ex + 1)
      else (divisor, ex))"

text \<open>The loop runs at most four times; \<open>%.1f\<close> rounds the exact quotient half to even.\<close>

definition humanBytes :: "int \<Rightarrow> string" where
  "humanBytes n =
     (if n < 1024 then Itoa n @ '' B''
      else let (divisor, ex) = unit_loop 4 (n div 1024) 1024 0;
               tenths = round_half_even (10 * float64_of_int n) divisor
           in Itoa (tenths div 10) @ ''.'' @ Itoa (tenths mod 10) @ '' '' @ [''KMGTP'' ! ex] @ ''B'')"

definition plural :: "int \<Rightarrow> string \<Rightarrow> string \<Rightarrow> string" where
  "plural n one many = (if n = 1 then Itoa n @ '' '' @ one else Itoa n @ '' '' @ many)"

text \<open>\<open>time.Duration\<close>: \<open>Round\<close> (half away from zero), \<open>Milliseconds\<close> and \<open>String\<close>.\<close>

definition Duration_Round :: "duration \<Rightarrow> duration \<Rightarrow> duration" where
  "Duration_Round d m =
     (if m \<le> 0 then d
      else if 0 \<le> d then (if 2 * (d mod m) < m then d - d mod m else d - d mod m + m)
      else let e = - d in - (if 2 * (e mod m) < m then e - e mod m else e - e mod m + m))"

definition quot_int :: "int \<Rightarrow> int \<Rightarrow> int" where
  "quot_int a b = (if 0 \<le> a then a div b else - ((- a) div b))"

definition Duration_Milliseconds :: "duration \<Rightarrow> int" where
  "Duration_Milliseconds d = quot_int d Millisecond"

definition fmt_fraction :: "int \<Rightarrow> nat \<Rightarrow> string" where
  "fmt_fraction v prec =
     (let ds = TrimRight (\<lambda>c. c = CHR ''0'') (pad0 prec (itoa_nat (nat v)))
      in if v = 0 then [] else CHR ''.'' # ds)"

definition Duration_String :: "duration \<Rightarrow> string" where
  "Duration_String d =
     (let u = \<bar>d\<bar>; sign = (if d < 0 then ''-'' else []) in
      if u = 0 then ''0s''
      else if u < 1000 then sign @ Itoa u @ ''ns''
      else if u < 1000000 then sign @ Itoa (u div 1000) @ fmt_fraction (u mod 1000) 3 @ [CHR 0xC2, CHR 0xB5] @ ''s''
      else if u < Second then sign @ Itoa (u div 1000000) @ fmt_fraction (u mod 1000000) 6 @ ''ms''
      else let secs = u div Second; m = secs div 60; h = m div 60;
               ss = Itoa (secs mod 60) @ fmt_fraction (u mod Second) 9 @ ''s''
           in sign @ (if h > 0 then Itoa h @ ''h'' else []) @ (if m > 0 then Itoa (m mod 60) @ ''m'' else []) @ ss)"

section \<open>Payloads\<close>

type_synonym Template = string

definition Templates :: "Template list" where
  "Templates = [''generic'', ''slack'', ''discord'']"

definition slackColor :: "Severity \<Rightarrow> string" where
  "slackColor s = (if s = ''critical'' then ''danger'' else if s = ''warning'' then ''warning'' else ''good'')"

definition discordColor :: "Severity \<Rightarrow> int" where
  "discordColor s = (if s = ''critical'' then 0xD64545 else if s = ''warning'' then 0xD6A245 else 0x3FA45B)"

text \<open>\<open>fmt.Sprint\<close> of the dynamic values the details carry.\<close>

fun go_sprint :: "json \<Rightarrow> string" and go_sprints :: "json list \<Rightarrow> string list"
  and go_sprint_fields :: "fields \<Rightarrow> string list" where
  "go_sprint JNull = ''<nil>''"
| "go_sprint (JBool b) = (if b then ''true'' else ''false'')"
| "go_sprint (JNum l) = l"
| "go_sprint (JStr s) = s"
| "go_sprint (JArr xs) = ''['' @ Join '' '' (go_sprints xs) @ '']''"
| "go_sprint (JObj fs) = ''map['' @ Join '' '' (go_sprint_fields fs) @ '']''"
| "go_sprints [] = []"
| "go_sprints (x # xs) = go_sprint x # go_sprints xs"
| "go_sprint_fields [] = []"
| "go_sprint_fields (kv # fs) = (fst kv @ '':'' @ go_sprint (snd kv)) # go_sprint_fields fs"

definition lastLines :: "string \<Rightarrow> nat \<Rightarrow> string" where
  "lastLines s n =
     (let lines = Split_char CHR 0x0A (TrimRight (\<lambda>c. c = CHR 0x0A) s)
      in if length lines \<le> n then Join [CHR 0x0A] lines
         else [CHR 0xE2, CHR 0x80, CHR 0xA6, CHR 0x0A] @ Join [CHR 0x0A] (drop (length lines - n) lines))"

definition code_fence :: string where
  "code_fence = [CHR 0x60, CHR 0x60, CHR 0x60]"

definition fieldsOf :: "Notification \<Rightarrow> (string \<times> string) list" where
  "fieldsOf n =
     (if nTarget n \<noteq> [] then [(''target'', nTarget n)] else [])
     @ (if nBackupID n \<noteq> [] then [(''backup'', nBackupID n)] else [])
     @ (if nDurationMS n > 0 then [(''duration'', Duration_String (wrap64 (nDurationMS n * Millisecond)))] else [])
     @ [(''severity'', nSeverity n)]
     @ map (\<lambda>kv. (fst kv, go_sprint (snd kv))) (sort_key fst (nDetails n))
     @ (case nError n of
          None \<Rightarrow> []
        | Some f \<Rightarrow>
            (if fPhase f \<noteq> [] then [(''phase'', fPhase f)] else [])
            @ [(''error'', fMessage f)]
            @ (if fStderrTail f \<noteq> []
               then [(''stderr'', code_fence @ [CHR 0x0A] @ lastLines (fStderrTail f) 10 @ [CHR 0x0A] @ code_fence)]
               else []))"

text \<open>Members of a \<open>map[string]any\<close> in the order \<open>json.Marshal\<close> writes them.\<close>

definition unix_seconds :: "time \<Rightarrow> int" where
  "unix_seconds t = t div Second - 62135596800"

definition slackPayload :: "Notification \<Rightarrow> json" where
  "slackPayload n =
     JObj [(''attachments'', JArr [JObj
         [(''color'', JStr (slackColor (nSeverity n))), (''fallback'', JStr (nSummary n)),
          (''fields'', JArr (map (\<lambda>f. JObj [(''short'', JBool (length (snd f) < 40)),
              (''title'', JStr (fst f)), (''value'', JStr (snd f))]) (fieldsOf n))),
          (''mrkdwn_in'', JArr [JStr ''text'']), (''text'', JStr (nSummary n)),
          (''title'', JStr (nEvent n)), (''ts'', json_int (unix_seconds (nAt n)))]]),
       (''text'', JStr (nSummary n))]"

definition discordPayload :: "Notification \<Rightarrow> json" where
  "discordPayload n =
     JObj [(''content'', JStr (nSummary n)), (''embeds'', JArr [JObj
         [(''color'', json_int (discordColor (nSeverity n))), (''description'', JStr (nSummary n)),
          (''fields'', JArr (map (\<lambda>f. JObj [(''inline'', JBool (length (snd f) < 40)),
              (''name'', JStr (fst f)), (''value'', JStr (snd f))]) (fieldsOf n))),
          (''timestamp'', JStr (fmt_RFC3339 UTC (nAt n))), (''title'', JStr (nEvent n))]])]"

definition failure_json :: "Failure \<Rightarrow> json" where
  "failure_json f = JObj (omit_str ''phase'' (fPhase f) @ omit_str ''code'' (fCode f)
     @ [(''message'', JStr (fMessage f))] @ omit_str ''stderr_tail'' (fStderrTail f))"

definition genericPayload :: "Notification \<Rightarrow> json" where
  "genericPayload n =
     JObj ([(''event'', JStr (nEvent n)), (''at'', json_time (nAt n))] @ omit_str ''target'' (nTarget n)
       @ omit_str ''backup_id'' (nBackupID n) @ [(''severity'', JStr (nSeverity n))]
       @ omit_int ''duration_ms'' (nDurationMS n) @ omit_ptr failure_json ''error'' (nError n)
       @ [(''summary'', JStr (nSummary n))]
       @ (if nDetails n = [] then [] else [(''details'', JObj (sort_key fst (nDetails n)))]))"

definition Template_Render :: "Template \<Rightarrow> Notification \<Rightarrow> string result" where
  "Template_Render t n =
     (if t = ''slack'' then Inr (print_json None (slackPayload n))
      else if t = ''discord'' then Inr (print_json None (discordPayload n))
      else if t = ''generic'' \<or> t = [] then
        (if json_time_ok (nAt n) then Inr (print_json None (genericPayload n))
         else Inl (ErrWrap (''encoding the '' @ t @ '' payload'')
                (ErrText ''json: error calling MarshalJSON for type time.Time: year outside of range [0,9999]'')))
      else Inl (ErrText (''unknown template '' @ fmt_q t @ ''; use one of '' @ Join '', '' Templates)))"

section \<open>The webhook\<close>

definition defaultAttempts :: int where "defaultAttempts = 3"

text \<open>
  One HTTP exchange as \<open>post\<close> sees it: the request could not be built, the connection did
  not complete, or the receiver answered with a status.
\<close>

datatype exchange = BadRequest err | NoConnection err | Answer int string

text \<open>\<open>permanentError\<close> marks a failure no retry can fix.\<close>

datatype post_result = PostOk | PostTransient err | PostPermanent err

definition webhook_post :: "exchange \<Rightarrow> post_result" where
  "webhook_post x =
     (case x of
        BadRequest e \<Rightarrow> PostPermanent e
      | NoConnection e \<Rightarrow> PostTransient (ErrWrap ''posting to the webhook'' e)
      | Answer code status \<Rightarrow>
          if 200 \<le> code \<and> code < 300 then PostOk
          else if code = 429 \<or> code \<ge> 500 then PostTransient (ErrText (''the webhook answered '' @ status))
          else PostPermanent (ErrText (''the webhook answered '' @ status)))"

text \<open>
  The delivery loop from attempt \<open>attempt\<close> on: \<open>net i\<close> is the exchange of attempt \<open>i\<close> and
  \<open>ctxErr i\<close> the context's error after the delay before it. It answers with the error and
  with the number of requests sent.
\<close>

fun deliver ::
  "string \<Rightarrow> (nat \<Rightarrow> exchange) \<Rightarrow> (nat \<Rightarrow> err option) \<Rightarrow> nat \<Rightarrow> nat \<Rightarrow> err option \<Rightarrow> err option \<times> nat" where
  "deliver name net ctxErr 0 attempt lastErr = (Some (ErrWrap (''notifier '' @ fmt_q name) (the lastErr)), 0)"
| "deliver name net ctxErr (Suc left) attempt lastErr =
     (case (if attempt > 0 then ctxErr attempt else None) of
        Some e \<Rightarrow> (Some (ErrWrap (''notifier '' @ fmt_q name) (ErrJoin [CHR 0x0A] (the lastErr) e)), 0)
      | None \<Rightarrow>
          (case webhook_post (net attempt) of
             PostOk \<Rightarrow> (None, 1)
           | PostPermanent e \<Rightarrow> (Some (ErrWrap (''notifier '' @ fmt_q name) e), 1)
           | PostTransient e \<Rightarrow> apsnd Suc (deliver name net ctxErr left (attempt + 1) (Some e))))"

definition Webhook_Notify ::
  "string \<Rightarrow> Template \<Rightarrow> int \<Rightarrow> (nat \<Rightarrow> exchange) \<Rightarrow> (nat \<Rightarrow> err option) \<Rightarrow> Notification \<Rightarrow> err option \<times> nat" where
  "Webhook_Notify name tmpl attempts net ctxErr n =
     (case Template_Render tmpl n of
        Inl e \<Rightarrow> (Some (ErrWrap (''notifier '' @ fmt_q name) e), 0)
      | Inr body \<Rightarrow>
          deliver name net ctxErr (nat (if attempts \<le> 0 then defaultAttempts else attempts)) 0 None)"

text \<open>\<open>backoff\<close>: half the exponential delay plus a jitter below the other half.\<close>

definition webhook_backoff :: "nat \<Rightarrow> int option \<Rightarrow> duration" where
  "webhook_backoff attempt jitter =
     (let d = Second * 2 ^ (attempt - 1) in case jitter of None \<Rightarrow> d | Some j \<Rightarrow> d div 2 + j)"

text \<open>\<open>mac\<close> is HMAC-SHA256 in hexadecimal.\<close>

definition Sign :: "(string \<Rightarrow> string \<Rightarrow> string) \<Rightarrow> string \<Rightarrow> string \<Rightarrow> string" where
  "Sign mac secret body = ''sha256='' @ mac secret body"

definition Verify_signature :: "(string \<Rightarrow> string \<Rightarrow> string) \<Rightarrow> string \<Rightarrow> string \<Rightarrow> string \<Rightarrow> bool" where
  "Verify_signature mac secret body signature \<longleftrightarrow> Sign mac secret body = signature"

section \<open>The fanout\<close>

text \<open>A notifier acts on the world \<open>'w\<close> and may report a failure.\<close>

type_synonym 'w notifier = "Notification \<Rightarrow> 'w \<Rightarrow> err option \<times> 'w"

record 'w Subscription =
  subName :: string
  subNotifier :: "'w notifier"
  subEvents :: "Event list"
  subDedup :: duration

type_synonym dedupKey = "string \<times> string \<times> Event"

definition wants :: "'w Subscription \<Rightarrow> Event \<Rightarrow> bool" where
  "wants sub event \<longleftrightarrow> list_ex (\<lambda>subscribed. subscribed = event) (subEvents sub)"

definition suppress ::
  "time \<Rightarrow> 'w Subscription \<Rightarrow> Notification \<Rightarrow> (dedupKey \<rightharpoonup> time) \<Rightarrow> bool \<times> (dedupKey \<rightharpoonup> time)" where
  "suppress now sub n sent =
     (if subDedup sub \<le> 0 then (False, sent)
      else let key = (subName sub, nTarget n, nEvent n) in
        case sent key of
          Some prev \<Rightarrow> if time_Sub now prev < subDedup sub then (True, sent) else (False, sent(key \<mapsto> now))
        | None \<Rightarrow> (False, sent(key \<mapsto> now)))"

text \<open>
  \<open>Notify\<close> over the subscriptions: the failures in order, the window table and the world. Each
  subscription reads the clock for itself; the readings of one call are taken to be one instant.
\<close>

fun Fanout_Notify ::
  "time \<Rightarrow> 'w Subscription list \<Rightarrow> Notification \<Rightarrow> (dedupKey \<rightharpoonup> time) \<Rightarrow> 'w
   \<Rightarrow> err list \<times> (dedupKey \<rightharpoonup> time) \<times> 'w" where
  "Fanout_Notify now [] n sent w = ([], sent, w)"
| "Fanout_Notify now (sub # subs) n sent w =
     (if \<not> wants sub (nEvent n) then Fanout_Notify now subs n sent w
      else case suppress now sub n sent of
             (True, sent1) \<Rightarrow> Fanout_Notify now subs n sent1 w
           | (False, sent1) \<Rightarrow>
               (case subNotifier sub n w of
                  (failure, w1) \<Rightarrow>
                    apfst ((@) (case failure of None \<Rightarrow> [] | Some e \<Rightarrow> [e])) (Fanout_Notify now subs n sent1 w1)))"

text \<open>\<open>Emit\<close>: nothing of the delivery comes back to the caller.\<close>

definition Emit :: "'w notifier option \<Rightarrow> Notification \<Rightarrow> 'w \<Rightarrow> 'w" where
  "Emit to n w = (case to of None \<Rightarrow> w | Some f \<Rightarrow> snd (f n w))"

definition new_Notification :: "Event \<Rightarrow> time \<Rightarrow> string \<Rightarrow> string \<Rightarrow> Notification" where
  "new_Notification event at target summary =
     \<lparr>nEvent = event, nAt = at, nTarget = target, nBackupID = [], nSeverity = SeverityOf event,
      nDurationMS = 0, nError = None, nSummary = summary, nDetails = []\<rparr>"

section \<open>Delivery of one notification\<close>

lemma deliver_spec:
  assumes "deliver name net ctxErr left a lastErr = (r, m)" and "left > 0 \<or> lastErr \<noteq> None"
  shows "m \<le> left \<and> (\<forall>i. i + 1 < m \<longrightarrow> (\<exists>e. webhook_post (net (a + i)) = PostTransient e)) \<and>
    (r = None \<longleftrightarrow> 0 < m \<and> webhook_post (net (a + m - 1)) = PostOk) \<and>
    (r \<noteq> None \<longrightarrow> m < left \<longrightarrow> ctxErr (a + m) = None \<longrightarrow> 0 < m \<and> (\<exists>e. webhook_post (net (a + m - 1)) = PostPermanent e))"
  using assms
proof (induction left arbitrary: a lastErr r m)
  case (Suc left)
  show ?case
  proof (cases "if a > 0 then ctxErr a else None")
    case (Some e)
    with Suc.prems show ?thesis by (auto split: if_splits)
  next
    case None
    show ?thesis
    proof (cases "webhook_post (net a)")
      case (PostTransient e)
      obtain r' m' where d: "deliver name net ctxErr left (a + 1) (Some e) = (r', m')"
        by (cases "deliver name net ctxErr left (a + 1) (Some e)")
      then have m: "m = Suc m'" "r = r'" using Suc.prems(1) None PostTransient by auto
      from Suc.IH [OF d] have IH: "m' \<le> left" "r' = None \<longleftrightarrow> 0 < m' \<and> webhook_post (net (a + 1 + m' - 1)) = PostOk"
        "\<And>i. i + 1 < m' \<Longrightarrow> \<exists>e. webhook_post (net (a + 1 + i)) = PostTransient e"
        "r' \<noteq> None \<Longrightarrow> m' < left \<Longrightarrow> ctxErr (a + 1 + m') = None \<Longrightarrow> 0 < m' \<and> (\<exists>e. webhook_post (net (a + 1 + m' - 1)) = PostPermanent e)"
        by auto
      have "\<exists>e. webhook_post (net (a + i)) = PostTransient e" if "i + 1 < m" for i
        using that PostTransient IH(3) [of "i - 1"] m by (cases i) auto
      with IH(1,2,4) m PostTransient show ?thesis by (cases m') auto
    qed (use Suc.prems None in auto)
  qed
qed auto

definition effective_attempts :: "int \<Rightarrow> nat" where
  "effective_attempts attempts = nat (if attempts \<le> 0 then defaultAttempts else attempts)"

lemma effective_attempts_pos: "0 < effective_attempts k"
  by (simp add: effective_attempts_def defaultAttempts_def)

text \<open>The three ways a request can end, by what the receiver answered.\<close>

definition accepted :: "exchange \<Rightarrow> bool" where
  "accepted x = (case x of Answer code _ \<Rightarrow> 200 \<le> code \<and> code \<le> 299 | _ \<Rightarrow> False)"

definition worth_retrying :: "exchange \<Rightarrow> bool" where
  "worth_retrying x = (case x of NoConnection _ \<Rightarrow> True | Answer code _ \<Rightarrow> code = 429 \<or> 500 \<le> code | BadRequest _ \<Rightarrow> False)"

lemma post_outcome:
  "webhook_post x = PostOk \<longleftrightarrow> accepted x"
  "(\<exists>e. webhook_post x = PostTransient e) \<longleftrightarrow> worth_retrying x"
  "(\<exists>e. webhook_post x = PostPermanent e) \<longleftrightarrow> \<not> accepted x \<and> \<not> worth_retrying x"
  by (auto simp: webhook_post_def accepted_def worth_retrying_def split: exchange.splits)

text \<open>C17: A webhook delivery sends at most the configured number of requests. It sends another one
  only when the one before got no answer, or a 429 or a status from 500 on, never after another
  4xx or a redirect; it reports success exactly when the last request was answered with a 2xx; and it
  gives up before its budget is used only on an answer of neither kind, or because the context ended.\<close>

theorem webhook_retries:
  assumes "Webhook_Notify name tmpl attempts net ctxErr n = (r, m)"
  shows "m \<le> effective_attempts attempts \<and>
    (\<forall>i. i + 1 < m \<longrightarrow> (case net i of NoConnection _ \<Rightarrow> True | Answer code _ \<Rightarrow> code = 429 \<or> 500 \<le> code | BadRequest _ \<Rightarrow> False)) \<and>
    (r = None \<longleftrightarrow> 0 < m \<and> (\<exists>code status. net (m - 1) = Answer code status \<and> 200 \<le> code \<and> code \<le> 299)) \<and>
    (r \<noteq> None \<and> 0 < m \<and> m < effective_attempts attempts \<and> ctxErr m = None \<longrightarrow>
       (case net (m - 1) of NoConnection _ \<Rightarrow> False | Answer code _ \<Rightarrow> code < 200 \<or> 300 \<le> code \<and> code < 500 \<and> code \<noteq> 429 | BadRequest _ \<Rightarrow> True))"
proof (cases "Template_Render tmpl n")
  case (Inl e)
  with assms show ?thesis by (auto simp: Webhook_Notify_def)
next
  case (Inr body)
  with assms have "deliver name net ctxErr (effective_attempts attempts) 0 None = (r, m)"
    by (simp add: Webhook_Notify_def effective_attempts_def)
  from deliver_spec [OF this] effective_attempts_pos [of attempts]
  have spec: "m \<le> effective_attempts attempts" "\<And>i. i + 1 < m \<Longrightarrow> worth_retrying (net i)"
    "r = None \<longleftrightarrow> 0 < m \<and> accepted (net (m - 1))"
    "r \<noteq> None \<Longrightarrow> m < effective_attempts attempts \<Longrightarrow> ctxErr m = None \<Longrightarrow> \<not> accepted (net (m - 1)) \<and> \<not> worth_retrying (net (m - 1))"
    by (auto simp flip: post_outcome)
  have ok: "accepted (net (m - 1)) \<longleftrightarrow> (\<exists>code status. net (m - 1) = Answer code status \<and> 200 \<le> code \<and> code \<le> 299)"
    by (auto simp: accepted_def split: exchange.splits)
  have refused: "\<not> accepted x \<and> \<not> worth_retrying x \<Longrightarrow>
      (case x of NoConnection _ \<Rightarrow> False | Answer code _ \<Rightarrow> code < 200 \<or> 300 \<le> code \<and> code < 500 \<and> code \<noteq> 429 | BadRequest _ \<Rightarrow> True)" for x
    by (auto simp: accepted_def worth_retrying_def split: exchange.splits)
  show ?thesis
  proof (intro conjI allI impI)
    show "r = None \<longleftrightarrow> 0 < m \<and> (\<exists>code status. net (m - 1) = Answer code status \<and> 200 \<le> code \<and> code \<le> 299)"
      using spec(3) unfolding ok .
  qed (use spec(1,2,4) refused in \<open>auto simp: worth_retrying_def\<close>)
qed

lemma deliver_succeeds:
  assumes "\<forall>i<k. \<exists>e. webhook_post (net (a + i)) = PostTransient e" and "webhook_post (net (a + k)) = PostOk"
    and "k < left" and "\<forall>i. ctxErr i = None"
  shows "deliver name net ctxErr left a lastErr = (None, k + 1)"
  using assms
proof (induction k arbitrary: a left lastErr)
  case 0
  then show ?case by (cases left) auto
next
  case (Suc k)
  then obtain l where left: "left = Suc l" by (cases left) auto
  obtain e where "webhook_post (net a) = PostTransient e" using Suc.prems(1) by auto
  moreover have "deliver name net ctxErr l (a + 1) (Some e) = (None, k + 1)"
    using Suc.prems left by (intro Suc.IH) auto
  moreover have "ctxErr a = None" using Suc.prems(4) by blast
  ultimately show ?case using left by (cases "a = 0") simp_all
qed

section \<open>Fanout and dedup\<close>

text \<open>Whether a subscription is due, judged on the window table as it stands.\<close>

definition due :: "time \<Rightarrow> Notification \<Rightarrow> (dedupKey \<rightharpoonup> time) \<Rightarrow> 'w Subscription \<Rightarrow> bool" where
  "due now n sent sub \<longleftrightarrow> wants sub (nEvent n) \<and> \<not> fst (suppress now sub n sent)"

lemma suppress_other:
  "subName sub' \<noteq> subName sub \<Longrightarrow> fst (suppress now sub' n (snd (suppress now sub n sent))) = fst (suppress now sub' n sent)"
  by (auto simp: suppress_def Let_def split: option.splits)

text \<open>One broken endpoint costs no other its copy: \<open>Fanout.Notify\<close> hands the notification, in
  order, to every subscription that asked for the event and is outside its dedup window,
  whatever the deliveries before it answered. For distinct notifier names.\<close>

theorem fanout_reaches_everyone:
  assumes "distinct (map subName subs)"
  shows "snd (snd (Fanout_Notify now subs n sent w))
           = foldl (\<lambda>w sub. snd (subNotifier sub n w)) w (filter (due now n sent) subs)"
  using assms
proof (induction subs arbitrary: sent w)
  case (Cons sub subs)
  obtain held sent1 where s: "suppress now sub n sent = (held, sent1)" by (cases "suppress now sub n sent")
  have same: "filter (due now n sent1) subs = filter (due now n sent) subs"
  proof (intro filter_cong refl)
    fix x
    assume "x \<in> set subs"
    then have "subName x \<noteq> subName sub" using Cons.prems by (metis distinct.simps(2) image_eqI list.simps(9) set_map)
    from suppress_other [OF this, of now n sent] s show "due now n sent1 x = due now n sent x"
      by (simp add: due_def)
  qed
  show ?case
  proof (cases "wants sub (nEvent n)")
    case False
    then have "\<not> due now n sent sub" by (simp add: due_def)
    with Cons False show ?thesis by simp
  next
    case wants: True
    show ?thesis
    proof (cases held)
      case True
      then have "\<not> due now n sent sub" using s by (simp add: due_def)
      with True wants s Cons same show ?thesis by simp
    next
      case False
      obtain f w1 where "subNotifier sub n w = (f, w1)" by (cases "subNotifier sub n w")
      moreover have "due now n sent sub" using False wants s by (simp add: due_def)
      ultimately show ?thesis using False wants s Cons same by simp
    qed
  qed
qed simp

text \<open>The verdicts of one subscription over a sequence of events, oldest first.\<close>

definition dedup_step ::
  "'w Subscription \<Rightarrow> (dedupKey \<rightharpoonup> time) \<times> (time \<times> Notification \<times> bool) list \<Rightarrow> time \<times> Notification
   \<Rightarrow> (dedupKey \<rightharpoonup> time) \<times> (time \<times> Notification \<times> bool) list" where
  "dedup_step sub st ev =
     (case suppress (fst ev) sub (snd ev) (fst st) of
        (held, sent') \<Rightarrow> (sent', snd st @ [(fst ev, snd ev, held)]))"

definition dedup_run :: "'w Subscription \<Rightarrow> (time \<times> Notification) list \<Rightarrow> (time \<times> Notification \<times> bool) list" where
  "dedup_run sub evs = snd (foldl (dedup_step sub) (Map.empty, []) evs)"

definition same_event :: "Notification \<Rightarrow> Notification \<Rightarrow> bool" where
  "same_event m n \<longleftrightarrow> nTarget m = nTarget n \<and> nEvent m = nEvent n"

text \<open>The window table remembers the last event of each kind that was let through.\<close>

definition dedup_inv :: "'w Subscription \<Rightarrow> (dedupKey \<rightharpoonup> time) \<Rightarrow> (time \<times> Notification \<times> bool) list \<Rightarrow> bool" where
  "dedup_inv sub sent out \<longleftrightarrow>
     (\<forall>n y. sent (subName sub, nTarget n, nEvent n) = None \<longrightarrow>
        y \<in> set out \<longrightarrow> same_event (fst (snd y)) n \<longrightarrow> snd (snd y)) \<and>
     (\<forall>n x. sent (subName sub, nTarget n, nEvent n) = Some x \<longrightarrow>
        (\<exists>m. (x, m, False) \<in> set out \<and> same_event m n)) \<and>
     (\<forall>n x y. sent (subName sub, nTarget n, nEvent n) = Some x \<longrightarrow>
        y \<in> set out \<longrightarrow> same_event (fst (snd y)) n \<longrightarrow> \<not> snd (snd y) \<longrightarrow> fst y \<le> x)"

lemma time_Sub_less: "MinInt64 < d \<Longrightarrow> d \<le> MaxInt64 \<Longrightarrow> time_Sub t u < d \<longleftrightarrow> t - u < d"
  by (auto simp: time_Sub_def)

definition apart :: "duration \<Rightarrow> time \<times> Notification \<times> bool \<Rightarrow> time \<times> Notification \<times> bool \<Rightarrow> bool" where
  "apart d x y \<longleftrightarrow> same_event (fst (snd x)) (fst (snd y)) \<and> \<not> snd (snd x) \<and> \<not> snd (snd y) \<longrightarrow> d \<le> fst y - fst x"

definition covered :: "duration \<Rightarrow> (time \<times> Notification \<times> bool) list \<Rightarrow> time \<times> Notification \<times> bool \<Rightarrow> bool" where
  "covered d out x \<longleftrightarrow> snd (snd x) \<longrightarrow>
     (\<exists>t m. (t, m, False) \<in> set out \<and> same_event m (fst (snd x)) \<and> t \<le> fst x \<and> fst x - t < d)"

lemma same_event_trans: "same_event a b \<Longrightarrow> same_event b c \<longleftrightarrow> same_event a c"
  by (auto simp: same_event_def)

lemma covered_snoc: "covered d out x \<Longrightarrow> covered d (out @ [y]) x"
  by (auto simp: covered_def)

lemma suppress_cases:
  assumes "0 < subDedup sub" "subDedup sub \<le> MaxInt64"
  shows "suppress now sub n sent =
    (let key = (subName sub, nTarget n, nEvent n)
     in case sent key of
          Some x \<Rightarrow> if now - x < subDedup sub then (True, sent) else (False, sent(key \<mapsto> now))
        | None \<Rightarrow> (False, sent(key \<mapsto> now)))"
  using assms time_Sub_less [of "subDedup sub" now] by (simp add: suppress_def Let_def MinInt64_def split: option.split)

lemma dedup_step_inv:
  assumes "0 < subDedup sub" "subDedup sub \<le> MaxInt64"
    and "dedup_inv sub sent out" and "sorted_wrt (apart (subDedup sub)) out"
    and "\<forall>x\<in>set out. covered (subDedup sub) out x" and "\<forall>x\<in>set out. fst x \<le> now"
    and "dedup_step sub (sent, out) (now, n) = (sent', out')"
  shows "dedup_inv sub sent' out' \<and> sorted_wrt (apart (subDedup sub)) out' \<and>
    (\<forall>x\<in>set out'. covered (subDedup sub) out' x) \<and> (\<forall>x\<in>set out'. fst x \<le> now)"
proof -
  let ?key = "(subName sub, nTarget n, nEvent n)" and ?D = "subDedup sub"
  show ?thesis
  proof (cases "\<exists>x. sent ?key = Some x \<and> now - x < ?D")
    case True
    then obtain x where x: "sent ?key = Some x" "now - x < ?D" by blast
    then have out: "sent' = sent" "out' = out @ [(now, n, True)]"
      using assms(7) by (auto simp: dedup_step_def suppress_cases [OF assms(1,2)] Let_def)
    obtain m where m: "(x, m, False) \<in> set out" "same_event m n" using assms(3) x unfolding dedup_inv_def by blast
    then have "x \<le> now" using assms(6) by fastforce
    with m x have "covered ?D out' (now, n, True)" unfolding covered_def out(2) by auto
    moreover have "dedup_inv sub sent' out'"
      using assms(3) unfolding dedup_inv_def out by (simp only: set_append list.set Un_iff) auto
    ultimately show ?thesis
      using assms(4,5,6) out covered_snoc [of ?D out] by (auto simp: sorted_wrt_append apart_def)
  next
    case False
    then have out: "sent' = sent(?key \<mapsto> now)" "out' = out @ [(now, n, False)]"
      using assms(7) by (auto simp: dedup_step_def suppress_cases [OF assms(1,2)] Let_def split: option.splits if_splits)
    have "apart ?D y (now, n, False)" if y: "y \<in> set out" for y
    proof (cases "sent ?key")
      case None
      with assms(3) y have "same_event (fst (snd y)) n \<Longrightarrow> snd (snd y)" unfolding dedup_inv_def by blast
      then show ?thesis by (auto simp: apart_def)
    next
      case (Some x)
      with assms(3) y have "same_event (fst (snd y)) n \<Longrightarrow> \<not> snd (snd y) \<Longrightarrow> fst y \<le> x"
        unfolding dedup_inv_def by blast
      moreover have "?D \<le> now - x" using False Some by force
      ultimately show ?thesis by (force simp: apart_def)
    qed
    moreover have "dedup_inv sub sent' out'"
    proof -
      have new: "sent' (subName sub, nTarget k, nEvent k)
          = (if same_event n k then Some now else sent (subName sub, nTarget k, nEvent k))" for k
        using out(1) by (auto simp: same_event_def)
      have none: "snd (snd y)" if "sent' (subName sub, nTarget k, nEvent k) = None" "y \<in> set out'"
          "same_event (fst (snd y)) k" for k y
      proof -
        have "\<not> same_event n k" "sent (subName sub, nTarget k, nEvent k) = None"
          using that(1) new [of k] by (auto split: if_splits)
        moreover have "y \<in> set out" using that(2,3) calculation(1) out(2) by auto
        ultimately show ?thesis using assms(3) that(3) unfolding dedup_inv_def by blast
      qed
      have some: "\<exists>m. (x, m, False) \<in> set out' \<and> same_event m k"
        if "sent' (subName sub, nTarget k, nEvent k) = Some x" for k x
      proof (cases "same_event n k")
        case True
        then show ?thesis using that new [of k] out(2) by auto
      next
        case False
        then have "sent (subName sub, nTarget k, nEvent k) = Some x" using that new [of k] by simp
        then obtain m where "(x, m, False) \<in> set out" "same_event m k"
          using assms(3) unfolding dedup_inv_def by blast
        then show ?thesis using out(2) by auto
      qed
      have "fst y \<le> x" if "sent' (subName sub, nTarget k, nEvent k) = Some x" "y \<in> set out'"
          "same_event (fst (snd y)) k" "\<not> snd (snd y)" for k x y
      proof (cases "same_event n k")
        case True
        then show ?thesis using that(1,2) new [of k] assms(6) out(2) by auto
      next
        case False
        then have "y \<in> set out" "sent (subName sub, nTarget k, nEvent k) = Some x"
          using that(1-3) new [of k] out(2) by auto
        then show ?thesis using assms(3) that(3,4) unfolding dedup_inv_def by blast
      qed
      with none some show ?thesis unfolding dedup_inv_def by blast
    qed
    moreover have "covered ?D out' x" if "x \<in> set out'" for x
    proof (cases "x \<in> set out")
      case True
      then show ?thesis using assms(5) covered_snoc [of ?D out x] unfolding out(2) by blast
    next
      case False
      then have "x = (now, n, False)" using that out(2) by simp
      then show ?thesis by (simp add: covered_def)
    qed
    ultimately show ?thesis using assms(4,6) out by (auto simp: sorted_wrt_append)
  qed
qed

text \<open>C18: The dedup window. Over any sequence of events of non-decreasing times, two events of one kind
  (target and event) that a subscription lets through are at least \<open>dedup\<close> apart, and an event
  is held back only when one of its kind was let through less than \<open>dedup\<close> before.\<close>

theorem dedup_window:
  assumes "0 < subDedup sub" and "subDedup sub \<le> MaxInt64" and "sorted (map fst evs)"
  shows "sorted_wrt (apart (subDedup sub)) (dedup_run sub evs)
    \<and> (\<forall>x\<in>set (dedup_run sub evs). covered (subDedup sub) (dedup_run sub evs) x)
    \<and> map (\<lambda>x. (fst x, fst (snd x))) (dedup_run sub evs) = evs"
proof -
  have "dedup_inv sub sent out \<and> sorted_wrt (apart (subDedup sub)) out \<and>
      (\<forall>x\<in>set out. covered (subDedup sub) out x) \<and> map (\<lambda>x. (fst x, fst (snd x))) out = evs"
    if "foldl (dedup_step sub) (Map.empty, []) evs = (sent, out)" for sent out
    using assms(3) that
  proof (induction evs arbitrary: sent out rule: rev_induct)
    case Nil
    then show ?case by (auto simp: dedup_inv_def)
  next
    case (snoc ev evs)
    obtain sent0 out0 where 0: "foldl (dedup_step sub) (Map.empty, []) evs = (sent0, out0)" by fastforce
    have st: "dedup_step sub (sent0, out0) ev = (sent, out)" using snoc.prems(2) 0 by simp
    have IH: "dedup_inv sub sent0 out0" "sorted_wrt (apart (subDedup sub)) out0"
      "\<forall>x\<in>set out0. covered (subDedup sub) out0 x" "map (\<lambda>x. (fst x, fst (snd x))) out0 = evs"
      using snoc.IH [OF _ 0] snoc.prems(1) by (simp_all add: sorted_append)
    have "\<forall>x\<in>set out0. fst x \<le> fst ev"
      using snoc.prems(1) unfolding IH(4) [symmetric] by (auto simp: sorted_append)
    from dedup_step_inv [OF assms(1,2) IH(1-3) this, of "snd ev" sent out] st
    have "dedup_inv sub sent out \<and> sorted_wrt (apart (subDedup sub)) out \<and>
        (\<forall>x\<in>set out. covered (subDedup sub) out x)" by simp
    moreover have "map (\<lambda>x. (fst x, fst (snd x))) out = evs @ [ev]"
      using st IH(4) by (auto simp: dedup_step_def split: prod.splits)
    ultimately show ?case by blast
  qed
  from this [OF prod.collapse [symmetric]] show ?thesis unfolding dedup_run_def by blast
qed

section \<open>Examples\<close>

definition demo_event :: Notification where
  "demo_event = new_Notification EventBackupFailed 0 ''shop'' ''backup failed''"

definition demo_net :: "nat \<Rightarrow> exchange" where
  "demo_net i = (if i = 0 then Answer 503 ''503 Service Unavailable'' else Answer 200 ''200 OK'')"

theorem webhook_retries_witness:
  "Webhook_Notify ''ops'' ''slack'' 3 demo_net (\<lambda>_. None) demo_event = (None, 2) \<and>
   (2::nat) \<le> effective_attempts 3 \<and> (\<exists>code status. demo_net 1 = Answer code status \<and> 200 \<le> code \<and> code \<le> 299)"
proof -
  have run: "Webhook_Notify ''ops'' ''slack'' 3 demo_net (\<lambda>_. None) demo_event = (None, 2)"
    by (simp add: Webhook_Notify_def Template_Render_def demo_net_def webhook_post_def numeral_eq_Suc)
  from webhook_retries [OF run] have "2 \<le> effective_attempts 3"
    and "\<exists>code status. demo_net (2 - 1) = Answer code status \<and> 200 \<le> code \<and> code \<le> 299" by blast+
  then show ?thesis using run by simp
qed

text \<open>Two receivers: one always fails, the other counts what it is handed.\<close>

definition demo_subs :: "nat Subscription list" where
  "demo_subs =
     [\<lparr>subName = ''broken'', subNotifier = (\<lambda>n w. (Some ErrCanceled, w)), subEvents = [EventBackupFailed], subDedup = 0\<rparr>,
      \<lparr>subName = ''pager'', subNotifier = (\<lambda>n w. (None, w + 1)), subEvents = [EventBackupFailed], subDedup = Hour\<rparr>]"

theorem fanout_reaches_everyone_witness:
  "distinct (map subName demo_subs) \<and>
   snd (snd (Fanout_Notify 0 demo_subs demo_event Map.empty 0)) = 1"
  using fanout_reaches_everyone [of demo_subs 0 demo_event Map.empty 0]
  by (simp add: demo_subs_def demo_event_def new_Notification_def due_def wants_def suppress_def
      EventBackupFailed_def Hour_def)

definition demo_events :: "(time \<times> Notification) list" where
  "demo_events = [(0, demo_event), (Minute, demo_event), (Hour, demo_event)]"

theorem dedup_window_witness:
  "map (\<lambda>x. snd (snd x)) (dedup_run (demo_subs ! 1) demo_events) = [False, True, False] \<and>
   sorted_wrt (apart Hour) (dedup_run (demo_subs ! 1) demo_events)"
proof -
  have d: "subDedup (demo_subs ! 1) = Hour" by (simp add: demo_subs_def)
  have "sorted_wrt (apart Hour) (dedup_run (demo_subs ! 1) demo_events)"
    using dedup_window [of "demo_subs ! 1" demo_events] unfolding d
    by (simp add: demo_events_def Hour_def Minute_def Second_def MaxInt64_def)
  moreover have "map (\<lambda>x. snd (snd x)) (dedup_run (demo_subs ! 1) demo_events) = [False, True, False]"
    by (simp add: dedup_run_def demo_events_def dedup_step_def suppress_def demo_subs_def
        demo_event_def new_Notification_def Hour_def Minute_def Second_def time_Sub_def
        MaxInt64_def MinInt64_def)
  ultimately show ?thesis by simp
qed

end
