(* ===== verification/Prune.thy ===== *)
theory Prune
  imports Index Notify Retention_Plan
begin

text \<open>
  Applying a retention plan: \<open>internal/prune/prune.go\<close>, the events of
  \<open>internal/retention/notify.go\<close> and the orphan search of \<open>internal/cli/prune.go\<close>. The order
  matters: objects first, index second. A run acts on a store; the notifications it emits
  are collected in an outbox, which \<open>Emit\<close> delivers.
\<close>

section \<open>What retention reads from the index\<close>

definition entry_Backup :: "Entry \<Rightarrow> Backup" where
  "entry_Backup e = \<lparr>bID = eID e, bAt = eFinishedAt e, bVerified = Verified e, bBytes = eBytes e,
     bKeys = Entry_Keys e\<rparr>"

definition Backups :: "Entry list \<Rightarrow> Backup list" where
  "Backups entries = map entry_Backup (filter Succeeded entries)"

definition LastRunFailed :: "Entry list \<Rightarrow> bool" where
  "LastRunFailed entries =
     (case entries of
        [] \<Rightarrow> False
      | first # rest \<Rightarrow>
          \<not> Succeeded (foldl (\<lambda>latest entry.
               if eFinishedAt latest < eFinishedAt entry then entry else latest) first rest))"

definition DeletedIDs :: "Plan \<Rightarrow> string list" where
  "DeletedIDs plan = map (\<lambda>d. bID (dBackup d)) (plDelete plan)"

definition oldest_step :: "time \<Rightarrow> Decision \<Rightarrow> time" where
  "oldest_step oldest d = (if IsZero oldest \<or> bAt (dBackup d) < oldest then bAt (dBackup d) else oldest)"

definition OldestKept :: "Plan \<Rightarrow> time" where
  "OldestKept plan = foldl oldest_step 0 (plKeep plan)"

section \<open>The events\<close>

definition oldestKept :: "Plan \<Rightarrow> string" where
  "oldestKept plan =
     (let oldest = foldl oldest_step 0 (plKeep plan)
      in if IsZero oldest then [] else fmt_RFC3339 UTC oldest)"

definition count_up :: "string \<Rightarrow> (string \<times> int) list \<Rightarrow> (string \<times> int) list" where
  "count_up k counts = AList.update k ((case map_of counts k of None \<Rightarrow> 0 | Some n \<Rightarrow> n) + 1) counts"

definition TierCounts :: "Plan \<Rightarrow> (string \<times> int) list" where
  "TierCounts plan =
     foldl (\<lambda>counts d. if dTiers d = [] then count_up ''none'' counts
                        else foldl (\<lambda>c tier. count_up (tier_name tier) c) counts (dTiers d))
       [] (plKeep plan)"

definition PrunedEvent :: "string \<Rightarrow> time \<Rightarrow> Plan \<Rightarrow> int \<Rightarrow> Notification" where
  "PrunedEvent target at plan objects =
     (new_Notification EventRetentionPruned at target
        (target @ '' pruned '' @ plural (int (length (plDelete plan))) ''backup'' ''backups''
         @ '' ('' @ humanBytes (Plan_Bytes plan) @ '' freed), ''
         @ plural (int (length (plKeep plan))) ''backup'' ''backups'' @ '' kept''))
     \<lparr>nDetails :=
        [(''deleted'', json_int (int (length (plDelete plan)))),
         (''kept'', json_int (int (length (plKeep plan)))),
         (''objects'', json_int objects),
         (''bytes_freed'', json_int (Plan_Bytes plan)),
         (''deleted_ids'', JArr (map JStr (DeletedIDs plan))),
         (''oldest_kept'', JStr (oldestKept plan)),
         (''tier_summary'', JObj (map (\<lambda>kn. (fst kn, json_int (snd kn))) (sort_key fst (TierCounts plan))))]\<rparr>"

definition BlockedEvent :: "string \<Rightarrow> time \<Rightarrow> Plan \<Rightarrow> Notification" where
  "BlockedEvent target at plan =
     (new_Notification EventRetentionBlocked at target
        (target @ '' kept every backup: '' @ plBlocked plan))
     \<lparr>nDetails := [(''reason'', JStr (plBlocked plan)), (''kept'', json_int (int (length (plKeep plan))))]\<rparr>"

section \<open>The runner\<close>

record PruneRunner =
  prTarget :: string
  prLayout :: Layout
  prPolicy :: Policy

type_synonym 's run = "'s \<times> Notification list"

definition emit :: "Notification \<Rightarrow> 's run \<Rightarrow> 's run" where
  "emit n st = (fst st, snd st @ [n])"

definition prune_Plan :: "'s store_ops \<Rightarrow> PruneRunner \<Rightarrow> time \<Rightarrow> ('s, Plan \<times> bool) action" where
  "prune_Plan ops r now s =
     (case index_Entries ops (prLayout r) s of
        (Inl err, s1) \<Rightarrow> (Inl err, s1)
      | (Inr (entries, cached), s1) \<Rightarrow>
          (Inr (Policy_Plan (prPolicy r) \<lparr>inBackups = Backups entries, inNow = now,
             inLastRunFailed = LastRunFailed entries\<rparr>, cached), s1))"

text \<open>How many objects went, and the error; both may be reported.\<close>

definition prune_Apply ::
  "'s store_ops \<Rightarrow> PruneRunner \<Rightarrow> time \<Rightarrow> Plan \<Rightarrow> string list \<Rightarrow> 's run \<Rightarrow> (int \<times> err option) \<times> 's run" where
  "prune_Apply ops r now plan extra st =
     (let keys = Plan_Keys plan @ extra in
      if keys = [] then ((0, None), st)
      else
        case sDelete ops keys (fst st) of
          (Inl err, s1) \<Rightarrow> ((0, Some err), (s1, snd st))
        | (Inr _, s1) \<Rightarrow>
            (case index_Remove ops (prLayout r) (DeletedIDs plan) (OldestKept plan) s1 of
               (Inl err, s2) \<Rightarrow>
                 ((int (length keys),
                   Some (ErrWrap (''the objects were deleted but the index was not updated; run `vaultd reindex ''
                     @ prTarget r @ ''`'') err)), (s2, snd st))
             | (Inr _, s2) \<Rightarrow>
                 ((int (length keys), None),
                  emit (PrunedEvent (prTarget r) now plan (int (length keys))) (s2, snd st))))"

definition AnnounceBlocked :: "PruneRunner \<Rightarrow> time \<Rightarrow> Plan \<Rightarrow> 's run \<Rightarrow> 's run" where
  "AnnounceBlocked r now plan st =
     (if plBlocked plan = [] then st else emit (BlockedEvent (prTarget r) now plan) st)"

section \<open>Orphans\<close>

definition orphanGrace :: duration where "orphanGrace = 24 * Hour"

definition findOrphans ::
  "'s store_ops \<Rightarrow> Layout \<Rightarrow> time \<Rightarrow> duration \<Rightarrow> ('s, ObjectInfo list) action" where
  "findOrphans ops l now grace s =
     (case index_Entries ops l s of
        (Inl err, s1) \<Rightarrow> (Inl err, s1)
      | (Inr (entries, _), s1) \<Rightarrow>
          let claimed = [Layout_Index l, Layout_Lock l] @ concat (map Entry_Keys entries);
              cutoff = now - grace
          in case sList ops (Layout_TargetPrefix l) s1 of
               (Inl err, s2) \<Rightarrow> (Inl (ErrWrap (''listing '' @ lTarget l) err), s2)
             | (Inr objects, s2) \<Rightarrow>
                 (Inr (sort_key oKey (filter (\<lambda>object. oKey object \<notin> set claimed \<and>
                     \<not> cutoff < oLastModified object) objects)), s2))"

text \<open>
  The \<open>prune\<close> command: plan, look for orphans when asked, and with \<open>--apply\<close> announce a
  block and carry the plan out. What it prints is left out.
\<close>

definition prune_command ::
  "'s store_ops \<Rightarrow> PruneRunner \<Rightarrow> time \<Rightarrow> bool \<Rightarrow> bool \<Rightarrow> duration \<Rightarrow> 's run \<Rightarrow> err option \<times> 's run" where
  "prune_command ops r now apply_it orphans grace st =
     (case prune_Plan ops r now (fst st) of
        (Inl err, s1) \<Rightarrow> (Some err, (s1, snd st))
      | (Inr (plan, cached), s1) \<Rightarrow>
          (case (if orphans then findOrphans ops (prLayout r) now grace s1 else (Inr [], s1)) of
             (Inl err, s2) \<Rightarrow> (Some err, (s2, snd st))
           | (Inr strays, s2) \<Rightarrow>
               if \<not> apply_it then (None, (s2, snd st))
               else let st' = AnnounceBlocked r now plan (s2, snd st)
                    in if plDelete plan = [] \<and> strays = [] then (None, st')
                       else apfst snd (prune_Apply ops r now plan (map oKey strays) st')))"

section \<open>What a plan over the index deletes\<close>

definition prune_input :: "Entry list \<Rightarrow> time \<Rightarrow> Input" where
  "prune_input es now = \<lparr>inBackups = Backups es, inNow = now, inLastRunFailed = LastRunFailed es\<rparr>"

text \<open>
  The entries of an index whose stored backups have distinct ids and own their objects: no
  object belongs to two of them, and none of them is the index itself.
\<close>

definition owns_objects :: "Layout \<Rightarrow> Entry list \<Rightarrow> bool" where
  "owns_objects l es \<longleftrightarrow> distinct (map eID (filter Succeeded es)) \<and>
     (\<forall>e\<in>set es. \<forall>f\<in>set es. Succeeded e \<and> Succeeded f \<and> e \<noteq> f \<longrightarrow> set (Entry_Keys e) \<inter> set (Entry_Keys f) = {}) \<and>
     (\<forall>e\<in>set es. Succeeded e \<longrightarrow> Layout_Index l \<notin> set (Entry_Keys e))"

lemma foldl_keys: "foldl (\<lambda>keys d. keys @ f d) acc ds = acc @ concat (map f ds)"
  by (induction ds arbitrary: acc) simp_all

lemma Plan_Keys_set: "set (Plan_Keys P) = (\<Union>d\<in>set (plDelete P). set (bKeys (dBackup d)))"
  by (simp add: Plan_Keys_def foldl_keys)

lemma planned_ids:
  assumes "P \<in> Plan_results pol (prune_input es now)"
  shows "mset (KeptIDs P) + mset (DeletedIDs P) = mset (map eID (filter Succeeded es))"
proof -
  from plan_splits [OF assms]
  have "image_mset bID (mset (map dBackup (plKeep P)) + mset (map dBackup (plDelete P))) = image_mset bID (mset (Backups es))"
    by (simp add: prune_input_def)
  then show ?thesis
    by (simp add: KeptIDs_def DeletedIDs_def Backups_def image_mset.compositionality comp_def entry_Backup_def)
qed

lemma planned_deleted:
  assumes "P \<in> Plan_results pol (prune_input es now)" and "d \<in> set (plDelete P)"
  shows "\<exists>f\<in>set es. Succeeded f \<and> dBackup d = entry_Backup f"
proof -
  have "dBackup d \<in># mset (map dBackup (plKeep P)) + mset (map dBackup (plDelete P))" using assms(2) by simp
  then have "dBackup d \<in># mset (Backups es)" unfolding plan_splits [OF assms(1)] by (simp add: prune_input_def)
  then show ?thesis by (auto simp: Backups_def)
qed

lemma same_id_same_entry:
  assumes "distinct (map eID (filter Succeeded es))" and "e \<in> set es" "f \<in> set es" "Succeeded e" "Succeeded f"
    and "eID e = eID f"
  shows "e = f"
  using assms by (auto simp: distinct_map inj_on_def)

lemma kept_or_deleted:
  assumes "P \<in> Plan_results pol (prune_input es now)" and "distinct (map eID (filter Succeeded es))"
    and "e \<in> set es" and "Succeeded e"
  shows "eID e \<in> set (KeptIDs P) \<longleftrightarrow> eID e \<notin> set (DeletedIDs P)"
proof -
  have "distinct (KeptIDs P @ DeletedIDs P)"
    using planned_ids [OF assms(1)] assms(2) by (metis mset_append mset_eq_imp_distinct_iff)
  moreover have "eID e \<in># mset (KeptIDs P) + mset (DeletedIDs P)"
    unfolding planned_ids [OF assms(1)] using assms(3,4) by simp
  ultimately show ?thesis by auto
qed

lemma deleted_keys:
  assumes "P \<in> Plan_results pol (prune_input es now)" and "owns_objects l es" and "e \<in> set es" and "Succeeded e"
  shows "eID e \<in> set (DeletedIDs P) \<Longrightarrow> set (Entry_Keys e) \<subseteq> set (Plan_Keys P)"
    and "eID e \<notin> set (DeletedIDs P) \<Longrightarrow> set (Entry_Keys e) \<inter> set (Plan_Keys P) = {}"
proof -
  have di: "distinct (map eID (filter Succeeded es))" using assms(2) by (simp add: owns_objects_def)
  show "set (Entry_Keys e) \<subseteq> set (Plan_Keys P)" if del: "eID e \<in> set (DeletedIDs P)"
  proof -
    obtain d where d: "d \<in> set (plDelete P)" "bID (dBackup d) = eID e" using del by (auto simp: DeletedIDs_def)
    obtain f where f: "f \<in> set es" "Succeeded f" "dBackup d = entry_Backup f"
      using planned_deleted [OF assms(1) d(1)] by blast
    then have "f = e" using d(2) same_id_same_entry [OF di, of f e] assms(3,4) by (simp add: entry_Backup_def)
    then show ?thesis using d(1) f(3) by (auto simp: Plan_Keys_set entry_Backup_def)
  qed
  show "set (Entry_Keys e) \<inter> set (Plan_Keys P) = {}" if keep: "eID e \<notin> set (DeletedIDs P)"
  proof -
    have "set (Entry_Keys e) \<inter> set (bKeys (dBackup d)) = {}" if d: "d \<in> set (plDelete P)" for d
    proof -
      obtain f where f: "f \<in> set es" "Succeeded f" "dBackup d = entry_Backup f"
        using planned_deleted [OF assms(1) d] by blast
      then have "eID f \<in> set (DeletedIDs P)" using d by (force simp: DeletedIDs_def entry_Backup_def)
      then have "f \<noteq> e" using keep by blast
      then show ?thesis using f assms(2,3,4) by (simp add: owns_objects_def entry_Backup_def Int_commute)
    qed
    then show ?thesis by (auto simp: Plan_Keys_set)
  qed
qed

lemma index_not_deleted:
  assumes "P \<in> Plan_results pol (prune_input es now)" and "owns_objects l es"
  shows "Layout_Index l \<notin> set (Plan_Keys P)"
  using planned_deleted [OF assms(1)] assms(2)
  by (force simp: Plan_Keys_set owns_objects_def entry_Backup_def)

lemma prune_entries_storable:
  "\<forall>e\<in>set es. entry_storable e \<Longrightarrow> \<forall>e\<in>set (prune_entries es ids t). entry_storable e"
  by (simp add: prune_entries_def)

text \<open>On a quiet store \<open>Apply\<close> deletes the keys of the plan and rewrites the index.\<close>

lemma apply_quiet:
  assumes "P \<in> Plan_results pol (prune_input es now)" and "owns_objects (prLayout r) es"
    and "index_at mem_view (prLayout r) s = (es, None)"
    and "\<forall>b. mem_view s (Layout_Index (prLayout r)) \<noteq> Some (b, [])"
    and "\<forall>e\<in>set es. entry_storable e" and "Plan_Keys P \<noteq> []"
  shows "\<exists>s'. prune_Apply (memory_ops h) r at' P [] (s, out)
      = ((int (length (Plan_Keys P)), None),
         (s', out @ [PrunedEvent (prTarget r) at' P (int (length (Plan_Keys P)))])) \<and>
    index_at mem_view (prLayout r) s' = (prune_entries es (DeletedIDs P) (OldestKept P), None) \<and>
    (\<forall>k. k \<noteq> Layout_Index (prLayout r) \<longrightarrow> mem_view s' k = (if k \<in> set (Plan_Keys P) then None else mem_view s k))"
proof -
  let ?l = "prLayout r"
  obtain s1 where s1: "sDelete (memory_ops h) (Plan_Keys P) s = (Inr (), s1)"
    "mem_view s1 = (\<lambda>k. if k \<in> set (Plan_Keys P) then None else mem_view s k)"
    using mem.delete [where ks = "Plan_Keys P" and s = s] by blast
  have idx: "mem_view s1 (Layout_Index ?l) = mem_view s (Layout_Index ?l)"
    using index_not_deleted [OF assms(1,2)] s1(2) by simp
  then have at1: "index_at mem_view ?l s1 = (es, None)" using assms(3) by (simp add: index_at_def)
  have ne1: "\<forall>b. mem_view s1 (Layout_Index ?l) \<noteq> Some (b, [])" using assms(4) idx by simp
  obtain s' where s': "index_Remove (memory_ops h) ?l (DeletedIDs P) (OldestKept P) s1 = (Inr (), s')"
    "index_at mem_view ?l s' = (prune_entries es (DeletedIDs P) (OldestKept P), None)"
    "\<forall>k. k \<noteq> Layout_Index ?l \<longrightarrow> mem_view s' k = mem_view s1 k"
    using remove_succeeds [OF at1 ne1 assms(5)] by blast
  then show ?thesis using assms(6) s1 by (auto simp: prune_Apply_def emit_def Let_def)
qed

text \<open>C1: Pruning never harms a backup the plan keeps. Over an index whose stored backups own their
  objects, \<open>Apply\<close> of a plan with something to delete succeeds on a store nobody else writes
  to and reports the number of objects it removed; every kept backup is still listed and its
  objects are unchanged; every deleted one is neither listed nor stored any more.\<close>

theorem prune_keeps_kept:
  assumes "P \<in> Plan_results pol (prune_input es now)" and "owns_objects (prLayout r) es"
    and "index_at mem_view (prLayout r) s = (es, None)"
    and "\<forall>b. mem_view s (Layout_Index (prLayout r)) \<noteq> Some (b, [])"
    and "\<forall>e\<in>set es. entry_storable e" and "Plan_Keys P \<noteq> []"
  shows "\<exists>s' es'. prune_Apply (memory_ops h) r now P [] (s, out)
      = ((int (length (Plan_Keys P)), None),
         (s', out @ [PrunedEvent (prTarget r) now P (int (length (Plan_Keys P)))])) \<and>
    index_at mem_view (prLayout r) s' = (es', None) \<and>
    (\<forall>e\<in>set es. Succeeded e \<longrightarrow>
       (if eID e \<in> set (KeptIDs P)
        then e \<in> set es' \<and> (\<forall>k\<in>set (Entry_Keys e). mem_view s' k = mem_view s k)
        else e \<notin> set es' \<and> (\<forall>k\<in>set (Entry_Keys e). mem_view s' k = None)))"
proof -
  let ?l = "prLayout r"
  obtain s' where run: "prune_Apply (memory_ops h) r now P [] (s, out)
      = ((int (length (Plan_Keys P)), None),
         (s', out @ [PrunedEvent (prTarget r) now P (int (length (Plan_Keys P)))]))"
    and idx: "index_at mem_view ?l s' = (prune_entries es (DeletedIDs P) (OldestKept P), None)"
    and rest: "\<forall>k. k \<noteq> Layout_Index ?l \<longrightarrow> mem_view s' k = (if k \<in> set (Plan_Keys P) then None else mem_view s k)"
    using apply_quiet [OF assms] by blast
  have "if eID e \<in> set (KeptIDs P)
      then e \<in> set (prune_entries es (DeletedIDs P) (OldestKept P)) \<and>
        (\<forall>k\<in>set (Entry_Keys e). mem_view s' k = mem_view s k)
      else e \<notin> set (prune_entries es (DeletedIDs P) (OldestKept P)) \<and>
        (\<forall>k\<in>set (Entry_Keys e). mem_view s' k = None)"
    if e: "e \<in> set es" "Succeeded e" for e
  proof -
    have di: "distinct (map eID (filter Succeeded es))" using assms(2) by (simp add: owns_objects_def)
    have ni: "Layout_Index ?l \<notin> set (Entry_Keys e)" using assms(2) e by (simp add: owns_objects_def)
    have view: "mem_view s' k = (if k \<in> set (Plan_Keys P) then None else mem_view s k)"
      if "k \<in> set (Entry_Keys e)" for k using that ni rest by (metis (full_types))
    show ?thesis
    proof (cases "eID e \<in> set (DeletedIDs P)")
      case True
      then show ?thesis
        using kept_or_deleted [OF assms(1) di e] deleted_keys(1) [OF assms(1,2) e] view e
        by (auto simp: prune_entries_def)
    next
      case False
      then have "k \<notin> set (Plan_Keys P)" if "k \<in> set (Entry_Keys e)" for k
        using that deleted_keys(2) [OF assms(1,2) e] by blast
      then show ?thesis
        using False kept_or_deleted [OF assms(1) di e] view e by (simp add: prune_entries_def)
    qed
  qed
  then show ?thesis using run idx by blast
qed

section \<open>Failures half way\<close>

text \<open>Scripts in which calls fail, with or without effect, and nobody else writes.\<close>

definition faults :: "'s happening list \<Rightarrow> bool" where
  "faults script \<longleftrightarrow> (\<forall>g. Disturb g \<notin> set script)"

lemma faulty_call:
  assumes "scripted_call f (s, script) = (r, (s', script'))" and "faults script"
  shows "faults script' \<and> (s' = s \<or> s' = snd (f s)) \<and> (\<forall>x. r = Inr x \<longrightarrow> f s = (Inr x, s'))"
  using assms
  by (cases script) (auto simp: scripted_call_def faults_def split: prod.splits happening.splits)

context object_store
begin

lemma faulty_load:
  assumes "index_Load (scripted ops) l (s, script) = (r, (s', script'))" and "faults script"
    and "index_at view l s = (es, None)" and "\<forall>b. view s (Layout_Index l) \<noteq> Some (b, [])"
  shows "faults script' \<and> s' = s \<and> (\<forall>cur. r = Inr cur \<longrightarrow>
    cur = \<lparr>ixEntries = [], ixETag = []\<rparr> \<or>
    (ixEntries cur = es \<and> (\<exists>b. view s (Layout_Index l) = Some (b, ixETag cur))))"
proof -
  let ?k = "Layout_Index l"
  obtain r1 s1 sc1 where h: "scripted_call (sHead ops ?k) (s, script) = (r1, (s1, sc1))"
    by (metis prod_cases3)
  have H: "faults sc1" "s1 = s" "\<And>i. r1 = Inr i \<Longrightarrow> \<exists>b. view s ?k = Some (b, oETag i)"
    using faulty_call [OF h assms(2)] head_result [of ?k s] by auto
  obtain r2 s2 sc2 where g: "scripted_call (sGet ops ?k) (s1, sc1) = (r2, (s2, sc2))"
    by (metis prod_cases3)
  have G: "faults sc2" "s2 = s" "\<And>b. r2 = Inr b \<Longrightarrow> \<exists>e. view s ?k = Some (b, e)"
    using faulty_call [OF g H(1)] get_result [of ?k s] H(2) by auto
  show ?thesis
  proof (cases r1)
    case (Inl x)
    then show ?thesis using assms(1) h H by (auto simp: index_Load_def split: if_splits)
  next
    case 1: (Inr i)
    obtain b where b: "view s ?k = Some (b, oETag i)" using H(3) 1 by blast
    show ?thesis
    proof (cases r2)
      case (Inl x)
      then show ?thesis using assms(1) h g 1 G by (auto simp: index_Load_def split: if_splits)
    next
      case (Inr raw)
      then have "raw = b" using G(3) b by auto
      then have "ParseIndex raw = (es, None)" using assms(3) b by (simp add: index_at_def)
      then show ?thesis using assms(1) h g 1 Inr G b by (auto simp: index_Load_def)
    qed
  qed
qed

text \<open>Whatever fails, the index is left as it was or with the update applied once.\<close>

lemma faulty_rmw:
  assumes "rmw_loop (scripted ops) l upd n (s, script) = (r, (s', script'))" and "faults script"
    and "index_at view l s = (es, None)" and "\<forall>b. view s (Layout_Index l) \<noteq> Some (b, [])"
  shows "view s' = view s \<or> (\<exists>raw. upd es = Inr raw \<and> view s' = (view s)(Layout_Index l \<mapsto> (raw, etag_of raw)))"
  using assms(1,2)
proof (induction n arbitrary: script)
  case (Suc n)
  let ?k = "Layout_Index l"
  obtain r1 s1 sc1 where load: "index_Load (scripted ops) l (s, script) = (r1, (s1, sc1))" by (metis prod_cases3)
  note L = faulty_load [OF load Suc.prems(2) assms(3,4)]
  show ?case
  proof (cases r1)
    case (Inl x)
    then show ?thesis using Suc.prems(1) load L by simp
  next
    case cur: (Inr cur)
    show ?thesis
    proof (cases "upd (ixEntries cur)")
      case (Inl x)
      then show ?thesis using Suc.prems(1) load cur L by simp
    next
      case raw: (Inr raw)
      obtain r2 s2 sc2 where put: "scripted_call (sPutIfMatch ops ?k raw (ixETag cur)) (s, sc1) = (r2, (s2, sc2))"
        by (metis prod_cases3)
      note P = faulty_call [OF put conjunct1 [OF L]]
      have eff: "snd (sPutIfMatch ops ?k raw (ixETag cur) s) = s \<or>
          upd es = Inr raw \<and> view (snd (sPutIfMatch ops ?k raw (ixETag cur) s)) = (view s)(?k \<mapsto> (raw, etag_of raw))"
      proof (cases "ixETag cur = [] \<and> view s ?k \<noteq> None")
        case True
        then have "case view s ?k of None \<Rightarrow> ixETag cur \<noteq> [] | Some (b0, e0) \<Rightarrow> e0 \<noteq> ixETag cur"
          using assms(4) by (auto split: prod.splits)
        from match_miss [OF this, of raw] True tag_empty show ?thesis by auto
      next
        case False
        then have "ixEntries cur = es \<and> (\<exists>b. view s ?k = Some (b, ixETag cur) \<or> view s ?k = None \<and> ixETag cur = [])"
          using L cur assms(3) by (cases "view s ?k") (auto simp: index_at_def)
        then obtain b where b: "ixEntries cur = es" "view s ?k = Some (b, ixETag cur) \<or> view s ?k = None \<and> ixETag cur = []"
          by blast
        from match_hit [OF b(2), of raw] b(1) raw show ?thesis by auto
      qed
      show ?thesis
      proof (cases r2)
        case (Inl x)
        then have "s' = s2" using Suc.prems(1) load cur raw put L by simp
        then show ?thesis using P eff by auto
      next
        case (Inr iw)
        then obtain i w where iw: "r2 = Inr (i, w)" by (cases iw) auto
        show ?thesis
        proof (cases w)
          case True
          then have "s' = s2" using Suc.prems(1) load cur raw put L iw by simp
          then show ?thesis using P eff by auto
        next
          case False
          then have "sPutIfMatch ops ?k raw (ixETag cur) s = (Inr (i, False), s2)" using P iw by simp
          moreover have "tag_ok (ixETag cur)" using L cur tag_view tag_empty by auto
          ultimately have "s2 = s" by (rule match_unwritten)
          then have again: "rmw_loop (scripted ops) l upd n (s, sc2) = (r, (s', script'))"
            using Suc.prems(1) load cur raw put L iw False by simp
          show ?thesis by (rule Suc.IH [OF again conjunct1 [OF P]])
        qed
      qed
    qed
  qed
qed simp

end

lemma faulty_delete:
  assumes "sDelete (scripted (memory_ops h)) ks (s, script) = (r, (s', script'))" and "faults script"
  shows "faults script' \<and> (mem_view s' = mem_view s \<or> mem_view s' = (\<lambda>k. if k \<in> set ks then None else mem_view s k))
    \<and> (r = Inr () \<longrightarrow> mem_view s' = (\<lambda>k. if k \<in> set ks then None else mem_view s k))"
proof -
  obtain t where t: "sDelete (memory_ops h) ks s = (Inr (), t)"
    "mem_view t = (\<lambda>k. if k \<in> set ks then None else mem_view s k)"
    using mem.delete [where ks = ks and s = s] by blast
  have call: "scripted_call (sDelete (memory_ops h) ks) (s, script) = (r, (s', script'))" using assms(1) by simp
  show ?thesis using faulty_call [OF call assms(2)] t by auto
qed

text \<open>C3: An index never hides a stored backup, whatever fails half way. For any script of calls that
  fail, before or after taking effect, and any extra keys: after \<open>Apply\<close>, every backup the
  index listed whose data object is still in the bucket is still listed. (Deleting the
  objects first is what makes this hold.)\<close>

theorem prune_hides_nothing:
  assumes "P \<in> Plan_results pol (prune_input es now)" and "owns_objects (prLayout r) es"
    and "index_at mem_view (prLayout r) s = (es, None)"
    and "\<forall>b. mem_view s (Layout_Index (prLayout r)) \<noteq> Some (b, [])"
    and "\<forall>e\<in>set es. entry_storable e" and "Layout_Index (prLayout r) \<notin> set extra"
    and "faults script"
    and "prune_Apply (scripted (memory_ops h)) r now P extra ((s, script), out) = (res, ((s', script'), out'))"
    and "e \<in> set es" and "Succeeded e" and "eKey e \<noteq> []" and "mem_view s' (eKey e) \<noteq> None"
  shows "e \<in> set (fst (index_at mem_view (prLayout r) s'))"
proof -
  let ?l = "prLayout r" and ?keys = "Plan_Keys P @ extra"
  let ?ops = "scripted (memory_ops h)" and ?del = "\<lambda>k. if k \<in> set ?keys then None else mem_view s k"
  have own: "eKey e \<in> set (Entry_Keys e)" using assms(11) by (simp add: Entry_Keys_def)
  have ni: "eKey e \<noteq> Layout_Index ?l" using assms(2,9,10) own by (auto simp: owns_objects_def)
  have noidx: "Layout_Index ?l \<notin> set ?keys" using index_not_deleted [OF assms(1,2)] assms(6) by simp
  have listed: "e \<in> set (fst (index_at mem_view ?l t))" if "mem_view t (Layout_Index ?l) = mem_view s (Layout_Index ?l)" for t
    using that assms(3,9) by (simp add: index_at_def)
  obtain r1 s1 sc1 where del: "sDelete ?ops ?keys (s, script) = (r1, (s1, sc1))" by (metis prod_cases3)
  note D = faulty_delete [OF del assms(7)]
  have idx1: "mem_view s1 (Layout_Index ?l) = mem_view s (Layout_Index ?l)" using D noidx by (metis (full_types))
  show ?thesis
  proof (cases "?keys = [] \<or> r1 \<noteq> Inr ()")
    case True
    then have "s' = s \<or> s' = s1"
      using assms(8) del by (auto simp: prune_Apply_def Let_def split: sum.splits prod.splits if_splits)
    then show ?thesis using listed idx1 by auto
  next
    case False
    then have v1: "mem_view s1 = ?del" using D by simp
    obtain r2 s2 sc2 where rem: "index_Remove ?ops ?l (DeletedIDs P) (OldestKept P) (s1, sc1) = (r2, (s2, sc2))"
      by (metis prod_cases3)
    have "s' = s2"
      using assms(8) False del rem by (auto simp: prune_Apply_def Let_def emit_def split: sum.splits)
    moreover have "index_at mem_view ?l s1 = (es, None)" using assms(3) idx1 by (simp add: index_at_def)
    ultimately consider "mem_view s' = ?del" | raw where
      "index_marshal (prune_entries es (DeletedIDs P) (OldestKept P)) = Inr raw"
      "mem_view s' = ?del(Layout_Index ?l \<mapsto> (raw, h raw))"
      using mem.faulty_rmw [OF rem [unfolded index_Remove_def] conjunct1 [OF D]] assms(4) idx1 v1 by auto
    then show ?thesis
    proof cases
      case 1
      then show ?thesis using listed noidx by simp
    next
      case 2
      have st: "\<forall>e\<in>set (prune_entries es (DeletedIDs P) (OldestKept P)). entry_storable e"
        using assms(5) by (rule prune_entries_storable)
      then have "raw = index_text (prune_entries es (DeletedIDs P) (OldestKept P))"
        using 2(1) index_marshal_text by (auto simp: entry_storable_def)
      then have "index_at mem_view ?l s' = (prune_entries es (DeletedIDs P) (OldestKept P), None)"
        using 2(2) st by (simp add: index_at_text)
      moreover have "eID e \<notin> set (DeletedIDs P)"
        using deleted_keys(1) [OF assms(1,2,9,10)] own assms(12) 2(2) ni by (auto split: if_splits)
      ultimately show ?thesis using assms(9,10) by (simp add: prune_entries_def)
    qed
  qed
qed

section \<open>Orphans\<close>

lemma mem_list_info:
  "memory_List p s = (Inr objs, s') \<Longrightarrow> object \<in> set objs \<longleftrightarrow>
     (\<exists>k obj. map_of (mObjects s) k = Some obj \<and> HasPrefix k p \<and> object = mem_info k obj)"
proof -
  assume ls: "memory_List p s = (Inr objs, s')"
  have key: "k \<in> fst ` set (mObjects s) \<longleftrightarrow> (\<exists>obj. map_of (mObjects s) k = Some obj)" for k
    by (metis map_of_eq_None_iff option.exhaust option.distinct(1))
  have "objs = map (\<lambda>k. mem_info k (the (map_of (mObjects s) k)))
      (sort (filter (\<lambda>k. HasPrefix k p) (map fst (mObjects s))))"
    using ls by (auto simp: memory_List_def Let_def)
  then have "set objs = (\<lambda>k. mem_info k (the (map_of (mObjects s) k))) ` {k \<in> fst ` set (mObjects s). HasPrefix k p}"
    by (simp only: set_map set_sort set_filter)
  then have "object \<in> set objs \<longleftrightarrow>
      (\<exists>k. k \<in> fst ` set (mObjects s) \<and> HasPrefix k p \<and> object = mem_info k (the (map_of (mObjects s) k)))"
    by blast
  then show ?thesis unfolding key by force
qed

text \<open>C23: What \<open>prune --orphans\<close> calls an orphan: with an index in place, exactly the objects under the
  target's prefix that are older than the grace period and that neither an index entry nor
  the index and lock keys claim. The bucket is only read.\<close>

theorem orphans_exact:
  assumes "index_at mem_view l s = (es, None)" and "mem_view s (Layout_Index l) = Some (b, etag)" and "etag \<noteq> []"
  shows "\<exists>strays. findOrphans (memory_ops h) l now grace s = (Inr strays, s) \<and>
    (\<forall>object. object \<in> set strays \<longleftrightarrow>
       (\<exists>k obj. map_of (mObjects s) k = Some obj \<and> object = mem_info k obj \<and> HasPrefix k (Layout_TargetPrefix l) \<and>
          obModified obj \<le> now - grace \<and> k \<noteq> Layout_Index l \<and> k \<noteq> Layout_Lock l \<and>
          (\<forall>e\<in>set es. k \<notin> set (Entry_Keys e))))"
proof -
  have "\<forall>b. mem_view s (Layout_Index l) \<noteq> Some (b, [])" using assms(2,3) by simp
  from mem.load_quiet [OF assms(1) this] assms(2,3)
  have ent: "index_Entries (memory_ops h) l s = (Inr (es, True), s)" by (simp add: index_Entries_def)
  obtain objs where ls: "memory_List (Layout_TargetPrefix l) s = (Inr objs, s)" by (simp add: memory_List_def Let_def)
  let ?free = "\<lambda>object. oKey object \<notin> set ([Layout_Index l, Layout_Lock l] @ concat (map Entry_Keys es)) \<and>
      \<not> now - grace < oLastModified object"
  have "findOrphans (memory_ops h) l now grace s = (Inr (sort_key oKey (filter ?free objs)), s)"
    using ent ls by (simp add: findOrphans_def Let_def)
  moreover have "?free (mem_info k obj) \<longleftrightarrow> obModified obj \<le> now - grace \<and> k \<noteq> Layout_Index l \<and>
      k \<noteq> Layout_Lock l \<and> (\<forall>e\<in>set es. k \<notin> set (Entry_Keys e))" for k obj
    by (auto simp: mem_info_def)
  moreover have "object \<in> set (sort_key oKey (filter ?free objs)) \<longleftrightarrow>
      (\<exists>k obj. map_of (mObjects s) k = Some obj \<and> object = mem_info k obj \<and> HasPrefix k (Layout_TargetPrefix l) \<and>
        ?free (mem_info k obj))" for object
    unfolding set_sort set_filter mem_Collect_eq mem_list_info [OF ls] by blast
  ultimately show ?thesis by (intro exI [of _ "sort_key oKey (filter ?free objs)"]) presburger
qed

section \<open>Examples\<close>

definition demo_policy :: Policy where
  "demo_policy = \<lparr>pHourly = \<lparr>rKeep = 0\<rparr>, pDaily = \<lparr>rKeep = 1\<rparr>, pWeekly = \<lparr>wKeep = 0, wOn = 0\<rparr>,
     pMonthly = \<lparr>mKeep = 0, mOn = 1\<rparr>, pYearly = \<lparr>rKeep = 0\<rparr>, pMinKeep = 1, pLocation = None\<rparr>"

definition demo_runner :: PruneRunner where
  "demo_runner = \<lparr>prTarget = ''app'', prLayout = demo_layout ''app'', prPolicy = demo_policy\<rparr>"

definition demo_pair :: "Entry list" where
  "demo_pair = [demo_entry ''a'' demo_time, demo_entry ''b'' demo_time]"

definition demo_plan :: Plan where
  "demo_plan = Policy_Plan demo_policy (prune_input demo_pair demo_time)"

lemma demo_plan_facts:
  "Plan_Keys demo_plan = [''app/b'']" "KeptIDs demo_plan = [''a'']"
  by code_simp+

lemma demo_plan_result: "demo_plan \<in> Plan_results demo_policy (prune_input demo_pair demo_time)"
  unfolding demo_plan_def by (rule Policy_Plan_result)

lemma demo_pair_simps [simp]:
  "eID (demo_entry i t) = i" "Succeeded (demo_entry i t)" "Entry_Keys (demo_entry i t) = [''app/'' @ i]"
  "eKey (demo_entry i t) = ''app/'' @ i"
  by (simp_all add: demo_entry_def Succeeded_def Entry_Keys_def NewFailureEntry_def zero_Entry_def)

lemma demo_index_key [simp]:
  "Layout_Index (demo_layout ''app'') \<noteq> ''app/a''" "Layout_Index (demo_layout ''app'') \<noteq> ''app/b''"
  "''app/a'' \<noteq> Layout_Index (demo_layout ''app'')" "''app/b'' \<noteq> Layout_Index (demo_layout ''app'')"
  by code_simp+

lemma demo_pair_owns: "owns_objects (prLayout demo_runner) demo_pair"
  by (auto simp: owns_objects_def demo_pair_def demo_runner_def)

lemma demo_pair_storable: "\<forall>e\<in>set demo_pair. entry_storable e"
  by (simp add: demo_pair_def)

lemma demo_pair_index: "index_at mem_view (prLayout demo_runner) (demo_store demo_pair) = (demo_pair, None)"
  unfolding demo_runner_def by (rule index_at_text [OF demo_pair_storable]) (simp add: demo_store_view)

lemma demo_pair_etag: "\<forall>b. mem_view (demo_store demo_pair) (Layout_Index (prLayout demo_runner)) \<noteq> Some (b, [])"
  by (simp add: demo_runner_def demo_store_etag)

theorem prune_keeps_kept_witness:
  "\<exists>s' es'. prune_Apply (memory_ops demo_hash) demo_runner demo_time demo_plan [] (demo_store demo_pair, [])
      = ((1, None), (s', [PrunedEvent ''app'' demo_time demo_plan 1])) \<and>
    index_at mem_view (demo_layout ''app'') s' = (es', None) \<and>
    demo_entry ''a'' demo_time \<in> set es' \<and> demo_entry ''b'' demo_time \<notin> set es'"
proof -
  have mem: "demo_entry ''a'' demo_time \<in> set demo_pair" "demo_entry ''b'' demo_time \<in> set demo_pair"
    by (simp_all add: demo_pair_def)
  show ?thesis
    using prune_keeps_kept [OF demo_plan_result demo_pair_owns demo_pair_index demo_pair_etag demo_pair_storable,
        of demo_hash "[]"] mem
    by (fastforce simp: demo_plan_facts demo_runner_def)
qed

theorem prune_hides_nothing_witness:
  "\<exists>res s' out'. prune_Apply (scripted (memory_ops demo_hash)) demo_runner demo_time demo_plan []
      ((snd (memory_write demo_hash ''app/a'' ''x'' (demo_store demo_pair)), [FailCall ErrCanceled]), [])
      = (res, ((s', []), out')) \<and>
    demo_entry ''a'' demo_time \<in> set (fst (index_at mem_view (demo_layout ''app'') s'))"
proof -
  let ?s = "snd (memory_write demo_hash ''app/a'' ''x'' (demo_store demo_pair))"
  have run: "prune_Apply (scripted (memory_ops demo_hash)) demo_runner demo_time demo_plan []
      ((?s, [FailCall ErrCanceled]), []) = ((0, Some ErrCanceled), ((?s, []), []))"
    by (simp add: prune_Apply_def demo_plan_facts scripted_call_def Let_def)
  have idx: "mem_view ?s (Layout_Index (prLayout demo_runner)) = mem_view (demo_store demo_pair) (Layout_Index (prLayout demo_runner))"
    by (simp add: mem_view_write demo_runner_def)
  have "index_at mem_view (prLayout demo_runner) ?s = (demo_pair, None)"
    using demo_pair_index idx by (simp add: index_at_def)
  moreover have "\<forall>b. mem_view ?s (Layout_Index (prLayout demo_runner)) \<noteq> Some (b, [])"
    using demo_pair_etag idx by simp
  ultimately have "demo_entry ''a'' demo_time \<in> set (fst (index_at mem_view (prLayout demo_runner) ?s))"
    by (rule prune_hides_nothing [OF demo_plan_result demo_pair_owns _ _ demo_pair_storable _ _ run])
      (simp_all add: faults_def demo_pair_def mem_view_write)
  then show ?thesis using run by (auto simp: demo_runner_def)
qed

text \<open>
  A backup whose objects are stored but whose index line was never written, the outcome of a
  run whose \<open>Append\<close> failed, is an orphan to the search although its manifest is there.
\<close>

definition unlisted_store :: memory where
  "unlisted_store =
     snd (memory_write demo_hash demo_manifest_key (manifest_text demo_manifest) (demo_store demo_pair))"

lemma unlisted_index: "mem_view unlisted_store (Layout_Index (demo_layout ''app''))
    = Some (index_text demo_pair, demo_hash (index_text demo_pair))"
proof -
  have "demo_manifest_key \<noteq> Layout_Index (demo_layout ''app'')" by code_simp
  then show ?thesis by (simp add: unlisted_store_def mem_view_write demo_store_view)
qed

theorem orphans_exact_witness:
  "\<exists>strays object. findOrphans (memory_ops demo_hash) (demo_layout ''app'') (30 * Hour) orphanGrace unlisted_store
      = (Inr strays, unlisted_store) \<and> object \<in> set strays \<and> oKey object = demo_manifest_key"
proof -
  have at: "index_at mem_view (demo_layout ''app'') unlisted_store = (demo_pair, None)"
    using index_at_text [OF demo_pair_storable, of mem_view] unlisted_index by blast
  have keys: "HasPrefix demo_manifest_key (Layout_TargetPrefix (demo_layout ''app''))"
    "demo_manifest_key \<noteq> Layout_Index (demo_layout ''app'')" "demo_manifest_key \<noteq> Layout_Lock (demo_layout ''app'')"
    "demo_manifest_key \<notin> {''app/a'', ''app/b''}" by code_simp+
  obtain obj where obj: "map_of (mObjects unlisted_store) demo_manifest_key = Some obj" "obModified obj = 0"
    by (simp add: unlisted_store_def demo_store_def memory_New_def memory_write_def mem_object_def Let_def update_conv')
  have old: "obModified obj \<le> 30 * Hour - orphanGrace" using obj(2) by (simp add: orphanGrace_def Hour_def)
  have etag: "demo_hash (index_text demo_pair) \<noteq> []" by (simp add: demo_hash_def)
  obtain strays where strays: "findOrphans (memory_ops demo_hash) (demo_layout ''app'') (30 * Hour) orphanGrace unlisted_store
      = (Inr strays, unlisted_store)" "mem_info demo_manifest_key obj \<in> set strays"
  proof -
    have "\<forall>e\<in>set demo_pair. demo_manifest_key \<notin> set (Entry_Keys e)" using keys(4) by (simp add: demo_pair_def)
    with orphans_exact [OF at unlisted_index etag, of demo_hash "30 * Hour" orphanGrace] keys(1-3) obj(1) old that
    show thesis by blast
  qed
  then show ?thesis by (auto simp: mem_info_def)
qed

end
