(* ===== verification/Lock.thy ===== *)
theory Lock
  imports Index
begin

text \<open>
  The per-target lock of \<open>internal/lock/lock.go\<close>: a lease kept in one object. Acquisition
  creates the object or takes over an expired one with a conditional overwrite, a heartbeat
  renews it on condition that nobody else wrote it, and release deletes it when it still
  carries the holder's etag. Random ids, the host, the process id and the clock are arguments.
\<close>

section \<open>The lock object\<close>

definition DefaultTTL :: duration where "DefaultTTL = 5 * Minute"

definition renewDivisor :: int where "renewDivisor = 3"

definition Owner_Expired :: "Owner \<Rightarrow> time \<Rightarrow> bool" where
  "Owner_Expired ow now \<longleftrightarrow> \<not> now < owExpiresAt ow"

definition owner_fields :: "Owner \<Rightarrow> fields" where
  "owner_fields ow =
     [(''id'', JStr (owID ow)), (''target'', JStr (owTarget ow)), (''host'', JStr (owHost ow)),
      (''pid'', json_int (owPID ow))] @ omit_str ''kind'' (owKind ow)
     @ [(''acquired_at'', json_time (owAcquiredAt ow)), (''expires_at'', json_time (owExpiresAt ow)),
        (''vaultd_version'', JStr (owVersion ow))]"

definition Owner_Marshal :: "Owner \<Rightarrow> string result" where
  "Owner_Marshal ow =
     (if json_time_ok (owAcquiredAt ow) \<and> json_time_ok (owExpiresAt ow)
      then Inr (print_json None (JObj (owner_fields ow))) else Inl time_range_error)"

definition zero_Owner :: Owner where
  "zero_Owner = \<lparr>owID = [], owTarget = [], owHost = [], owPID = 0, owKind = [], owAcquiredAt = 0,
     owExpiresAt = 0, owVersion = []\<rparr>"

definition owner_table :: "Owner field_table" where
  "owner_table k =
     (if k = ''id'' then Some (\<lambda>j e. map_option (\<lambda>v. e\<lparr>owID := v\<rparr>) (dec_str j (owID e)))
      else if k = ''target'' then Some (\<lambda>j e. map_option (\<lambda>v. e\<lparr>owTarget := v\<rparr>) (dec_str j (owTarget e)))
      else if k = ''host'' then Some (\<lambda>j e. map_option (\<lambda>v. e\<lparr>owHost := v\<rparr>) (dec_str j (owHost e)))
      else if k = ''pid'' then Some (\<lambda>j e. map_option (\<lambda>v. e\<lparr>owPID := v\<rparr>) (dec_int j (owPID e)))
      else if k = ''kind'' then Some (\<lambda>j e. map_option (\<lambda>v. e\<lparr>owKind := v\<rparr>) (dec_str j (owKind e)))
      else if k = ''acquired_at'' then Some (\<lambda>j e. map_option (\<lambda>v. e\<lparr>owAcquiredAt := v\<rparr>) (dec_time j (owAcquiredAt e)))
      else if k = ''expires_at'' then Some (\<lambda>j e. map_option (\<lambda>v. e\<lparr>owExpiresAt := v\<rparr>) (dec_time j (owExpiresAt e)))
      else if k = ''vaultd_version'' then Some (\<lambda>j e. map_option (\<lambda>v. e\<lparr>owVersion := v\<rparr>) (dec_str j (owVersion e)))
      else None)"

text \<open>\<open>json.NewDecoder(body).Decode\<close> reads the first value of the body.\<close>

definition Owner_Decode :: "string \<Rightarrow> Owner option" where
  "Owner_Decode body =
     (case parse_val (Suc (length body)) body of
        None \<Rightarrow> None
      | Some (j, rest) \<Rightarrow> dec_struct owner_table j zero_Owner)"

section \<open>The locker\<close>

text \<open>Who is asking: host, process and program version.\<close>

record Caller =
  clHost :: string
  clPID :: int
  clVersion :: string

record Locker =
  lkKey :: string
  lkTTL :: duration

record Held =
  hOwner :: Owner
  hETag :: string
  hReleased :: bool

definition lock_ttl :: "Locker \<Rightarrow> duration" where
  "lock_ttl l = (if lkTTL l > 0 then lkTTL l else DefaultTTL)"

definition new_owner :: "Locker \<Rightarrow> Caller \<Rightarrow> string \<Rightarrow> time \<Rightarrow> string \<Rightarrow> string \<Rightarrow> Owner" where
  "new_owner l me i now target kind =
     \<lparr>owID = i, owTarget = target, owHost = clHost me, owPID = clPID me, owKind = kind,
      owAcquiredAt = now, owExpiresAt = now + lock_ttl l, owVersion = clVersion me\<rparr>"

definition lock_read :: "'s store_ops \<Rightarrow> Locker \<Rightarrow> ('s, Owner \<times> string) action" where
  "lock_read ops l s =
     (case sHead ops (lkKey l) s of
        (Inl err, s1) \<Rightarrow>
          if errors_Is err ErrNotFound then (Inl err, s1) else (Inl (ErrWrap ''reading the lock'' err), s1)
      | (Inr info, s1) \<Rightarrow>
          (case sGet ops (lkKey l) s1 of
             (Inl err, s2) \<Rightarrow> (Inl (ErrWrap ''reading the lock'' err), s2)
           | (Inr body, s2) \<Rightarrow>
               (case Owner_Decode body of
                  None \<Rightarrow> (Inl (ErrWrap (''the lock object '' @ lkKey l @ '' is not readable'') (ErrText ''invalid JSON'')), s2)
                | Some owner \<Rightarrow> (Inr (owner, oETag info), s2))))"

text \<open>\<open>hold\<close> without its heartbeat goroutine, which is \<open>heartbeat\<close> below.\<close>

definition hold :: "'s store_ops \<Rightarrow> Locker \<Rightarrow> Owner \<Rightarrow> string \<Rightarrow> ('s, Held) action" where
  "hold ops l owner etag s =
     (if etag = []
      then (case sHead ops (lkKey l) s of
              (Inl err, s1) \<Rightarrow> (Inl (ErrWrap (''reading back the lock on '' @ owTarget owner) err), s1)
            | (Inr info, s1) \<Rightarrow> (Inr \<lparr>hOwner = owner, hETag = oETag info, hReleased = False\<rparr>, s1))
      else (Inr \<lparr>hOwner = owner, hETag = etag, hReleased = False\<rparr>, s))"

definition lock_attempt ::
  "'s store_ops \<Rightarrow> Locker \<Rightarrow> Caller \<Rightarrow> string \<Rightarrow> time \<Rightarrow> string \<Rightarrow> string \<Rightarrow> ('s, Held) action" where
  "lock_attempt ops l me i now target kind s =
     (let owner = new_owner l me i now target kind in
      case Owner_Marshal owner of
        Inl err \<Rightarrow> (Inl (ErrWrap ''encoding the lock'' err), s)
      | Inr body \<Rightarrow>
          (case sPutIfAbsent ops (lkKey l) body s of
             (Inl err, s1) \<Rightarrow> (Inl (ErrWrap (''taking the lock on '' @ target) err), s1)
           | (Inr created, s1) \<Rightarrow>
               if created then hold ops l owner [] s1
               else
                 case lock_read ops l s1 of
                   (Inl err, s2) \<Rightarrow> (Inl err, s2)
                 | (Inr (current, etag), s2) \<Rightarrow>
                     if \<not> Owner_Expired current now then (Inl (ErrLocked (lkKey l) current), s2)
                     else
                       case sPutIfMatch ops (lkKey l) body etag s2 of
                         (Inl err, s3) \<Rightarrow> (Inl (ErrWrap (''taking over the expired lock on '' @ target) err), s3)
                       | (Inr (updated, written), s3) \<Rightarrow>
                           if \<not> written
                           then (case lock_read ops l s3 of
                                   (Inl err, s4) \<Rightarrow> (Inl err, s4)
                                 | (Inr (current', _), s4) \<Rightarrow> (Inl (ErrLocked (lkKey l) current'), s4))
                           else hold ops l owner (oETag updated) s3))"

definition acquireAttempts :: nat where "acquireAttempts = 3"

text \<open>The retry loop: attempt \<open>a\<close> uses the id \<open>ids a\<close> and reads the clock as \<open>clock a\<close>.\<close>

fun acquire_loop ::
  "'s store_ops \<Rightarrow> Locker \<Rightarrow> Caller \<Rightarrow> (nat \<Rightarrow> string) \<Rightarrow> (nat \<Rightarrow> time) \<Rightarrow> string \<Rightarrow> string \<Rightarrow> nat \<Rightarrow> nat \<Rightarrow> err
   \<Rightarrow> ('s, Held) action" where
  "acquire_loop ops l me ids clock target kind 0 a lastErr s =
     (Inl (ErrWrap (''the lock on '' @ target @ '' kept changing hands; try again'') lastErr), s)"
| "acquire_loop ops l me ids clock target kind (Suc n) a lastErr s =
     (case lock_attempt ops l me (ids a) (clock a) target kind s of
        (Inr held, s1) \<Rightarrow> (Inr held, s1)
      | (Inl err, s1) \<Rightarrow>
          if errors_Is err ErrNotFound then acquire_loop ops l me ids clock target kind n (a + 1) err s1
          else (Inl err, s1))"

definition Acquire ::
  "'s store_ops \<Rightarrow> Locker \<Rightarrow> Caller \<Rightarrow> (nat \<Rightarrow> string) \<Rightarrow> (nat \<Rightarrow> time) \<Rightarrow> string \<Rightarrow> string \<Rightarrow> ('s, Held) action" where
  "Acquire ops l me ids clock target kind =
     acquire_loop ops l me ids clock target kind acquireAttempts 0 ErrNotFound"

section \<open>Holding\<close>

definition Release :: "'s store_ops \<Rightarrow> Locker \<Rightarrow> Held \<Rightarrow> 's \<Rightarrow> err option \<times> Held \<times> 's" where
  "Release ops l h s =
     (if hReleased h then (None, h, s)
      else let h' = h\<lparr>hReleased := True\<rparr> in
        case sHead ops (lkKey l) s of
          (Inl err, s1) \<Rightarrow>
            if errors_Is err ErrNotFound then (None, h', s1)
            else (Some (ErrWrap ''releasing the lock'' err), h', s1)
        | (Inr info, s1) \<Rightarrow>
            if oETag info \<noteq> hETag h then (None, h', s1)
            else (case sDelete ops [lkKey l] s1 of
                    (Inl err, s2) \<Rightarrow> (Some (ErrWrap ''releasing the lock'' err), h', s2)
                  | (Inr _, s2) \<Rightarrow> (None, h', s2)))"

definition renew :: "'s store_ops \<Rightarrow> Locker \<Rightarrow> time \<Rightarrow> Held \<Rightarrow> ('s, Held) action" where
  "renew ops l now h s =
     (let owner = (hOwner h)\<lparr>owExpiresAt := now + lock_ttl l\<rparr> in
      case Owner_Marshal owner of
        Inl err \<Rightarrow> (Inl err, s)
      | Inr body \<Rightarrow>
          (case sPutIfMatch ops (lkKey l) body (hETag h) s of
             (Inl err, s1) \<Rightarrow> (Inl err, s1)
           | (Inr (info, written), s1) \<Rightarrow>
               if \<not> written then (Inl (ErrText ''another process holds it now''), s1)
               else (Inr (h\<lparr>hOwner := owner, hETag := oETag info\<rparr>), s1)))"

definition heartbeat_interval :: "Locker \<Rightarrow> duration" where
  "heartbeat_interval l = lock_ttl l div renewDivisor"

text \<open>
  The heartbeat at the instants of its ticker, until the handle is released: the handle it
  leaves and, when a renewal failed, the cause the run's context is cancelled with.
\<close>

fun heartbeat :: "'s store_ops \<Rightarrow> Locker \<Rightarrow> time list \<Rightarrow> Held \<Rightarrow> 's \<Rightarrow> err option \<times> Held \<times> 's" where
  "heartbeat ops l [] h s = (None, h, s)"
| "heartbeat ops l (now # ticks) h s =
     (case renew ops l now h s of
        (Inl err, s1) \<Rightarrow> (Some (ErrJoin '': '' ErrLost err), h, s1)
      | (Inr h1, s1) \<Rightarrow> heartbeat ops l ticks h1 s1)"

section \<open>Reading back an owner\<close>

text \<open>An owner whose strings and timestamps survive the encoding.\<close>

definition owner_ok :: "Owner \<Rightarrow> bool" where
  "owner_ok ow \<longleftrightarrow> list_all valid_utf8 [owID ow, owTarget ow, owHost ow, owKind ow, owVersion ow] \<and>
     in_int64 (owPID ow) \<and> json_time_ok (owAcquiredAt ow) \<and> json_time_ok (owExpiresAt ow)"

definition owner_body :: "Owner \<Rightarrow> string" where
  "owner_body ow = print_json None (JObj (owner_fields ow))"

lemma lower_owner [simp]:
  "ToLower ''host'' = ''host''" "ToLower ''pid'' = ''pid''" "ToLower ''acquired_at'' = ''acquired_at''"
  "ToLower ''expires_at'' = ''expires_at''"
  by code_simp+

lemma owner_decode_fields:
  assumes "owner_ok ow"
  shows "dec_fields owner_table (owner_fields ow) zero_Owner = Some ow"
proof (cases ow)
  case (fields i tg ho pi ki ac ex ve)
  have ok: "json_time_ok ac" "json_time_ok ex" "in_int64 pi" using assms by (auto simp: fields owner_ok_def)
  have "dec_fields owner_table (owner_fields ow @ []) zero_Owner = Some ow"
    unfolding owner_fields_def append_assoc append_Cons append_Nil zero_Owner_def fields Owner.select_convs
    by ((rule trans [OF dec_member], simp add: owner_table_def, simp add: ok)
       | (rule trans [OF dec_omit_str], simp add: owner_table_def, simp add: ok, simp))+ simp
  then show ?thesis by simp
qed

lemma owner_wf: "owner_ok ow \<Longrightarrow> wf_json (JObj (owner_fields ow))"
  by (simp add: owner_ok_def owner_fields_def wf_fields_omit valid_utf8_ascii del: wf_json.simps(4) valid_utf8.simps)

lemma owner_roundtrip:
  assumes "owner_ok ow"
  shows "Owner_Marshal ow = Inr (owner_body ow)" and "Owner_Decode (owner_body ow) = Some ow"
proof -
  show "Owner_Marshal ow = Inr (owner_body ow)"
    using assms by (simp add: Owner_Marshal_def owner_body_def owner_ok_def)
  have "parse_val (Suc (length (owner_body ow))) (owner_body ow @ []) = Some (JObj (owner_fields ow), [])"
    unfolding owner_body_def by (rule parse_print_all(1) [OF owner_wf [OF assms]]) (simp_all add: ends_num_def)
  then show "Owner_Decode (owner_body ow) = Some ow"
    using owner_decode_fields [OF assms] by (simp add: Owner_Decode_def)
qed

lemma owner_body_inject: "owner_ok a \<Longrightarrow> owner_ok b \<Longrightarrow> owner_body a = owner_body b \<Longrightarrow> a = b"
  using owner_roundtrip(2) by (metis option.inject)

section \<open>A lease on a store nobody else is writing\<close>

text \<open>The lock object when \<open>holder\<close> has the lock.\<close>

definition locked_by :: "(string \<Rightarrow> string) \<Rightarrow> Owner option \<Rightarrow> (string \<times> string) option" where
  "locked_by h holder = map_option (\<lambda>ow. (owner_body ow, h (owner_body ow))) holder"

lemma lock_read_quiet:
  assumes "mem_view s (lkKey l) = Some (owner_body cur, e)" and "owner_ok cur"
  shows "lock_read (memory_ops h) l s = (Inr (cur, e), s)"
  using mem.head_hit [OF assms(1)] mem.get_hit [OF assms(1)] owner_roundtrip(2) [OF assms(2)]
  by (auto simp: lock_read_def)

lemma hold_quiet:
  assumes "mem_view s (lkKey l) = Some (b, e)"
  shows "hold (memory_ops h) l ow [] s = (Inr \<lparr>hOwner = ow, hETag = e, hReleased = False\<rparr>, s)"
  using mem.head_hit [OF assms] by (auto simp: hold_def)

lemma attempt_quiet:
  assumes ow_def: "ow = new_owner l me i now target kind"
    and "owner_ok ow" and "\<And>b. h b \<noteq> []" and "mem_view s (lkKey l) = locked_by h holder"
    and "\<And>cur. holder = Some cur \<Longrightarrow> owner_ok cur"
  shows "(if (\<exists>cur. holder = Some cur \<and> now < owExpiresAt cur)
          then lock_attempt (memory_ops h) l me i now target kind s = (Inl (ErrLocked (lkKey l) (the holder)), s)
          else \<exists>s'. lock_attempt (memory_ops h) l me i now target kind s
              = (Inr \<lparr>hOwner = ow, hETag = h (owner_body ow), hReleased = False\<rparr>, s') \<and>
            mem_view s' = (mem_view s)(lkKey l := locked_by h (Some ow)))"
proof (cases holder)
  case None
  then have "mem_view s (lkKey l) = None" using assms(4) by (simp add: locked_by_def)
  from mem.absent_free [OF this, of h "owner_body ow"] obtain s' where
    s': "memory_PutIfAbsent h (lkKey l) (owner_body ow) s = (Inr True, s')"
    "mem_view s' = (mem_view s)(lkKey l \<mapsto> (owner_body ow, h (owner_body ow)))" by auto
  have "hold (memory_ops h) l ow [] s' = (Inr \<lparr>hOwner = ow, hETag = h (owner_body ow), hReleased = False\<rparr>, s')"
    by (rule hold_quiet) (simp add: s'(2))
  then show ?thesis
    using None s' owner_roundtrip(1) [OF assms(2)]
    unfolding lock_attempt_def Let_def ow_def [symmetric] by (auto simp: locked_by_def)
next
  case (Some cur)
  let ?e = "h (owner_body cur)"
  have v: "mem_view s (lkKey l) = Some (owner_body cur, ?e)" using assms(4) Some by (simp add: locked_by_def)
  have pre: "memory_PutIfAbsent h (lkKey l) (owner_body ow) s = (Inr False, s)"
    "lock_read (memory_ops h) l s = (Inr (cur, ?e), s)"
    using mem.absent_taken [OF v] lock_read_quiet [OF v] assms(5) Some by simp_all
  obtain inf s' where s': "memory_PutIfMatch h (lkKey l) (owner_body ow) ?e s = (Inr (inf, True), s')"
    "oETag inf = h (owner_body ow)" "mem_view s' = (mem_view s)(lkKey l \<mapsto> (owner_body ow, h (owner_body ow)))"
    using mem.match_hit [of s "lkKey l" "owner_body cur" ?e h "owner_body ow"] v by auto
  show ?thesis
    using Some pre s' assms(3) [of "owner_body ow"] owner_roundtrip(1) [OF assms(2)]
    unfolding lock_attempt_def Let_def ow_def [symmetric]
    by (auto simp: Owner_Expired_def hold_def locked_by_def)
qed

text \<open>C19: The lease. On a store nobody else is writing, \<open>Acquire\<close> refuses, naming the holder and
  leaving the store as it is, exactly while the lock object names a lease that has not run
  out; otherwise it takes the lock, and the object then names the caller until \<open>now + ttl\<close>.\<close>

theorem acquire_lease:
  assumes "owner_ok (new_owner l me (ids 0) (clock 0) target kind)" and "\<forall>b. h b \<noteq> []"
    and "mem_view s (lkKey l) = locked_by h holder" and "\<forall>cur. holder = Some cur \<longrightarrow> owner_ok cur"
  shows "if (\<exists>cur. holder = Some cur \<and> clock 0 < owExpiresAt cur)
     then Acquire (memory_ops h) l me ids clock target kind s = (Inl (ErrLocked (lkKey l) (the holder)), s)
     else \<exists>held s'. Acquire (memory_ops h) l me ids clock target kind s = (Inr held, s') \<and>
       hOwner held = new_owner l me (ids 0) (clock 0) target kind \<and>
       owExpiresAt (hOwner held) = clock 0 + lock_ttl l \<and>
       hETag held = h (owner_body (hOwner held)) \<and>
       mem_view s' = (mem_view s)(lkKey l := locked_by h (Some (hOwner held)))"
proof -
  have three: "acquireAttempts = Suc 2" by (simp add: acquireAttempts_def)
  have acq: "Acquire (memory_ops h) l me ids clock target kind s = r"
    if "lock_attempt (memory_ops h) l me (ids 0) (clock 0) target kind s = r"
      "\<And>x s'. r = (Inl x, s') \<Longrightarrow> \<not> errors_Is x ErrNotFound" for r
    using that unfolding Acquire_def three acquire_loop.simps(2) by (auto split: sum.splits prod.splits)
  show ?thesis
  proof (cases "\<exists>cur. holder = Some cur \<and> clock 0 < owExpiresAt cur")
    case True
    with attempt_quiet [OF refl assms(1), of h s holder] assms(2-4)
    have "lock_attempt (memory_ops h) l me (ids 0) (clock 0) target kind s = (Inl (ErrLocked (lkKey l) (the holder)), s)"
      by simp
    from acq [OF this] True show ?thesis by auto
  next
    case False
    with attempt_quiet [OF refl assms(1), of h s holder] assms(2-4) obtain s' where
      "lock_attempt (memory_ops h) l me (ids 0) (clock 0) target kind s
         = (Inr \<lparr>hOwner = new_owner l me (ids 0) (clock 0) target kind,
              hETag = h (owner_body (new_owner l me (ids 0) (clock 0) target kind)), hReleased = False\<rparr>, s')"
      "mem_view s' = (mem_view s)(lkKey l := locked_by h (Some (new_owner l me (ids 0) (clock 0) target kind)))"
      by auto
    with acq [OF this(1)] False show ?thesis by (auto simp: new_owner_def)
  qed
qed

text \<open>C20: A holder whose lock was taken over, or removed, cannot get it back: the next heartbeat
  reports the lock lost and writes nothing, and \<open>Release\<close> leaves the object to its new
  owner. For distinct contents having distinct etags.\<close>

theorem lost_lock_left_alone:
  assumes "mem_view s (lkKey l) = locked_by h holder" and "holder \<noteq> Some (hOwner held)"
    and "\<forall>cur. holder = Some cur \<longrightarrow> owner_ok cur" and "owner_ok (hOwner held)" and "inj h" and "\<forall>b. h b \<noteq> []"
    and "hETag held = h (owner_body (hOwner held))" and "\<not> hReleased held"
    and "json_time_ok (now + lock_ttl l)"
  shows "(\<exists>cause. heartbeat (memory_ops h) l (now # ticks) held s = (Some cause, held, s) \<and> errors_Is cause ErrLost) \<and>
    Release (memory_ops h) l held s = (None, held\<lparr>hReleased := True\<rparr>, s)"
proof -
  let ?ow = "(hOwner held)\<lparr>owExpiresAt := now + lock_ttl l\<rparr>"
  have ok: "Owner_Marshal ?ow = Inr (owner_body ?ow)"
    using assms(4,9) by (intro owner_roundtrip) (simp add: owner_ok_def)
  have differs: "owner_body cur \<noteq> owner_body (hOwner held)" if "holder = Some cur" for cur
    using that owner_body_inject assms(2,3,4) by auto
  have "case mem_view s (lkKey l) of None \<Rightarrow> hETag held \<noteq> [] | Some (b0, e0) \<Rightarrow> e0 \<noteq> hETag held"
    using differs assms(1,5,6,7) by (auto simp: locked_by_def inj_eq split: option.splits)
  from mem_match_miss [OF this, of h "owner_body ?ow"] obtain i where
    "memory_PutIfMatch h (lkKey l) (owner_body ?ow) (hETag held) s = (Inr (i, False), s)" by auto
  then have "renew (memory_ops h) l now held s = (Inl (ErrText ''another process holds it now''), s)"
    using ok by (simp add: renew_def Let_def)
  then have "heartbeat (memory_ops h) l (now # ticks) held s
      = (Some (ErrJoin '': '' ErrLost (ErrText ''another process holds it now'')), held, s)" by simp
  moreover have "Release (memory_ops h) l held s = (None, held\<lparr>hReleased := True\<rparr>, s)"
  proof (cases holder)
    case None
    then have "mem_view s (lkKey l) = None" using assms(1) by (simp add: locked_by_def)
    from mem.head_miss [OF this] show ?thesis using assms(8) by (auto simp: Release_def Let_def)
  next
    case (Some cur)
    then have v: "mem_view s (lkKey l) = Some (owner_body cur, h (owner_body cur))" using assms(1) by (simp add: locked_by_def)
    have "h (owner_body cur) \<noteq> hETag held" using differs [OF Some] assms(5,7) by (simp add: inj_eq)
    with mem.head_hit [OF v] assms(8) show ?thesis by (auto simp: Release_def Let_def)
  qed
  ultimately show ?thesis by simp
qed

end
