(* ===== verification/Lock_System.thy ===== *)
theory Lock_System
  imports Lock
begin

text \<open>
  Several processes competing for one lock, interleaved call by call. A state machine whose
  steps are the single store calls of \<open>attempt\<close>, \<open>hold\<close>, \<open>renew\<close> and \<open>Release\<close>, with the clock
  moving and processes dying at any point, and the proof that two processes never both
  believe in a lease that has not run out.
\<close>

section \<open>The state machine\<close>

text \<open>Where a process stands: the call it makes next, with what it has learned so far.\<close>

datatype pc =
    Idle
  | Refused time Owner
  | Saw time Owner string
  | Taking time Owner string
  | Created Owner
  | Holding Held
  | Deleting Held

record lock_sys =
  syClock :: time
  syStore :: memory
  syPc :: "nat \<Rightarrow> pc"
  syUsed :: "string set"

definition goto :: "nat \<Rightarrow> pc \<Rightarrow> memory \<Rightarrow> lock_sys \<Rightarrow> lock_sys" where
  "goto p c s S = S\<lparr>syStore := s, syPc := (syPc S)(p := c)\<rparr>"

text \<open>
  The processes share one clock: what the lease protects against is a slow process, not a clock that
  runs ahead of the others. A body is stamped at the instant of the call that stores it; a process
  that stops between the two is one whose call is made later with a shorter lease.
  \<open>timely\<close> asks that a process makes two calls, the one that reads its etag back and the one
  that deletes the lock object, before its own lease runs out.
\<close>

inductive lock_step ::
  "bool \<Rightarrow> (string \<Rightarrow> string) \<Rightarrow> Locker \<Rightarrow> (nat \<Rightarrow> Caller) \<Rightarrow> string \<Rightarrow> string \<Rightarrow> lock_sys \<Rightarrow> lock_sys \<Rightarrow> bool"
  for timely h l cl target kind where
  tick: "syClock S \<le> t \<Longrightarrow> lock_step timely h l cl target kind S (S\<lparr>syClock := t\<rparr>)"
| crash: "lock_step timely h l cl target kind S (goto p Idle (syStore S) S)"
| create: "syPc S p = Idle \<Longrightarrow> i \<notin> syUsed S \<Longrightarrow> ow = new_owner l (cl p) i (syClock S) target kind \<Longrightarrow>
    owner_ok ow \<Longrightarrow> sPutIfAbsent (memory_ops h) (lkKey l) (owner_body ow) (syStore S) = (Inr created, s') \<Longrightarrow>
    lock_step timely h l cl target kind S
      ((goto p (if created then Created ow else Refused (syClock S) ow) s' S)\<lparr>syUsed := insert i (syUsed S)\<rparr>)"
| head: "syPc S p = Refused t ow \<Longrightarrow> sHead (memory_ops h) (lkKey l) (syStore S) = (r, s') \<Longrightarrow>
    lock_step timely h l cl target kind S
      (goto p (case r of Inr info \<Rightarrow> Saw t ow (oETag info) | Inl _ \<Rightarrow> Idle) s' S)"
| body: "syPc S p = Saw t ow e \<Longrightarrow> sGet (memory_ops h) (lkKey l) (syStore S) = (r, s') \<Longrightarrow>
    lock_step timely h l cl target kind S
      (goto p (case r of Inl _ \<Rightarrow> Idle
               | Inr b \<Rightarrow> (case Owner_Decode b of None \<Rightarrow> Idle
                          | Some current \<Rightarrow> if Owner_Expired current t then Taking t ow e else Idle)) s' S)"
| take: "syPc S p = Taking t ow e \<Longrightarrow>
    sPutIfMatch (memory_ops h) (lkKey l) (owner_body ow) e (syStore S) = (Inr (info, written), s') \<Longrightarrow>
    lock_step timely h l cl target kind S
      (goto p (if written then Holding \<lparr>hOwner = ow, hETag = oETag info, hReleased = False\<rparr> else Idle) s' S)"
| readback: "syPc S p = Created ow \<Longrightarrow> timely \<longrightarrow> syClock S < owExpiresAt ow \<Longrightarrow>
    sHead (memory_ops h) (lkKey l) (syStore S) = (r, s') \<Longrightarrow>
    lock_step timely h l cl target kind S
      (goto p (case r of Inr info \<Rightarrow> Holding \<lparr>hOwner = ow, hETag = oETag info, hReleased = False\<rparr>
               | Inl _ \<Rightarrow> Idle) s' S)"
| renewal: "syPc S p = Holding hl \<Longrightarrow> renew (memory_ops h) l (syClock S) hl (syStore S) = (r, s') \<Longrightarrow>
    lock_step timely h l cl target kind S
      (goto p (case r of Inr hl' \<Rightarrow> Holding hl' | Inl _ \<Rightarrow> Idle) s' S)"
| release: "syPc S p = Holding hl \<Longrightarrow> sHead (memory_ops h) (lkKey l) (syStore S) = (r, s') \<Longrightarrow>
    lock_step timely h l cl target kind S
      (goto p (case r of Inr info \<Rightarrow> if oETag info = hETag hl then Deleting hl else Idle | Inl _ \<Rightarrow> Idle) s' S)"
| delete: "syPc S p = Deleting hl \<Longrightarrow> timely \<longrightarrow> syClock S < owExpiresAt (hOwner hl) \<Longrightarrow>
    sDelete (memory_ops h) [lkKey l] (syStore S) = (r, s') \<Longrightarrow>
    lock_step timely h l cl target kind S (goto p Idle s' S)"

inductive lock_run ::
  "bool \<Rightarrow> (string \<Rightarrow> string) \<Rightarrow> Locker \<Rightarrow> (nat \<Rightarrow> Caller) \<Rightarrow> string \<Rightarrow> string \<Rightarrow> lock_sys \<Rightarrow> lock_sys \<Rightarrow> bool"
  for timely h l cl target kind where
  run_refl: "lock_run timely h l cl target kind S S"
| run_step: "lock_run timely h l cl target kind S T \<Longrightarrow> lock_step timely h l cl target kind T U
    \<Longrightarrow> lock_run timely h l cl target kind S U"

text \<open>The owner a process works for, and the lease it believes in.\<close>

fun pc_owner :: "pc \<Rightarrow> Owner option" where
  "pc_owner Idle = None"
| "pc_owner (Refused t ow) = Some ow"
| "pc_owner (Saw t ow e) = Some ow"
| "pc_owner (Taking t ow e) = Some ow"
| "pc_owner (Created ow) = Some ow"
| "pc_owner (Holding hl) = Some (hOwner hl)"
| "pc_owner (Deleting hl) = Some (hOwner hl)"

fun lease :: "pc \<Rightarrow> Owner option" where
  "lease (Created ow) = Some ow"
| "lease (Holding hl) = Some (hOwner hl)"
| "lease (Deleting hl) = Some (hOwner hl)"
| "lease _ = None"

definition live :: "lock_sys \<Rightarrow> nat \<Rightarrow> bool" where
  "live S p \<longleftrightarrow> (case lease (syPc S p) of None \<Rightarrow> False | Some ow \<Rightarrow> syClock S < owExpiresAt ow)"

definition lock_init :: "time \<Rightarrow> lock_sys" where
  "lock_init t = \<lparr>syClock = t, syStore = memory_New t, syPc = (\<lambda>_. Idle), syUsed = {}\<rparr>"

section \<open>The invariant\<close>

text \<open>
  \<open>c\<close> is the owner the lock object names and \<open>dead\<close> the owners it named before. An owner that
  has been replaced never comes back, because ids are fresh and renewals only extend.
\<close>

definition pending :: "time \<Rightarrow> duration \<Rightarrow> string set \<Rightarrow> Owner option \<Rightarrow> Owner set \<Rightarrow> time \<Rightarrow> Owner \<Rightarrow> bool" where
  "pending now ttl used c dead t ow \<longleftrightarrow> owner_ok ow \<and> owID ow \<in> used \<and> t \<le> now \<and> owExpiresAt ow \<le> now + ttl \<and>
     (\<forall>d\<in>dead. owID d \<noteq> owID ow) \<and> (\<forall>x. c = Some x \<longrightarrow> owID x \<noteq> owID ow)"

definition mine :: "time \<Rightarrow> string set \<Rightarrow> Owner option \<Rightarrow> Owner \<Rightarrow> bool" where
  "mine now used c ow \<longleftrightarrow> owner_ok ow \<and> owID ow \<in> used \<and> (now < owExpiresAt ow \<longrightarrow> c = Some ow)"

fun pc_ok :: "(string \<Rightarrow> string) \<Rightarrow> time \<Rightarrow> duration \<Rightarrow> string set \<Rightarrow> Owner option \<Rightarrow> Owner set \<Rightarrow> pc \<Rightarrow> bool" where
  "pc_ok h now ttl used c dead Idle \<longleftrightarrow> True"
| "pc_ok h now ttl used c dead (Refused t ow) \<longleftrightarrow> pending now ttl used c dead t ow"
| "pc_ok h now ttl used c dead (Saw t ow e) \<longleftrightarrow> pending now ttl used c dead t ow \<and>
     (\<exists>x. owner_ok x \<and> e = h (owner_body x) \<and> (x \<in> dead \<or> c = Some x))"
| "pc_ok h now ttl used c dead (Taking t ow e) \<longleftrightarrow> pending now ttl used c dead t ow \<and>
     (\<exists>x. owner_ok x \<and> e = h (owner_body x) \<and> (x \<in> dead \<or> c = Some x \<and> owExpiresAt x \<le> t))"
| "pc_ok h now ttl used c dead (Created ow) \<longleftrightarrow> mine now used c ow"
| "pc_ok h now ttl used c dead (Holding hl) \<longleftrightarrow> mine now used c (hOwner hl) \<and> hETag hl = h (owner_body (hOwner hl))"
| "pc_ok h now ttl used c dead (Deleting hl) \<longleftrightarrow> mine now used c (hOwner hl) \<and> hETag hl = h (owner_body (hOwner hl))"

definition current_ok :: "time \<Rightarrow> duration \<Rightarrow> string set \<Rightarrow> Owner option \<Rightarrow> Owner set \<Rightarrow> bool" where
  "current_ok now ttl used c dead \<longleftrightarrow>
     (\<forall>x. c = Some x \<longrightarrow> owner_ok x \<and> owID x \<in> used \<and> owExpiresAt x \<le> now + ttl \<and>
        (\<forall>d\<in>dead. owID d = owID x \<longrightarrow> owExpiresAt d < owExpiresAt x)) \<and>
     (\<forall>d\<in>dead. owID d \<in> used)"

definition apart_ids :: "(nat \<Rightarrow> pc) \<Rightarrow> bool" where
  "apart_ids pcs \<longleftrightarrow> (\<forall>p q a b. p \<noteq> q \<longrightarrow> pc_owner (pcs p) = Some a \<longrightarrow> pc_owner (pcs q) = Some b \<longrightarrow> owID a \<noteq> owID b)"

definition lock_inv :: "(string \<Rightarrow> string) \<Rightarrow> Locker \<Rightarrow> lock_sys \<Rightarrow> Owner option \<Rightarrow> Owner set \<Rightarrow> bool" where
  "lock_inv h l S c dead \<longleftrightarrow> mem_view (syStore S) (lkKey l) = locked_by h c \<and>
     current_ok (syClock S) (lock_ttl l) (syUsed S) c dead \<and>
     (\<forall>p. pc_ok h (syClock S) (lock_ttl l) (syUsed S) c dead (syPc S p)) \<and> apart_ids (syPc S)"

lemma pc_ok_owner_used: "pc_ok h now ttl used c dead x \<Longrightarrow> pc_owner x = Some ow \<Longrightarrow> owID ow \<in> used"
  by (cases x) (auto simp: pending_def mine_def)

lemma pc_ok_later:
  "pc_ok h now ttl used c dead x \<Longrightarrow> now \<le> now' \<Longrightarrow> used \<subseteq> used' \<Longrightarrow> pc_ok h now' ttl used' c dead x"
  by (cases x) (fastforce simp: pending_def mine_def)+

lemma current_ok_later:
  "current_ok now ttl used c dead \<Longrightarrow> now \<le> now' \<Longrightarrow> used \<subseteq> used' \<Longrightarrow> current_ok now' ttl used' c dead"
  by (fastforce simp: current_ok_def)

lemma apart_ids_update:
  assumes "apart_ids pcs" and "\<And>a q b. pc_owner x = Some a \<Longrightarrow> q \<noteq> p \<Longrightarrow> pc_owner (pcs q) = Some b \<Longrightarrow> owID a \<noteq> owID b"
  shows "apart_ids (pcs(p := x))"
  using assms unfolding apart_ids_def by (metis fun_upd_apply)

lemma apart_ids_same:
  assumes "apart_ids pcs" and "\<And>a. pc_owner x = Some a \<Longrightarrow> \<exists>b. pc_owner (pcs p) = Some b \<and> owID b = owID a"
  shows "apart_ids (pcs(p := x))"
  using assms unfolding apart_ids_def by (metis fun_upd_apply)

text \<open>A step of \<open>p\<close> that leaves the lock object alone.\<close>

lemma inv_local:
  assumes "lock_inv h l S c dead" and "mem_view s' (lkKey l) = mem_view (syStore S) (lkKey l)"
    and "pc_ok h (syClock S) (lock_ttl l) (syUsed S) c dead x"
    and "\<And>a. pc_owner x = Some a \<Longrightarrow> \<exists>b. pc_owner (syPc S p) = Some b \<and> owID b = owID a"
  shows "lock_inv h l (goto p x s' S) c dead"
proof -
  have "apart_ids ((syPc S)(p := x))"
    using assms(1,4) by (intro apart_ids_same) (auto simp: lock_inv_def)
  then show ?thesis using assms(1-3) by (auto simp: lock_inv_def goto_def)
qed

text \<open>A step of \<open>p\<close> that replaces the object \<open>c\<close> by \<open>c'\<close>, when no other lease is alive.\<close>

lemma pending_write:
  "pending now ttl used c dead t ow \<Longrightarrow> \<forall>y. c' = Some y \<longrightarrow> owID y \<noteq> owID ow \<Longrightarrow> dead' \<subseteq> dead \<union> {y. c = Some y}
     \<Longrightarrow> pending now ttl used c' dead' t ow"
  unfolding pending_def by blast

lemma others_after_write:
  assumes "pc_ok h now ttl used c dead x" and live: "\<And>ow. lease x = Some ow \<Longrightarrow> now < owExpiresAt ow \<Longrightarrow> c \<noteq> Some ow"
    and id: "\<And>ow y. pc_owner x = Some ow \<Longrightarrow> c' = Some y \<Longrightarrow> owID y \<noteq> owID ow"
    and gone: "\<And>y. c = Some y \<Longrightarrow> y \<in> dead' \<or> c' = Some y"
    and dead: "dead \<subseteq> dead'" "dead' \<subseteq> dead \<union> {y. c = Some y}"
  shows "pc_ok h now ttl used c' dead' x"
proof (cases x)
  case (Refused t ow)
  then show ?thesis using assms(1) id dead(2) by (auto intro: pending_write)
next
  case (Saw t ow e)
  then have "pending now ttl used c' dead' t ow" using assms(1) id dead(2) by (auto intro: pending_write)
  moreover obtain y where "owner_ok y" "e = h (owner_body y)" "y \<in> dead \<or> c = Some y" using assms(1) Saw by auto
  ultimately show ?thesis using Saw gone [of y] dead(1) by auto
next
  case (Taking t ow e)
  then have "pending now ttl used c' dead' t ow" using assms(1) id dead(2) by (auto intro: pending_write)
  moreover obtain y where "owner_ok y" "e = h (owner_body y)" "y \<in> dead \<or> c = Some y \<and> owExpiresAt y \<le> t"
    using assms(1) Taking by auto
  ultimately show ?thesis using Taking gone [of y] dead(1) by auto
qed (use assms(1) live in \<open>auto simp: mine_def\<close>)

lemma inv_write:
  assumes "lock_inv h l S c dead" and "mem_view s' (lkKey l) = locked_by h c'"
    and "current_ok (syClock S) (lock_ttl l) used' c' dead'" and "syUsed S \<subseteq> used'"
    and "pc_ok h (syClock S) (lock_ttl l) used' c' dead' x"
    and "\<And>q ow. q \<noteq> p \<Longrightarrow> lease (syPc S q) = Some ow \<Longrightarrow> syClock S < owExpiresAt ow \<Longrightarrow> c \<noteq> Some ow"
    and "\<And>a. c' = Some a \<Longrightarrow> pc_owner x = Some a"
    and "\<And>a q b. pc_owner x = Some a \<Longrightarrow> q \<noteq> p \<Longrightarrow> pc_owner (syPc S q) = Some b \<Longrightarrow> owID a \<noteq> owID b"
    and "\<And>y. c = Some y \<Longrightarrow> y \<in> dead' \<or> c' = Some y" and "dead \<subseteq> dead'" and "dead' \<subseteq> dead \<union> {y. c = Some y}"
  shows "lock_inv h l ((goto p x s' S)\<lparr>syUsed := used'\<rparr>) c' dead'"
proof -
  have "pc_ok h (syClock S) (lock_ttl l) used' c' dead' (syPc S q)" if "q \<noteq> p" for q
  proof (rule others_after_write)
    show "pc_ok h (syClock S) (lock_ttl l) used' c dead (syPc S q)"
    proof (rule pc_ok_later [OF _ order_refl assms(4)])
      show "pc_ok h (syClock S) (lock_ttl l) (syUsed S) c dead (syPc S q)" using assms(1) by (simp add: lock_inv_def)
    qed
    show "c \<noteq> Some ow" if "lease (syPc S q) = Some ow" "syClock S < owExpiresAt ow" for ow
      using assms(6) \<open>q \<noteq> p\<close> that by blast
    show "owID y \<noteq> owID ow" if "pc_owner (syPc S q) = Some ow" "c' = Some y" for ow y
      using assms(7,8) \<open>q \<noteq> p\<close> that by blast
  qed (use assms(9-11) in auto)
  moreover have "apart_ids ((syPc S)(p := x))"
  proof (rule apart_ids_update)
    show "apart_ids (syPc S)" using assms(1) by (simp add: lock_inv_def)
  qed (rule assms(8))
  ultimately show ?thesis using assms(2,3,5) by (simp add: lock_inv_def goto_def)
qed

section \<open>Every step keeps the invariant\<close>

lemma goto_used [simp]: "(goto p x s' S)\<lparr>syUsed := syUsed S\<rparr> = goto p x s' S"
  by (simp add: goto_def)

lemma lease_owner: "lease x = Some ow \<Longrightarrow> pc_owner x = Some ow"
  by (cases x) auto

lemma inv_facts:
  assumes "lock_inv h l S c dead"
  shows "mem_view (syStore S) (lkKey l) = locked_by h c" "current_ok (syClock S) (lock_ttl l) (syUsed S) c dead"
    "pc_ok h (syClock S) (lock_ttl l) (syUsed S) c dead (syPc S p)" "apart_ids (syPc S)"
    "p \<noteq> q \<Longrightarrow> pc_owner (syPc S p) = Some a \<Longrightarrow> pc_owner (syPc S q) = Some b \<Longrightarrow> owID a \<noteq> owID b"
    "pc_owner (syPc S p) = Some a \<Longrightarrow> owID a \<in> syUsed S"
  using assms pc_ok_owner_used unfolding lock_inv_def apart_ids_def by blast+

lemma step_create:
  assumes "lock_inv h l S c dead" and "syPc S p = Idle" and "i \<notin> syUsed S"
    and ow: "ow = new_owner l (cl p) i (syClock S) target kind" and ok: "owner_ok ow"
    and put: "sPutIfAbsent (memory_ops h) (lkKey l) (owner_body ow) (syStore S) = (Inr created, s')"
  shows "\<exists>c' dead'. lock_inv h l
     ((goto p (if created then Created ow else Refused (syClock S) ow) s' S)\<lparr>syUsed := insert i (syUsed S)\<rparr>) c' dead'"
proof -
  note I = inv_facts [OF assms(1)]
  have fields: "owID ow = i" "owExpiresAt ow = syClock S + lock_ttl l" using ow by (simp_all add: new_owner_def)
  have dead: "owID d \<noteq> i" if "d \<in> dead" for d using I(2) assms(3) that by (auto simp: current_ok_def)
  have other: "i \<noteq> owID b" if "pc_owner (syPc S q) = Some b" for q b using I(6) [OF that] assms(3) by auto
  have cur: "current_ok (syClock S) (lock_ttl l) (insert i (syUsed S)) c dead"
    using current_ok_later [OF I(2)] by blast
  show ?thesis
  proof (cases c)
    case None
    then have v: "mem_view (syStore S) (lkKey l) = None" using I(1) by (simp add: locked_by_def)
    from mem.absent_free [OF v, of h "owner_body ow"] put
    have made: "created" "mem_view s' (lkKey l) = locked_by h (Some ow)" by (auto simp: locked_by_def)
    have "lock_inv h l ((goto p (Created ow) s' S)\<lparr>syUsed := insert i (syUsed S)\<rparr>) (Some ow) dead"
    proof (rule inv_write [OF assms(1) made(2)])
      show "current_ok (syClock S) (lock_ttl l) (insert i (syUsed S)) (Some ow) dead"
        using I(2) ok fields dead by (auto simp: current_ok_def)
    qed (use ok fields other None in \<open>auto simp: mine_def\<close>)
    then show ?thesis using made(1) by auto
  next
    case (Some x)
    then have v: "mem_view (syStore S) (lkKey l) = Some (owner_body x, h (owner_body x))" using I(1) by (simp add: locked_by_def)
    from mem.absent_taken [OF v, of h "owner_body ow"] put have made: "\<not> created" "s' = syStore S" by auto
    have "owID x \<noteq> i" using I(2) assms(3) Some by (auto simp: current_ok_def)
    then have "pc_ok h (syClock S) (lock_ttl l) (insert i (syUsed S)) c dead (Refused (syClock S) ow)"
      using ok fields dead Some by (auto simp: pending_def)
    moreover have "apart_ids ((syPc S)(p := Refused (syClock S) ow))"
      by (rule apart_ids_update [OF I(4)]) (use fields other in auto)
    moreover have "pc_ok h (syClock S) (lock_ttl l) (insert i (syUsed S)) c dead (syPc S q)" for q
      by (rule pc_ok_later [OF I(3) order_refl]) blast
    ultimately have "lock_inv h l ((goto p (Refused (syClock S) ow) s' S)\<lparr>syUsed := insert i (syUsed S)\<rparr>) c dead"
      using cur I(1) made(2) by (simp add: lock_inv_def goto_def del: pc_ok.simps)
    then show ?thesis using made(1) by auto
  qed
qed

lemma head_view:
  assumes "sHead (memory_ops h) k s = (r, s')"
  shows "s' = s" and "r = Inr info \<Longrightarrow> \<exists>b. mem_view s k = Some (b, oETag info)"
  using mem.head_result [where k = k and s = s and h = h] assms by auto

lemma locked_by_Some: "locked_by h c = Some (b, e) \<Longrightarrow> \<exists>x. c = Some x \<and> b = owner_body x \<and> e = h (owner_body x)"
  by (auto simp: locked_by_def)

lemma step_head:
  assumes "lock_inv h l S c dead" and "syPc S p = Refused t ow"
    and "sHead (memory_ops h) (lkKey l) (syStore S) = (r, s')"
  shows "lock_inv h l (goto p (case r of Inr info \<Rightarrow> Saw t ow (oETag info) | Inl _ \<Rightarrow> Idle) s' S) c dead"
proof (rule inv_local [OF assms(1)])
  note I = inv_facts [OF assms(1)] and H = head_view [OF assms(3)]
  show "mem_view s' (lkKey l) = mem_view (syStore S) (lkKey l)" using H(1) by simp
  show "pc_ok h (syClock S) (lock_ttl l) (syUsed S) c dead (case r of Inr info \<Rightarrow> Saw t ow (oETag info) | Inl _ \<Rightarrow> Idle)"
  proof (cases r)
    case (Inr info)
    then obtain b where "locked_by h c = Some (b, oETag info)" using H(2) I(1) by auto
    then obtain x where "c = Some x" "oETag info = h (owner_body x)" using locked_by_Some by blast
    then show ?thesis using Inr I(2) I(3) [of p] assms(2) by (auto simp: current_ok_def)
  qed simp
qed (use assms(2) in \<open>auto split: sum.splits\<close>)

lemma step_body:
  assumes "lock_inv h l S c dead" and "syPc S p = Saw t ow e"
    and "sGet (memory_ops h) (lkKey l) (syStore S) = (r, s')"
  shows "lock_inv h l (goto p (case r of Inl _ \<Rightarrow> Idle
      | Inr b \<Rightarrow> (case Owner_Decode b of None \<Rightarrow> Idle
                 | Some current \<Rightarrow> if Owner_Expired current t then Taking t ow e else Idle)) s' S) c dead"
proof -
  note I = inv_facts [OF assms(1)]
  have G: "s' = syStore S" "\<And>b. r = Inr b \<Longrightarrow> \<exists>e. mem_view (syStore S) (lkKey l) = Some (b, e)"
    using mem.get_result [where k = "lkKey l" and s = "syStore S" and h = h] assms(3) by auto
  have S: "pending (syClock S) (lock_ttl l) (syUsed S) c dead t ow"
    "\<exists>x. owner_ok x \<and> e = h (owner_body x) \<and> (x \<in> dead \<or> c = Some x)" using I(3) [of p] assms(2) by auto
  have take: "pc_ok h (syClock S) (lock_ttl l) (syUsed S) c dead (Taking t ow e)"
    if rb: "r = Inr b" "Owner_Decode b = Some current" "Owner_Expired current t" for b current
  proof -
    obtain e' where "locked_by h c = Some (b, e')" using G(2) [OF rb(1)] I(1) by auto
    then obtain x where x: "c = Some x" "b = owner_body x" using locked_by_Some by blast
    then have "owner_ok x" using I(2) by (simp add: current_ok_def)
    then have "current = x" using rb(2) x(2) owner_roundtrip(2) by simp
    then show ?thesis using S rb(3) x(1) by (auto simp: Owner_Expired_def)
  qed
  show ?thesis
    by (rule inv_local [OF assms(1)]) (use G(1) take assms(2) in \<open>auto split: sum.splits option.splits if_splits simp del: pc_ok.simps(4)\<close>)
qed

lemma no_dead_current:
  assumes "current_ok now ttl used c dead" and "c = Some x" shows "x \<notin> dead"
  using assms by (auto simp: current_ok_def)

lemma match_view:
  assumes "sPutIfMatch (memory_ops h) k b e s = (Inr (info, written), s')"
    and "mem_view s k = locked_by h c" and "inj h" and "\<forall>b. h b \<noteq> []" and "e = h (owner_body x)" and "owner_ok x"
    and "\<And>y. c = Some y \<Longrightarrow> owner_ok y"
  shows "if written then c = Some x \<and> oETag info = h b \<and> mem_view s' = (mem_view s)(k \<mapsto> (b, h b)) else s' = s"
proof (cases written)
  case True
  with assms(1) have "sPutIfMatch (memory_ops h) k b e s = (Inr (info, True), s')" by simp
  note W = mem_match_written [OF this]
  then have "case locked_by h c of None \<Rightarrow> e = [] | Some (b0, e0) \<Rightarrow> e0 = e" using assms(2) by simp
  then obtain y where "c = Some y" "h (owner_body y) = e"
    using assms(4) [rule_format, of "owner_body x"] assms(5) by (auto simp: locked_by_def split: option.splits)
  then have "y = x" using assms(3,5,6,7) owner_body_inject by (auto simp: inj_eq)
  then show ?thesis using W True \<open>c = Some y\<close> by simp
next
  case False
  then show ?thesis using assms(1) mem_match_unwritten by auto
qed

lemma step_take:
  assumes "lock_inv h l S c dead" and "inj h" and "\<forall>b. h b \<noteq> []" and "syPc S p = Taking t ow e"
    and put: "sPutIfMatch (memory_ops h) (lkKey l) (owner_body ow) e (syStore S) = (Inr (info, written), s')"
  shows "\<exists>c' dead'. lock_inv h l
    (goto p (if written then Holding \<lparr>hOwner = ow, hETag = oETag info, hReleased = False\<rparr> else Idle) s' S) c' dead'"
proof -
  note I = inv_facts [OF assms(1)]
  obtain x where x: "owner_ok x" "e = h (owner_body x)" "x \<in> dead \<or> c = Some x \<and> owExpiresAt x \<le> t"
    and pend: "pending (syClock S) (lock_ttl l) (syUsed S) c dead t ow" using I(3) [of p] assms(4) by auto
  have cok: "\<And>y. c = Some y \<Longrightarrow> owner_ok y" using I(2) by (simp add: current_ok_def)
  note M = match_view [OF put I(1) assms(2,3) x(2,1) cok]
  show ?thesis
  proof (cases written)
    case False
    have "lock_inv h l (goto p Idle s' S) c dead" by (rule inv_local [OF assms(1)]) (use M False in auto)
    then show ?thesis using False by auto
  next
    case True
    then have c: "c = Some x" "oETag info = h (owner_body ow)" "mem_view s' (lkKey l) = locked_by h (Some ow)"
      using M by (auto simp: locked_by_def)
    have late: "owExpiresAt x \<le> syClock S"
      using x(3) no_dead_current [OF I(2) c(1)] pend by (auto simp: pending_def)
    let ?x = "Holding \<lparr>hOwner = ow, hETag = oETag info, hReleased = False\<rparr>"
    have "lock_inv h l ((goto p ?x s' S)\<lparr>syUsed := syUsed S\<rparr>) (Some ow) (insert x dead)"
    proof (rule inv_write [OF assms(1) c(3)])
      show "current_ok (syClock S) (lock_ttl l) (syUsed S) (Some ow) (insert x dead)"
        using pend I(2) c(1) by (auto simp: current_ok_def pending_def)
      show "pc_ok h (syClock S) (lock_ttl l) (syUsed S) (Some ow) (insert x dead) ?x"
        using pend c(2) by (auto simp: mine_def pending_def)
      show "owID a \<noteq> owID b" if "pc_owner ?x = Some a" "q \<noteq> p" "pc_owner (syPc S q) = Some b" for a q b
        using that I(5) [of p q ow b] assms(4) by auto
    qed (use c(1) late in auto)
    then show ?thesis using True by auto
  qed
qed

lemma step_readback:
  assumes "lock_inv h l S c dead" and "syPc S p = Created ow" and "syClock S < owExpiresAt ow"
    and "sHead (memory_ops h) (lkKey l) (syStore S) = (r, s')"
  shows "lock_inv h l (goto p (case r of Inr info \<Rightarrow> Holding \<lparr>hOwner = ow, hETag = oETag info, hReleased = False\<rparr>
      | Inl _ \<Rightarrow> Idle) s' S) c dead"
proof (rule inv_local [OF assms(1)])
  note I = inv_facts [OF assms(1)] and H = head_view [OF assms(4)]
  show "mem_view s' (lkKey l) = mem_view (syStore S) (lkKey l)" using H(1) by simp
  have own: "mine (syClock S) (syUsed S) c ow" using I(3) [of p] assms(2) by simp
  show "pc_ok h (syClock S) (lock_ttl l) (syUsed S) c dead
      (case r of Inr info \<Rightarrow> Holding \<lparr>hOwner = ow, hETag = oETag info, hReleased = False\<rparr> | Inl _ \<Rightarrow> Idle)"
  proof (cases r)
    case (Inr info)
    then obtain b where "locked_by h c = Some (b, oETag info)" using H(2) I(1) by auto
    then show ?thesis using own Inr assms(3) by (auto simp: mine_def locked_by_def)
  qed simp
qed (use assms(2) in \<open>auto split: sum.splits\<close>)

lemma step_release:
  assumes "lock_inv h l S c dead" and "syPc S p = Holding hl"
    and "sHead (memory_ops h) (lkKey l) (syStore S) = (r, s')"
  shows "lock_inv h l (goto p (case r of Inr info \<Rightarrow> if oETag info = hETag hl then Deleting hl else Idle
      | Inl _ \<Rightarrow> Idle) s' S) c dead"
proof (rule inv_local [OF assms(1)])
  note I = inv_facts [OF assms(1)] and H = head_view [OF assms(3)]
  show "mem_view s' (lkKey l) = mem_view (syStore S) (lkKey l)" using H(1) by simp
  show "pc_ok h (syClock S) (lock_ttl l) (syUsed S) c dead
      (case r of Inr info \<Rightarrow> if oETag info = hETag hl then Deleting hl else Idle | Inl _ \<Rightarrow> Idle)"
    using I(3) [of p] assms(2) by (auto split: sum.splits)
qed (use assms(2) in \<open>auto split: sum.splits if_splits\<close>)

lemma other_lease:
  assumes "lock_inv h l S c dead" and "q \<noteq> p" and "pc_owner (syPc S p) = Some a" and "c = Some a"
    and "lease (syPc S q) = Some ow"
  shows "c \<noteq> Some ow"
  using inv_facts(5) [OF assms(1), of p q a ow] assms(2-4) lease_owner [OF assms(5)] by auto

lemma step_delete:
  assumes "lock_inv h l S c dead" and "syPc S p = Deleting hl" and "syClock S < owExpiresAt (hOwner hl)"
    and "sDelete (memory_ops h) [lkKey l] (syStore S) = (r, s')"
  shows "\<exists>c' dead'. lock_inv h l (goto p Idle s' S) c' dead'"
proof -
  note I = inv_facts [OF assms(1)]
  have c: "c = Some (hOwner hl)" using I(3) [of p] assms(2,3) by (simp add: mine_def)
  obtain t where t: "sDelete (memory_ops h) [lkKey l] (syStore S) = (Inr (), t)" "mem_view t (lkKey l) = None"
    using mem.delete [where ks = "[lkKey l]" and s = "syStore S"] by auto
  then have v: "mem_view s' (lkKey l) = locked_by h None" using assms(4) by (simp add: locked_by_def)
  have "lock_inv h l ((goto p Idle s' S)\<lparr>syUsed := syUsed S\<rparr>) None (insert (hOwner hl) dead)"
  proof (rule inv_write [OF assms(1) v])
    show "current_ok (syClock S) (lock_ttl l) (syUsed S) None (insert (hOwner hl) dead)"
      using I(2) c by (auto simp: current_ok_def)
    show "c \<noteq> Some ow" if "q \<noteq> p" "lease (syPc S q) = Some ow" for q ow
      using other_lease [OF assms(1) that(1) _ c that(2)] assms(2) by simp
  qed (use c in auto)
  then show ?thesis by auto
qed

lemma step_renew:
  assumes "lock_inv h l S c dead" and "inj h" and "\<forall>b. h b \<noteq> []" and "syPc S p = Holding hl"
    and "renew (memory_ops h) l (syClock S) hl (syStore S) = (r, s')"
  shows "\<exists>c' dead'. lock_inv h l (goto p (case r of Inr hl' \<Rightarrow> Holding hl' | Inl _ \<Rightarrow> Idle) s' S) c' dead'"
proof -
  note I = inv_facts [OF assms(1)]
  let ?ow = "hOwner hl" and ?new = "(hOwner hl)\<lparr>owExpiresAt := syClock S + lock_ttl l\<rparr>"
  have own: "mine (syClock S) (syUsed S) c ?ow" "hETag hl = h (owner_body ?ow)" using I(3) [of p] assms(4) by auto
  have lost: "\<exists>c' dead'. lock_inv h l (goto p Idle s' S) c' dead'" if "s' = syStore S"
    using inv_local [OF assms(1), of s' Idle p] that by auto
  show ?thesis
  proof (cases "Owner_Marshal ?new")
    case (Inl x)
    then have "r = Inl x" "s' = syStore S" using assms(5) by (auto simp: renew_def)
    then show ?thesis using lost by simp
  next
    case (Inr b)
    have ok: "owner_ok ?new" using own(1) Inr by (auto simp: mine_def owner_ok_def Owner_Marshal_def split: if_splits)
    then have b: "b = owner_body ?new" using owner_roundtrip(1) Inr by simp
    have cok: "\<And>y. c = Some y \<Longrightarrow> owner_ok y" using I(2) by (simp add: current_ok_def)
    obtain info w t where put: "sPutIfMatch (memory_ops h) (lkKey l) (owner_body ?new) (hETag hl) (syStore S) = (Inr (info, w), t)"
      using mem_match_no_error by (metis obj_sumE prod.exhaust)
    have "owner_ok ?ow" using own(1) by (simp add: mine_def)
    note M = match_view [OF put I(1) assms(2,3) own(2) this cok]
    show ?thesis
    proof (cases w)
      case False
      then have "r = Inl (ErrText ''another process holds it now'')" "s' = syStore S"
        using M assms(5) Inr b put by (auto simp: renew_def)
      then show ?thesis using lost by simp
    next
      case True
      then have c: "c = Some ?ow" "oETag info = h (owner_body ?new)" "mem_view t (lkKey l) = locked_by h (Some ?new)"
        using M by (auto simp: locked_by_def)
      let ?x = "Holding (hl\<lparr>hOwner := ?new, hETag := oETag info\<rparr>)"
      let ?dead = "if ?new = ?ow then dead else insert ?ow dead"
      have later: "owExpiresAt ?ow \<le> syClock S + lock_ttl l" using I(2) c(1) by (simp add: current_ok_def)
      have strict: "?new \<noteq> ?ow \<Longrightarrow> owExpiresAt ?ow < syClock S + lock_ttl l"
        using later by (metis Owner.surjective Owner.update_convs(7) order_less_le)
      have "lock_inv h l ((goto p ?x t S)\<lparr>syUsed := syUsed S\<rparr>) (Some ?new) ?dead"
      proof (rule inv_write [OF assms(1) c(3)])
        show "current_ok (syClock S) (lock_ttl l) (syUsed S) (Some ?new) ?dead"
          using I(2) c(1) ok strict later by (fastforce simp: current_ok_def)
        show "pc_ok h (syClock S) (lock_ttl l) (syUsed S) (Some ?new) ?dead ?x"
          using ok own(1) c(2) by (simp add: mine_def)
        show "c \<noteq> Some ow" if "q \<noteq> p" "lease (syPc S q) = Some ow" for q ow
          using other_lease [OF assms(1) that(1) _ c(1) that(2)] assms(4) by simp
        show "owID a \<noteq> owID b" if "pc_owner ?x = Some a" "q \<noteq> p" "pc_owner (syPc S q) = Some b" for a q b
          using that I(5) [of p q ?ow b] assms(4) by auto
      qed (use c(1) in auto)
      moreover have "r = Inr (hl\<lparr>hOwner := ?new, hETag := oETag info\<rparr>)" "s' = t"
        using assms(5) Inr b put True by (auto simp: renew_def Let_def)
      ultimately show ?thesis by auto
    qed
  qed
qed

lemma lock_step_inv:
  assumes "lock_step True h l cl target kind S S'" and "inj h" and "\<forall>b. h b \<noteq> []" and "lock_inv h l S c dead"
  shows "\<exists>c' dead'. lock_inv h l S' c' dead'"
  using assms(1)
proof cases
  case (tick t)
  have "lock_inv h l (S\<lparr>syClock := t\<rparr>) c dead"
    using assms(4) current_ok_later [OF _ tick(2) order_refl] pc_ok_later [OF _ tick(2) order_refl]
    by (simp add: lock_inv_def)
  then show ?thesis using tick(1) by blast
next
  case (crash p)
  have "lock_inv h l (goto p Idle (syStore S) S) c dead" by (rule inv_local [OF assms(4)]) auto
  then show ?thesis using crash by blast
next
  case (create p i ow created s')
  show ?thesis unfolding create(1) by (rule step_create [where cl = cl, OF assms(4) create(2-6)])
next
  case (head p t ow r s')
  show ?thesis unfolding head(1) using step_head [OF assms(4) head(2,3)] by blast
next
  case (body p t ow e r s')
  show ?thesis unfolding body(1) using step_body [OF assms(4) body(2,3)] by blast
next
  case (take p t ow e info written s')
  show ?thesis unfolding take(1) by (rule step_take [OF assms(4,2,3) take(2,3)])
next
  case (readback p ow r s')
  show ?thesis unfolding readback(1) using step_readback [OF assms(4) readback(2) _ readback(4)] readback(3) by blast
next
  case (renewal p hl r s')
  show ?thesis unfolding renewal(1) by (rule step_renew [OF assms(4,2,3) renewal(2,3)])
next
  case (release p hl r s')
  show ?thesis unfolding release(1) using step_release [OF assms(4) release(2,3)] by blast
next
  case (delete p hl r s')
  show ?thesis unfolding delete(1) using step_delete [OF assms(4) delete(2) _ delete(4)] delete(3) by blast
qed

lemma lock_run_inv:
  assumes "lock_run True h l cl target kind S S'" and "inj h" and "\<forall>b. h b \<noteq> []" and "\<exists>c dead. lock_inv h l S c dead"
  shows "\<exists>c dead. lock_inv h l S' c dead"
  using assms by (induction rule: lock_run.induct) (blast intro: lock_step_inv)+

lemma lock_init_inv: "lock_inv h l (lock_init t) None {}"
  by (simp add: lock_inv_def lock_init_def mem_view_def memory_New_def locked_by_def current_ok_def apart_ids_def)

text \<open>C2: Mutual exclusion. However any number of processes interleave their calls, the clock moves
  and processes die, two of them never both hold a lease that has not run out, as long as
  each reads its etag back and sends its delete before its own lease ends. For a store whose
  etags tell contents apart, and fresh owner ids.\<close>

theorem lock_mutual_exclusion:
  assumes "inj h" and "\<forall>b. h b \<noteq> []" and "lock_run True h l cl target kind (lock_init t) S"
    and "live S p" and "live S q"
  shows "p = q"
proof (rule ccontr)
  assume "p \<noteq> q"
  obtain c dead where I: "lock_inv h l S c dead"
    using lock_run_inv [OF assms(3,1,2)] lock_init_inv by blast
  obtain a where a: "lease (syPc S p) = Some a" "syClock S < owExpiresAt a"
    using assms(4) by (auto simp: live_def split: option.splits)
  obtain b where b: "lease (syPc S q) = Some b" "syClock S < owExpiresAt b"
    using assms(5) by (auto simp: live_def split: option.splits)
  have "c = Some ow" if "lease (syPc S r) = Some ow" "syClock S < owExpiresAt ow" for r ow
    using inv_facts(3) [OF I, of r] that by (cases "syPc S r") (auto simp: mine_def)
  then have "a = b" using a b by (metis option.inject)
  then show False
    using inv_facts(5) [OF I \<open>p \<noteq> q\<close>] lease_owner [OF a(1)] lease_owner [OF b(1)] by blast
qed

section \<open>What goes wrong late\<close>

text \<open>A configuration after a run from the start, seen at the lock object only.\<close>

definition reaches ::
  "(string \<Rightarrow> string) \<Rightarrow> Locker \<Rightarrow> (nat \<Rightarrow> Caller) \<Rightarrow> string \<Rightarrow> string \<Rightarrow> time \<Rightarrow> (nat \<Rightarrow> pc) \<Rightarrow> string set \<Rightarrow> Owner option \<Rightarrow> bool" where
  "reaches h l cl target kind t pcs used c \<longleftrightarrow> (\<exists>S. lock_run False h l cl target kind (lock_init 0) S \<and>
     syClock S = t \<and> syPc S = pcs \<and> syUsed S = used \<and> mem_view (syStore S) (lkKey l) = locked_by h c)"

lemma reachesE:
  assumes "reaches h l cl target kind t pcs used c"
  obtains S where "lock_run False h l cl target kind (lock_init 0) S" "syClock S = t" "syPc S = pcs" "syUsed S = used"
    "mem_view (syStore S) (lkKey l) = locked_by h c"
  using assms unfolding reaches_def by blast

lemma reaches_step:
  assumes "lock_run False h l cl target kind (lock_init 0) S" and "lock_step False h l cl target kind S S'"
    and "mem_view (syStore S') (lkKey l) = locked_by h c"
  shows "reaches h l cl target kind (syClock S') (syPc S') (syUsed S') c"
  using assms run_step unfolding reaches_def by blast

lemma reaches_init: "reaches h l cl target kind 0 (\<lambda>_. Idle) {} None"
proof -
  have "mem_view (syStore (lock_init 0)) (lkKey l) = locked_by h None"
    using lock_init_inv [of h l 0] by (simp add: lock_inv_def)
  moreover have "syClock (lock_init 0) = 0" "syPc (lock_init 0) = (\<lambda>_. Idle)" "syUsed (lock_init 0) = {}"
    by (simp_all add: lock_init_def)
  ultimately show ?thesis unfolding reaches_def using run_refl by blast
qed

lemma reaches_tick: "reaches h l cl target kind t pcs used c \<Longrightarrow> t \<le> t' \<Longrightarrow> reaches h l cl target kind t' pcs used c"
  by (erule reachesE) (use reaches_step [OF _ tick] in fastforce)

lemma reaches_create:
  assumes "reaches h l cl target kind t pcs used c" and "pcs p = Idle" and "i \<notin> used"
    and "owner_ok (new_owner l (cl p) i t target kind)"
  shows "reaches h l cl target kind t
    (pcs(p := case c of None \<Rightarrow> Created (new_owner l (cl p) i t target kind)
              | Some _ \<Rightarrow> Refused t (new_owner l (cl p) i t target kind)))
    (insert i used) (case c of None \<Rightarrow> Some (new_owner l (cl p) i t target kind) | Some x \<Rightarrow> Some x)"
proof -
  let ?ow = "new_owner l (cl p) i t target kind"
  obtain S where S: "lock_run False h l cl target kind (lock_init 0) S" "syClock S = t" "syPc S = pcs" "syUsed S = used"
    "mem_view (syStore S) (lkKey l) = locked_by h c" using assms(1) by (rule reachesE)
  obtain created s' where put: "sPutIfAbsent (memory_ops h) (lkKey l) (owner_body ?ow) (syStore S) = (Inr created, s')"
    "created \<longleftrightarrow> c = None" "mem_view s' (lkKey l) = locked_by h (case c of None \<Rightarrow> Some ?ow | Some x \<Rightarrow> Some x)"
  proof (cases c)
    case None
    then have "mem_view (syStore S) (lkKey l) = None" using S(5) by (simp add: locked_by_def)
    from mem.absent_free [OF this, of h "owner_body ?ow"] show thesis using that None by (auto simp: locked_by_def)
  next
    case (Some x)
    then have "mem_view (syStore S) (lkKey l) = Some (owner_body x, h (owner_body x))" using S(5) by (simp add: locked_by_def)
    from mem.absent_taken [OF this, of h "owner_body ?ow"] show thesis using that Some S(5) by auto
  qed
  have "lock_step False h l cl target kind S
      ((goto p (if created then Created ?ow else Refused (syClock S) ?ow) s' S)\<lparr>syUsed := insert i (syUsed S)\<rparr>)"
    by (rule create [OF _ _ _ _ put(1)]) (use assms S in auto)
  from reaches_step [OF S(1) this] show ?thesis
    using put(2,3) S(2-4) by (auto simp: goto_def split: option.splits)
qed

lemma reaches_see:
  assumes "reaches h l cl target kind t pcs used (Some x)" and "pcs p = Refused t0 ow" and "owner_ok x" and "owExpiresAt x \<le> t0"
  shows "reaches h l cl target kind t (pcs(p := Taking t0 ow (h (owner_body x)))) used (Some x)"
proof -
  obtain S where S: "lock_run False h l cl target kind (lock_init 0) S" "syClock S = t" "syPc S = pcs" "syUsed S = used"
    "mem_view (syStore S) (lkKey l) = Some (owner_body x, h (owner_body x))"
    using assms(1) by (auto simp: locked_by_def elim: reachesE)
  obtain info where hd: "sHead (memory_ops h) (lkKey l) (syStore S) = (Inr info, syStore S)" "oETag info = h (owner_body x)"
    using mem.head_hit [OF S(5)] by blast
  let ?S1 = "goto p (Saw t0 ow (h (owner_body x))) (syStore S) S"
  have "syPc S p = Refused t0 ow" using S(3) assms(2) by simp
  from head [OF this hd(1)] have r1: "lock_run False h l cl target kind (lock_init 0) ?S1"
    using hd(2) run_step [OF S(1)] by fastforce
  have p1: "syPc ?S1 p = Saw t0 ow (h (owner_body x))" by (simp add: goto_def)
  have g: "sGet (memory_ops h) (lkKey l) (syStore ?S1) = (Inr (owner_body x), syStore S)"
    using mem.get_hit [OF S(5)] by (simp add: goto_def)
  have "lock_step False h l cl target kind ?S1 (goto p (Taking t0 ow (h (owner_body x))) (syStore S) ?S1)"
    using body [OF p1 g] owner_roundtrip(2) [OF assms(3)] assms(4) by (simp add: Owner_Expired_def)
  from reaches_step [OF r1 this] show ?thesis using S by (auto simp: goto_def locked_by_def)
qed

lemma reaches_take:
  assumes "reaches h l cl target kind t pcs used (Some x)" and "pcs p = Taking t0 ow (h (owner_body x))"
  shows "reaches h l cl target kind t
    (pcs(p := Holding \<lparr>hOwner = ow, hETag = h (owner_body ow), hReleased = False\<rparr>)) used (Some ow)"
proof -
  obtain S where S: "lock_run False h l cl target kind (lock_init 0) S" "syClock S = t" "syPc S = pcs" "syUsed S = used"
    "mem_view (syStore S) (lkKey l) = Some (owner_body x, h (owner_body x))"
    using assms(1) by (auto simp: locked_by_def elim: reachesE)
  obtain info s' where put: "sPutIfMatch (memory_ops h) (lkKey l) (owner_body ow) (h (owner_body x)) (syStore S) = (Inr (info, True), s')"
    "oETag info = h (owner_body ow)" "mem_view s' = (mem_view (syStore S))(lkKey l \<mapsto> (owner_body ow, h (owner_body ow)))"
    using mem.match_hit [of "syStore S" "lkKey l" "owner_body x" "h (owner_body x)" h "owner_body ow"] S(5) by blast
  have "syPc S p = Taking t0 ow (h (owner_body x))" using S(3) assms(2) by simp
  from take [OF this put(1)] reaches_step [OF S(1)] show ?thesis
    using put(2,3) S(2-4) by (fastforce simp: goto_def locked_by_def)
qed

lemma reaches_release:
  assumes "reaches h l cl target kind t pcs used (Some ow)" and "pcs p = Created ow"
  shows "reaches h l cl target kind t
    (pcs(p := Deleting \<lparr>hOwner = ow, hETag = h (owner_body ow), hReleased = False\<rparr>)) used (Some ow)"
proof -
  let ?hl = "\<lparr>hOwner = ow, hETag = h (owner_body ow), hReleased = False\<rparr>"
  obtain S where S: "lock_run False h l cl target kind (lock_init 0) S" "syClock S = t" "syPc S = pcs" "syUsed S = used"
    "mem_view (syStore S) (lkKey l) = Some (owner_body ow, h (owner_body ow))"
    using assms(1) by (auto simp: locked_by_def elim: reachesE)
  obtain info where hd: "sHead (memory_ops h) (lkKey l) (syStore S) = (Inr info, syStore S)" "oETag info = h (owner_body ow)"
    using mem.head_hit [OF S(5)] by blast
  let ?S1 = "goto p (Holding ?hl) (syStore S) S"
  have "syPc S p = Created ow" using S(3) assms(2) by simp
  from readback [OF this _ hd(1), of False] have r1: "lock_run False h l cl target kind (lock_init 0) ?S1"
    using hd(2) run_step [OF S(1)] by fastforce
  have p1: "syPc ?S1 p = Holding ?hl" and h1: "sHead (memory_ops h) (lkKey l) (syStore ?S1) = (Inr info, syStore S)"
    using hd(1) by (simp_all add: goto_def)
  have "lock_step False h l cl target kind ?S1 (goto p (Deleting ?hl) (syStore S) ?S1)"
    using release [OF p1 h1] hd(2) by simp
  from reaches_step [OF r1 this] show ?thesis using S by (auto simp: goto_def locked_by_def)
qed

lemma reaches_delete:
  assumes "reaches h l cl target kind t pcs used c" and "pcs p = Deleting hl"
  shows "reaches h l cl target kind t (pcs(p := Idle)) used None"
proof -
  obtain S where S: "lock_run False h l cl target kind (lock_init 0) S" "syClock S = t" "syPc S = pcs" "syUsed S = used"
    using assms(1) by (auto elim: reachesE)
  obtain s' where del: "sDelete (memory_ops h) [lkKey l] (syStore S) = (Inr (), s')" "mem_view s' (lkKey l) = None"
    using mem.delete [where ks = "[lkKey l]" and s = "syStore S"] by auto
  have "syPc S p = Deleting hl" using S(3) assms(2) by simp
  from delete [OF this _ del(1), of False] reaches_step [OF S(1)] show ?thesis
    using del(2) S(2-4) by (fastforce simp: goto_def locked_by_def)
qed

definition demo_locker :: Locker where
  "demo_locker = \<lparr>lkKey = ''_locks/app.lock'', lkTTL = 0\<rparr>"

definition demo_caller :: "nat \<Rightarrow> Caller" where
  "demo_caller p = \<lparr>clHost = ''db'', clPID = int p, clVersion = ''1''\<rparr>"

definition demo_owner :: "nat \<Rightarrow> string \<Rightarrow> time \<Rightarrow> Owner" where
  "demo_owner p i t = new_owner demo_locker (demo_caller p) i t ''app'' ''backup''"

lemma demo_owner_ok:
  "owner_ok (demo_owner 0 ''a'' 0)" "owner_ok (demo_owner 1 ''b'' DefaultTTL)" "owner_ok (demo_owner 2 ''c'' DefaultTTL)"
  by code_simp+

lemma demo_owner_expires: "owExpiresAt (demo_owner p i t) = t + DefaultTTL"
  by (simp add: demo_owner_def new_owner_def demo_locker_def lock_ttl_def)

lemma reaches_demo_create:
  assumes "reaches h demo_locker demo_caller ''app'' ''backup'' t pcs used c" and "pcs p = Idle" and "i \<notin> used"
    and "owner_ok (demo_owner p i t)"
  shows "reaches h demo_locker demo_caller ''app'' ''backup'' t
    (pcs(p := case c of None \<Rightarrow> Created (demo_owner p i t) | Some _ \<Rightarrow> Refused t (demo_owner p i t)))
    (insert i used) (case c of None \<Rightarrow> Some (demo_owner p i t) | Some x \<Rightarrow> Some x)"
  using assms unfolding demo_owner_def by (intro reaches_create)

text \<open>C21: The premise of mutual exclusion is needed: \<open>Release\<close> checks the etag with one call and deletes
  with another, and a holder whose lease ends in between deletes the lock of the process that
  took it over. Two other processes then hold leases that have not run out.\<close>

theorem late_release_breaks_exclusion:
  "\<exists>S. lock_run False h demo_locker demo_caller ''app'' ''backup'' (lock_init 0) S \<and> live S 1 \<and> live S 2"
proof -
  let ?R = "reaches h demo_locker demo_caller ''app'' ''backup''" and ?T = DefaultTTL
  let ?a = "demo_owner 0 ''a'' 0" and ?b = "demo_owner 1 ''b'' DefaultTTL" and ?c = "demo_owner 2 ''c'' DefaultTTL"
  let ?hl = "\<lambda>ow. \<lparr>hOwner = ow, hETag = h (owner_body ow), hReleased = False\<rparr>"
  have ttl: "0 < ?T" by (simp add: DefaultTTL_def Minute_def)
  have "?R 0 ((\<lambda>_. Idle)(0 := Created ?a)) {''a''} (Some ?a)"
    using reaches_demo_create [OF reaches_init, where p = 0 and i = "''a''"] demo_owner_ok(1) by simp
  then have "?R 0 ((\<lambda>_. Idle)(0 := Deleting (?hl ?a))) {''a''} (Some ?a)"
    using reaches_release [where p = 0] by fastforce
  then have "?R ?T ((\<lambda>_. Idle)(0 := Deleting (?hl ?a))) {''a''} (Some ?a)" by (rule reaches_tick) (use ttl in simp)
  then have "?R ?T ((\<lambda>_. Idle)(0 := Deleting (?hl ?a), 1 := Refused ?T ?b)) {''b'', ''a''} (Some ?a)"
    using reaches_demo_create [where p = 1 and i = "''b''"] demo_owner_ok(2) by fastforce
  then have "?R ?T ((\<lambda>_. Idle)(0 := Deleting (?hl ?a), 1 := Taking ?T ?b (h (owner_body ?a)))) {''b'', ''a''} (Some ?a)"
    using reaches_see [where p = 1 and ow = ?b and ?t0.0 = ?T] demo_owner_ok(1) demo_owner_expires [of 0 "''a''" 0] by fastforce
  then have "?R ?T ((\<lambda>_. Idle)(0 := Deleting (?hl ?a), 1 := Holding (?hl ?b))) {''b'', ''a''} (Some ?b)"
    using reaches_take [where p = 1 and ow = ?b and ?t0.0 = ?T] by fastforce
  then have "?R ?T (((\<lambda>_. Idle)(0 := Deleting (?hl ?a), 1 := Holding (?hl ?b)))(0 := Idle)) {''b'', ''a''} None"
    by (rule reaches_delete [where p = 0]) simp
  from reaches_demo_create [OF this, where p = 2 and i = "''c''"] demo_owner_ok(3)
  have "?R ?T ((((\<lambda>_. Idle)(0 := Deleting (?hl ?a), 1 := Holding (?hl ?b)))(0 := Idle))(2 := Created ?c))
      {''c'', ''b'', ''a''} (Some ?c)" by simp
  then obtain S where S: "lock_run False h demo_locker demo_caller ''app'' ''backup'' (lock_init 0) S" "syClock S = ?T"
    "syPc S = (((\<lambda>_. Idle)(0 := Deleting (?hl ?a), 1 := Holding (?hl ?b)))(0 := Idle))(2 := Created ?c)"
    by (rule reachesE)
  have "live S 1" "live S 2" using S(2,3) demo_owner_expires ttl by (simp_all add: live_def)
  then show ?thesis using S(1) by blast
qed

section \<open>Examples\<close>

lemma demo_hash_facts: "inj demo_hash" "\<forall>b. demo_hash b \<noteq> []"
  by (auto simp: inj_def demo_hash_def)

definition held_store :: "Owner \<Rightarrow> memory" where
  "held_store ow = snd (memory_write demo_hash (lkKey demo_locker) (owner_body ow) (memory_New 0))"

lemma held_store_view: "mem_view (held_store ow) (lkKey demo_locker) = locked_by demo_hash (Some ow)"
  by (simp add: held_store_def mem_view_write locked_by_def)

theorem acquire_lease_witness:
  "Acquire (memory_ops demo_hash) demo_locker (demo_caller 1) (\<lambda>_. ''b'') (\<lambda>_. 1) ''app'' ''backup'' (held_store (demo_owner 0 ''a'' 0))
     = (Inl (ErrLocked ''_locks/app.lock'' (demo_owner 0 ''a'' 0)), held_store (demo_owner 0 ''a'' 0)) \<and>
   (\<exists>held s'. Acquire (memory_ops demo_hash) demo_locker (demo_caller 1) (\<lambda>_. ''b'') (\<lambda>_. DefaultTTL) ''app'' ''backup''
       (held_store (demo_owner 0 ''a'' 0)) = (Inr held, s') \<and> hOwner held = demo_owner 1 ''b'' DefaultTTL)"
proof -
  let ?a = "demo_owner 0 ''a'' 0"
  have ok: "\<forall>cur. Some ?a = Some cur \<longrightarrow> owner_ok cur" using demo_owner_ok(1) by simp
  have new: "owner_ok (new_owner demo_locker (demo_caller 1) ''b'' 1 ''app'' ''backup'')" by code_simp
  have new': "owner_ok (new_owner demo_locker (demo_caller 1) ''b'' DefaultTTL ''app'' ''backup'')"
    using demo_owner_ok(2) by (simp add: demo_owner_def)
  have early: "1 < owExpiresAt ?a" and late: "\<not> DefaultTTL < owExpiresAt ?a"
    by (simp_all add: demo_owner_expires DefaultTTL_def Minute_def)
  from acquire_lease [where ids = "\<lambda>_. ''b''" and clock = "\<lambda>_. 1", OF new demo_hash_facts(2) held_store_view ok] early
  have "Acquire (memory_ops demo_hash) demo_locker (demo_caller 1) (\<lambda>_. ''b'') (\<lambda>_. 1) ''app'' ''backup'' (held_store ?a)
     = (Inl (ErrLocked ''_locks/app.lock'' ?a), held_store ?a)" by (simp add: demo_locker_def)
  moreover from acquire_lease [where ids = "\<lambda>_. ''b''" and clock = "\<lambda>_. DefaultTTL",
      OF new' demo_hash_facts(2) held_store_view ok] late
  have "\<exists>held s'. Acquire (memory_ops demo_hash) demo_locker (demo_caller 1) (\<lambda>_. ''b'') (\<lambda>_. DefaultTTL) ''app'' ''backup''
       (held_store ?a) = (Inr held, s') \<and> hOwner held = demo_owner 1 ''b'' DefaultTTL"
    unfolding demo_owner_def by auto
  ultimately show ?thesis by blast
qed

theorem lost_lock_left_alone_witness:
  "Release (memory_ops demo_hash) demo_locker
     \<lparr>hOwner = demo_owner 0 ''a'' 0, hETag = demo_hash (owner_body (demo_owner 0 ''a'' 0)), hReleased = False\<rparr>
     (held_store (demo_owner 1 ''b'' DefaultTTL))
   = (None, \<lparr>hOwner = demo_owner 0 ''a'' 0, hETag = demo_hash (owner_body (demo_owner 0 ''a'' 0)), hReleased = True\<rparr>,
      held_store (demo_owner 1 ''b'' DefaultTTL))"
proof -
  let ?held = "\<lparr>hOwner = demo_owner 0 ''a'' 0, hETag = demo_hash (owner_body (demo_owner 0 ''a'' 0)), hReleased = False\<rparr>"
  have ne: "Some (demo_owner 1 ''b'' DefaultTTL) \<noteq> Some (hOwner ?held)" by (simp add: demo_owner_def new_owner_def)
  have "json_time_ok (0 + lock_ttl demo_locker)" by code_simp
  with lost_lock_left_alone [OF held_store_view ne _ _ demo_hash_facts, where now = 0] demo_owner_ok(1,2)
  have "Release (memory_ops demo_hash) demo_locker ?held (held_store (demo_owner 1 ''b'' DefaultTTL))
      = (None, ?held\<lparr>hReleased := True\<rparr>, held_store (demo_owner 1 ''b'' DefaultTTL))" by simp
  then show ?thesis by simp
qed

theorem lock_mutual_exclusion_witness:
  "\<exists>S. lock_run True demo_hash demo_locker demo_caller ''app'' ''backup'' (lock_init 0) S \<and> live S 0 \<and>
     (\<forall>p. live S p \<longrightarrow> p = 0)"
proof -
  have v: "mem_view (syStore (lock_init 0)) (lkKey demo_locker) = None"
    by (simp add: lock_init_def memory_New_def mem_view_def)
  obtain s' where put: "sPutIfAbsent (memory_ops demo_hash) (lkKey demo_locker) (owner_body (demo_owner 0 ''a'' 0)) (syStore (lock_init 0))
      = (Inr True, s')" using mem.absent_free [OF v] by blast
  let ?S = "(goto 0 (Created (demo_owner 0 ''a'' 0)) s' (lock_init 0))\<lparr>syUsed := insert ''a'' (syUsed (lock_init 0))\<rparr>"
  have "lock_step True demo_hash demo_locker demo_caller ''app'' ''backup'' (lock_init 0) ?S"
    using create [where S = "lock_init 0" and p = 0 and i = "''a''" and cl = demo_caller, OF _ _ _ demo_owner_ok(1) put]
    by (simp add: lock_init_def demo_owner_def)
  then have run: "lock_run True demo_hash demo_locker demo_caller ''app'' ''backup'' (lock_init 0) ?S"
    by (rule run_step [OF run_refl])
  moreover have "live ?S 0"
    by (simp add: live_def goto_def lock_init_def demo_owner_expires DefaultTTL_def Minute_def)
  ultimately show ?thesis using lock_mutual_exclusion [OF demo_hash_facts run] by blast
qed

end
