(* ===== verification/Pipeline.thy ===== *)
theory Pipeline
  imports Core
begin

text \<open>
  The stages of \<open>internal/pipeline\<close>: compress, then encrypt, on the way out; decrypt, then
  decompress, on the way in; how a manifest records the stages and how they are rebuilt from
  it; and \<open>Run\<close>, which drives a producer and a consumer over a pipe. The compressors and
  \<open>age\<close> are libraries outside the repository: a record of functions, with what is relied on
  stated as \<open>codecs_ok\<close>.
\<close>

section \<open>The specification of a stream\<close>

type_synonym Algo = string
type_synonym Mode = string

definition AlgoZstd :: Algo where "AlgoZstd = ''zstd''"
definition AlgoGzip :: Algo where "AlgoGzip = ''gzip''"
definition AlgoNone :: Algo where "AlgoNone = ''none''"
definition ModeAge :: Mode where "ModeAge = ''age''"
definition ModePassphrase :: Mode where "ModePassphrase = ''passphrase''"
definition ModeNone :: Mode where "ModeNone = ''none''"

lemmas stage_defs = AlgoZstd_def AlgoGzip_def AlgoNone_def ModeAge_def ModePassphrase_def ModeNone_def

record Compression =
  cAlgo :: Algo
  cLevel :: int
  cLong :: bool

record Encryption =
  enMode :: Mode
  enRecipients :: "string list"
  enPassphrase :: string

record PipeSpec =
  psCompression :: Compression
  psEncryption :: Encryption

definition zero_PipeSpec :: PipeSpec where
  "zero_PipeSpec = \<lparr>psCompression = \<lparr>cAlgo = [], cLevel = 0, cLong = False\<rparr>,
     psEncryption = \<lparr>enMode = [], enRecipients = [], enPassphrase = []\<rparr>\<rparr>"

definition Compression_String :: "Compression \<Rightarrow> string" where
  "Compression_String c =
     (if cAlgo c = AlgoNone \<or> cAlgo c = [] then AlgoNone else cAlgo c @ '':'' @ Itoa (cLevel c))"

definition Encryption_String :: "Encryption \<Rightarrow> string" where
  "Encryption_String e =
     (if enMode e = ModeAge then ''age:x25519''
      else if enMode e = ModePassphrase then ''age:scrypt''
      else ModeNone)"

section \<open>Libraries\<close>

text \<open>
  \<open>zstd\<close> and \<open>gzip\<close>: whether a writer can be made for a level, what it does to a whole
  stream, and reading it back. \<open>age\<close>: parsing recipients, deriving the pair of a passphrase,
  encrypting for recipients and decrypting with identities. \<open>coClose\<close> is what finishing the
  writers reports.
\<close>

record codecs =
  coNewWriter :: "Algo \<Rightarrow> int \<Rightarrow> bool \<Rightarrow> err option"
  coCompress :: "Algo \<Rightarrow> int \<Rightarrow> bool \<Rightarrow> string \<Rightarrow> string"
  coDecompress :: "Algo \<Rightarrow> string \<Rightarrow> string result"
  coParseRecipient :: "string \<Rightarrow> string result"
  coScryptRecipient :: "string \<Rightarrow> string result"
  coScryptIdentity :: "string \<Rightarrow> string result"
  coNewEncrypt :: "string list \<Rightarrow> err option"
  coEncrypt :: "string list \<Rightarrow> string \<Rightarrow> string"
  coDecrypt :: "string list \<Rightarrow> string \<Rightarrow> string result"
  coClose :: "err option"

definition defaultZstdLevel :: int where "defaultZstdLevel = 3"
definition defaultGzipLevel :: int where "defaultGzipLevel = -1"

fun recipients_of :: "codecs \<Rightarrow> string list \<Rightarrow> string list result" where
  "recipients_of cod [] = Inr []"
| "recipients_of cod (raw # raws) =
     (case coParseRecipient cod raw of
        Inl err \<Rightarrow> Inl (ErrWrap (''age recipient '' @ fmt_q raw) err)
      | Inr r \<Rightarrow> (case recipients_of cod raws of Inl err \<Rightarrow> Inl err | Inr rs \<Rightarrow> Inr (r # rs)))"

definition PipeSpec_Validate :: "codecs \<Rightarrow> PipeSpec \<Rightarrow> err option" where
  "PipeSpec_Validate cod s =
     (let algo = cAlgo (psCompression s); en = psEncryption s in
      if algo \<noteq> AlgoZstd \<and> algo \<noteq> AlgoGzip \<and> algo \<noteq> AlgoNone \<and> algo \<noteq> []
      then Some (ErrText (''unknown compression algorithm '' @ fmt_q algo))
      else if enMode en = ModeNone \<or> enMode en = [] then None
      else if enMode en = ModeAge then
        (if enRecipients en = [] then Some (ErrText ''age encryption needs at least one recipient'')
         else case recipients_of cod (enRecipients en) of Inl err \<Rightarrow> Some err | Inr _ \<Rightarrow> None)
      else if enMode en = ModePassphrase then
        (if enPassphrase en = [] then Some (ErrText ''passphrase encryption needs a passphrase'') else None)
      else Some (ErrText (''unknown encryption mode '' @ fmt_q (enMode en))))"

section \<open>Out and in\<close>

text \<open>A writer of a stage is what it does to the whole stream that passes through it.\<close>

definition compressWriter :: "codecs \<Rightarrow> PipeSpec \<Rightarrow> (string \<Rightarrow> string) result" where
  "compressWriter cod s =
     (let c = psCompression s in
      if cAlgo c = AlgoNone \<or> cAlgo c = [] then Inr (\<lambda>x. x)
      else if cAlgo c = AlgoZstd then
        (let level = (if cLevel c = 0 then defaultZstdLevel else cLevel c) in
         case coNewWriter cod AlgoZstd level (cLong c) of
           Some err \<Rightarrow> Inl (ErrWrap ''starting zstd compression'' err)
         | None \<Rightarrow> Inr (coCompress cod AlgoZstd level (cLong c)))
      else if cAlgo c = AlgoGzip then
        (let level = (if cLevel c = 0 then defaultGzipLevel else cLevel c) in
         case coNewWriter cod AlgoGzip level False of
           Some err \<Rightarrow> Inl (ErrWrap ''starting gzip compression'' err)
         | None \<Rightarrow> Inr (coCompress cod AlgoGzip level False))
      else Inl (ErrText (''unknown compression algorithm '' @ fmt_q (cAlgo c))))"

definition encrypt_to :: "codecs \<Rightarrow> string list \<Rightarrow> (string \<Rightarrow> string) result" where
  "encrypt_to cod rs =
     (case coNewEncrypt cod rs of
        Some err \<Rightarrow> Inl (ErrWrap ''starting age encryption'' err)
      | None \<Rightarrow> Inr (coEncrypt cod rs))"

definition encryptWriter :: "codecs \<Rightarrow> PipeSpec \<Rightarrow> (string \<Rightarrow> string) result" where
  "encryptWriter cod s =
     (let e = psEncryption s in
      if enMode e = ModeNone \<or> enMode e = [] then Inr (\<lambda>x. x)
      else if enMode e = ModeAge then
        (case recipients_of cod (enRecipients e) of Inl err \<Rightarrow> Inl err | Inr rs \<Rightarrow> encrypt_to cod rs)
      else if enMode e = ModePassphrase then
        (case coScryptRecipient cod (enPassphrase e) of
           Inl err \<Rightarrow> Inl (ErrWrap ''preparing passphrase encryption'' err)
         | Inr r \<Rightarrow> encrypt_to cod [r])
      else Inl (ErrText (''unknown encryption mode '' @ fmt_q (enMode e))))"

definition pipe_writer :: "codecs \<Rightarrow> PipeSpec \<Rightarrow> (string \<Rightarrow> string) result" where
  "pipe_writer cod s =
     (case encryptWriter cod s of
        Inl err \<Rightarrow> Inl err
      | Inr enc \<Rightarrow> (case compressWriter cod s of Inl err \<Rightarrow> Inl err | Inr cmp \<Rightarrow> Inr (\<lambda>x. enc (cmp x))))"

definition closeStages :: "codecs \<Rightarrow> err option" where
  "closeStages cod = map_option (ErrWrap ''finalizing the backup stream'') (coClose cod)"

definition decryptReader :: "codecs \<Rightarrow> PipeSpec \<Rightarrow> string list \<Rightarrow> string \<Rightarrow> string result" where
  "decryptReader cod s identities x =
     (let e = psEncryption s in
      if enMode e = ModeNone \<or> enMode e = [] then Inr x
      else if enMode e = ModeAge then
        (if identities = []
         then Inl (ErrText ''this backup is age-encrypted; the matching identity is required to read it'')
         else case coDecrypt cod identities x of
                Inl err \<Rightarrow> Inl (ErrWrap ''decrypting'' err) | Inr y \<Rightarrow> Inr y)
      else if enMode e = ModePassphrase then
        (case coScryptIdentity cod (enPassphrase e) of
           Inl err \<Rightarrow> Inl (ErrWrap ''preparing passphrase decryption'' err)
         | Inr i \<Rightarrow>
             (case coDecrypt cod [i] x of
                Inl err \<Rightarrow> Inl (ErrWrap ''decrypting'' err) | Inr y \<Rightarrow> Inr y))
      else Inl (ErrText (''unknown encryption mode '' @ fmt_q (enMode e))))"

definition decompressReader :: "codecs \<Rightarrow> PipeSpec \<Rightarrow> string \<Rightarrow> string result" where
  "decompressReader cod s x =
     (let algo = cAlgo (psCompression s) in
      if algo = AlgoNone \<or> algo = [] then Inr x
      else if algo = AlgoZstd then
        (case coDecompress cod AlgoZstd x of
           Inl err \<Rightarrow> Inl (ErrWrap ''reading zstd stream'' err) | Inr y \<Rightarrow> Inr y)
      else if algo = AlgoGzip then
        (case coDecompress cod AlgoGzip x of
           Inl err \<Rightarrow> Inl (ErrWrap ''reading gzip stream'' err) | Inr y \<Rightarrow> Inr y)
      else Inl (ErrText (''unknown compression algorithm '' @ fmt_q algo)))"

definition pipe_Reader :: "codecs \<Rightarrow> PipeSpec \<Rightarrow> string list \<Rightarrow> string \<Rightarrow> string result" where
  "pipe_Reader cod s identities x =
     (case decryptReader cod s identities x of Inl err \<Rightarrow> Inl err | Inr y \<Rightarrow> decompressReader cod s y)"

text \<open>\<open>ParseSpec\<close>: the stages a manifest recorded.\<close>

definition ParseSpec :: "string \<Rightarrow> string \<Rightarrow> PipeSpec result" where
  "ParseSpec compression encryption =
     (let (algo, level, _) = Cut compression '':'';
          cmp = (if algo = AlgoZstd \<or> algo = AlgoGzip then
                    (if level = [] then Inr \<lparr>cAlgo = algo, cLevel = 0, cLong = False\<rparr>
                     else case Atoi level of
                            None \<Rightarrow> Inl (ErrText (''manifest records compression '' @ fmt_q compression
                                    @ '', whose level is not a number''))
                          | Some n \<Rightarrow> Inr \<lparr>cAlgo = algo, cLevel = n, cLong = False\<rparr>)
                  else if algo = AlgoNone \<or> algo = [] then Inr \<lparr>cAlgo = AlgoNone, cLevel = 0, cLong = False\<rparr>
                  else Inl (ErrText (''manifest records compression '' @ fmt_q compression
                         @ '', which this build cannot read'')))
      in case cmp of
           Inl err \<Rightarrow> Inl err
         | Inr c \<Rightarrow>
             (let mode = (if encryption = ''age:x25519'' then Inr ModeAge
                          else if encryption = ''age:scrypt'' then Inr ModePassphrase
                          else if encryption = ModeNone \<or> encryption = [] then Inr ModeNone
                          else Inl (ErrText (''manifest records encryption '' @ fmt_q encryption
                                 @ '', which this build cannot read'')))
              in case mode of
                   Inl err \<Rightarrow> Inl err
                 | Inr m \<Rightarrow> Inr \<lparr>psCompression = c,
                     psEncryption = \<lparr>enMode = m, enRecipients = [], enPassphrase = []\<rparr>\<rparr>))"

section \<open>Running a stream\<close>

record Sum =
  suBytes :: int
  suSHA256 :: string

definition sum_of :: "(string \<Rightarrow> string) \<Rightarrow> string \<Rightarrow> Sum" where
  "sum_of sha x = \<lparr>suBytes = int (length x), suSHA256 = sha x\<rparr>"

record PipeResult =
  plaintextSum :: Sum
  ciphertextSum :: Sum

text \<open>
  A producer: the bytes it writes, the error it ends with on its own, and what it returns
  when a write fails because the reading side went away (\<open>None\<close> when it takes no notice).
\<close>

record producer =
  pdData :: string
  pdErr :: "err option"
  pdBroken :: "err \<Rightarrow> err option"

text \<open>
  Where the producing half stands when the reading side goes away: in the header, which \<open>age\<close>
  writes into the pipe while its writer is built; in the dump; in the last flush of the stages;
  or past its last write.
\<close>

datatype progress = AtHeader | AtDump | AtClose | AtEnd

definition encrypted :: "PipeSpec \<Rightarrow> bool" where
  "encrypted s \<longleftrightarrow> enMode (psEncryption s) \<noteq> ModeNone \<and> enMode (psEncryption s) \<noteq> []"

definition staged :: "PipeSpec \<Rightarrow> bool" where
  "staged s \<longleftrightarrow> encrypted s \<or> cAlgo (psCompression s) \<noteq> AlgoNone \<and> cAlgo (psCompression s) \<noteq> []"

text \<open>
  What the producing half then returns, and what the dump returned to it: the dump has not
  started when the header fails. A compressor writes nothing before its first input, and without
  stages there is nothing to flush.
\<close>

definition broken_by :: "PipeSpec \<Rightarrow> progress \<Rightarrow> producer \<Rightarrow> err \<Rightarrow> err option \<times> err option" where
  "broken_by spec at produce f =
     (let closing = (if staged spec then Some (ErrWrap ''finalizing the backup stream'' f) else None) in
      if at = AtHeader \<and> encrypted spec then (Some (ErrWrap ''starting age encryption'' f), None)
      else if at = AtHeader \<or> at = AtDump
      then (case pdBroken produce f of Some e \<Rightarrow> (Some e, Some e) | None \<Rightarrow> (closing, None))
      else if at = AtClose then (closing, None)
      else (None, None))"

text \<open>What a run leaves behind: its result, and what the dump and the consumer returned themselves.\<close>

record run_outcome =
  roResult :: "PipeResult result"
  roProduced :: "err option"
  roConsumed :: "err option"

text \<open>
  The two halves fail together: the error \<open>g.Wait\<close> reports is the one of whichever returned
  first, so \<open>race\<close> decides when both did.
\<close>

definition first_error :: "bool \<Rightarrow> err option \<Rightarrow> err option \<Rightarrow> err" where
  "first_error race p c =
     (case (p, c) of (Some e, Some f) \<Rightarrow> if race then e else f | (Some e, None) \<Rightarrow> e | (None, Some f) \<Rightarrow> f
      | (None, None) \<Rightarrow> ErrCanceled)"

definition both_fail :: "bool \<Rightarrow> err \<Rightarrow> err option \<Rightarrow> (string result \<Rightarrow> 's \<Rightarrow> err option \<times> 's) \<Rightarrow> 's \<Rightarrow> run_outcome \<times> 's" where
  "both_fail race err produced cons s =
     (case cons (Inl err) s of
        (cerr, s1) \<Rightarrow> (\<lparr>roResult = Inl (first_error race (Some err) cerr), roProduced = produced, roConsumed = cerr\<rparr>, s1))"

definition pipeline_Run ::
  "codecs \<Rightarrow> (string \<Rightarrow> string) \<Rightarrow> bool \<Rightarrow> progress \<Rightarrow> PipeSpec \<Rightarrow> producer \<Rightarrow> (string result \<Rightarrow> 's \<Rightarrow> err option \<times> 's) \<Rightarrow> 's
   \<Rightarrow> run_outcome \<times> 's" where
  "pipeline_Run cod sha race at spec produce consume s =
     (case PipeSpec_Validate cod spec of
        Some err \<Rightarrow> (\<lparr>roResult = Inl err, roProduced = None, roConsumed = None\<rparr>, s)
      | None \<Rightarrow>
          (case pipe_writer cod spec of
             Inl err \<Rightarrow> both_fail race err None consume s
           | Inr w \<Rightarrow>
               (case pdErr produce of
                  Some err \<Rightarrow> both_fail race err (Some err) consume s
                | None \<Rightarrow>
                    (case closeStages cod of
                       Some err \<Rightarrow> both_fail race err None consume s
                     | None \<Rightarrow>
                         (case consume (Inr (w (pdData produce))) s of
                            (None, s1) \<Rightarrow>
                              (\<lparr>roResult = Inr \<lparr>plaintextSum = sum_of sha (pdData produce),
                                  ciphertextSum = sum_of sha (w (pdData produce))\<rparr>,
                                roProduced = None, roConsumed = None\<rparr>, s1)
                          | (Some f, s1) \<Rightarrow>
                              (\<lparr>roResult = Inl (first_error race (fst (broken_by spec at produce f)) (Some f)),
                                roProduced = snd (broken_by spec at produce f), roConsumed = Some f\<rparr>, s1))))))"

section \<open>Round trips\<close>

text \<open>
  What is relied on of the libraries: decompression undoes compression at every level, and a
  stream encrypted for recipients opens with any list of identities that has the identity of
  one of them.
\<close>

definition codecs_ok :: "codecs \<Rightarrow> (string \<Rightarrow> string \<Rightarrow> bool) \<Rightarrow> bool" where
  "codecs_ok cod opens \<longleftrightarrow>
     (\<forall>a n lg x. coNewWriter cod a n lg = None \<longrightarrow> coDecompress cod a (coCompress cod a n lg x) = Inr x) \<and>
     (\<forall>rs ids x r i. coNewEncrypt cod rs = None \<and> r \<in> set rs \<and> i \<in> set ids \<and> opens i r \<longrightarrow>
        coDecrypt cod ids (coEncrypt cod rs x) = Inr x) \<and>
     (\<forall>p r. coScryptRecipient cod p = Inr r \<longrightarrow> (\<exists>i. coScryptIdentity cod p = Inr i \<and> opens i r))"

lemma recipients_of_set:
  "recipients_of cod raws = Inr rs \<Longrightarrow> raw \<in> set raws \<Longrightarrow> \<exists>r\<in>set rs. coParseRecipient cod raw = Inr r"
  by (induction raws arbitrary: rs) (auto split: sum.splits)

lemma compress_back:
  "codecs_ok cod opens \<Longrightarrow> compressWriter cod s = Inr cmp \<Longrightarrow> decompressReader cod s (cmp x) = Inr x"
  by (auto simp: compressWriter_def decompressReader_def codecs_ok_def Let_def split: if_splits option.splits)

lemma encrypt_to_back:
  assumes "codecs_ok cod opens" and "encrypt_to cod rs = Inr enc" and "r \<in> set rs" and "i \<in> set ids" and "opens i r"
  shows "coDecrypt cod ids (enc x) = Inr x"
proof -
  have "coNewEncrypt cod rs = None" "enc = coEncrypt cod rs"
    using assms(2) by (auto simp: encrypt_to_def split: option.splits)
  then show ?thesis using assms(1,3,4,5) unfolding codecs_ok_def by blast
qed

text \<open>The identities at hand open what is encrypted for the specification's recipients.\<close>

definition can_open :: "codecs \<Rightarrow> (string \<Rightarrow> string \<Rightarrow> bool) \<Rightarrow> PipeSpec \<Rightarrow> string list \<Rightarrow> bool" where
  "can_open cod opens s ids \<longleftrightarrow> (enMode (psEncryption s) = ModeAge \<longrightarrow>
     (\<exists>raw\<in>set (enRecipients (psEncryption s)). \<exists>r i. coParseRecipient cod raw = Inr r \<and> i \<in> set ids \<and> opens i r))"

lemma encrypt_back:
  assumes "codecs_ok cod opens" and "encryptWriter cod s = Inr enc" and "can_open cod opens s ids"
  shows "decryptReader cod s ids (enc x) = Inr x"
proof (cases "enMode (psEncryption s) = ModeAge")
  case True
  then obtain raw r i where r: "raw \<in> set (enRecipients (psEncryption s))" "coParseRecipient cod raw = Inr r" "i \<in> set ids" "opens i r"
    using assms(3) unfolding can_open_def by blast
  obtain rs where rs: "recipients_of cod (enRecipients (psEncryption s)) = Inr rs" "encrypt_to cod rs = Inr enc"
    using True assms(2) by (auto simp: encryptWriter_def Let_def stage_defs split: sum.splits)
  have "r \<in> set rs" using recipients_of_set [OF rs(1) r(1)] r(2) by auto
  from encrypt_to_back [OF assms(1) rs(2) this r(3,4)] show ?thesis
    using True r(3) by (auto simp: decryptReader_def Let_def stage_defs)
next
  case False
  show ?thesis
  proof (cases "enMode (psEncryption s) = ModePassphrase")
    case True
    then obtain r where r: "coScryptRecipient cod (enPassphrase (psEncryption s)) = Inr r" "encrypt_to cod [r] = Inr enc"
      using assms(2) by (auto simp: encryptWriter_def Let_def stage_defs split: sum.splits)
    then obtain i where i: "coScryptIdentity cod (enPassphrase (psEncryption s)) = Inr i" "opens i r"
      using assms(1) unfolding codecs_ok_def by blast
    from encrypt_to_back [OF assms(1) r(2), of r i "[i]"] i(2) have "coDecrypt cod [i] (enc x) = Inr x" by simp
    then show ?thesis using True i by (simp add: decryptReader_def Let_def stage_defs)
  next
    case other: False
    then show ?thesis using False assms(2) by (auto simp: encryptWriter_def decryptReader_def Let_def split: if_splits)
  qed
qed

text \<open>\<open>ParseSpec\<close> recovers the stages of a valid specification, up to the keys.\<close>

lemma Cut_colon:
  assumes "CHR '':'' \<notin> set a"
  shows "Cut (a @ '':'' @ b) '':'' = (a, b, True)"
  using assms by (induction a) (auto simp: HasPrefix_def)

lemma Cut_no_colon: "CHR '':'' \<notin> set a \<Longrightarrow> Cut a '':'' = (a, [], False)"
  by (induction a) (auto simp: HasPrefix_def)

lemma ParseSpec_of_strings:
  assumes "cAlgo c \<in> {AlgoZstd, AlgoGzip, AlgoNone, []}" and "in_int64 (cLevel c)"
    and "enMode e \<in> {ModeAge, ModePassphrase, ModeNone, []}"
  shows "\<exists>s. ParseSpec (Compression_String c) (Encryption_String e) = Inr s \<and>
    cAlgo (psCompression s) = (if cAlgo c = [] then AlgoNone else cAlgo c) \<and>
    enMode (psEncryption s) = (if enMode e = [] then ModeNone else enMode e)"
proof -
  have colon: "CHR '':'' \<notin> set AlgoZstd" "CHR '':'' \<notin> set AlgoGzip" "CHR '':'' \<notin> set AlgoNone"
    by (simp_all add: stage_defs)
  have itoa: "Itoa (cLevel c) \<noteq> []" by (simp add: Itoa_def)
  note cuts = Cut_colon [OF colon(1), of "Itoa (cLevel c)"] Cut_colon [OF colon(2), of "Itoa (cLevel c)"]
    Cut_no_colon [OF colon(3)]
  have cmp: "Cut (Compression_String c) '':'' =
      (if cAlgo c = AlgoNone \<or> cAlgo c = [] then (AlgoNone, [], False) else (cAlgo c, Itoa (cLevel c), True))"
    using assms(1) cuts by (auto simp: Compression_String_def)
  have enc: "Encryption_String e = (if enMode e = ModeAge then ''age:x25519''
      else if enMode e = ModePassphrase then ''age:scrypt'' else ModeNone)" by (simp add: Encryption_String_def)
  show ?thesis
    using assms itoa Atoi_Itoa [OF assms(2)] unfolding ParseSpec_def cmp enc
    by (elim insertE emptyE) (simp_all add: stage_defs)
qed

text \<open>The specification to read a backup with: what its manifest recorded, with the passphrase at hand.\<close>

definition with_passphrase :: "string \<Rightarrow> PipeSpec \<Rightarrow> PipeSpec" where
  "with_passphrase p s = s\<lparr>psEncryption := (psEncryption s)\<lparr>enPassphrase := p\<rparr>\<rparr>"

lemma reader_cong:
  assumes "cAlgo (psCompression s) = (if cAlgo (psCompression t) = [] then AlgoNone else cAlgo (psCompression t))"
    and "enMode (psEncryption s) = (if enMode (psEncryption t) = [] then ModeNone else enMode (psEncryption t))"
    and "enPassphrase (psEncryption s) = enPassphrase (psEncryption t)"
  shows "pipe_Reader cod s ids x = pipe_Reader cod t ids x"
proof -
  have "decryptReader cod s ids x = decryptReader cod t ids x"
    unfolding decryptReader_def Let_def assms(2,3) by (simp add: stage_defs)
  moreover have "decompressReader cod s = decompressReader cod t"
    unfolding decompressReader_def Let_def assms(1) by (simp add: stage_defs)
  ultimately show ?thesis by (simp add: pipe_Reader_def split: sum.split)
qed

lemma written_reads_back:
  assumes "codecs_ok cod opens" and "PipeSpec_Validate cod spec = None" and "pipe_writer cod spec = Inr w"
    and "in_int64 (cLevel (psCompression spec))" and "can_open cod opens spec ids"
  shows "\<exists>s. ParseSpec (Compression_String (psCompression spec)) (Encryption_String (psEncryption spec)) = Inr s \<and>
    pipe_Reader cod (with_passphrase (enPassphrase (psEncryption spec)) s) ids (w data) = Inr data"
proof -
  have algo: "cAlgo (psCompression spec) \<in> {AlgoZstd, AlgoGzip, AlgoNone, []}"
    and mode: "enMode (psEncryption spec) \<in> {ModeAge, ModePassphrase, ModeNone, []}"
    using assms(2) by (auto simp: PipeSpec_Validate_def Let_def split: if_splits)
  obtain s where s: "ParseSpec (Compression_String (psCompression spec)) (Encryption_String (psEncryption spec)) = Inr s"
    "cAlgo (psCompression s) = (if cAlgo (psCompression spec) = [] then AlgoNone else cAlgo (psCompression spec))"
    "enMode (psEncryption s) = (if enMode (psEncryption spec) = [] then ModeNone else enMode (psEncryption spec))"
    using ParseSpec_of_strings [OF algo assms(4) mode] by blast
  obtain enc cmp where w: "encryptWriter cod spec = Inr enc" "compressWriter cod spec = Inr cmp" "w = (\<lambda>x. enc (cmp x))"
    using assms(3) by (auto simp: pipe_writer_def split: sum.splits)
  have "pipe_Reader cod spec ids (w data) = Inr data"
    using encrypt_back [OF assms(1) w(1) assms(5)] compress_back [OF assms(1) w(2)] by (simp add: pipe_Reader_def w(3))
  moreover have "pipe_Reader cod (with_passphrase (enPassphrase (psEncryption spec)) s) ids (w data) = pipe_Reader cod spec ids (w data)"
    by (rule reader_cong) (simp_all add: with_passphrase_def s(2,3))
  ultimately show ?thesis using s(1) by auto
qed

text \<open>C22: What goes into the bucket comes back. For libraries that undo themselves, a stream written
  through the stages of a valid specification is recovered exactly by reading it through the
  stages its manifest records, with the passphrase, or an identity of one of the recipients.\<close>

theorem pipeline_roundtrip:
  assumes "codecs_ok cod opens" and "PipeSpec_Validate cod spec = None" and "pipe_writer cod spec = Inr w"
    and "in_int64 (cLevel (psCompression spec))" and "can_open cod opens spec ids"
  shows "\<exists>s. ParseSpec (Compression_String (psCompression spec)) (Encryption_String (psEncryption spec)) = Inr s \<and>
    pipe_Reader cod (with_passphrase (enPassphrase (psEncryption spec)) s) ids (w data) = Inr data"
  using assms by (rule written_reads_back)

text \<open>Libraries for an example: compression marks the stream, encryption names its recipients.\<close>

definition demo_codecs :: codecs where
  "demo_codecs = \<lparr>coNewWriter = (\<lambda>a n lg. None), coCompress = (\<lambda>a n lg x. a @ x),
     coDecompress = (\<lambda>a y. if HasPrefix y a then Inr (drop (length a) y) else Inl (ErrText ''not compressed'')),
     coParseRecipient = (\<lambda>raw. if HasPrefix raw ''age1'' then Inr raw else Inl (ErrText ''malformed recipient'')),
     coScryptRecipient = (\<lambda>p. if CHR 0x0A \<in> set p then Inl (ErrText ''bad passphrase'') else Inr p), coScryptIdentity = Inr,
     coNewEncrypt = (\<lambda>rs. if CHR 0x0A \<in> set (Join '','' rs) then Some (ErrText ''bad recipient'') else None), coEncrypt = (\<lambda>rs x. Join '','' rs @ [CHR 0x0A] @ x),
     coDecrypt = (\<lambda>ids y. if ids = [] then Inl ErrNoIdentityMatch else Inr (drop 1 (dropWhile (\<lambda>c. c \<noteq> CHR 0x0A) y))),
     coClose = None\<rparr>"

definition demo_opens :: "string \<Rightarrow> string \<Rightarrow> bool" where
  "demo_opens i r \<longleftrightarrow> i = r"

definition demo_spec :: PipeSpec where
  "demo_spec = \<lparr>psCompression = \<lparr>cAlgo = ''zstd'', cLevel = 3, cLong = False\<rparr>,
     psEncryption = \<lparr>enMode = ''age'', enRecipients = [''age1qq''], enPassphrase = []\<rparr>\<rparr>"

lemma demo_codecs_ok: "codecs_ok demo_codecs demo_opens"
proof -
  have "dropWhile (\<lambda>c. c \<noteq> CHR 0x0A) (r @ CHR 0x0A # x) = CHR 0x0A # x" if "CHR 0x0A \<notin> set r" for r x :: string
    using that by (induction r) auto
  then show ?thesis by (auto simp: codecs_ok_def demo_codecs_def demo_opens_def split: if_splits)
qed

theorem pipeline_roundtrip_witness:
  "\<exists>w s. pipe_writer demo_codecs demo_spec = Inr w \<and> ParseSpec ''zstd:3'' ''age:x25519'' = Inr s \<and>
     pipe_Reader demo_codecs (with_passphrase [] s) [''age1qq''] (w ''dump'') = Inr ''dump''"
proof -
  have v: "PipeSpec_Validate demo_codecs demo_spec = None"
    by (simp add: PipeSpec_Validate_def demo_spec_def demo_codecs_def stage_defs HasPrefix_def)
  obtain w where w: "pipe_writer demo_codecs demo_spec = Inr w"
    by (simp add: pipe_writer_def encryptWriter_def compressWriter_def encrypt_to_def demo_spec_def demo_codecs_def
        stage_defs HasPrefix_def)
  have o: "can_open demo_codecs demo_opens demo_spec [''age1qq'']"
    by (simp add: can_open_def demo_codecs_def demo_spec_def demo_opens_def HasPrefix_def)
  have lv: "in_int64 (cLevel (psCompression demo_spec))" by (simp add: demo_spec_def in_int64_def)
  have "Compression_String (psCompression demo_spec) = ''zstd:3''" "Encryption_String (psEncryption demo_spec) = ''age:x25519''"
    "enPassphrase (psEncryption demo_spec) = []" by code_simp+
  with pipeline_roundtrip [OF demo_codecs_ok v w lv o, of "''dump''"] w show ?thesis by auto
qed

end
