(* ===== verification/Backup.thy ===== *)
theory Backup
  imports Prune Pipeline
begin

text \<open>
  One backup end to end: \<open>internal/backup/backup.go\<close> and its events in
  \<open>internal/backup/notify.go\<close>. The database client is a record of what its calls answer; the
  clock readings, the fresh id, the version and the outcome of the race between the two
  halves of a stream are arguments. The state is a store with the outbox of notifications.
\<close>

section \<open>Inputs\<close>

type_synonym Phase = string

definition PhaseProbe :: Phase where "PhaseProbe = ''probe''"
definition PhaseDump :: Phase where "PhaseDump = ''dump''"
definition PhaseUpload :: Phase where "PhaseUpload = ''upload''"
definition PhaseManifest :: Phase where "PhaseManifest = ''manifest''"

lemmas phase_defs = PhaseProbe_def PhaseDump_def PhaseUpload_def PhaseManifest_def

record ServerInfo =
  siEngine :: Engine
  siVersion :: string
  siConsistency :: Consistency
  siTables :: "TableInfo list"
  siWarnings :: "string list"

record DumpResult =
  drConsistency :: Consistency
  drTables :: "TableInfo list"
  drBinlogPos :: string
  drOplogEnd :: string
  drDumperVersion :: string
  drStderrTail :: string

text \<open>A dumper: the probe's answer, the dump, and the globals dump of an engine that has one.\<close>

record dumper =
  duProbe :: "ServerInfo result"
  duDump :: "producer \<times> DumpResult"
  duGlobals :: "(producer \<times> DumpResult) option"

record BackupSpec =
  bsTarget :: string
  bsEngine :: Engine
  bsKind :: Kind
  bsTier :: string
  bsLayout :: Layout
  bsPipeline :: PipeSpec
  bsTimeout :: duration

text \<open>
  What a run takes from its surroundings. The clock is read when the run starts, when it has
  stored the dump, when a failure is recorded and when it is announced.
\<close>

record surroundings =
  suCodecs :: codecs
  suHash :: "string \<Rightarrow> string"
  suRace :: bool
  suProgress :: progress
  suID :: "time \<Rightarrow> string"
  suVersion :: string
  suStarted :: time
  suFinished :: time
  suRecordedAt :: time
  suFailedAt :: time

section \<open>Keys and settings\<close>

definition spec_kind :: "BackupSpec \<Rightarrow> Kind" where
  "spec_kind s = (if bsKind s = [] then KindFull else bsKind s)"

definition spec_extension :: "BackupSpec \<Rightarrow> string" where
  "spec_extension s = DataExtension (bsEngine s) (Compression_String (psCompression (bsPipeline s)))
     (Encryption_String (psEncryption (bsPipeline s)))"

definition globalsExtension :: "BackupSpec \<Rightarrow> string" where
  "globalsExtension s = GlobalsExtension (Compression_String (psCompression (bsPipeline s)))
     (Encryption_String (psEncryption (bsPipeline s)))"

definition tablesOf :: "ServerInfo \<Rightarrow> DumpResult \<Rightarrow> TableInfo list" where
  "tablesOf info dump = (if drTables dump \<noteq> [] then drTables dump else siTables info)"

record BackupPlan =
  bpTarget :: string
  bpEngine :: Engine
  bpServerVersion :: string
  bpConsistency :: Consistency
  bpTables :: int
  bpRows :: int
  bpDataKey :: string
  bpManifestKey :: string
  bpGlobalsKey :: string
  bpCompression :: string
  bpEncryption :: string
  bpWarnings :: "string list"

text \<open>The dry run; it reads nothing but the probe and writes nothing.\<close>

definition backup_Plan :: "dumper \<Rightarrow> BackupSpec \<Rightarrow> time \<Rightarrow> BackupPlan result" where
  "backup_Plan d spec at =
     (case duProbe d of
        Inl err \<Rightarrow> Inl (ErrBackup PhaseProbe (bsTarget spec) err [])
      | Inr info \<Rightarrow>
          Inr \<lparr>bpTarget = bsTarget spec, bpEngine = siEngine info, bpServerVersion = siVersion info,
            bpConsistency = siConsistency info, bpTables = int (length (siTables info)),
            bpRows = foldl (\<lambda>rows t. wrap64 (rows + tiRows t)) 0 (siTables info),
            bpDataKey = Layout_Data (bsLayout spec) at (spec_kind spec) (spec_extension spec),
            bpManifestKey = Layout_Manifest (bsLayout spec) at (spec_kind spec),
            bpGlobalsKey = (if duGlobals d = None then [] else Layout_Globals (bsLayout spec) at (globalsExtension spec)),
            bpCompression = Compression_String (psCompression (bsPipeline spec)),
            bpEncryption = Encryption_String (psEncryption (bsPipeline spec)),
            bpWarnings = siWarnings info\<rparr>)"

section \<open>Events\<close>

definition startedEvent :: "BackupSpec \<Rightarrow> time \<Rightarrow> Notification" where
  "startedEvent spec at =
     (new_Notification EventBackupStarted at (bsTarget spec) (bsTarget spec @ '' backup started''))
       \<lparr>nDetails := [(''engine'', JStr (bsEngine spec))]\<rparr>"

definition succeededEvent :: "Manifest \<Rightarrow> Notification" where
  "succeededEvent m =
     (new_Notification EventBackupSucceeded (mfFinishedAt m) (mfTarget m)
        (mfTarget m @ '' backup succeeded in ''
         @ Duration_String (Duration_Round (wrap64 (mfDurationMS m * Millisecond)) Second)
         @ '', '' @ humanBytes (soBytes (mfObject m)) @ '' stored''))
     \<lparr>nBackupID := mfID m, nDurationMS := mfDurationMS m,
      nDetails := [(''engine'', JStr (mfEngine m)), (''server_version'', JStr (mfServerVersion m)),
         (''object'', JStr (soKey (mfObject m))), (''bytes'', json_int (soBytes (mfObject m))),
         (''plaintext_bytes'', json_int (ptBytes (mfPlaintext m))), (''consistency'', JStr (mfConsistency m)),
         (''tables'', json_int (int (length (mfTables m))))]
         @ (if mfWarnings m \<noteq> [] then [(''warnings'', JArr (map JStr (mfWarnings m)))] else [])\<rparr>"

fun as_backup_error :: "err \<Rightarrow> (Phase \<times> string) option" where
  "as_backup_error (ErrBackup phase target e stderr) = Some (phase, stderr)"
| "as_backup_error _ = None"

fun as_exit_error :: "err \<Rightarrow> int option" where
  "as_exit_error (ErrExit binary code stderr e) = Some code"
| "as_exit_error _ = None"

definition failureCode :: "Phase \<Rightarrow> err \<Rightarrow> string" where
  "failureCode phase err =
     (case errors_As as_exit_error err of
        Some code \<Rightarrow> ToUpper phase @ ''_EXIT_'' @ Itoa code
      | None \<Rightarrow> ToUpper phase @ ''_FAILED'')"

definition failure_phase :: "err \<Rightarrow> Phase \<times> string" where
  "failure_phase err = (case errors_As as_backup_error err of Some ps \<Rightarrow> ps | None \<Rightarrow> (PhaseDump, []))"

definition failedEvent :: "BackupSpec \<Rightarrow> time \<Rightarrow> time \<Rightarrow> err \<Rightarrow> Notification" where
  "failedEvent spec started at err =
     (let d = time_Sub at started; (phase, stderr) = failure_phase err in
      (new_Notification EventBackupFailed at (bsTarget spec)
         (bsTarget spec @ '' backup failed after '' @ Duration_String (Duration_Round d Second) @ '' during '' @ phase))
      \<lparr>nDurationMS := Duration_Milliseconds d,
       nError := Some \<lparr>fPhase = phase, fCode = failureCode phase err, fMessage = err_text err, fStderrTail = stderr\<rparr>,
       nDetails := [(''engine'', JStr (bsEngine spec))]\<rparr>)"

section \<open>Reserving a timestamp\<close>

definition reserveWindow :: nat where "reserveWindow = 60"

definition key_exists :: "'s store_ops \<Rightarrow> string \<Rightarrow> ('s, bool) action" where
  "key_exists ops key s =
     (case sHead ops key s of
        (Inr _, s1) \<Rightarrow> (Inr True, s1)
      | (Inl err, s1) \<Rightarrow>
          if errors_Is err ErrNotFound then (Inr False, s1)
          else (Inl (ErrWrap (''checking whether '' @ key @ '' is free'') err), s1))"

fun reserve_loop :: "'s store_ops \<Rightarrow> BackupSpec \<Rightarrow> nat \<Rightarrow> time \<Rightarrow> ('s, time) action" where
  "reserve_loop ops spec 0 at s =
     (Inl (ErrText (''every key in the '' @ Itoa (int reserveWindow) @ '' seconds from ''
        @ fmt_TimeFormat (at - int reserveWindow * Second) @ '' is already taken'')), s)"
| "reserve_loop ops spec (Suc n) at s =
     (case key_exists ops (Layout_Manifest (bsLayout spec) at (spec_kind spec)) s of
        (Inl err, s1) \<Rightarrow> (Inl err, s1)
      | (Inr manifestTaken, s1) \<Rightarrow>
          (case key_exists ops (Layout_Data (bsLayout spec) at (spec_kind spec) (spec_extension spec)) s1 of
             (Inl err, s2) \<Rightarrow> (Inl err, s2)
           | (Inr dataTaken, s2) \<Rightarrow>
               if \<not> manifestTaken \<and> \<not> dataTaken then (Inr at, s2)
               else reserve_loop ops spec n (at + Second) s2))"

definition reserve :: "'s store_ops \<Rightarrow> BackupSpec \<Rightarrow> time \<Rightarrow> ('s, time) action" where
  "reserve ops spec at = reserve_loop ops spec reserveWindow at"

section \<open>Streaming\<close>

text \<open>\<open>classify\<close>: whose failure it was.\<close>

definition classify :: "BackupSpec \<Rightarrow> DumpResult \<Rightarrow> err option \<Rightarrow> err option \<Rightarrow> err \<Rightarrow> err" where
  "classify spec dump dumpErr putErr err =
     (case dumpErr of
        Some e \<Rightarrow> ErrBackup PhaseDump (bsTarget spec) e (drStderrTail dump)
      | None \<Rightarrow>
          (case putErr of
             Some e \<Rightarrow> ErrBackup PhaseUpload (bsTarget spec) e []
           | None \<Rightarrow>
               if errors_Is err ErrDeadlineExceeded
               then ErrBackup PhaseDump (bsTarget spec)
                      (ErrWrap (''timed out after '' @ Duration_String (bsTimeout spec)) err) []
               else ErrBackup PhaseDump (bsTarget spec) err (drStderrTail dump)))"

definition put_consumer :: "'s store_ops \<Rightarrow> string \<Rightarrow> string result \<Rightarrow> 's \<Rightarrow> err option \<times> 's" where
  "put_consumer ops key body s =
     (case sPut ops key body s of (Inl e, s1) \<Rightarrow> (Some e, s1) | (Inr _, s1) \<Rightarrow> (None, s1))"

definition stream ::
  "'s store_ops \<Rightarrow> surroundings \<Rightarrow> BackupSpec \<Rightarrow> string \<Rightarrow> producer \<times> DumpResult \<Rightarrow> ('s, DumpResult \<times> PipeResult) action" where
  "stream ops env spec key dump s =
     (case pipeline_Run (suCodecs env) (suHash env) (suRace env) (suProgress env) (bsPipeline spec) (fst dump) (put_consumer ops key) s of
        (oc, s1) \<Rightarrow>
          (case roResult oc of
             Inl err \<Rightarrow> (Inl (classify spec (snd dump) (roProduced oc) (roConsumed oc) err), s1)
           | Inr sums \<Rightarrow> (Inr (snd dump, sums), s1)))"

definition putManifest :: "'s store_ops \<Rightarrow> string \<Rightarrow> Manifest \<Rightarrow> ('s, unit) action" where
  "putManifest ops key m s =
     (case Manifest_Marshal m of
        Inl err \<Rightarrow> (Inl err, s)
      | Inr b \<Rightarrow> (case sPut ops key (Inr b) s of (Inl err, s1) \<Rightarrow> (Inl err, s1) | (Inr _, s1) \<Rightarrow> (Inr (), s1)))"

section \<open>The run\<close>

definition backup_manifest ::
  "surroundings \<Rightarrow> BackupSpec \<Rightarrow> ServerInfo \<Rightarrow> time \<Rightarrow> string \<Rightarrow> DumpResult \<Rightarrow> PipeResult \<Rightarrow> StoredObject option \<Rightarrow> Manifest" where
  "backup_manifest env spec info started dataKey dump sums globals =
     \<lparr>mfSchema = Schema, mfID = suID env started, mfTarget = bsTarget spec, mfEngine = siEngine info,
      mfServerVersion = siVersion info, mfStartedAt = started, mfFinishedAt = suFinished env,
      mfDurationMS = Duration_Milliseconds (time_Sub (suFinished env) started),
      mfKind = spec_kind spec, mfTier = bsTier spec,
      mfObject = \<lparr>soKey = dataKey, soBytes = suBytes (ciphertextSum sums), soSHA256 = suSHA256 (ciphertextSum sums)\<rparr>,
      mfPlaintext = \<lparr>ptBytes = suBytes (plaintextSum sums), ptSHA256 = suSHA256 (plaintextSum sums)\<rparr>,
      mfGlobals = globals,
      mfPipeline = \<lparr>prCompression = Compression_String (psCompression (bsPipeline spec)),
         prEncryption = Encryption_String (psEncryption (bsPipeline spec)), prDumper = drDumperVersion dump\<rparr>,
      mfConsistency = drConsistency dump,
      mfBinlog = (if drBinlogPos dump \<noteq> [] then Some (drBinlogPos dump) else None),
      mfOplogEnd = (if drOplogEnd dump \<noteq> [] then Some (drOplogEnd dump) else None),
      mfTables = tablesOf info dump, mfVerify = None, mfWarnings = siWarnings info,
      mfVaultdVersion = suVersion env\<rparr>"

definition stream_globals ::
  "'s store_ops \<Rightarrow> surroundings \<Rightarrow> BackupSpec \<Rightarrow> time \<Rightarrow> (producer \<times> DumpResult) option \<Rightarrow> ('s, StoredObject option) action" where
  "stream_globals ops env spec started globals s =
     (case globals of
        None \<Rightarrow> (Inr None, s)
      | Some dump \<Rightarrow>
          (let key = Layout_Globals (bsLayout spec) started (globalsExtension spec) in
           case stream ops env spec key dump s of
             (Inl err, s1) \<Rightarrow> (Inl err, s1)
           | (Inr (_, sums), s1) \<Rightarrow>
               (Inr (Some \<lparr>soKey = key, soBytes = suBytes (ciphertextSum sums), soSHA256 = suSHA256 (ciphertextSum sums)\<rparr>), s1)))"

text \<open>
  \<open>Run\<close> between the first and the last notification: the manifest, or the error with the
  value the variable \<open>started\<close> has by then (the deferred function reads it; \<open>reserve\<close>
  assigns it even when it fails, the zero time then).
\<close>

definition run_body ::
  "'s store_ops \<Rightarrow> surroundings \<Rightarrow> dumper \<Rightarrow> bool \<Rightarrow> BackupSpec \<Rightarrow> 's \<Rightarrow> (err \<times> time + Manifest) \<times> 's" where
  "run_body ops env d indexed spec s =
     (case duProbe d of
        Inl err \<Rightarrow> (Inl (ErrBackup PhaseProbe (bsTarget spec) err [], suStarted env), s)
      | Inr info \<Rightarrow>
          (case reserve ops spec (suStarted env) s of
             (Inl err, s1) \<Rightarrow> (Inl (ErrBackup PhaseUpload (bsTarget spec) err [], 0), s1)
           | (Inr started, s1) \<Rightarrow>
               (let dataKey = Layout_Data (bsLayout spec) started (spec_kind spec) (spec_extension spec) in
                case stream ops env spec dataKey (duDump d) s1 of
                  (Inl err, s2) \<Rightarrow> (Inl (err, started), s2)
                | (Inr (dump, sums), s2) \<Rightarrow>
                    if suBytes (plaintextSum sums) = 0
                    then (Inl (ErrBackup PhaseDump (bsTarget spec) (ErrText ''the dump produced no data'') (drStderrTail dump), started),
                          snd (sDelete ops [dataKey] s2))
                    else
                      case stream_globals ops env spec started (duGlobals d) s2 of
                        (Inl err, s3) \<Rightarrow> (Inl (err, started), s3)
                      | (Inr globals, s3) \<Rightarrow>
                          (let m = backup_manifest env spec info started dataKey dump sums globals;
                               manifestKey = Layout_Manifest (bsLayout spec) started (spec_kind spec)
                           in case putManifest ops manifestKey m s3 of
                                (Inl err, s4) \<Rightarrow> (Inl (ErrBackup PhaseManifest (bsTarget spec) err [], started), s4)
                              | (Inr _, s4) \<Rightarrow>
                                  (Inr m, if indexed then snd (index_Append ops (bsLayout spec) (NewEntry m manifestKey) s4) else s4)))))"

definition recordFailure :: "'s store_ops \<Rightarrow> bool \<Rightarrow> BackupSpec \<Rightarrow> time \<Rightarrow> time \<Rightarrow> err \<Rightarrow> 's \<Rightarrow> 's" where
  "recordFailure ops indexed spec started now err s =
     (if \<not> indexed then s
      else snd (index_Append ops (bsLayout spec)
             (NewFailureEntry (bsTarget spec) started now (fst (failure_phase err)) (err_text err)) s))"

definition backup_Run ::
  "'s store_ops \<Rightarrow> surroundings \<Rightarrow> dumper \<Rightarrow> bool \<Rightarrow> BackupSpec \<Rightarrow> 's run \<Rightarrow> Manifest result \<times> 's run" where
  "backup_Run ops env d indexed spec st =
     (let st0 = emit (startedEvent spec (suStarted env)) st in
      case run_body ops env d indexed spec (fst st0) of
        (Inr m, s1) \<Rightarrow> (Inr m, emit (succeededEvent m) (s1, snd st0))
      | (Inl (err, started), s1) \<Rightarrow>
          (Inl err, emit (failedEvent spec started (suFailedAt env) err)
             (recordFailure ops indexed spec started (suRecordedAt env) err s1, snd st0)))"

end
