(* ===== verification/Backup_Run.thy ===== *)
theory Backup_Run
  imports Backup
begin

text \<open>
  The theorems of a backup run: a run that succeeds leaves a backup that is listed and can
  be read back, a manifest is only ever written after its data, the reserved timestamp is the
  first free one, and a run that fails is recorded so that retention freezes.
\<close>

section \<open>Calls on a quiet store\<close>

lemma mem_put:
  assumes "mFailPut s = None"
  obtains i s' where "memory_Put h None k (Inr b) s = (Inr i, s')" and "mFailPut s' = None"
    and "mem_view s' = (mem_view s)(k \<mapsto> (b, h b))"
proof -
  obtain i s' where w: "memory_write h k b s = (i, s')" by (cases "memory_write h k b s")
  then have "memory_Put h None k (Inr b) s = (Inr i, s')" using assms by (simp add: memory_Put_def)
  moreover have "mFailPut s' = None" using w assms by (auto simp: memory_write_def Let_def)
  moreover have "mem_view s' = (mem_view s)(k \<mapsto> (b, h b))" using mem_view_write [of h k b s] w by simp
  ultimately show thesis by (rule that)
qed

lemma key_exists_quiet: "key_exists (memory_ops h) k s = (Inr (mem_view s k \<noteq> None), s)"
proof (cases "mem_view s k")
  case None
  from mem.head_miss [OF this] show ?thesis using None by (auto simp: key_exists_def)
next
  case (Some v)
  then obtain b e where v: "mem_view s k = Some (b, e)" by (cases v) auto
  from mem.head_hit [OF v] show ?thesis using v by (auto simp: key_exists_def)
qed

section \<open>The reserved timestamp\<close>

definition slot_free :: "BackupSpec \<Rightarrow> memory \<Rightarrow> time \<Rightarrow> bool" where
  "slot_free spec s t \<longleftrightarrow> mem_view s (Layout_Manifest (bsLayout spec) t (spec_kind spec)) = None \<and>
     mem_view s (Layout_Data (bsLayout spec) t (spec_kind spec) (spec_extension spec)) = None"

lemma reserve_loop_find:
  fixes at :: time
  shows
  "(case find (slot_free spec s) (map (\<lambda>i. at + int i * Second) [0..<n]) of
      Some t \<Rightarrow> reserve_loop (memory_ops h) spec n at s = (Inr t, s)
    | None \<Rightarrow> \<exists>e. reserve_loop (memory_ops h) spec n at s = (Inl e, s))"
proof (induction n arbitrary: at)
  case (Suc n)
  have shift: "map (\<lambda>i. at + int i * Second) [0..<Suc n] = at # map (\<lambda>i. at + Second + int i * Second) [0..<n]"
    unfolding upt_conv_Cons [OF zero_less_Suc] map_Suc_upt [symmetric] by (simp add: comp_def algebra_simps)
  show ?case
  proof (cases "slot_free spec s at")
    case True
    then show ?thesis unfolding shift by (simp add: key_exists_quiet slot_free_def)
  next
    case False
    then have "reserve_loop (memory_ops h) spec (Suc n) at s = reserve_loop (memory_ops h) spec n (at + Second) s"
      by (auto simp: key_exists_quiet slot_free_def)
    then show ?thesis using Suc.IH [of "at + Second"] False unfolding shift
      by (simp del: reserve_loop.simps split: option.splits)
  qed
qed simp

lemma find_upt:
  "(find P (map f [0..<n]) = Some t \<longrightarrow> (\<exists>i<n. t = f i \<and> P (f i) \<and> (\<forall>j<i. \<not> P (f j)))) \<and>
   (find P (map f [0..<n]) = None \<longrightarrow> (\<forall>i<n. \<not> P (f i)))"
proof (induction n)
  case (Suc n)
  have "find P (xs @ [y]) = (case find P xs of None \<Rightarrow> if P y then Some y else None | r \<Rightarrow> r)" for xs y
    by (induction xs) auto
  then have "find P (map f [0..<Suc n]) = (case find P (map f [0..<n]) of None \<Rightarrow> if P (f n) then Some (f n) else None | r \<Rightarrow> r)"
    by simp
  then show ?case using Suc.IH less_Suc_eq by (auto split: option.splits if_splits)
qed simp

text \<open>C27: A new backup gets keys of its own. \<open>reserve\<close> moves a run that starts within the second of another to
  the first second, of the sixty from its start, in which neither its manifest key nor its data
  key is taken; it fails exactly when all sixty are taken. It writes nothing. The store is the one
  held in memory, whose \<open>Head\<close> does not fail.\<close>

theorem reserve_first_free:
  "(\<exists>t. reserve (memory_ops h) spec at s = (Inr t, s) \<and> slot_free spec s t \<and>
       (\<exists>i<60. t = at + int i * Second \<and> (\<forall>j<i. \<not> slot_free spec s (at + int j * Second))))
   \<or> (\<exists>e. reserve (memory_ops h) spec at s = (Inl e, s)) \<and> (\<forall>i<60. \<not> slot_free spec s (at + int i * Second))"
proof (cases "find (slot_free spec s) (map (\<lambda>i. at + int i * Second) [0..<60])")
  case None
  with reserve_loop_find [where spec = spec and s = s and at = at and n = 60 and h = h] find_upt [of "slot_free spec s" "\<lambda>i. at + int i * Second" 60]
  show ?thesis by (auto simp: reserve_def reserveWindow_def)
next
  case (Some t)
  then have r: "reserve (memory_ops h) spec at s = (Inr t, s)"
    using reserve_loop_find [where spec = spec and s = s and at = at and n = 60 and h = h] by (simp add: reserve_def reserveWindow_def)
  from Some find_upt [of "slot_free spec s" "\<lambda>i. at + int i * Second" 60 t] obtain i where
    "i < 60" "t = at + int i * Second" "slot_free spec s (at + int i * Second)" "\<forall>j<i. \<not> slot_free spec s (at + int j * Second)"
    by blast
  with r show ?thesis by blast
qed

section \<open>A run that succeeds\<close>

text \<open>A dump that runs to its end through stages that can be built and finished.\<close>

definition streams :: "surroundings \<Rightarrow> BackupSpec \<Rightarrow> (string \<Rightarrow> string) \<Rightarrow> bool" where
  "streams env spec w \<longleftrightarrow> PipeSpec_Validate (suCodecs env) (bsPipeline spec) = None \<and>
     pipe_writer (suCodecs env) (bsPipeline spec) = Inr w \<and> coClose (suCodecs env) = None"

definition sums_of :: "surroundings \<Rightarrow> (string \<Rightarrow> string) \<Rightarrow> string \<Rightarrow> PipeResult" where
  "sums_of env w data = \<lparr>plaintextSum = sum_of (suHash env) data, ciphertextSum = sum_of (suHash env) (w data)\<rparr>"

lemma stream_quiet:
  assumes "streams env spec w" and "pdErr (fst dump) = None" and "mFailPut s = None"
  obtains s' where "stream (memory_ops h) env spec key dump s = (Inr (snd dump, sums_of env w (pdData (fst dump))), s')"
    and "mFailPut s' = None"
    and "mem_view s' = (mem_view s)(key \<mapsto> (w (pdData (fst dump)), h (w (pdData (fst dump)))))"
proof -
  obtain i s' where put: "memory_Put h None key (Inr (w (pdData (fst dump)))) s = (Inr i, s')" "mFailPut s' = None"
    "mem_view s' = (mem_view s)(key \<mapsto> (w (pdData (fst dump)), h (w (pdData (fst dump)))))"
    using mem_put [OF assms(3)] .
  have "stream (memory_ops h) env spec key dump s = (Inr (snd dump, sums_of env w (pdData (fst dump))), s')"
    using assms(1,2) put(1)
    by (simp add: stream_def pipeline_Run_def streams_def put_consumer_def closeStages_def sums_of_def)
  then show thesis using put(2,3) that by blast
qed

definition stored_globals :: "surroundings \<Rightarrow> (string \<Rightarrow> string) \<Rightarrow> BackupSpec \<Rightarrow> time \<Rightarrow> dumper \<Rightarrow> StoredObject option" where
  "stored_globals env w spec started d =
     map_option (\<lambda>g. \<lparr>soKey = Layout_Globals (bsLayout spec) started (globalsExtension spec),
        soBytes = int (length (w (pdData (fst g)))), soSHA256 = suHash env (w (pdData (fst g)))\<rparr>) (duGlobals d)"

lemma stream_globals_quiet:
  assumes "streams env spec w" and "\<forall>g. duGlobals d = Some g \<longrightarrow> pdErr (fst g) = None" and "mFailPut s = None"
  obtains s' where "stream_globals (memory_ops h) env spec started (duGlobals d) s = (Inr (stored_globals env w spec started d), s')"
    and "mFailPut s' = None"
    and "\<forall>k. k \<noteq> Layout_Globals (bsLayout spec) started (globalsExtension spec) \<longrightarrow> mem_view s' k = mem_view s k"
    and "\<forall>g. stored_globals env w spec started d = Some g \<longrightarrow> soKey g = Layout_Globals (bsLayout spec) started (globalsExtension spec) \<and>
      (\<exists>b e. mem_view s' (soKey g) = Some (b, e) \<and> soBytes g = int (length b) \<and> soSHA256 g = suHash env b)"
proof (cases "duGlobals d")
  case None
  then show thesis using that [of s] assms(3) by (simp add: stream_globals_def stored_globals_def)
next
  case (Some g)
  let ?key = "Layout_Globals (bsLayout spec) started (globalsExtension spec)"
  obtain s' where s': "stream (memory_ops h) env spec ?key g s = (Inr (snd g, sums_of env w (pdData (fst g))), s')"
    "mFailPut s' = None" "mem_view s' = (mem_view s)(?key \<mapsto> (w (pdData (fst g)), h (w (pdData (fst g)))))"
    using stream_quiet [OF assms(1) _ assms(3)] assms(2) Some by blast
  show thesis
    by (rule that [of s'])
      (use s' Some in \<open>auto simp: stream_globals_def stored_globals_def Let_def sums_of_def sum_of_def\<close>)
qed

text \<open>The keys of one run are different objects.\<close>

lemma extension_heads:
  "\<exists>c r. spec_extension spec = CHR ''.'' # c # r \<and> c \<in> {CHR ''p'', CHR ''s'', CHR ''a'', CHR ''d''}"
  by (auto simp: spec_extension_def DataExtension_def dumpExtension_def)

lemma run_keys_distinct:
  assumes "spec_kind spec = KindFull"
  shows "Layout_Data l t (spec_kind spec) (spec_extension spec) \<noteq> Layout_Manifest l t (spec_kind spec)"
    and "Layout_Data l t (spec_kind spec) (spec_extension spec) \<noteq> Layout_Globals l t (globalsExtension spec)"
    and "Layout_Manifest l t (spec_kind spec) \<noteq> Layout_Globals l t (globalsExtension spec)"
  using extension_heads [of spec] assms
  by (auto simp: Layout_Data_def Layout_Manifest_def Layout_Globals_def KindFull_def)

lemma no_slash_ext:
  assumes "spec_kind spec = KindFull"
  shows "CHR ''/'' \<notin> set (spec_kind spec @ spec_extension spec @ globalsExtension spec)"
  unfolding assms
  by (simp add: KindFull_def spec_extension_def DataExtension_def dumpExtension_def pipelineSuffixes_def
      globalsExtension_def GlobalsExtension_def)

lemma run_restorable:
  assumes "duProbe d = Inr info" and "streams env spec w" and "pdErr (fst (duDump d)) = None"
    and "pdData (fst (duDump d)) \<noteq> []" and "\<forall>g. duGlobals d = Some g \<longrightarrow> pdErr (fst g) = None"
    and "mFailPut s = None" and "index_at mem_view (bsLayout spec) s = (es, None)"
    and "\<forall>b. mem_view s (Layout_Index (bsLayout spec)) \<noteq> Some (b, [])" and "\<forall>e\<in>set es. entry_storable e"
    and "reserve (memory_ops h) spec (suStarted env) s = (Inr started, s)"
    and "layout_ok (bsLayout spec)" and "json_time_ok started" and "spec_kind spec = KindFull"
    and m: "m = backup_manifest env spec info started
           (Layout_Data (bsLayout spec) started KindFull (spec_extension spec)) (snd (duDump d))
           (sums_of env w (pdData (fst (duDump d)))) (stored_globals env w spec started d)"
    and "manifest_ok m" and "entry_storable (NewEntry m (Layout_Manifest (bsLayout spec) started KindFull))"
    and "codecs_ok (suCodecs env) opens" and "in_int64 (cLevel (psCompression (bsPipeline spec)))"
    and "can_open (suCodecs env) opens (bsPipeline spec) ids"
  shows "\<exists>s' stored etag sp. backup_Run (memory_ops h) env d True spec (s, out)
      = (Inr m, (s', out @ [startedEvent spec (suStarted env), succeededEvent m])) \<and>
    index_at mem_view (bsLayout spec) s' = (es @ [NewEntry m (Layout_Manifest (bsLayout spec) started KindFull)], None) \<and>
    mem_view s' (Layout_Manifest (bsLayout spec) started KindFull) = Some (manifest_text m, h (manifest_text m)) \<and>
    mem_view s' (soKey (mfObject m)) = Some (stored, etag) \<and>
    soBytes (mfObject m) = int (length stored) \<and> soSHA256 (mfObject m) = suHash env stored \<and>
    ParseSpec (prCompression (mfPipeline m)) (prEncryption (mfPipeline m)) = Inr sp \<and>
    pipe_Reader (suCodecs env) (with_passphrase (enPassphrase (psEncryption (bsPipeline spec))) sp) ids stored
      = Inr (pdData (fst (duDump d))) \<and>
    (\<forall>g. mfGlobals m = Some g \<longrightarrow>
       (\<exists>b e. mem_view s' (soKey g) = Some (b, e) \<and> soBytes g = int (length b) \<and> soSHA256 g = suHash env b))"
proof -
  let ?l = "bsLayout spec" and ?data = "pdData (fst (duDump d))"
  let ?dk = "Layout_Data ?l started KindFull (spec_extension spec)" and ?mk = "Layout_Manifest ?l started KindFull"
  let ?gk = "Layout_Globals ?l started (globalsExtension spec)"
  obtain s1 where s1: "stream (memory_ops h) env spec ?dk (duDump d) s = (Inr (snd (duDump d), sums_of env w ?data), s1)"
    "mFailPut s1 = None" "mem_view s1 = (mem_view s)(?dk \<mapsto> (w ?data, h (w ?data)))"
    using stream_quiet [OF assms(2,3,6)] .
  obtain s2 where s2: "stream_globals (memory_ops h) env spec started (duGlobals d) s1 = (Inr (stored_globals env w spec started d), s2)"
    "mFailPut s2 = None" "\<forall>k. k \<noteq> ?gk \<longrightarrow> mem_view s2 k = mem_view s1 k"
    "\<forall>g. stored_globals env w spec started d = Some g \<longrightarrow> soKey g = ?gk \<and>
      (\<exists>b e. mem_view s2 (soKey g) = Some (b, e) \<and> soBytes g = int (length b) \<and> soSHA256 g = suHash env b)"
    using stream_globals_quiet [OF assms(2,5) s1(2)] .
  obtain i s3 where s3: "memory_Put h None ?mk (Inr (manifest_text m)) s2 = (Inr i, s3)"
    "mem_view s3 = (mem_view s2)(?mk \<mapsto> (manifest_text m, h (manifest_text m)))"
    using mem_put [OF s2(2)] by metis
  note keys = run_keys_distinct [OF assms(13), unfolded assms(13), of ?l started]
  have "k \<noteq> Layout_Index ?l" if "k \<in> {?dk, ?mk, ?gk}" for k
    using backup_key_not_index [OF assms(11,12) no_slash_ext [OF assms(13)], of k] that
    by (auto simp: backup_keys_def assms(13))
  then have idx: "?dk \<noteq> Layout_Index ?l" "?mk \<noteq> Layout_Index ?l" "?gk \<noteq> Layout_Index ?l" by blast+
  have same: "mem_view s3 (Layout_Index ?l) = mem_view s (Layout_Index ?l)" using s1(3) s2(3) s3(2) idx by simp
  have at3: "index_at mem_view ?l s3 = (es, None)" using assms(7) same by (simp add: index_at_def)
  have ne3: "\<forall>b. mem_view s3 (Layout_Index ?l) \<noteq> Some (b, [])" using assms(8) same by simp
  have "append_update (NewEntry m ?mk) es = Inr (index_text (es @ [NewEntry m ?mk]))"
    using assms(9,16) by (intro append_update_text) (auto simp: entry_storable_def)
  from rmw_first_try [OF at3 ne3, of "append_update (NewEntry m ?mk)", OF this] obtain s4 where
    s4: "index_Append (memory_ops h) ?l (NewEntry m ?mk) s3 = (Inr (), s4)"
    "mem_view s4 = (mem_view s3)(Layout_Index ?l \<mapsto> (index_text (es @ [NewEntry m ?mk]), h (index_text (es @ [NewEntry m ?mk]))))"
    unfolding index_Append_def by blast
  have "suBytes (plaintextSum (sums_of env w ?data)) \<noteq> 0" using assms(4) by (simp add: sums_of_def sum_of_def)
  then have "run_body (memory_ops h) env d True spec s = (Inr m, s4)"
    using assms(1,10,13) s1(1) s2(1) s3(1) s4(1) manifest_read_back(1) [OF assms(15)]
    by (simp add: run_body_def Let_def putManifest_def m [symmetric])
  then have run: "backup_Run (memory_ops h) env d True spec (s, out)
      = (Inr m, (s4, out @ [startedEvent spec (suStarted env), succeededEvent m]))"
    by (simp add: backup_Run_def Let_def emit_def)
  have list: "index_at mem_view ?l s4 = (es @ [NewEntry m ?mk], None)"
    using assms(9,16) s4(2) by (intro index_at_text) auto
  have stored: "mem_view s4 ?dk = Some (w ?data, h (w ?data))" "mem_view s4 ?mk = Some (manifest_text m, h (manifest_text m))"
    using s1(3) s2(3) s3(2) s4(2) keys idx by auto
  have "PipeSpec_Validate (suCodecs env) (bsPipeline spec) = None" "pipe_writer (suCodecs env) (bsPipeline spec) = Inr w"
    using assms(2) by (auto simp: streams_def)
  from written_reads_back [OF assms(17) this assms(18,19), of ?data] obtain sp where
    "ParseSpec (prCompression (mfPipeline m)) (prEncryption (mfPipeline m)) = Inr sp"
    "pipe_Reader (suCodecs env) (with_passphrase (enPassphrase (psEncryption (bsPipeline spec))) sp) ids (w ?data) = Inr ?data"
    by (auto simp: m backup_manifest_def)
  moreover have "soKey (mfObject m) = ?dk" "soBytes (mfObject m) = int (length (w ?data))" "soSHA256 (mfObject m) = suHash env (w ?data)"
    by (simp_all add: m backup_manifest_def sums_of_def sum_of_def)
  moreover have "mfGlobals m = stored_globals env w spec started d" by (simp add: m backup_manifest_def)
  moreover have "mem_view s4 ?gk = mem_view s2 ?gk" using s3(2) s4(2) keys idx by simp
  ultimately show ?thesis using run list stored s2(4) by metis
qed

text \<open>C24: A backup that is reported is one that can be restored. When the dump runs to its end and
  the store takes every write, \<open>Run\<close> returns the manifest and announces it; the manifest is
  stored, the index lists the backup last, and the stored object has the recorded size and
  checksum and reads back, through the stages the manifest records, as exactly the dump.\<close>

theorem backup_restorable:
  assumes "duProbe d = Inr info" and "streams env spec w" and "pdErr (fst (duDump d)) = None"
    and "pdData (fst (duDump d)) \<noteq> []" and "\<forall>g. duGlobals d = Some g \<longrightarrow> pdErr (fst g) = None"
    and "mFailPut s = None" and "index_at mem_view (bsLayout spec) s = (es, None)"
    and "\<forall>b. mem_view s (Layout_Index (bsLayout spec)) \<noteq> Some (b, [])" and "\<forall>e\<in>set es. entry_storable e"
    and "reserve (memory_ops h) spec (suStarted env) s = (Inr started, s)"
    and "layout_ok (bsLayout spec)" and "json_time_ok started" and "spec_kind spec = KindFull"
    and m: "m = backup_manifest env spec info started
           (Layout_Data (bsLayout spec) started KindFull (spec_extension spec)) (snd (duDump d))
           (sums_of env w (pdData (fst (duDump d)))) (stored_globals env w spec started d)"
    and "manifest_ok m" and "entry_storable (NewEntry m (Layout_Manifest (bsLayout spec) started KindFull))"
    and "codecs_ok (suCodecs env) opens" and "in_int64 (cLevel (psCompression (bsPipeline spec)))"
    and "can_open (suCodecs env) opens (bsPipeline spec) ids"
  shows "\<exists>s' stored etag sp. backup_Run (memory_ops h) env d True spec (s, out)
      = (Inr m, (s', out @ [startedEvent spec (suStarted env), succeededEvent m])) \<and>
    index_at mem_view (bsLayout spec) s' = (es @ [NewEntry m (Layout_Manifest (bsLayout spec) started KindFull)], None) \<and>
    mem_view s' (Layout_Manifest (bsLayout spec) started KindFull) = Some (manifest_text m, h (manifest_text m)) \<and>
    mem_view s' (soKey (mfObject m)) = Some (stored, etag) \<and>
    soBytes (mfObject m) = int (length stored) \<and> soSHA256 (mfObject m) = suHash env stored \<and>
    ParseSpec (prCompression (mfPipeline m)) (prEncryption (mfPipeline m)) = Inr sp \<and>
    pipe_Reader (suCodecs env) (with_passphrase (enPassphrase (psEncryption (bsPipeline spec))) sp) ids stored
      = Inr (pdData (fst (duDump d)))"
  using run_restorable [OF assms, of out] by blast

section \<open>What a run touches\<close>

text \<open>The data object of a run at \<open>t\<close> is there, whole and not empty.\<close>

definition data_stored :: "surroundings \<Rightarrow> BackupSpec \<Rightarrow> dumper \<Rightarrow> (string \<rightharpoonup> string \<times> string) \<Rightarrow> time \<Rightarrow> bool" where
  "data_stored env spec d v t \<longleftrightarrow> pdData (fst (duDump d)) \<noteq> [] \<and>
     (\<exists>w e. pipe_writer (suCodecs env) (bsPipeline spec) = Inr w \<and>
        v (Layout_Data (bsLayout spec) t (spec_kind spec) (spec_extension spec)) = Some (w (pdData (fst (duDump d))), e))"

text \<open>
  What a caller may rely on of a store whose calls may fail, before or after taking effect:
  each call changes the objects it names and no other. \<open>ok\<close> describes the states in which
  nobody else interferes.
\<close>

locale store_frame =
  fixes ops :: "'s store_ops" and vw :: "'s \<Rightarrow> string \<rightharpoonup> string \<times> string" and ok :: "'s \<Rightarrow> bool"
  assumes head_frame: "ok s \<Longrightarrow> sHead ops k s = (r, s') \<Longrightarrow> ok s' \<and> vw s' = vw s"
    and get_frame: "ok s \<Longrightarrow> sGet ops k s = (rb, s') \<Longrightarrow> ok s' \<and> vw s' = vw s"
    and put_frame: "ok s \<Longrightarrow> sPut ops k body s = (r, s') \<Longrightarrow> ok s' \<and>
          (vw s' = vw s \<and> (\<forall>i. r \<noteq> Inr i) \<or> (\<exists>b e. body = Inr b \<and> vw s' = (vw s)(k \<mapsto> (b, e))))"
    and delete_frame: "ok s \<Longrightarrow> sDelete ops ks s = (ru, s') \<Longrightarrow> ok s' \<and> (\<forall>k. k \<notin> set ks \<longrightarrow> vw s' k = vw s k)"
    and match_frame: "ok s \<Longrightarrow> sPutIfMatch ops k b e s = (rm, s') \<Longrightarrow> ok s' \<and> (\<forall>j. j \<noteq> k \<longrightarrow> vw s' j = vw s j)"
begin

lemma key_exists_frame: "ok s \<Longrightarrow> key_exists ops k s = (r, s') \<Longrightarrow> ok s' \<and> vw s' = vw s"
  using head_frame by (auto simp: key_exists_def split: prod.splits sum.splits if_splits)

lemma reserve_frame:
  "ok s \<Longrightarrow> reserve_loop ops spec n at s = (r, s') \<Longrightarrow>
     ok s' \<and> vw s' = vw s \<and> (\<forall>t. r = Inr t \<longrightarrow> (\<exists>i<n. t = at + int i * Second))"
proof (induction n arbitrary: at s)
  case (Suc n)
  obtain r1 s1 where 1: "key_exists ops (Layout_Manifest (bsLayout spec) at (spec_kind spec)) s = (r1, s1)" by fastforce
  obtain r2 s2 where 2: "key_exists ops (Layout_Data (bsLayout spec) at (spec_kind spec) (spec_extension spec)) s1 = (r2, s2)" by fastforce
  note F1 = key_exists_frame [OF Suc.prems(1) 1]
  note F2 = key_exists_frame [OF conjunct1 [OF F1] 2]
  show ?case
  proof (cases "r1 = Inr False \<and> r2 = Inr False \<or> (\<exists>e. r1 = Inl e) \<or> (\<exists>e. r2 = Inl e)")
    case True
    then show ?thesis using Suc.prems(2) 1 2 F1 F2 by (auto split: sum.splits)
  next
    case False
    then have "reserve_loop ops spec n (at + Second) s2 = (r, s')"
      using Suc.prems(2) 1 2 by (cases r1; cases r2) auto
    note IH = Suc.IH [OF conjunct1 [OF F2] this]
    have "\<exists>i<Suc n. t = at + int i * Second" if rt: "r = Inr t" for t
    proof -
      obtain i where "i < n" "t = at + Second + int i * Second" using IH rt by blast
      then show ?thesis by (intro exI [of _ "Suc i"]) (simp add: algebra_simps)
    qed
    then show ?thesis using IH F1 F2 by simp
  qed
qed auto

lemma put_consumer_frame:
  assumes "ok s" and "put_consumer ops key body s = (c, s')"
  shows "ok s' \<and> (vw s' = vw s \<and> c \<noteq> None \<or> (\<exists>b e. body = Inr b \<and> vw s' = (vw s)(key \<mapsto> (b, e))))"
proof -
  obtain r where r: "sPut ops key body s = (r, s')" "c = None \<longleftrightarrow> (\<exists>i. r = Inr i)"
    using assms(2) by (auto simp: put_consumer_def split: prod.splits sum.splits)
  show ?thesis using put_frame [OF assms(1) r(1)] r(2) by blast
qed

text \<open>A stream writes its key with the transformed dump, or nothing.\<close>

lemma stream_frame:
  assumes "ok s" and "stream ops env spec key dump s = (r, s')"
  shows "ok s' \<and> (\<forall>k. k \<noteq> key \<longrightarrow> vw s' k = vw s k) \<and>
    (\<forall>res sums. r = Inr (res, sums) \<longrightarrow> (\<exists>w e. pipe_writer (suCodecs env) (bsPipeline spec) = Inr w \<and>
       vw s' key = Some (w (pdData (fst dump)), e) \<and> suBytes (plaintextSum sums) = int (length (pdData (fst dump)))))"
proof -
  obtain oc s1 where run: "pipeline_Run (suCodecs env) (suHash env) (suRace env) (suProgress env) (bsPipeline spec) (fst dump) (put_consumer ops key) s = (oc, s1)"
    by fastforce
  have s1: "s' = s1" and res: "\<And>a sums. r = Inr (a, sums) \<Longrightarrow> roResult oc = Inr sums"
    using assms(2) run by (auto simp: stream_def split: sum.splits)
  show ?thesis
  proof (cases "PipeSpec_Validate (suCodecs env) (bsPipeline spec) = None")
    case False
    then show ?thesis using run s1 res assms(1) by (auto simp: pipeline_Run_def)
  next
    case valid: True
    have fail: ?thesis if bf: "both_fail (suRace env) e p (put_consumer ops key) s = (oc, s1)" for e p
    proof -
      obtain c where c: "put_consumer ops key (Inl e) s = (c, s1)" "\<exists>f. roResult oc = Inl f"
        using bf by (auto simp: both_fail_def split: prod.splits)
      then show ?thesis using put_consumer_frame [OF assms(1) c(1)] s1 res by fastforce
    qed
    show ?thesis
    proof (cases "\<exists>w. pipe_writer (suCodecs env) (bsPipeline spec) = Inr w \<and> pdErr (fst dump) = None \<and> closeStages (suCodecs env) = None")
      case False
      then show ?thesis
        using run valid fail by (auto simp: pipeline_Run_def split: sum.splits option.splits)
    next
      case True
      then obtain w where w: "pipe_writer (suCodecs env) (bsPipeline spec) = Inr w" "pdErr (fst dump) = None"
        "closeStages (suCodecs env) = None" by blast
      obtain c s2 where c: "put_consumer ops key (Inr (w (pdData (fst dump)))) s = (c, s2)" by fastforce
      have "s2 = s1" "\<And>sums. roResult oc = Inr sums \<Longrightarrow> c = None \<and> suBytes (plaintextSum sums) = int (length (pdData (fst dump)))"
        using run valid w c by (auto simp: pipeline_Run_def sum_of_def split: option.splits)
      then have sums: "c = None \<and> suBytes (plaintextSum sums) = int (length (pdData (fst dump)))" if "r = Inr (a, sums)" for a sums
        using res [OF that] by blast
      note P = put_consumer_frame [OF assms(1) c, unfolded \<open>s2 = s1\<close>]
      have "\<exists>e. vw s1 key = Some (w (pdData (fst dump)), e)" if "c = None" using P that by auto
      then have "\<exists>w e. pipe_writer (suCodecs env) (bsPipeline spec) = Inr w \<and> vw s1 key = Some (w (pdData (fst dump)), e) \<and>
          suBytes (plaintextSum sums) = int (length (pdData (fst dump)))" if "r = Inr (a, sums)" for a sums
        using sums [OF that] w(1) by blast
      moreover have "ok s1" "\<And>k. k \<noteq> key \<Longrightarrow> vw s1 k = vw s k" using P by auto
      ultimately show ?thesis unfolding s1 by blast
    qed
  qed
qed

lemma load_frame:
  assumes "ok s" and "index_Load ops l s = (r, s')"
  shows "ok s' \<and> vw s' = vw s"
proof -
  obtain r1 s1 where h: "sHead ops (Layout_Index l) s = (r1, s1)" by fastforce
  obtain r2 s2 where g: "sGet ops (Layout_Index l) s1 = (r2, s2)" by fastforce
  note H = head_frame [OF assms(1) h]
  have "s' = s1 \<or> s' = s2"
    using assms(2) h g by (auto simp: index_Load_def split: sum.splits if_splits option.splits prod.splits)
  then show ?thesis using H get_frame [OF conjunct1 [OF H] g] by auto
qed

lemma rmw_frame:
  "ok s \<Longrightarrow> rmw_loop ops l upd n s = (r, s') \<Longrightarrow> ok s' \<and> (\<forall>k. k \<noteq> Layout_Index l \<longrightarrow> vw s' k = vw s k)"
proof (induction n arbitrary: s)
  case (Suc n)
  obtain r1 s1 where load: "index_Load ops l s = (r1, s1)" by fastforce
  have L: "ok s1" "vw s1 = vw s" using load_frame [OF Suc.prems(1) load] by simp_all
  show ?case
  proof (cases "\<exists>cur raw. r1 = Inr cur \<and> upd (ixEntries cur) = Inr raw")
    case False
    then show ?thesis using Suc.prems(2) load L by (auto split: sum.splits)
  next
    case True
    then obtain cur raw where cur: "r1 = Inr cur" "upd (ixEntries cur) = Inr raw" by blast
    obtain r2 s2 where put: "sPutIfMatch ops (Layout_Index l) raw (ixETag cur) s1 = (r2, s2)" by fastforce
    note M = match_frame [OF L(1) put]
    show ?thesis
    proof (cases "\<exists>i. r2 = Inr (i, False)")
      case True
      then have "rmw_loop ops l upd n s2 = (r, s')" using Suc.prems(2) load cur put by auto
      from Suc.IH [OF conjunct1 [OF M] this] M L(2) show ?thesis by simp
    next
      case False
      then have "s' = s2" using Suc.prems(2) load cur put by (auto split: sum.splits if_splits)
      then show ?thesis using M L(2) by simp
    qed
  qed
qed simp

lemma globals_frame:
  assumes "ok s" and "stream_globals ops env spec t g s = (r, s')"
  shows "ok s' \<and> (\<forall>k. k \<noteq> Layout_Globals (bsLayout spec) t (globalsExtension spec) \<longrightarrow> vw s' k = vw s k)"
proof (cases g)
  case None
  then show ?thesis using assms by (simp add: stream_globals_def)
next
  case (Some dump)
  let ?key = "Layout_Globals (bsLayout spec) t (globalsExtension spec)"
  obtain r1 s1 where st: "stream ops env spec ?key dump s = (r1, s1)" by fastforce
  then have "s' = s1" using assms(2) Some by (auto simp: stream_globals_def Let_def split: sum.splits)
  then show ?thesis using stream_frame [OF assms(1) st] by blast
qed

lemma manifest_frame:
  assumes "ok s" and "putManifest ops key m s = (r, s')"
  shows "ok s' \<and> (\<forall>k. k \<noteq> key \<longrightarrow> vw s' k = vw s k)"
proof (cases "Manifest_Marshal m")
  case (Inl e)
  then show ?thesis using assms by (simp add: putManifest_def)
next
  case (Inr b)
  obtain r1 s1 where p: "sPut ops key (Inr b) s = (r1, s1)" by fastforce
  then have "s' = s1" using assms(2) Inr by (auto simp: putManifest_def split: sum.splits)
  then show ?thesis using put_frame [OF assms(1) p] by auto
qed

text \<open>
  A run touches the keys of one reserved instant and the index. Its manifest changes only
  once its data object is there, whole and not empty; a run that fails leaves the index.
\<close>

lemma run_effect:
  assumes "ok s" and "run_body ops env d indexed spec s = (r, s')" and "spec_kind spec = KindFull"
  shows "ok s' \<and> (vw s' = vw s \<and> (\<exists>x. r = Inl x) \<or> (\<exists>i<60. let t = suStarted env + int i * Second; l = bsLayout spec;
       dk = Layout_Data l t (spec_kind spec) (spec_extension spec); mk = Layout_Manifest l t (spec_kind spec);
       gk = Layout_Globals l t (globalsExtension spec) in
     (\<forall>k. k \<notin> {dk, mk, gk, Layout_Index l} \<longrightarrow> vw s' k = vw s k) \<and>
     (mk \<noteq> Layout_Index l \<longrightarrow> dk \<noteq> Layout_Index l \<longrightarrow> vw s' mk \<noteq> vw s mk \<longrightarrow> data_stored env spec d (vw s') t) \<and>
     (Layout_Index l \<notin> {dk, mk, gk} \<longrightarrow> (\<forall>x. r = Inl x \<longrightarrow> vw s' (Layout_Index l) = vw s (Layout_Index l)))))"
proof (cases "duProbe d")
  case (Inl e)
  then show ?thesis using assms(1,2) by (auto simp: run_body_def)
next
  case info: (Inr info)
  obtain r1 s1 where res: "reserve ops spec (suStarted env) s = (r1, s1)" by fastforce
  note R = reserve_frame [OF assms(1) res [unfolded reserve_def]]
  show ?thesis
  proof (cases r1)
    case (Inl e)
    then show ?thesis using assms(2) info res R by (auto simp: run_body_def)
  next
    case t: (Inr t)
    then obtain i where i: "i < 60" "t = suStarted env + int i * Second" using R by (auto simp: reserveWindow_def)
    let ?l = "bsLayout spec"
    let ?dk = "Layout_Data ?l t (spec_kind spec) (spec_extension spec)" and ?mk = "Layout_Manifest ?l t (spec_kind spec)"
      and ?gk = "Layout_Globals ?l t (globalsExtension spec)"
    note keys = run_keys_distinct [OF assms(3), of ?l t]
    have goal: ?thesis if "ok s'" "\<And>k. k \<notin> {?dk, ?mk, ?gk, Layout_Index ?l} \<Longrightarrow> vw s' k = vw s k"
      "?mk \<noteq> Layout_Index ?l \<Longrightarrow> ?dk \<noteq> Layout_Index ?l \<Longrightarrow> vw s' ?mk \<noteq> vw s ?mk \<Longrightarrow> data_stored env spec d (vw s') t"
      "\<And>x. Layout_Index ?l \<notin> {?dk, ?mk, ?gk} \<Longrightarrow> r = Inl x \<Longrightarrow> vw s' (Layout_Index ?l) = vw s (Layout_Index ?l)"
      using that i by (auto simp: Let_def)
    obtain r2 s2 where st: "stream ops env spec ?dk (duDump d) s1 = (r2, s2)" by fastforce
    note S = stream_frame [OF conjunct1 [OF R] st]
    show ?thesis
    proof (cases r2)
      case (Inl e)
      then have "s' = s2" using assms(2) info res t st by (auto simp: run_body_def Let_def)
      then show ?thesis using S R keys by (intro goal) auto
    next
      case (Inr ds)
      then obtain dump sums where r2: "r2 = Inr (dump, sums)" by (cases ds) auto
      obtain w e where w: "pipe_writer (suCodecs env) (bsPipeline spec) = Inr w" "vw s2 ?dk = Some (w (pdData (fst (duDump d))), e)"
        "suBytes (plaintextSum sums) = int (length (pdData (fst (duDump d))))" using S r2 by blast
      show ?thesis
      proof (cases "pdData (fst (duDump d)) = []")
        case True
        obtain rd sd where del: "sDelete ops [?dk] s2 = (rd, sd)" by fastforce
        then have "s' = sd" using assms(2) info res t st r2 w(3) True by (auto simp: run_body_def Let_def)
        then show ?thesis using delete_frame [OF conjunct1 [OF S] del] S R keys by (intro goal) auto
      next
        case False
        obtain r3 s3 where gl: "stream_globals ops env spec t (duGlobals d) s2 = (r3, s3)" by fastforce
        note G = globals_frame [OF conjunct1 [OF S] gl]
        have stored3: "data_stored env spec d (vw s3) t" using w False G keys by (auto simp: data_stored_def)
        show ?thesis
        proof (cases r3)
          case (Inl e)
          then have "s' = s3" using assms(2) info res t st r2 w(3) False gl by (auto simp: run_body_def Let_def)
          then show ?thesis using G S R keys stored3 by (intro goal) auto
        next
          case g: (Inr glob)
          let ?m = "backup_manifest env spec info t ?dk dump sums glob"
          obtain r4 s4 where pm: "putManifest ops ?mk ?m s3 = (r4, s4)" by fastforce
          note M = manifest_frame [OF conjunct1 [OF G] pm]
          have stored4: "data_stored env spec d (vw s4) t" using stored3 M keys by (auto simp: data_stored_def)
          show ?thesis
          proof (cases "\<exists>u. r4 = Inr u \<and> indexed")
            case False
            then have "s' = s4" using assms(2) info res t st r2 w(3) \<open>pdData (fst (duDump d)) \<noteq> []\<close> gl g pm
              by (auto simp: run_body_def Let_def split: sum.splits)
            then show ?thesis using M G S R keys stored4 by (intro goal) auto
          next
            case True
            obtain r5 s5 where ap: "index_Append ops ?l (NewEntry ?m ?mk) s4 = (r5, s5)" by fastforce
            note A = rmw_frame [OF conjunct1 [OF M] ap [unfolded index_Append_def]]
            have s': "s' = s5" "r = Inr ?m"
              using assms(2) info res t st r2 w(3) \<open>pdData (fst (duDump d)) \<noteq> []\<close> gl g pm True ap
              by (auto simp: run_body_def Let_def)
            have "data_stored env spec d (vw s5) t" if "?dk \<noteq> Layout_Index ?l"
              using stored4 A that by (auto simp: data_stored_def)
            then show ?thesis using A M G S R keys s' by (intro goal) auto
          qed
        qed
      qed
    qed
  qed
qed

end

interpretation quiet: store_frame "memory_ops h" mem_view "\<lambda>s. True" for h
proof unfold_locales
  fix s k r s'
  assume "sHead (memory_ops h) k s = (r, s')"
  then show "True \<and> mem_view s' = mem_view s" using mem.head_result(1) [where k = k and s = s and h = h] by simp
next
  fix s k rb s'
  assume "sGet (memory_ops h) k s = (rb, s')"
  then show "True \<and> mem_view s' = mem_view s" using mem.get_result(1) [where k = k and s = s and h = h] by simp
next
  fix s k body r s'
  assume "sPut (memory_ops h) k body s = (r, s')"
  then show "True \<and> (mem_view s' = mem_view s \<and> (\<forall>i. r \<noteq> Inr i) \<or> (\<exists>b e. body = Inr b \<and> mem_view s' = (mem_view s)(k \<mapsto> (b, e))))"
    using mem_view_write [of h k _ s]
    by (auto simp: memory_Put_def apfst_def map_prod_def split: option.splits sum.splits prod.splits) (metis snd_conv)+
next
  fix s ks ru s'
  assume "sDelete (memory_ops h) ks s = (ru, s')"
  then show "True \<and> (\<forall>k. k \<notin> set ks \<longrightarrow> mem_view s' k = mem_view s k)"
    using mem.delete [where ks = ks and s = s and h = h] by auto
next
  fix s k b e rm s'
  assume *: "sPutIfMatch (memory_ops h) k b e s = (rm, s')"
  show "True \<and> (\<forall>j. j \<noteq> k \<longrightarrow> mem_view s' j = mem_view s j)"
  proof (cases rm)
    case (Inl x)
    then show ?thesis using * mem_match_no_error by metis
  next
    case (Inr iw)
    obtain i w where "iw = (i, w)" by (cases iw)
    then show ?thesis using * Inr mem_match_written [where h = h] mem_match_unwritten [where h = h] by (cases w) fastforce+
  qed
qed

interpretation faulty: store_frame "scripted (memory_ops h)" "\<lambda>st. mem_view (fst st)" "\<lambda>st. faults (snd st)" for h
proof unfold_locales
  fix st k r st'
  assume ok: "faults (snd st)" and c: "sHead (scripted (memory_ops h)) k st = (r, st')"
  have "scripted_call (sHead (memory_ops h) k) (fst st, snd st) = (r, (fst st', snd st'))" using c by simp
  from faulty_call [OF this ok] show "faults (snd st') \<and> mem_view (fst st') = mem_view (fst st)"
    using mem.head_result(1) [where k = k and s = "fst st" and h = h] by auto
next
  fix st k rb st'
  assume ok: "faults (snd st)" and c: "sGet (scripted (memory_ops h)) k st = (rb, st')"
  have "scripted_call (sGet (memory_ops h) k) (fst st, snd st) = (rb, (fst st', snd st'))" using c by simp
  from faulty_call [OF this ok] show "faults (snd st') \<and> mem_view (fst st') = mem_view (fst st)"
    using mem.get_result(1) [where k = k and s = "fst st" and h = h] by auto
next
  fix st k body r st'
  assume ok: "faults (snd st)" and c: "sPut (scripted (memory_ops h)) k body st = (r, st')"
  have "scripted_call (sPut (memory_ops h) k body) (fst st, snd st) = (r, (fst st', snd st'))" using c by simp
  note F = faulty_call [OF this ok]
  obtain rq sq where q: "sPut (memory_ops h) k body (fst st) = (rq, sq)" by fastforce
  have "r = Inr i \<Longrightarrow> rq = Inr i \<and> fst st' = sq" for i using F q by auto
  then show "faults (snd st') \<and> (mem_view (fst st') = mem_view (fst st) \<and> (\<forall>i. r \<noteq> Inr i) \<or>
      (\<exists>b e. body = Inr b \<and> mem_view (fst st') = (mem_view (fst st))(k \<mapsto> (b, e))))"
    using F quiet.put_frame [OF TrueI q] q by (metis snd_conv)
next
  fix st ks ru st'
  assume ok: "faults (snd st)" and c: "sDelete (scripted (memory_ops h)) ks st = (ru, st')"
  have "sDelete (scripted (memory_ops h)) ks (fst st, snd st) = (ru, (fst st', snd st'))" using c by simp
  from faulty_delete [OF this ok] show "faults (snd st') \<and> (\<forall>k. k \<notin> set ks \<longrightarrow> mem_view (fst st') k = mem_view (fst st) k)"
    by auto
next
  fix st k b e rm st'
  assume ok: "faults (snd st)" and c: "sPutIfMatch (scripted (memory_ops h)) k b e st = (rm, st')"
  have "scripted_call (sPutIfMatch (memory_ops h) k b e) (fst st, snd st) = (rm, (fst st', snd st'))" using c by simp
  note F = faulty_call [OF this ok]
  obtain rq sq where q: "sPutIfMatch (memory_ops h) k b e (fst st) = (rq, sq)" by fastforce
  show "faults (snd st') \<and> (\<forall>j. j \<noteq> k \<longrightarrow> mem_view (fst st') j = mem_view (fst st) j)"
    using F quiet.match_frame [OF TrueI q] q by auto
qed

text \<open>C25: A manifest never refers to data that is not there. Whatever calls of a run fail, before or
  after taking effect: an object that the run changed, other than the index, is one of the
  three keys of an instant within a minute of its start, and when that is the manifest then
  the data object of that instant is stored, whole and not empty.\<close>

theorem manifest_after_data:
  assumes "faults script" and "spec_kind spec = KindFull" and "layout_ok (bsLayout spec)"
    and "\<forall>i<60. json_time_ok (suStarted env + int i * Second)"
    and "backup_Run (scripted (memory_ops h)) env d indexed spec ((s, script), out) = (r, ((s', script'), out'))"
    and "k \<noteq> Layout_Index (bsLayout spec)" and "mem_view s' k \<noteq> mem_view s k"
  shows "\<exists>i<60. let t = suStarted env + int i * Second in
    k \<in> backup_keys (bsLayout spec) t KindFull (spec_extension spec) (globalsExtension spec) \<and>
    (k = Layout_Manifest (bsLayout spec) t KindFull \<longrightarrow> data_stored env spec d (mem_view s') t)"
proof -
  let ?ops = "scripted (memory_ops h)" and ?l = "bsLayout spec"
  obtain rb st1 where body: "run_body ?ops env d indexed spec (s, script) = (rb, st1)"
    by (cases "run_body ?ops env d indexed spec (s, script)")
  have ok: "faults (snd (s, script))" using assms(1) by simp
  note E = faulty.run_effect [OF ok body assms(2)]
  have tail: "\<forall>j. j \<noteq> Layout_Index ?l \<longrightarrow> mem_view s' j = mem_view (fst st1) j"
  proof (cases rb)
    case (Inr m)
    then have "(s', script') = st1" using assms(5) body by (auto simp: backup_Run_def Let_def emit_def)
    then show ?thesis by auto
  next
    case (Inl es)
    obtain err st where es: "es = (err, st)" by (cases es)
    obtain ra sta where ap: "index_Append ?ops ?l (NewFailureEntry (bsTarget spec) st (suRecordedAt env) (fst (failure_phase err)) (err_text err)) st1 = (ra, sta)"
      by (cases "index_Append ?ops ?l (NewFailureEntry (bsTarget spec) st (suRecordedAt env) (fst (failure_phase err)) (err_text err)) st1")
    have "(s', script') = (if indexed then sta else st1)"
      using assms(5) body Inl es ap by (auto simp: backup_Run_def Let_def emit_def recordFailure_def)
    then show ?thesis using faulty.rmw_frame [OF conjunct1 [OF E] ap [unfolded index_Append_def]] by (auto split: if_splits)
  qed
  have "mem_view (fst st1) k \<noteq> mem_view s k" using tail assms(6,7) by simp
  with E obtain i where i: "i < 60" and eff: "let t = suStarted env + int i * Second;
       dk = Layout_Data ?l t (spec_kind spec) (spec_extension spec); mk = Layout_Manifest ?l t (spec_kind spec);
       gk = Layout_Globals ?l t (globalsExtension spec) in
     (\<forall>k. k \<notin> {dk, mk, gk, Layout_Index ?l} \<longrightarrow> mem_view (fst st1) k = mem_view s k) \<and>
     (mk \<noteq> Layout_Index ?l \<longrightarrow> dk \<noteq> Layout_Index ?l \<longrightarrow> mem_view (fst st1) mk \<noteq> mem_view s mk \<longrightarrow> data_stored env spec d (mem_view (fst st1)) t)"
    by (auto simp: Let_def)
  let ?t = "suStarted env + int i * Second"
  let ?dk = "Layout_Data ?l ?t KindFull (spec_extension spec)" and ?mk = "Layout_Manifest ?l ?t KindFull"
    and ?gk = "Layout_Globals ?l ?t (globalsExtension spec)"
  have "k' \<noteq> Layout_Index ?l" if "k' \<in> {?dk, ?mk, ?gk}" for k'
    using backup_key_not_index [OF assms(3), of ?t "spec_kind spec" "spec_extension spec" "globalsExtension spec" k']
      assms(4) i no_slash_ext [OF assms(2)] that by (auto simp: backup_keys_def assms(2))
  then have idx: "?dk \<noteq> Layout_Index ?l" "?mk \<noteq> Layout_Index ?l" by blast+
  have "k \<in> {?dk, ?mk, ?gk}" using eff assms(2,6) \<open>mem_view (fst st1) k \<noteq> mem_view s k\<close> by (auto simp: Let_def)
  moreover have "data_stored env spec d (mem_view s') ?t" if "k = ?mk"
  proof -
    have "data_stored env spec d (mem_view (fst st1)) ?t"
      using eff idx that \<open>mem_view (fst st1) k \<noteq> mem_view s k\<close> by (simp add: Let_def assms(2))
    then show ?thesis using tail idx by (auto simp: data_stored_def assms(2))
  qed
  ultimately show ?thesis using i by (auto simp: Let_def backup_keys_def)
qed

section \<open>A run that fails\<close>

lemma foldl_latest_mem:
  "foldl (\<lambda>latest entry. if eFinishedAt latest < eFinishedAt entry then entry else latest) x es \<in> set (x # es)"
proof (induction es arbitrary: x)
  case (Cons e es)
  from Cons.IH [of "if eFinishedAt x < eFinishedAt e then e else x"] show ?case
    by (auto split: if_splits)
qed simp

lemma foldl_latest:
  assumes "\<forall>e\<in>set (x # es). eFinishedAt e < eFinishedAt f"
  shows "foldl (\<lambda>latest entry. if eFinishedAt latest < eFinishedAt entry then entry else latest) x (es @ [f]) = f"
  using assms foldl_latest_mem [of x es] by auto

lemma failure_is_latest:
  assumes "\<forall>e\<in>set es. eFinishedAt e < eFinishedAt f" and "\<not> Succeeded f"
  shows "LastRunFailed (es @ [f])"
  using assms foldl_latest [of "hd es" "tl es" f] by (cases es) (auto simp: LastRunFailed_def)

text \<open>C26: A failed run is recorded and freezes retention. Whatever made it fail, as long as the index
  itself can be written: the run reports its error and announces it, the index gains one
  failure entry at its end, and, when that is the latest finish, no plan made from the index
  afterwards deletes anything.\<close>

theorem failed_run_freezes:
  assumes "run_body (memory_ops h) env d True spec s = (Inl (err, started), s1)"
    and "index_at mem_view (bsLayout spec) s = (es, None)"
    and "\<forall>b. mem_view s (Layout_Index (bsLayout spec)) \<noteq> Some (b, [])" and "\<forall>e\<in>set es. entry_storable e"
    and "spec_kind spec = KindFull" and "layout_ok (bsLayout spec)"
    and "\<forall>i<60. json_time_ok (suStarted env + int i * Second)"
    and f: "f = NewFailureEntry (bsTarget spec) started (suRecordedAt env) (fst (failure_phase err)) (err_text err)"
    and "entry_storable f" and "\<forall>e\<in>set es. eFinishedAt e < suRecordedAt env"
  shows "\<exists>s'. backup_Run (memory_ops h) env d True spec (s, out)
      = (Inl err, (s', out @ [startedEvent spec (suStarted env), failedEvent spec started (suFailedAt env) err])) \<and>
    index_at mem_view (bsLayout spec) s' = (es @ [f], None) \<and>
    (\<forall>pol now P. P \<in> Plan_results pol (prune_input (es @ [f]) now) \<longrightarrow> plDelete P = [])"
proof -
  let ?l = "bsLayout spec"
  have "Layout_Index ?l \<notin> {Layout_Data ?l t (spec_kind spec) (spec_extension spec), Layout_Manifest ?l t (spec_kind spec),
      Layout_Globals ?l t (globalsExtension spec)}" if "json_time_ok t" for t
    using backup_key_not_index [OF assms(6) that no_slash_ext [OF assms(5)]] by (auto simp: backup_keys_def)
  then have same: "mem_view s1 (Layout_Index ?l) = mem_view s (Layout_Index ?l)"
    using quiet.run_effect [OF TrueI assms(1,5)] assms(7) by (auto simp: Let_def)
  have at1: "index_at mem_view ?l s1 = (es, None)" using assms(2) same by (simp add: index_at_def)
  have ne1: "\<forall>b. mem_view s1 (Layout_Index ?l) \<noteq> Some (b, [])" using assms(3) same by simp
  have "append_update f es = Inr (index_text (es @ [f]))"
    using assms(4,9) by (intro append_update_text) (auto simp: entry_storable_def)
  from rmw_first_try [OF at1 ne1, of "append_update f", OF this] obtain s' where
    s': "index_Append (memory_ops h) ?l f s1 = (Inr (), s')"
    "mem_view s' (Layout_Index ?l) = Some (index_text (es @ [f]), h (index_text (es @ [f])))"
    unfolding index_Append_def by fastforce
  have "backup_Run (memory_ops h) env d True spec (s, out)
      = (Inl err, (s', out @ [startedEvent spec (suStarted env), failedEvent spec started (suFailedAt env) err]))"
    using assms(1) s'(1) by (simp add: backup_Run_def Let_def emit_def recordFailure_def f)
  moreover have "index_at mem_view ?l s' = (es @ [f], None)"
    using assms(4,9) s'(2) by (intro index_at_text) auto
  moreover have "LastRunFailed (es @ [f])"
    by (rule failure_is_latest) (use assms(10) in \<open>auto simp: f NewFailureEntry_def Succeeded_def OutcomeFailed_def OutcomeSucceeded_def\<close>)
  then have "plDelete P = []" if "P \<in> Plan_results pol (prune_input (es @ [f]) now)" for pol now P
    using plan_frozen [OF that] by (simp add: prune_input_def)
  ultimately show ?thesis by blast
qed

text \<open>
  Whose failure a refused upload is reported as: the upload's, unless the dump was writing by
  then and returned an error of its own, which is then reported as a failed dump. An encrypted stream
  that is refused before its header is through never starts the dump.
\<close>

lemma refused_upload:
  assumes "streams env spec w" and "pdErr (fst dump) = None" and "mFailPut s = Some f"
  shows "stream (memory_ops h) env spec key dump s =
    (Inl (case snd (broken_by (bsPipeline spec) (suProgress env) (fst dump) f) of
            Some e \<Rightarrow> ErrBackup PhaseDump (bsTarget spec) e (drStderrTail (snd dump))
          | None \<Rightarrow> ErrBackup PhaseUpload (bsTarget spec) f []), s)"
  using assms
  by (simp add: stream_def pipeline_Run_def streams_def put_consumer_def closeStages_def memory_Put_def classify_def
      split: option.split)

lemma refused_at_once:
  assumes "streams env spec w" and "pdErr (fst dump) = None" and "mFailPut s = Some f"
    and "encrypted (bsPipeline spec)" and "suProgress env = AtHeader"
  shows "stream (memory_ops h) env spec key dump s = (Inl (ErrBackup PhaseUpload (bsTarget spec) f []), s)"
  using refused_upload [OF assms(1-3)] assms(4,5) by (simp add: broken_by_def)

text \<open>When no timestamp can be reserved, the failure is recorded with the zero time as its start, and
  the announced duration is the longest a duration can express, about 292 years.\<close>

theorem unreserved_start_zero:
  assumes "duProbe d = Inr info" and "reserve (memory_ops h) spec (suStarted env) s = (Inl e, s)"
    and "MaxInt64 \<le> suFailedAt env"
  shows "\<exists>err. run_body (memory_ops h) env d indexed spec s = (Inl (err, 0), s) \<and>
    nDurationMS (failedEvent spec 0 (suFailedAt env) err) = MaxInt64 div 1000000"
proof -
  have "run_body (memory_ops h) env d indexed spec s = (Inl (ErrBackup PhaseUpload (bsTarget spec) e [], 0), s)"
    using assms(1,2) by (simp add: run_body_def)
  moreover have "time_Sub (suFailedAt env) 0 = MaxInt64"
    using assms(3) by (simp add: time_Sub_def MinInt64_def MaxInt64_def)
  ultimately show ?thesis
    by (auto simp: failedEvent_def Let_def Duration_Milliseconds_def quot_int_def Millisecond_def MaxInt64_def
        split: prod.splits)
qed

section \<open>Examples\<close>

definition demo_backup :: BackupSpec where
  "demo_backup = \<lparr>bsTarget = ''app'', bsEngine = EnginePostgres, bsKind = [], bsTier = [],
     bsLayout = demo_layout ''app'', bsPipeline = demo_spec, bsTimeout = 0\<rparr>"

definition demo_env :: surroundings where
  "demo_env = \<lparr>suCodecs = demo_codecs, suHash = (\<lambda>b. ''ab''), suRace = False, suProgress = AtHeader, suID = (\<lambda>t. ''b1''),
     suVersion = ''v1'', suStarted = demo_time, suFinished = demo_time + Second, suRecordedAt = demo_time + Second, suFailedAt = demo_time + Second\<rparr>"

definition demo_info :: ServerInfo where
  "demo_info = \<lparr>siEngine = EnginePostgres, siVersion = ''16'', siConsistency = ''snapshot'', siTables = [], siWarnings = []\<rparr>"

definition demo_dump :: "string \<Rightarrow> producer \<times> DumpResult" where
  "demo_dump data = (\<lparr>pdData = data, pdErr = None, pdBroken = Some\<rparr>,
     \<lparr>drConsistency = ''snapshot'', drTables = [], drBinlogPos = [], drOplogEnd = [], drDumperVersion = ''pg_dump 16'',
      drStderrTail = []\<rparr>)"

definition demo_dumper :: "string \<Rightarrow> dumper" where
  "demo_dumper data = \<lparr>duProbe = Inr demo_info, duDump = demo_dump data, duGlobals = None\<rparr>"

lemmas demo_backup_defs = demo_backup_def demo_env_def demo_info_def demo_dump_def demo_dumper_def demo_spec_def

lemma demo_times: "i < 60 \<Longrightarrow> json_time_ok (demo_time + int i * Second)"
proof -
  assume "i < 60"
  then have "day_number UTC (demo_time + int i * Second) = day_number UTC demo_time"
    by (simp add: day_number_def local_ns_def UTC_def demo_time_def Second_def Day_def)
  moreover have "json_time_ok demo_time" by code_simp
  ultimately show ?thesis by (simp add: json_time_ok_def)
qed

lemma demo_backup_simps [simp]:
  "spec_kind demo_backup = KindFull" "bsLayout demo_backup = demo_layout ''app''" "suStarted demo_env = demo_time"
  "suFinished demo_env = demo_time + Second" "suRecordedAt demo_env = demo_time + Second" "suCodecs demo_env = demo_codecs" "bsPipeline demo_backup = demo_spec"
  "duProbe (demo_dumper x) = Inr demo_info" "duGlobals (demo_dumper x) = None" "duDump (demo_dumper x) = demo_dump x"
  "pdErr (fst (demo_dump x)) = None" "pdData (fst (demo_dump x)) = x" "bsTarget demo_backup = ''app''"
  "bsTier demo_backup = []" "bsEngine demo_backup = EnginePostgres"
  by (simp_all add: demo_backup_defs spec_kind_def)

lemma demo_keys [simp]:
  "Layout_Data (demo_layout ''app'') demo_time KindFull (spec_extension demo_backup)
     = ''backups/prod/app/2025/08/05/app-20250805T141320Z-full.pgdump.zst.age''"
  "Layout_Manifest (demo_layout ''app'') demo_time KindFull
     = ''backups/prod/app/2025/08/05/app-20250805T141320Z-full.manifest.json''"
  "Layout_Index (demo_layout ''app'') = ''backups/prod/_index/app.jsonl''"
  by code_simp+

definition demo_writer :: "string \<Rightarrow> string" where
  "demo_writer x = ''age1qq'' @ [CHR 0x0A] @ ''zstd'' @ x"

lemma demo_streams: "streams demo_env demo_backup demo_writer"
proof -
  have v: "PipeSpec_Validate demo_codecs demo_spec = None"
    by (simp add: PipeSpec_Validate_def demo_spec_def demo_codecs_def stage_defs HasPrefix_def)
  have w: "pipe_writer demo_codecs demo_spec = Inr demo_writer"
    by (auto simp: pipe_writer_def encryptWriter_def compressWriter_def encrypt_to_def demo_spec_def demo_codecs_def
        stage_defs HasPrefix_def demo_writer_def)
  have "coClose demo_codecs = None" by (simp add: demo_codecs_def)
  with v w show ?thesis by (simp add: streams_def)
qed

text \<open>The manifest of the example run, and the line it gets in the index.\<close>

definition demo_result :: Manifest where
  "demo_result = backup_manifest demo_env demo_backup demo_info demo_time
     (Layout_Data (demo_layout ''app'') demo_time KindFull (spec_extension demo_backup))
     (snd (demo_dump ''PGDMP'')) (sums_of demo_env demo_writer ''PGDMP'') None"

lemma demo_result_ok: "manifest_ok demo_result"
proof -
  have "Compression_String (psCompression demo_spec) = ''zstd:3''" "Encryption_String (psEncryption demo_spec) = ''age:x25519''"
    by code_simp+
  moreover have full_utf8: "valid_utf8 KindFull" by code_simp
  ultimately have "wf_json (JObj (manifest_fields demo_result))"
    by (simp add: demo_result_def backup_manifest_def manifest_fields_def wf_fields_omit object_json_def
        plaintext_json_def pipeline_json_def json_slice_def json_ptr_def tablesOf_def sums_of_def sum_of_def
        omit_ptr_def omit_str_def valid_utf8_ascii engine_defs demo_env_def demo_info_def demo_dump_def
        full_utf8 del: valid_utf8.simps wf_json.simps(4))
  moreover have "manifest_times_ok demo_result" by code_simp
  moreover have "in_int64 (mfDurationMS demo_result)" by code_simp
  ultimately show ?thesis
    by (simp add: manifest_ok_def demo_result_def backup_manifest_def tablesOf_def in_int64_def sums_of_def sum_of_def
        demo_dump_def demo_info_def demo_writer_def)
qed

text \<open>At most this many bytes are written for the line of an entry.\<close>

definition line_bound :: "Entry \<Rightarrow> nat" where
  "line_bound e = 2 + (\<Sum>kv\<leftarrow>entry_fields e. 6 * length (fst kv) + 4 + length (print_json None (snd kv)))"

lemma storable_bound: "entry_ok e \<Longrightarrow> line_bound e < max_line \<Longrightarrow> entry_storable e"
  using entry_line_length [of e] by (simp add: entry_storable_def line_bound_def)

lemma demo_result_line:
  shows "entry_ok (NewEntry demo_result (Layout_Manifest (demo_layout ''app'') demo_time KindFull))"
    and "line_bound (NewEntry demo_result (Layout_Manifest (demo_layout ''app'') demo_time KindFull)) < 10000"
proof -
  let ?e = "NewEntry demo_result (Layout_Manifest (demo_layout ''app'') demo_time KindFull)"
  show "entry_ok ?e" by code_simp
  have f: "entry_fields ?e = [(''id'', JStr ''b1''), (''target'', JStr ''app''), (''engine'', JStr ''postgres''),
      (''outcome'', JStr ''succeeded''), (''kind'', JStr ''full''),
      (''started_at'', json_time demo_time), (''finished_at'', json_time (demo_time + Second)),
      (''key'', JStr ''backups/prod/app/2025/08/05/app-20250805T141320Z-full.pgdump.zst.age''),
      (''manifest_key'', JStr ''backups/prod/app/2025/08/05/app-20250805T141320Z-full.manifest.json''),
      (''bytes'', json_int 16), (''plaintext_bytes'', json_int 5), (''sha256'', JStr ''ab'')]"
    by code_simp
  have "length (fmt_RFC3339Nano (demo_time + Second)) = 20" "length (print_json None (json_int 16)) = 2"
    "length (print_json None (json_int 5)) = 1" by code_simp+
  moreover note print_JStr_length [of "''b1''"] print_JStr_length [of "''app''"] print_JStr_length [of "''postgres''"]
    print_JStr_length [of "''succeeded''"] print_JStr_length [of "''full''"] print_JStr_length [of "''ab''"]
    print_JStr_length [of "fmt_RFC3339Nano demo_time"] print_JStr_length [of "fmt_RFC3339Nano (demo_time + Second)"]
    print_JStr_length [of "''backups/prod/app/2025/08/05/app-20250805T141320Z-full.pgdump.zst.age''"]
    print_JStr_length [of "''backups/prod/app/2025/08/05/app-20250805T141320Z-full.manifest.json''"]
  ultimately show "line_bound ?e < 10000" using demo_time_length
    unfolding f line_bound_def by (simp add: json_time_def del: print_json.simps(4))
qed

lemma demo_result_entry: "entry_storable (NewEntry demo_result (Layout_Manifest (demo_layout ''app'') demo_time KindFull))"
  by (rule storable_bound) (use demo_result_line in \<open>simp_all add: max_line_def\<close>)

lemma reserve_at_once:
  assumes "slot_free spec s at"
  shows "reserve (memory_ops h) spec at s = (Inr at, s)"
  using assms unfolding reserve_def reserveWindow_def
  by (simp add: eval_nat_numeral key_exists_quiet slot_free_def)

lemma demo_slot_free: "slot_free demo_backup (demo_store es) demo_time"
  by (simp add: slot_free_def demo_store_def mem_view_write mem_view_def memory_New_def)

theorem backup_restorable_witness:
  "\<exists>s' stored etag sp. backup_Run (memory_ops demo_hash) demo_env (demo_dumper ''PGDMP'') True demo_backup
        (demo_store [demo_entry ''a'' demo_time], [])
      = (Inr demo_result, (s', [startedEvent demo_backup demo_time, succeededEvent demo_result])) \<and>
    mem_view s' (soKey (mfObject demo_result)) = Some (stored, etag) \<and>
    pipe_Reader demo_codecs (with_passphrase [] sp) [''age1qq''] stored = Inr ''PGDMP''"
proof -
  let ?s = "demo_store [demo_entry ''a'' demo_time]"
  have o: "can_open demo_codecs demo_opens demo_spec [''age1qq'']"
    by (simp add: can_open_def demo_codecs_def demo_spec_def demo_opens_def HasPrefix_def)
  have sp: "enPassphrase (psEncryption demo_spec) = []" "in_int64 (cLevel (psCompression demo_spec))"
    by (simp_all add: demo_spec_def in_int64_def)
  have quiet: "mFailPut ?s = None" by (simp add: demo_store_def memory_write_def Let_def memory_New_def)
  have "\<exists>s' stored etag sp. backup_Run (memory_ops demo_hash) demo_env (demo_dumper ''PGDMP'') True demo_backup (?s, [])
      = (Inr demo_result, (s', [] @ [startedEvent demo_backup (suStarted demo_env), succeededEvent demo_result])) \<and>
    index_at mem_view (bsLayout demo_backup) s'
      = ([demo_entry ''a'' demo_time] @ [NewEntry demo_result (Layout_Manifest (bsLayout demo_backup) demo_time KindFull)], None) \<and>
    mem_view s' (Layout_Manifest (bsLayout demo_backup) demo_time KindFull)
      = Some (manifest_text demo_result, demo_hash (manifest_text demo_result)) \<and>
    mem_view s' (soKey (mfObject demo_result)) = Some (stored, etag) \<and>
    soBytes (mfObject demo_result) = int (length stored) \<and> soSHA256 (mfObject demo_result) = suHash demo_env stored \<and>
    ParseSpec (prCompression (mfPipeline demo_result)) (prEncryption (mfPipeline demo_result)) = Inr sp \<and>
    pipe_Reader (suCodecs demo_env) (with_passphrase (enPassphrase (psEncryption (bsPipeline demo_backup))) sp) [''age1qq''] stored
      = Inr (pdData (fst (duDump (demo_dumper ''PGDMP''))))"
    by (rule backup_restorable [where info = demo_info and w = demo_writer and opens = demo_opens, OF _ demo_streams])
      (use demo_store_index demo_store_etag demo_result_ok demo_result_entry demo_codecs_ok o sp quiet
        reserve_at_once [OF demo_slot_free] demo_layout_ok(1) demo_times [of 0] in
        \<open>simp_all add: stored_globals_def demo_result_def del: demo_keys\<close>)
  then show ?thesis by (auto simp: sp(1))
qed

theorem reserve_first_free_witness:
  "\<exists>t. reserve (memory_ops demo_hash) demo_backup demo_time (memory_New 0) = (Inr t, memory_New 0) \<and> t = demo_time"
proof -
  have free: "slot_free demo_backup (memory_New 0) (demo_time + int j * Second)" for j
    by (simp add: slot_free_def mem_view_def memory_New_def)
  then have "\<not> (\<forall>i<60. \<not> slot_free demo_backup (memory_New 0) (demo_time + int i * Second))"
    by (metis zero_less_numeral)
  then obtain t i where "reserve (memory_ops demo_hash) demo_backup demo_time (memory_New 0) = (Inr t, memory_New 0)"
    and t: "t = demo_time + int i * Second" "\<forall>j<i. \<not> slot_free demo_backup (memory_New 0) (demo_time + int j * Second)"
    using reserve_first_free [of demo_hash demo_backup demo_time "memory_New 0"] by blast
  moreover have "i = 0" using t(2) free by auto
  ultimately show ?thesis by simp
qed

text \<open>The write of the manifest takes effect, but its answer is lost.\<close>

theorem manifest_after_data_witness:
  "\<exists>r s' script' out'. backup_Run (scripted (memory_ops demo_hash)) demo_env (demo_dumper ''PGDMP'') False demo_backup
      ((memory_New 0, [Quiet, Quiet, Quiet, FailAfter ErrDeadlineExceeded]), []) = (Inl r, ((s', script'), out')) \<and>
    (\<exists>i<60. let t = demo_time + int i * Second in
       if Layout_Manifest (demo_layout ''app'') demo_time KindFull = Layout_Manifest (demo_layout ''app'') t KindFull
       then data_stored demo_env demo_backup (demo_dumper ''PGDMP'') (mem_view s') t else i \<noteq> 0)"
proof -
  let ?ops = "scripted (memory_ops demo_hash)" and ?script = "[Quiet, Quiet, Quiet, FailAfter ErrDeadlineExceeded]"
  let ?mk = "Layout_Manifest (demo_layout ''app'') demo_time KindFull"
  let ?dk = "Layout_Data (demo_layout ''app'') demo_time KindFull (spec_extension demo_backup)"
  let ?s1 = "snd (memory_write demo_hash ?dk (demo_writer ''PGDMP'') (memory_New 0))"
  let ?s2 = "snd (memory_write demo_hash ?mk (manifest_text demo_result) ?s1)"
  have rs: "reserve ?ops demo_backup demo_time (memory_New 0, ?script)
      = (Inr demo_time, (memory_New 0, [Quiet, FailAfter ErrDeadlineExceeded]))"
    by (simp add: reserve_def reserveWindow_def eval_nat_numeral key_exists_def scripted_call_def memory_Head_def memory_New_def
        mem_notFound_def)
  have quiet: "mFailPut (memory_New 0) = None" by (simp add: memory_New_def)
  obtain i s1 where w1: "memory_write demo_hash ?dk (demo_writer ''PGDMP'') (memory_New 0) = (i, s1)"
    by (cases "memory_write demo_hash ?dk (demo_writer ''PGDMP'') (memory_New 0)")
  have st: "stream ?ops demo_env demo_backup ?dk (demo_dump ''PGDMP'') (memory_New 0, [Quiet, FailAfter ErrDeadlineExceeded])
      = (Inr (snd (demo_dump ''PGDMP''), sums_of demo_env demo_writer ''PGDMP''), (?s1, [FailAfter ErrDeadlineExceeded]))"
    using demo_streams w1 quiet
    by (simp add: stream_def pipeline_Run_def streams_def put_consumer_def closeStages_def sums_of_def scripted_call_def
        memory_Put_def)
  have mf: "putManifest ?ops ?mk demo_result (?s1, [FailAfter ErrDeadlineExceeded]) = (Inl ErrDeadlineExceeded, (?s2, []))"
    using manifest_read_back(1) [OF demo_result_ok]
    by (simp add: putManifest_def scripted_call_def memory_Put_def memory_write_def memory_New_def Let_def split: prod.splits)
  have bytes: "suBytes (plaintextSum (sums_of demo_env demo_writer ''PGDMP'')) = 5" by (simp add: sums_of_def sum_of_def)
  have "\<exists>err. run_body ?ops demo_env (demo_dumper ''PGDMP'') False demo_backup (memory_New 0, ?script) = (Inl (err, demo_time), (?s2, []))"
    using rs st mf bytes by (simp add: run_body_def Let_def stream_globals_def demo_result_def [symmetric] del: demo_keys)
  then obtain err out' where run: "backup_Run ?ops demo_env (demo_dumper ''PGDMP'') False demo_backup
      ((memory_New 0, ?script), []) = (Inl err, ((?s2, []), out'))"
    by (auto simp: backup_Run_def Let_def emit_def recordFailure_def)
  have new: "mem_view ?s2 ?mk \<noteq> mem_view (memory_New 0) ?mk"
    by (simp add: mem_view_write) (simp add: mem_view_def memory_New_def)
  have "\<exists>i<60. let t = suStarted demo_env + int i * Second in
    ?mk \<in> backup_keys (bsLayout demo_backup) t KindFull (spec_extension demo_backup) (globalsExtension demo_backup) \<and>
    (?mk = Layout_Manifest (bsLayout demo_backup) t KindFull \<longrightarrow> data_stored demo_env demo_backup (demo_dumper ''PGDMP'') (mem_view ?s2) t)"
    by (rule manifest_after_data [OF _ _ _ _ run _ new]) (use demo_layout_ok demo_times in \<open>auto simp: faults_def\<close>)
  then obtain i where "i < 60" and "if ?mk = Layout_Manifest (demo_layout ''app'') (demo_time + int i * Second) KindFull
      then data_stored demo_env demo_backup (demo_dumper ''PGDMP'') (mem_view ?s2) (demo_time + int i * Second) else i \<noteq> 0"
    unfolding Let_def demo_backup_simps by (metis add.right_neutral mult_zero_left of_nat_0)
  then show ?thesis using run unfolding Let_def by blast
qed

text \<open>The database does not answer the probe.\<close>

lemma demo_failure_storable:
  "entry_storable (NewFailureEntry ''app'' demo_time (demo_time + Second) ''probe'' ''backup of app failed during probe: context canceled'')"
    (is "entry_storable ?e")
proof -
  have "entry_ok ?e" by code_simp
  moreover have "length (entry_line ?e) < max_line"
  proof -
    have f: "entry_fields ?e = [(''id'', JStr []), (''target'', JStr ''app''),
        (''outcome'', JStr ''failed''), (''started_at'', json_time demo_time), (''finished_at'', json_time (demo_time + Second)),
        (''phase'', JStr ''probe''), (''error'', JStr ''backup of app failed during probe: context canceled'')]"
      by code_simp
    have "length (fmt_RFC3339Nano (demo_time + Second)) = 20" by code_simp
    moreover note print_JStr_length [of "[]"] print_JStr_length [of "''app''"] print_JStr_length [of "''failed''"]
      print_JStr_length [of "''probe''"] print_JStr_length [of "''backup of app failed during probe: context canceled''"]
      print_JStr_length [of "fmt_RFC3339Nano demo_time"] print_JStr_length [of "fmt_RFC3339Nano (demo_time + Second)"]
    ultimately show ?thesis using entry_line_length [of ?e] demo_time_length
      unfolding f by (simp add: json_time_def max_line_def del: print_json.simps(4))
  qed
  ultimately show ?thesis by (simp add: entry_storable_def)
qed

theorem failed_run_freezes_witness:
  "\<exists>s' err f. backup_Run (memory_ops demo_hash) demo_env ((demo_dumper ''PGDMP'')\<lparr>duProbe := Inl ErrCanceled\<rparr>) True demo_backup
        (demo_store [demo_entry ''a'' demo_time], []) = (Inl err, (s', [startedEvent demo_backup demo_time,
           failedEvent demo_backup demo_time (suFailedAt demo_env) err])) \<and>
    index_at mem_view (demo_layout ''app'') s' = ([demo_entry ''a'' demo_time, f], None) \<and>
    plDelete (Policy_Plan demo_policy (prune_input [demo_entry ''a'' demo_time, f] (demo_time + Hour))) = []"
proof -
  let ?s = "demo_store [demo_entry ''a'' demo_time]" and ?d = "(demo_dumper ''PGDMP'')\<lparr>duProbe := Inl ErrCanceled\<rparr>"
  let ?err = "ErrBackup PhaseProbe ''app'' ErrCanceled []"
  let ?f = "NewFailureEntry ''app'' demo_time (demo_time + Second) ''probe'' ''backup of app failed during probe: context canceled''"
  have run: "run_body (memory_ops demo_hash) demo_env ?d True demo_backup ?s = (Inl (?err, demo_time), ?s)"
    by (simp add: run_body_def)
  have f: "?f = NewFailureEntry (bsTarget demo_backup) demo_time (suRecordedAt demo_env) (fst (failure_phase ?err)) (err_text ?err)"
    by (simp add: failure_phase_def phase_defs)
  have at: "index_at mem_view (bsLayout demo_backup) ?s = ([demo_entry ''a'' demo_time], None)" using demo_store_index by simp
  have "eFinishedAt (demo_entry ''a'' demo_time) < demo_time + Second"
    by (simp add: demo_entry_def NewFailureEntry_def zero_Entry_def Second_def)
  then have "\<exists>s'. backup_Run (memory_ops demo_hash) demo_env ?d True demo_backup (?s, [])
      = (Inl ?err, (s', [] @ [startedEvent demo_backup (suStarted demo_env), failedEvent demo_backup demo_time (suFailedAt demo_env) ?err])) \<and>
    index_at mem_view (bsLayout demo_backup) s' = ([demo_entry ''a'' demo_time] @ [?f], None) \<and>
    (\<forall>pol now P. P \<in> Plan_results pol (prune_input ([demo_entry ''a'' demo_time] @ [?f]) now) \<longrightarrow> plDelete P = [])"
    by (intro failed_run_freezes [OF run at _ _ _ _ _ f])
      (use demo_store_etag demo_layout_ok(1) demo_times demo_failure_storable in \<open>simp_all del: demo_keys\<close>)
  then obtain s' where run: "backup_Run (memory_ops demo_hash) demo_env ?d True demo_backup (?s, [])
      = (Inl ?err, (s', [startedEvent demo_backup demo_time, failedEvent demo_backup demo_time (suFailedAt demo_env) ?err]))"
    and idx: "index_at mem_view (demo_layout ''app'') s' = ([demo_entry ''a'' demo_time, ?f], None)"
    and del: "\<forall>pol now P. P \<in> Plan_results pol (prune_input [demo_entry ''a'' demo_time, ?f] now) \<longrightarrow> plDelete P = []"
    unfolding demo_backup_simps append_Nil append_Cons by blast
  have "plDelete (Policy_Plan demo_policy (prune_input [demo_entry ''a'' demo_time, ?f] (demo_time + Hour))) = []"
    using del Policy_Plan_result by blast
  with run idx show ?thesis by blast
qed

text \<open>A store in which every second of the window has a manifest.\<close>

definition crowded_store :: memory where
  "crowded_store = foldl (\<lambda>s i. snd (memory_write demo_hash (Layout_Manifest (demo_layout ''app'') (demo_time + int i * Second) KindFull) ''PGDMP'' s))
     (memory_New 0) [0..<60]"

lemma crowded_view:
  "i \<in> set js \<or> mem_view s (Layout_Manifest l (t + int i * Second) k) \<noteq> None \<Longrightarrow>
   mem_view (foldl (\<lambda>s i. snd (memory_write h (Layout_Manifest l (t + int i * Second) k) b s)) s js)
     (Layout_Manifest l (t + int i * Second) k) \<noteq> None"
  by (induction js arbitrary: s) (auto simp: mem_view_write)

theorem unreserved_start_zero_witness:
  "\<exists>err. run_body (memory_ops demo_hash) demo_env (demo_dumper ''PGDMP'') True demo_backup crowded_store = (Inl (err, 0), crowded_store) \<and>
    nDurationMS (failedEvent demo_backup 0 (suFailedAt demo_env) err) = 9223372036854"
proof -
  have taken: "\<not> slot_free demo_backup crowded_store (demo_time + int i * Second)" if "i < 60" for i
    using that crowded_view [of i "[0..<60]"] by (simp add: slot_free_def crowded_store_def)
  have "find (slot_free demo_backup crowded_store) (map (\<lambda>i. demo_time + int i * Second) [0..<60]) = None"
    by (subst find_None_iff) (use taken in auto)
  then obtain e where "reserve (memory_ops demo_hash) demo_backup demo_time crowded_store = (Inl e, crowded_store)"
    using reserve_loop_find [where spec = demo_backup and s = crowded_store and at = demo_time and n = 60 and h = demo_hash]
    by (auto simp: reserve_def reserveWindow_def)
  then show ?thesis
    using unreserved_start_zero [of "demo_dumper ''PGDMP''" demo_info demo_hash demo_backup demo_env crowded_store e True]
    by (simp add: demo_env_def MaxInt64_def demo_time_def Second_def)
qed

end
