(* ===== verification/Config.thy ===== *)
theory Config
  imports Complex_Main Pipeline Notify Prune
begin

text \<open>
  The configuration of \<open>internal/config\<close>: the document as it is after decoding
  (\<open>types.go\<close>), the inheritance of \<open>defaults.go\<close>, and the semantic checks of
  \<open>validate.go\<close> with the diagnostics they collect. A pointer is an option; a slice that the
  code compares with \<open>nil\<close> is an optional list. The parsers of other packages (URLs, cron
  schedules as the function from an instant to the next one, age recipients, globs), the
  iteration order of a Go map and the printing of floats are the fields of \<open>checkers\<close>.
\<close>

section \<open>Types\<close>

definition SchemaVersion :: int where "SchemaVersion = 1"

type_synonym Provider = string
definition ProviderS3 :: Provider where "ProviderS3 = ''s3''"
definition ProviderR2 :: Provider where "ProviderR2 = ''r2''"
definition ProviderMinIO :: Provider where "ProviderMinIO = ''minio''"
definition ProviderGCSInterop :: Provider where "ProviderGCSInterop = ''gcs-interop''"
definition Providers :: "Provider list" where
  "Providers = [ProviderS3, ProviderR2, ProviderMinIO, ProviderGCSInterop]"

type_synonym CompressionAlgo = string
definition CompressionZstd :: CompressionAlgo where "CompressionZstd = ''zstd''"
definition CompressionGzip :: CompressionAlgo where "CompressionGzip = ''gzip''"
definition CompressionNone :: CompressionAlgo where "CompressionNone = ''none''"
definition CompressionAlgos :: "CompressionAlgo list" where
  "CompressionAlgos = [CompressionZstd, CompressionGzip, CompressionNone]"

type_synonym EncryptionMode = string
definition EncryptionAge :: EncryptionMode where "EncryptionAge = ''age''"
definition EncryptionPassphrase :: EncryptionMode where "EncryptionPassphrase = ''passphrase''"
definition EncryptionNone :: EncryptionMode where "EncryptionNone = ''none''"
definition EncryptionModes :: "EncryptionMode list" where
  "EncryptionModes = [EncryptionAge, EncryptionPassphrase, EncryptionNone]"

type_synonym VerifyLevel = string
definition VerifyIntegrity :: VerifyLevel where "VerifyIntegrity = ''integrity''"
definition VerifyStructural :: VerifyLevel where "VerifyStructural = ''structural''"
definition VerifyRestore :: VerifyLevel where "VerifyRestore = ''restore''"
definition VerifyLevels :: "VerifyLevel list" where
  "VerifyLevels = [VerifyIntegrity, VerifyStructural, VerifyRestore]"

type_synonym AssertionType = string
definition AssertTableCount :: AssertionType where "AssertTableCount = ''table_count''"
definition AssertRowCount :: AssertionType where "AssertRowCount = ''row_count''"
definition AssertQuery :: AssertionType where "AssertQuery = ''query''"
definition AssertMaxAge :: AssertionType where "AssertMaxAge = ''max_age''"
definition AssertionTypes :: "AssertionType list" where
  "AssertionTypes = [AssertTableCount, AssertRowCount, AssertQuery, AssertMaxAge]"

type_synonym NonInnoDB = string
definition NonInnoDBModes :: "NonInnoDB list" where "NonInnoDBModes = [''warn'', ''fail'', ''lock'']"

type_synonym Spool = string
definition SpoolNone :: Spool where "SpoolNone = ''none''"
definition SpoolDisk :: Spool where "SpoolDisk = ''disk''"
definition Spools :: "Spool list" where "Spools = [SpoolNone, SpoolDisk]"

type_synonym Overlap = string
definition OverlapSkip :: Overlap where "OverlapSkip = ''skip''"
definition OverlapQueue :: Overlap where "OverlapQueue = ''queue''"
definition OverlapFail :: Overlap where "OverlapFail = ''fail''"
definition Overlaps :: "Overlap list" where "Overlaps = [OverlapSkip, OverlapQueue, OverlapFail]"

type_synonym RowEstimate = string
definition RowEstimateExact :: RowEstimate where "RowEstimateExact = ''exact''"
definition RowEstimateEstimate :: RowEstimate where "RowEstimateEstimate = ''estimate''"
definition RowEstimateOff :: RowEstimate where "RowEstimateOff = ''off''"
definition RowEstimates :: "RowEstimate list" where
  "RowEstimates = [RowEstimateExact, RowEstimateEstimate, RowEstimateOff]"

type_synonym NotifierType = string
definition NotifierWebhook :: NotifierType where "NotifierWebhook = ''webhook''"
definition NotifierTypes :: "NotifierType list" where "NotifierTypes = [NotifierWebhook]"

definition TemplateGeneric :: string where "TemplateGeneric = ''generic''"
definition ConfigTemplates :: "string list" where "ConfigTemplates = [TemplateGeneric, ''slack'', ''discord'']"

type_synonym AuthMode = string
definition AuthToken :: AuthMode where "AuthToken = ''token''"
definition AuthNone :: AuthMode where "AuthNone = ''none''"
definition AuthModes :: "AuthMode list" where "AuthModes = [AuthToken, AuthNone]"

lemmas enum_defs = ProviderS3_def ProviderR2_def ProviderMinIO_def ProviderGCSInterop_def Providers_def
  CompressionZstd_def CompressionGzip_def CompressionNone_def CompressionAlgos_def
  EncryptionAge_def EncryptionPassphrase_def EncryptionNone_def EncryptionModes_def
  VerifyIntegrity_def VerifyStructural_def VerifyRestore_def VerifyLevels_def
  SpoolNone_def SpoolDisk_def Spools_def OverlapSkip_def OverlapQueue_def OverlapFail_def Overlaps_def
  RowEstimateExact_def RowEstimateEstimate_def RowEstimateOff_def RowEstimates_def
  NotifierWebhook_def NotifierTypes_def TemplateGeneric_def ConfigTemplates_def
  AuthToken_def AuthNone_def AuthModes_def

record CfgCompression =
  ccAlgo :: CompressionAlgo
  ccLevel :: int
  ccLong :: bool

record CfgEncryption =
  ceMode :: EncryptionMode
  ceRecipients :: "string list"
  cePassphrase :: string

record TierRule =
  trKeep :: int

record WeeklyRule =
  wrKeep :: int
  wrOn :: int

record MonthlyRule =
  mrKeep :: int
  mrOn :: int

record CfgRetention =
  crHourly :: "TierRule option"
  crDaily :: "TierRule option"
  crWeekly :: "WeeklyRule option"
  crMonthly :: "MonthlyRule option"
  crYearly :: "TierRule option"
  crMinKeep :: int

definition Retention_Empty :: "CfgRetention option \<Rightarrow> bool" where
  "Retention_Empty r =
     (case r of None \<Rightarrow> True
      | Some r \<Rightarrow> crHourly r = None \<and> crDaily r = None \<and> crWeekly r = None \<and> crMonthly r = None \<and> crYearly r = None)"

record Defaults =
  dfCompression :: "CfgCompression option"
  dfEncryption :: "CfgEncryption option"
  dfRetention :: "CfgRetention option"
  dfTimeout :: "duration option"
  dfNotify :: "string list option"
  dfSpool :: Spool
  dfOnOverlap :: Overlap
  dfRowEstimate :: RowEstimate

record Destination =
  deName :: string
  deProvider :: Provider
  deBucket :: string
  deEndpoint :: string
  deRegion :: string
  dePrefix :: string
  deAccessKeyID :: string
  deSecretAccessKey :: string
  deStorageClass :: string
  deForcePathStyle :: bool

record Options =
  opExcludeTableData :: "string list"
  opIncludeGlobals :: "bool option"
  opOnNonInnoDB :: NonInnoDB
  opOplog :: "bool option"

text \<open>A \<open>float64\<close> as far as comparisons go.\<close>

datatype go_float = NaN | NegInf | PosInf | Fin rat

fun float_less :: "go_float \<Rightarrow> go_float \<Rightarrow> bool" where
  "float_less (Fin a) (Fin b) \<longleftrightarrow> a < b"
| "float_less NegInf (Fin b) \<longleftrightarrow> True"
| "float_less (Fin a) PosInf \<longleftrightarrow> True"
| "float_less NegInf PosInf \<longleftrightarrow> True"
| "float_less _ _ \<longleftrightarrow> False"

text \<open>
  What a query returns and what an assertion expects, as far as their comparison looks; an
  absent \<open>expect\<close> is \<open>GNull\<close>.
\<close>

datatype goval = GNull | GInt int | GFloat go_float | GBool bool | GStr string | GTime time

record CfgAssertion =
  asType :: AssertionType
  asTables :: "string list"
  asTolerance :: "go_float option"
  asSQL :: string
  asExpect :: goval
  asValue :: "duration option"

record VerifySpec =
  vsLevel :: VerifyLevel
  vsSchedule :: string
  vsInto :: string
  vsAssertions :: "CfgAssertion list"

record Target =
  tgName :: string
  tgEngine :: Engine
  tgDSN :: string
  tgURI :: string
  tgDestination :: string
  tgSchedule :: string
  tgOptions :: Options
  tgVerify :: "VerifySpec option"
  tgCompression :: "CfgCompression option"
  tgEncryption :: "CfgEncryption option"
  tgRetention :: "CfgRetention option"
  tgTimeout :: "duration option"
  tgNotify :: "string list option"
  tgSpool :: Spool
  tgOnOverlap :: Overlap
  tgRowEstimate :: RowEstimate

definition Target_Conn :: "Target \<Rightarrow> string" where
  "Target_Conn t = (if tgEngine t = EngineMongoDB then tgURI t else tgDSN t)"

record VerifyTarget =
  vtName :: string
  vtEngine :: Engine
  vtDSN :: string
  vtURI :: string
  vtDatabasePrefix :: string
  vtMaxConcurrent :: int

definition VerifyTarget_Conn :: "VerifyTarget \<Rightarrow> string" where
  "VerifyTarget_Conn v = (if vtEngine v = EngineMongoDB then vtURI v else vtDSN v)"

record CfgNotifier =
  cnName :: string
  cnType :: NotifierType
  cnURL :: string
  cnSecret :: string
  cnEvents :: "Event list"
  cnTemplate :: string
  cnDedupWindow :: "duration option"

record CfgServer =
  svListen :: string
  svUI :: bool
  svAuthMode :: AuthMode
  svAuthToken :: string
  svMetrics :: bool

record Config =
  cfVersion :: int
  cfDefaults :: Defaults
  cfDestinations :: "Destination list"
  cfTargets :: "Target list"
  cfVerifyTargets :: "VerifyTarget list"
  cfNotifiers :: "CfgNotifier list"
  cfServer :: CfgServer

text \<open>The lookups: the first with that name.\<close>

definition Config_Target :: "Config \<Rightarrow> string \<Rightarrow> Target option" where
  "Config_Target c name = find (\<lambda>t. tgName t = name) (cfTargets c)"

definition Config_Destination :: "Config \<Rightarrow> string \<Rightarrow> Destination option" where
  "Config_Destination c name = find (\<lambda>d. deName d = name) (cfDestinations c)"

definition Config_VerifyTarget :: "Config \<Rightarrow> string \<Rightarrow> VerifyTarget option" where
  "Config_VerifyTarget c name = find (\<lambda>v. vtName v = name) (cfVerifyTargets c)"

definition Config_Notifier :: "Config \<Rightarrow> string \<Rightarrow> CfgNotifier option" where
  "Config_Notifier c name = find (\<lambda>n. cnName n = name) (cfNotifiers c)"

section \<open>Defaults\<close>

definition builtinCompression :: CfgCompression where
  "builtinCompression = \<lparr>ccAlgo = CompressionZstd, ccLevel = 3, ccLong = True\<rparr>"
definition builtinTimeout :: duration where "builtinTimeout = 4 * Hour"
definition builtinMinKeep :: int where "builtinMinKeep = 1"
definition builtinListen :: string where "builtinListen = '':8080''"

definition defaultLevels :: "CompressionAlgo \<Rightarrow> int" where
  "defaultLevels algo = (if algo = CompressionZstd then 3 else if algo = CompressionGzip then 6 else 0)"

definition compression_defaults :: "CfgCompression \<Rightarrow> CfgCompression" where
  "compression_defaults c =
     (let c = (if ccAlgo c = [] then c\<lparr>ccAlgo := ccAlgo builtinCompression\<rparr> else c)
      in if ccLevel c = 0 then c\<lparr>ccLevel := defaultLevels (ccAlgo c)\<rparr> else c)"

definition retention_defaults :: "CfgRetention \<Rightarrow> CfgRetention" where
  "retention_defaults r =
     (let r = (if crMinKeep r = 0 then r\<lparr>crMinKeep := builtinMinKeep\<rparr> else r)
      in case crMonthly r of
           None \<Rightarrow> r
         | Some m \<Rightarrow> if mrOn m = 0 then r\<lparr>crMonthly := Some (m\<lparr>mrOn := 1\<rparr>)\<rparr> else r)"

definition verify_defaults :: "VerifySpec \<Rightarrow> VerifySpec" where
  "verify_defaults v = (if vsLevel v = [] then v\<lparr>vsLevel := VerifyIntegrity\<rparr> else v)"

definition applyDefaultsBlock :: "Defaults \<Rightarrow> Defaults" where
  "applyDefaultsBlock d =
     d\<lparr>dfCompression := Some (compression_defaults
          (case dfCompression d of None \<Rightarrow> builtinCompression | Some c \<Rightarrow> c)),
       dfTimeout := Some (case dfTimeout d of None \<Rightarrow> builtinTimeout | Some t \<Rightarrow> t),
       dfSpool := (if dfSpool d = [] then SpoolNone else dfSpool d),
       dfOnOverlap := (if dfOnOverlap d = [] then OverlapSkip else dfOnOverlap d),
       dfRowEstimate := (if dfRowEstimate d = [] then RowEstimateEstimate else dfRowEstimate d),
       dfRetention := map_option retention_defaults (dfRetention d)\<rparr>"

definition destination_defaults :: "Destination \<Rightarrow> Destination" where
  "destination_defaults d =
     (let d = (if deProvider d = ProviderR2 \<and> deRegion d = [] then d\<lparr>deRegion := ''auto''\<rparr> else d)
      in d\<lparr>dePrefix := Trim_char CHR ''/'' (dePrefix d)\<rparr>)"

text \<open>
  The clones are what an option already is: a value of its own. A copied \<open>Notify\<close> that is
  empty is \<open>nil\<close>.
\<close>

definition clone_notify :: "string list option \<Rightarrow> string list option" where
  "clone_notify n = (case n of None \<Rightarrow> None | Some [] \<Rightarrow> None | Some xs \<Rightarrow> Some xs)"

definition target_defaults :: "Defaults \<Rightarrow> Target \<Rightarrow> Target" where
  "target_defaults d t =
     t\<lparr>tgCompression := map_option compression_defaults
          (case tgCompression t of None \<Rightarrow> dfCompression d | Some c \<Rightarrow> Some c),
       tgEncryption := (case tgEncryption t of None \<Rightarrow> dfEncryption d | Some e \<Rightarrow> Some e),
       tgRetention := map_option retention_defaults
          (case tgRetention t of None \<Rightarrow> dfRetention d | Some r \<Rightarrow> Some r),
       tgTimeout := (case tgTimeout t of None \<Rightarrow> dfTimeout d | Some x \<Rightarrow> Some x),
       tgNotify := (case tgNotify t of None \<Rightarrow> clone_notify (dfNotify d) | Some ns \<Rightarrow> Some ns),
       tgSpool := (if tgSpool t = [] then dfSpool d else tgSpool t),
       tgOnOverlap := (if tgOnOverlap t = [] then dfOnOverlap d else tgOnOverlap t),
       tgRowEstimate := (if tgRowEstimate t = [] then dfRowEstimate d else tgRowEstimate t),
       tgVerify := map_option verify_defaults (tgVerify t)\<rparr>"

definition ApplyDefaults :: "Config \<Rightarrow> Config" where
  "ApplyDefaults c =
     (let d = applyDefaultsBlock (cfDefaults c); s = cfServer c in
      c\<lparr>cfDefaults := d,
        cfDestinations := map destination_defaults (cfDestinations c),
        cfTargets := map (target_defaults d) (cfTargets c),
        cfVerifyTargets := map (\<lambda>v. if vtMaxConcurrent v = 0 then v\<lparr>vtMaxConcurrent := 1\<rparr> else v) (cfVerifyTargets c),
        cfNotifiers := map (\<lambda>n. n\<lparr>cnType := (if cnType n = [] then NotifierWebhook else cnType n),
            cnTemplate := (if cnTemplate n = [] then TemplateGeneric else cnTemplate n)\<rparr>) (cfNotifiers c),
        cfServer := s\<lparr>svListen := (if svListen s = [] then builtinListen else svListen s),
            svAuthMode := (if svAuthMode s = [] then AuthToken else svAuthMode s)\<rparr>\<rparr>)"

section \<open>Diagnostics\<close>

record Diagnostic =
  dgSeverity :: string
  dgPath :: string
  dgMessage :: string

definition SeverityError :: string where "SeverityError = ''error''"
definition SeverityWarn :: string where "SeverityWarn = ''warning''"

definition errorf :: "string \<Rightarrow> string \<Rightarrow> Diagnostic list" where
  "errorf p msg = [\<lparr>dgSeverity = SeverityError, dgPath = p, dgMessage = msg\<rparr>]"

definition warnf :: "string \<Rightarrow> string \<Rightarrow> Diagnostic list" where
  "warnf p msg = [\<lparr>dgSeverity = SeverityWarn, dgPath = p, dgMessage = msg\<rparr>]"

definition HasErrors :: "Diagnostic list \<Rightarrow> bool" where
  "HasErrors ds \<longleftrightarrow> list_ex (\<lambda>d. dgSeverity d = SeverityError) ds"

definition Diagnostics_Count :: "Diagnostic list \<Rightarrow> string \<Rightarrow> nat" where
  "Diagnostics_Count ds s = length (filter (\<lambda>d. dgSeverity d = s) ds)"

definition Diagnostics_Err :: "Diagnostic list \<Rightarrow> err option" where
  "Diagnostics_Err ds =
     (let n = Diagnostics_Count ds SeverityError in
      if n = 0 then None
      else Some (ErrText (''config has '' @ Itoa (int n) @ (if n = 1 then '' error'' else '' errors''))))"

definition oneOf :: "string list \<Rightarrow> string" where "oneOf values = Join '', '' values"

definition valid_in :: "string \<Rightarrow> string list \<Rightarrow> bool" where
  "valid_in v values \<longleftrightarrow> list_ex (\<lambda>x. v = x) values"

definition path_index :: "string \<Rightarrow> nat \<Rightarrow> string" where
  "path_index p i = p @ ''['' @ Itoa (int i) @ '']''"

section \<open>Checks\<close>

text \<open>\<open>nameRE\<close> and \<open>identRE\<close>.\<close>

definition name_head :: "char \<Rightarrow> bool" where
  "name_head c \<longleftrightarrow> (CHR ''a'' \<le> c \<and> c \<le> CHR ''z'') \<or> is_digit c"

definition name_char :: "char \<Rightarrow> bool" where
  "name_char c \<longleftrightarrow> name_head c \<or> c = CHR ''_'' \<or> c = CHR ''-''"

definition nameRE_match :: "string \<Rightarrow> bool" where
  "nameRE_match s = (case s of [] \<Rightarrow> False | c # cs \<Rightarrow> name_head c \<and> list_all name_char cs)"

definition nameRE :: string where "nameRE = ''^[a-z0-9][a-z0-9_-]*$''"

definition ident_head :: "char \<Rightarrow> bool" where
  "ident_head c \<longleftrightarrow> (CHR ''a'' \<le> c \<and> c \<le> CHR ''z'') \<or> (CHR ''A'' \<le> c \<and> c \<le> CHR ''Z'') \<or> c = CHR ''_''"

definition identRE_match :: "string \<Rightarrow> bool" where
  "identRE_match s = (case s of [] \<Rightarrow> False | c # cs \<Rightarrow> ident_head c \<and> list_all (\<lambda>c. ident_head c \<or> is_digit c) cs)"

text \<open>\<open>net.SplitHostPort\<close>, as far as whether it fails.\<close>

definition split_host_port_ok :: "string \<Rightarrow> bool" where
  "split_host_port_ok s \<longleftrightarrow>
     (let before = rev (drop 1 (dropWhile (\<lambda>c. c \<noteq> CHR '':'') (rev s)));
          inside = takeWhile (\<lambda>c. c \<noteq> CHR '']'') s;
          rest = drop (length inside + 1) s
      in CHR '':'' \<in> set s \<and>
         (if HasPrefix s ''[''
          then CHR '']'' \<in> set s \<and> length inside + 1 = length before \<and>
               CHR ''['' \<notin> set (drop 1 s) \<and> CHR '']'' \<notin> set rest
          else CHR '':'' \<notin> set before \<and> CHR ''['' \<notin> set s \<and> CHR '']'' \<notin> set s))"

record checkers =
  ckURL :: "string \<Rightarrow> (string \<times> string) result"
  ckCron :: "string \<Rightarrow> (time \<Rightarrow> time) result"
  ckRecipient :: "string \<Rightarrow> string result"
  ckGlob :: "string \<Rightarrow> err option"
  ckOrder :: "(string \<times> int) list \<Rightarrow> (string \<times> int) list"
  ckFloat :: "go_float \<Rightarrow> string"

definition validateVersion :: "Config \<Rightarrow> Diagnostic list" where
  "validateVersion c =
     (if cfVersion c = 0
      then errorf ''version'' (''config has no version; add `version: '' @ Itoa SchemaVersion @ ''` at the top'')
      else if cfVersion c \<noteq> SchemaVersion
      then errorf ''version'' (''unsupported config version '' @ Itoa (cfVersion c) @ ''; this build understands version '' @ Itoa SchemaVersion)
      else [])"

definition check_destination :: "checkers \<Rightarrow> string list \<Rightarrow> nat \<Rightarrow> Destination \<Rightarrow> Diagnostic list" where
  "check_destination ck seen i dest =
     (let p = path_index ''destinations'' i; q = fmt_q (deName dest) in
      (if deName dest = [] then errorf (p @ ''.name'') (''destination #'' @ Itoa (int i + 1) @ '' has no name'')
       else if deName dest \<in> set seen then errorf (p @ ''.name'') (''duplicate destination name '' @ q)
       else if \<not> nameRE_match (deName dest)
       then errorf (p @ ''.name'') (''destination name '' @ q @ '' must match '' @ nameRE) else [])
      @ (if \<not> valid_in (deProvider dest) Providers
         then errorf (p @ ''.provider'') (''destination '' @ q @ '' has provider '' @ fmt_q (deProvider dest) @ ''; use one of '' @ oneOf Providers) else [])
      @ (if deBucket dest = [] then errorf (p @ ''.bucket'') (''destination '' @ q @ '' has no bucket'') else [])
      @ (if deProvider dest \<in> {ProviderR2, ProviderMinIO, ProviderGCSInterop} then
           (if deEndpoint dest = [] then errorf (p @ ''.endpoint'') (''destination '' @ q @ '' ('' @ deProvider dest @ '') needs an endpoint'') else [])
         else if deProvider dest = ProviderS3 then
           (if deRegion dest = [] then errorf (p @ ''.region'') (''destination '' @ q @ '' (s3) needs a region'') else [])
         else [])
      @ (if deEndpoint dest \<noteq> [] \<and>
            (case ckURL ck (deEndpoint dest) of
               Inl _ \<Rightarrow> True
             | Inr (scheme, host) \<Rightarrow> scheme \<noteq> ''https'' \<and> scheme \<noteq> ''http'' \<or> host = [])
         then errorf (p @ ''.endpoint'') (''destination '' @ q @ '' has an invalid endpoint '' @ fmt_q (deEndpoint dest) @ ''; expected an absolute http(s) URL'') else [])
      @ (if deProvider dest = ProviderR2 \<and> deStorageClass dest \<noteq> []
         then warnf (p @ ''.storage_class'') (''destination '' @ q @ '': storage_class is ignored on r2, which only offers Standard and Infrequent Access'') else [])
      @ (if (deAccessKeyID dest \<noteq> []) \<noteq> (deSecretAccessKey dest \<noteq> [])
         then errorf p (''destination '' @ q @ '' sets only one half of its credentials; set both access_key_id and secret_access_key, or neither'')
         else if deAccessKeyID dest = [] \<and> deProvider dest \<noteq> ProviderS3
         then warnf p (''destination '' @ q @ '' has no credentials; the AWS credential chain rarely resolves for provider '' @ deProvider dest) else []))"

text \<open>The loops over a list: the names seen so far, the position, the check of one element.\<close>

fun check_each :: "(string list \<Rightarrow> nat \<Rightarrow> 'a \<Rightarrow> Diagnostic list) \<Rightarrow> ('a \<Rightarrow> string) \<Rightarrow> string list \<Rightarrow> nat \<Rightarrow> 'a list \<Rightarrow> Diagnostic list" where
  "check_each f name seen i [] = []"
| "check_each f name seen i (x # xs) = f seen i x @ check_each f name (seen @ [name x]) (Suc i) xs"

definition validateDestinations :: "checkers \<Rightarrow> Config \<Rightarrow> Diagnostic list" where
  "validateDestinations ck c =
     (if cfDestinations c = [] then errorf ''destinations'' ''config has no destinations; declare at least one bucket''
      else check_each (check_destination ck) deName [] 0 (cfDestinations c))"

definition validateTargetConn :: "string \<Rightarrow> Target \<Rightarrow> Diagnostic list" where
  "validateTargetConn p t =
     (let q = fmt_q (tgName t) in
      if tgEngine t = EngineMongoDB then
        (if tgURI t = [] then errorf (p @ ''.uri'') (''target '' @ q @ '' (mongodb) has no uri'') else [])
        @ (if tgDSN t \<noteq> [] then errorf (p @ ''.dsn'') (''target '' @ q @ '' (mongodb) sets dsn; use uri instead'') else [])
      else
        (if tgDSN t = [] then errorf (p @ ''.dsn'') (''target '' @ q @ '' ('' @ tgEngine t @ '') has no dsn'') else [])
        @ (if tgURI t \<noteq> [] then errorf (p @ ''.uri'') (''target '' @ q @ '' ('' @ tgEngine t @ '') sets uri; use dsn instead'') else []))"

definition validateTargetDestination :: "Config \<Rightarrow> string \<Rightarrow> Target \<Rightarrow> Diagnostic list" where
  "validateTargetDestination c p t =
     (if tgDestination t = [] then errorf (p @ ''.destination'') (''target '' @ fmt_q (tgName t) @ '' has no destination'')
      else if Config_Destination c (tgDestination t) = None
      then errorf (p @ ''.destination'') (''target '' @ fmt_q (tgName t) @ '' writes to destination '' @ fmt_q (tgDestination t) @ '', which is not declared'')
      else [])"

definition validateAssertion :: "checkers \<Rightarrow> string \<Rightarrow> Target \<Rightarrow> CfgAssertion \<Rightarrow> Diagnostic list" where
  "validateAssertion ck p t a =
     (let q = ''target '' @ fmt_q (tgName t) in
      if \<not> valid_in (asType a) AssertionTypes
      then errorf (p @ ''.type'') (q @ '' has assertion type '' @ fmt_q (asType a) @ ''; use one of '' @ oneOf AssertionTypes)
      else if asType a = AssertRowCount then
        (case asTolerance a of
           None \<Rightarrow> []
         | Some x \<Rightarrow> if float_less x (Fin 0) \<or> float_less (Fin 1) x
             then errorf (p @ ''.tolerance'') (q @ '' has row_count tolerance '' @ ckFloat ck x @ ''; it is a fraction between 0 and 1'') else [])
        @ (if tgRowEstimate t = RowEstimateOff
           then errorf p (q @ '' asserts on row counts but sets row_estimate: off, so its manifests record none; use estimate or exact'') else [])
        @ (if asTables a = [] \<and> opExcludeTableData (tgOptions t) \<noteq> []
           then warnf (p @ ''.tables'') (q @ '' asserts row counts over every table but excludes the data of some (exclude_table_data), which restore empty; name the tables to check'') else [])
        @ (if asTolerance a = Some (Fin 0) \<and> tgRowEstimate t = RowEstimateEstimate
           then warnf (p @ ''.tolerance'') (q @ '' asserts an exact row count against estimated numbers (row_estimate: estimate); set row_estimate: exact, or allow a tolerance'') else [])
      else if asType a = AssertQuery then
        (if TrimSpace (asSQL a) = [] then errorf (p @ ''.sql'') (q @ '' has a query assertion with no sql'') else [])
        @ (if asExpect a = GNull then errorf (p @ ''.expect'') (q @ '' has a query assertion with no expect value'') else [])
        @ (if tgEngine t = EngineMongoDB
           then errorf p (q @ '' (mongodb) has a query assertion, which is SQL; assert on row counts instead'') else [])
      else if asType a = AssertMaxAge then
        (case asValue a of
           Some v \<Rightarrow> if v \<le> 0 then errorf (p @ ''.value'') (q @ '' has a max_age assertion with no positive value (for example 26h)'') else []
         | None \<Rightarrow> errorf (p @ ''.value'') (q @ '' has a max_age assertion with no positive value (for example 26h)''))
      else
        (if asTables a \<noteq> []
         then warnf (p @ ''.tables'') (q @ '' lists tables on a table_count assertion, which always counts them all'') else []))"

definition validateTargetVerify :: "checkers \<Rightarrow> Config \<Rightarrow> string \<Rightarrow> Target \<Rightarrow> Diagnostic list" where
  "validateTargetVerify ck c p0 t =
     (case tgVerify t of
        None \<Rightarrow> []
      | Some v \<Rightarrow>
          (let p = p0 @ ''.verify''; q = ''target '' @ fmt_q (tgName t) in
           (if \<not> valid_in (vsLevel v) VerifyLevels
            then errorf (p @ ''.level'') (q @ '' has verify level '' @ fmt_q (vsLevel v) @ ''; use one of '' @ oneOf VerifyLevels) else [])
           @ (if vsSchedule v \<noteq> [] then
                (case ckCron ck (vsSchedule v) of
                   Inr _ \<Rightarrow> []
                 | Inl err \<Rightarrow> errorf (p @ ''.schedule'') (q @ '' has an invalid verify schedule '' @ fmt_q (vsSchedule v) @ '': '' @ err_text err))
              else [])
           @ (if vsLevel v = VerifyRestore then
                (if vsInto v = []
                 then errorf (p @ ''.into'') (q @ '' verifies at level restore but has no `into`; name a verify target to restore into'')
                 else case Config_VerifyTarget c (vsInto v) of
                        None \<Rightarrow> errorf (p @ ''.into'') (q @ '' restores into verify target '' @ fmt_q (vsInto v) @ '', which is not declared'')
                      | Some into \<Rightarrow>
                          if vtEngine into \<noteq> tgEngine t
                          then errorf (p @ ''.into'') (q @ '' ('' @ tgEngine t @ '') restores into verify target '' @ fmt_q (vtName into)
                                 @ '' ('' @ vtEngine into @ ''); engines must match'')
                          else [])
              else if vsInto v \<noteq> []
              then warnf (p @ ''.into'') (q @ '' sets `into` but verifies at level '' @ vsLevel v @ '', which never restores'')
              else [])
           @ (if vsAssertions v \<noteq> [] \<and> vsLevel v \<noteq> VerifyRestore
              then warnf (p @ ''.assertions'') (q @ '' declares assertions but verifies at level '' @ vsLevel v @ ''; they only run at level restore'')
              else [])
           @ check_each (\<lambda>_ j a. validateAssertion ck (path_index (p @ ''.assertions'') j) t a) asType [] 0 (vsAssertions v)))"

definition validateOptions :: "checkers \<Rightarrow> string \<Rightarrow> Target \<Rightarrow> Diagnostic list" where
  "validateOptions ck p0 t =
     (let o' = tgOptions t; p = p0 @ ''.options''; q = ''target '' @ fmt_q (tgName t);
          postgresOnly = (opExcludeTableData o' \<noteq> [] \<or> opIncludeGlobals o' \<noteq> None)
      in (if postgresOnly \<and> tgEngine t \<noteq> EnginePostgres
          then errorf p (q @ '' ('' @ tgEngine t @ '') sets postgres-only options (exclude_table_data, include_globals)'') else [])
         @ check_each (\<lambda>_ j glob.
              case ckGlob ck glob of
                None \<Rightarrow> []
              | Some err \<Rightarrow> errorf (path_index (p @ ''.exclude_table_data'') j)
                  (q @ '' has an invalid exclude_table_data pattern '' @ fmt_q glob @ '': '' @ err_text err))
              (\<lambda>g. g) [] 0 (opExcludeTableData o')
         @ (if opOnNonInnoDB o' \<noteq> [] then
              (if tgEngine t \<noteq> EngineMySQL \<and> tgEngine t \<noteq> EngineMariaDB
               then errorf (p @ ''.on_non_innodb'') (q @ '' ('' @ tgEngine t @ '') sets on_non_innodb, which only applies to mysql and mariadb'')
               else if \<not> valid_in (opOnNonInnoDB o') NonInnoDBModes
               then errorf (p @ ''.on_non_innodb'') (q @ '' has on_non_innodb '' @ fmt_q (opOnNonInnoDB o') @ ''; use one of '' @ oneOf NonInnoDBModes)
               else [])
            else [])
         @ (if opOplog o' \<noteq> None \<and> tgEngine t \<noteq> EngineMongoDB
            then errorf (p @ ''.oplog'') (q @ '' ('' @ tgEngine t @ '') sets oplog, which only applies to mongodb'') else []))"

definition validateCompression :: "string \<Rightarrow> string \<Rightarrow> CfgCompression option \<Rightarrow> Diagnostic list" where
  "validateCompression p target co =
     (case co of
        None \<Rightarrow> []
      | Some c \<Rightarrow>
          (let q = ''target '' @ fmt_q target in
           if \<not> valid_in (ccAlgo c) CompressionAlgos
           then errorf (p @ ''.algo'') (q @ '' compresses with '' @ fmt_q (ccAlgo c) @ ''; use one of '' @ oneOf CompressionAlgos)
           else if ccAlgo c = CompressionZstd then
             (if ccLevel c < 1 \<or> ccLevel c > 19
              then errorf (p @ ''.level'') (q @ '' has zstd level '' @ Itoa (ccLevel c) @ ''; zstd levels run from 1 to 19'') else [])
           else if ccAlgo c = CompressionGzip then
             (if ccLevel c < 1 \<or> ccLevel c > 9
              then errorf (p @ ''.level'') (q @ '' has gzip level '' @ Itoa (ccLevel c) @ ''; gzip levels run from 1 to 9'') else [])
             @ (if ccLong c then warnf (p @ ''.long'') (q @ '' sets long on gzip, which has no long-distance matching'') else [])
           else warnf (p @ ''.algo'') (q @ '' stores its dump uncompressed'')))"

definition validateEncryption :: "checkers \<Rightarrow> string \<Rightarrow> string \<Rightarrow> CfgEncryption option \<Rightarrow> Diagnostic list" where
  "validateEncryption ck p target eo =
     (let q = ''target '' @ fmt_q target in
      case eo of
        None \<Rightarrow> errorf p (q @ '' has no encryption; set encryption.recipients or opt out with encryption.mode=none'')
      | Some e \<Rightarrow>
          if \<not> valid_in (ceMode e) EncryptionModes
          then errorf (p @ ''.mode'') (q @ '' has encryption mode '' @ fmt_q (ceMode e) @ ''; use one of '' @ oneOf EncryptionModes)
          else if ceMode e = EncryptionAge then
            (if ceRecipients e = [] then errorf (p @ ''.recipients'') (q @ '' encrypts with age but lists no recipients'') else [])
            @ check_each (\<lambda>_ j r.
                 case ckRecipient ck r of
                   Inr _ \<Rightarrow> []
                 | Inl err \<Rightarrow> errorf (path_index (p @ ''.recipients'') j) (q @ '' has an unparseable age recipient '' @ fmt_q r @ '': '' @ err_text err))
                 (\<lambda>r. r) [] 0 (ceRecipients e)
            @ (if cePassphrase e \<noteq> [] then errorf (p @ ''.passphrase'') (q @ '' sets both age recipients and a passphrase; pick one mode'') else [])
          else if ceMode e = EncryptionPassphrase then
            (if cePassphrase e = [] then errorf (p @ ''.passphrase'') (q @ '' encrypts with a passphrase but none is set'') else [])
            @ (if ceRecipients e \<noteq> [] then errorf (p @ ''.recipients'') (q @ '' sets recipients on a passphrase mode; use mode: age instead'') else [])
          else
            (if ceRecipients e \<noteq> [] \<or> cePassphrase e \<noteq> []
             then errorf p (q @ '' opts out of encryption but still carries keys; remove them or set a real mode'') else [])
            @ warnf p (q @ '' uploads its dump unencrypted (encryption.mode=none)''))"

definition tierKeep :: "TierRule option \<Rightarrow> int" where
  "tierKeep t = (case t of None \<Rightarrow> 0 | Some t \<Rightarrow> trKeep t)"

definition retention_tiers :: "CfgRetention \<Rightarrow> (string \<times> int) list" where
  "retention_tiers r =
     [(''hourly'', tierKeep (crHourly r)), (''daily'', tierKeep (crDaily r)), (''yearly'', tierKeep (crYearly r))]
     @ (case crWeekly r of None \<Rightarrow> [] | Some w \<Rightarrow> [(''weekly'', wrKeep w)])
     @ (case crMonthly r of None \<Rightarrow> [] | Some m \<Rightarrow> [(''monthly'', mrKeep m)])"

definition validateRetention :: "checkers \<Rightarrow> string \<Rightarrow> string \<Rightarrow> CfgRetention option \<Rightarrow> Diagnostic list" where
  "validateRetention ck p target ro =
     (let q = ''target '' @ fmt_q target in
      if Retention_Empty ro then warnf p (q @ '' has no retention policy; every backup is kept forever'')
      else case ro of
        None \<Rightarrow> []
      | Some r \<Rightarrow>
          (let tiers = ckOrder ck (retention_tiers r) in
           (case crWeekly r of
              None \<Rightarrow> []
            | Some w \<Rightarrow> if wrOn w < 0 \<or> wrOn w > 6
                then errorf (p @ ''.weekly.on'') (q @ '' has an invalid weekly.on '' @ Itoa (wrOn w)) else [])
           @ (case crMonthly r of
                None \<Rightarrow> []
              | Some m \<Rightarrow> if mrOn m < 1 \<or> mrOn m > 28
                  then errorf (p @ ''.monthly.on'') (q @ '' has monthly.on '' @ Itoa (mrOn m) @ ''; use 1 to 28 so every month has that day'') else [])
           @ concat (map (\<lambda>(tier, keep).
                if keep < 0 then errorf (p @ ''.'' @ tier @ ''.keep'')
                  (q @ '' keeps '' @ Itoa keep @ '' '' @ tier @ '' backups; keep cannot be negative'') else []) tiers)
           @ (if foldl (\<lambda>total tk. wrap64 (total + snd tk)) 0 tiers = 0
              then errorf p (q @ '' declares retention tiers but keeps nothing; prune would delete every backup'') else [])
           @ (if crMinKeep r < 1
              then errorf (p @ ''.min_keep'') (q @ '' has min_keep '' @ Itoa (crMinKeep r) @ ''; the floor must keep at least one backup'') else [])))"

definition validateEnum :: "string \<Rightarrow> string \<Rightarrow> string \<Rightarrow> string \<Rightarrow> string list \<Rightarrow> Diagnostic list" where
  "validateEnum p target field v values =
     (if \<not> valid_in v values
      then errorf p (''target '' @ fmt_q target @ '' has '' @ field @ '' '' @ fmt_q v @ ''; use one of '' @ oneOf values) else [])"

definition notify_list :: "string list option \<Rightarrow> string list" where
  "notify_list n = (case n of None \<Rightarrow> [] | Some xs \<Rightarrow> xs)"

definition check_target :: "checkers \<Rightarrow> Config \<Rightarrow> string list \<Rightarrow> nat \<Rightarrow> Target \<Rightarrow> Diagnostic list" where
  "check_target ck c seen i t =
     (let p = path_index ''targets'' i; q = fmt_q (tgName t) in
      (if tgName t = [] then errorf (p @ ''.name'') (''target #'' @ Itoa (int i + 1) @ '' has no name'')
       else if tgName t \<in> set seen then errorf (p @ ''.name'') (''duplicate target name '' @ q)
       else if \<not> nameRE_match (tgName t)
       then errorf (p @ ''.name'') (''target name '' @ q @ '' must match '' @ nameRE @ ''; it is used in object keys'') else [])
      @ (if \<not> Engine_Valid (tgEngine t)
         then errorf (p @ ''.engine'') (''target '' @ q @ '' has engine '' @ fmt_q (tgEngine t) @ ''; use one of '' @ oneOf Engines) else [])
      @ validateTargetConn p t
      @ validateTargetDestination c p t
      @ (if tgSchedule t = []
         then warnf (p @ ''.schedule'') (''target '' @ q @ '' has no schedule; it will only run when invoked manually'')
         else case ckCron ck (tgSchedule t) of
                Inr _ \<Rightarrow> []
              | Inl err \<Rightarrow> errorf (p @ ''.schedule'') (''target '' @ q @ '' has an invalid schedule '' @ fmt_q (tgSchedule t) @ '': '' @ err_text err))
      @ (case tgTimeout t of
           None \<Rightarrow> []
         | Some d \<Rightarrow> if d \<le> 0 then errorf (p @ ''.timeout'') (''target '' @ q @ '' has a non-positive timeout '' @ Duration_String d) else [])
      @ validateOptions ck p t
      @ validateCompression (p @ ''.compression'') (tgName t) (tgCompression t)
      @ validateEncryption ck (p @ ''.encryption'') (tgName t) (tgEncryption t)
      @ validateRetention ck (p @ ''.retention'') (tgName t) (tgRetention t)
      @ validateEnum (p @ ''.spool'') (tgName t) ''spool'' (tgSpool t) Spools
      @ validateEnum (p @ ''.on_overlap'') (tgName t) ''on_overlap'' (tgOnOverlap t) Overlaps
      @ validateEnum (p @ ''.row_estimate'') (tgName t) ''row_estimate'' (tgRowEstimate t) RowEstimates
      @ check_each (\<lambda>_ j n.
           if Config_Notifier c n = None
           then errorf (path_index (p @ ''.notify'') j) (''target '' @ q @ '' notifies '' @ fmt_q n @ '', which is not declared under notifiers'')
           else []) (\<lambda>n. n) [] 0 (notify_list (tgNotify t))
      @ validateTargetVerify ck c p t)"

definition validateTargets :: "checkers \<Rightarrow> Config \<Rightarrow> Diagnostic list" where
  "validateTargets ck c =
     (if cfTargets c = [] then errorf ''targets'' ''config has no targets; declare at least one database to back up''
      else check_each (check_target ck c) tgName [] 0 (cfTargets c))"

definition check_verify_target :: "string list \<Rightarrow> string list \<Rightarrow> nat \<Rightarrow> VerifyTarget \<Rightarrow> Diagnostic list" where
  "check_verify_target used seen i v =
     (let p = path_index ''verify_targets'' i; q = ''verify target '' @ fmt_q (vtName v) in
      (if vtName v = [] then errorf (p @ ''.name'') (''verify target #'' @ Itoa (int i + 1) @ '' has no name'')
       else if vtName v \<in> set seen then errorf (p @ ''.name'') (''duplicate verify target name '' @ fmt_q (vtName v)) else [])
      @ (if \<not> Engine_Valid (vtEngine v)
         then errorf (p @ ''.engine'') (q @ '' has engine '' @ fmt_q (vtEngine v) @ ''; use one of '' @ oneOf Engines) else [])
      @ (if VerifyTarget_Conn v = []
         then (let field = (if vtEngine v = EngineMongoDB then ''uri'' else ''dsn'') in errorf (p @ ''.'' @ field) (q @ '' has no '' @ field)) else [])
      @ (if vtDatabasePrefix v = []
         then errorf (p @ ''.database_prefix'') (q @ '' has no database_prefix; vaultd refuses to create or drop databases without one'')
         else if \<not> identRE_match (vtDatabasePrefix v)
         then errorf (p @ ''.database_prefix'') (q @ '' has database_prefix '' @ fmt_q (vtDatabasePrefix v) @ '', which is not a valid identifier prefix'') else [])
      @ (if vtMaxConcurrent v < 1
         then errorf (p @ ''.max_concurrent'') (q @ '' has max_concurrent '' @ Itoa (vtMaxConcurrent v) @ ''; it must be at least 1'') else [])
      @ (if vtName v \<notin> set used then warnf p (q @ '' is not referenced by any target'') else []))"

definition validateVerifyTargets :: "Config \<Rightarrow> Diagnostic list" where
  "validateVerifyTargets c =
     (let used = concat (map (\<lambda>t. case tgVerify t of None \<Rightarrow> [] | Some v \<Rightarrow> if vsInto v = [] then [] else [vsInto v]) (cfTargets c))
      in check_each (check_verify_target used) vtName [] 0 (cfVerifyTargets c))"

definition check_notifier :: "checkers \<Rightarrow> string list \<Rightarrow> string list \<Rightarrow> nat \<Rightarrow> CfgNotifier \<Rightarrow> Diagnostic list" where
  "check_notifier ck used seen i n =
     (let p = path_index ''notifiers'' i; q = ''notifier '' @ fmt_q (cnName n) in
      (if cnName n = [] then errorf (p @ ''.name'') (''notifier #'' @ Itoa (int i + 1) @ '' has no name'')
       else if cnName n \<in> set seen then errorf (p @ ''.name'') (''duplicate notifier name '' @ fmt_q (cnName n)) else [])
      @ (if \<not> valid_in (cnType n) NotifierTypes
         then errorf (p @ ''.type'') (q @ '' has type '' @ fmt_q (cnType n) @ ''; use one of '' @ oneOf NotifierTypes) else [])
      @ (if \<not> valid_in (cnTemplate n) ConfigTemplates
         then errorf (p @ ''.template'') (q @ '' has template '' @ fmt_q (cnTemplate n) @ ''; use one of '' @ oneOf ConfigTemplates) else [])
      @ (if cnURL n = [] then errorf (p @ ''.url'') (q @ '' has no url'')
         else case ckURL ck (cnURL n) of
                Inl _ \<Rightarrow> errorf (p @ ''.url'') (q @ '' has an invalid url'')
              | Inr (scheme, host) \<Rightarrow>
                  if host = [] then errorf (p @ ''.url'') (q @ '' has an invalid url'')
                  else if scheme \<noteq> ''https'' \<and> scheme \<noteq> ''http''
                  then errorf (p @ ''.url'') (q @ '' has url scheme '' @ fmt_q scheme @ ''; use https'')
                  else if scheme = ''http''
                  then warnf (p @ ''.url'') (q @ '' posts over plain http; the HMAC signature protects integrity, not the payload'')
                  else [])
      @ (if cnSecret n = [] then warnf (p @ ''.secret'') (q @ '' has no secret; its deliveries go out unsigned'') else [])
      @ (if cnEvents n = [] then errorf (p @ ''.events'') (q @ '' subscribes to no events'') else [])
      @ check_each (\<lambda>_ j e.
           if \<not> valid_in e Events
           then errorf (path_index (p @ ''.events'') j) (q @ '' subscribes to unknown event '' @ fmt_q e @ ''; known events are '' @ oneOf Events)
           else []) (\<lambda>e. e) [] 0 (cnEvents n)
      @ (case cnDedupWindow n of
           None \<Rightarrow> []
         | Some d \<Rightarrow> if d < 0 then errorf (p @ ''.dedup_window'') (q @ '' has a negative dedup_window'') else [])
      @ (if cnName n \<notin> set used then warnf p (q @ '' is not referenced by any target'') else []))"

definition validateNotifiers :: "checkers \<Rightarrow> Config \<Rightarrow> Diagnostic list" where
  "validateNotifiers ck c =
     (let used = concat (map (\<lambda>t. notify_list (tgNotify t)) (cfTargets c))
      in check_each (check_notifier ck used) cnName [] 0 (cfNotifiers c))"

definition validateServer :: "Config \<Rightarrow> Diagnostic list" where
  "validateServer c =
     (let s = cfServer c in
      if \<not> svUI s \<and> \<not> svMetrics s then []
      else
        (if \<not> split_host_port_ok (svListen s)
         then errorf ''server.listen'' (''server.listen '' @ fmt_q (svListen s) @ '' is not a host:port address'') else [])
        @ (if \<not> valid_in (svAuthMode s) AuthModes
           then errorf ''server.auth.mode'' (''server auth mode '' @ fmt_q (svAuthMode s) @ ''; use one of '' @ oneOf AuthModes)
           else if svAuthMode s = AuthToken \<and> svAuthToken s = []
           then errorf ''server.auth.token'' ''server auth mode is token but no token is set''
           else if svAuthMode s = AuthNone \<and> svUI s
           then warnf ''server.auth.mode'' ''the UI is served without authentication (server.auth.mode=none)''
           else []))"

definition Validate :: "checkers \<Rightarrow> Config \<Rightarrow> Diagnostic list" where
  "Validate ck c = validateVersion c @ validateDestinations ck c @ validateTargets ck c
     @ validateVerifyTargets c @ validateNotifiers ck c @ validateServer c"

end
