(* ===== verification/Verify.thy ===== *)
theory Verify
  imports Config Backup "HOL-Library.Log_Nat"
begin

text \<open>
  Verification of a stored backup: \<open>internal/verify\<close> and the restore it drives,
  \<open>internal/restore\<close>. The store is a record of operations as everywhere; the staging server
  is one too (\<open>core.Provisioner\<close> and the sandboxes it makes), on a state of its own. The clock
  readings, the keys, the codecs and the context are the record \<open>verify_env\<close>. A
  \<open>float64\<close> is a rational rounded to 53 significant bits, half to even, without the limits of
  the exponent.
\<close>

section \<open>Floating point\<close>

definition round_half_even :: "rat \<Rightarrow> int" where
  "round_half_even x =
     (let q = \<lfloor>x\<rfloor>; r = x - of_int q in
      if r < 1 / 2 then q else if r > 1 / 2 then q + 1 else if even q then q else q + 1)"

definition pow2 :: "int \<Rightarrow> rat" where
  "pow2 e = (if 0 \<le> e then 2 ^ nat e else 1 / 2 ^ nat (- e))"

definition round64 :: "rat \<Rightarrow> rat" where
  "round64 x =
     (if x = 0 then 0
      else let (p, q) = quotient_of \<bar>x\<bar>;
               e0 = bitlen p - bitlen q;
               e = (if \<bar>x\<bar> < pow2 e0 then e0 - 1 else e0);
               y = of_int (round_half_even (\<bar>x\<bar> / pow2 (e - 52))) * pow2 (e - 52)
           in if x < 0 then - y else y)"

definition float_of :: "int \<Rightarrow> rat" where
  "float_of n = round64 (of_int n)"

section \<open>Values and assertions\<close>

definition asNumber :: "goval \<Rightarrow> go_float option" where
  "asNumber v = (case v of GInt n \<Rightarrow> Some (Fin (float_of n)) | GFloat x \<Rightarrow> Some x | _ \<Rightarrow> None)"

definition float_eq :: "go_float \<Rightarrow> go_float \<Rightarrow> bool" where
  "float_eq x y \<longleftrightarrow> x \<noteq> NaN \<and> x = y"

definition renderValue :: "(go_float \<Rightarrow> string) \<Rightarrow> goval \<Rightarrow> string" where
  "renderValue ft v =
     (case v of GNull \<Rightarrow> ''null'' | GStr s \<Rightarrow> s | GTime t \<Rightarrow> fmt_RFC3339 UTC t
      | GInt n \<Rightarrow> Itoa n | GFloat x \<Rightarrow> ft x | GBool b \<Rightarrow> if b then ''true'' else ''false'')"

definition valuesEqual :: "(go_float \<Rightarrow> string) \<Rightarrow> goval \<Rightarrow> goval \<Rightarrow> bool" where
  "valuesEqual ft got want =
     (case (asNumber got, asNumber want) of
        (Some x, Some y) \<Rightarrow> float_eq x y
      | _ \<Rightarrow> (case (got, want) of
                (GBool a, GBool b) \<Rightarrow> a = b
              | _ \<Rightarrow> renderValue ft got = renderValue ft want))"

record Assertion =
  aType :: AssertionType
  aTables :: "string list"
  aTolerance :: "go_float option"
  aSQL :: string
  aExpect :: goval
  aMaxAge :: duration

record Check =
  chType :: AssertionType
  chTable :: string
  chOK :: bool
  chDetail :: string

text \<open>The inspector of a restored database: what its calls answer.\<close>

record inspector =
  inTables :: "string list result"
  inCountRows :: "string \<Rightarrow> int result"
  inScalar :: "string \<Rightarrow> goval result"

definition tableCountCheck :: "inspector \<Rightarrow> Manifest \<Rightarrow> Check" where
  "tableCountCheck ins m =
     (case inTables ins of
        Inl err \<Rightarrow> \<lparr>chType = AssertTableCount, chTable = [], chOK = False,
          chDetail = ''the restored tables could not be listed: '' @ err_text err\<rparr>
      | Inr tables \<Rightarrow>
          if length tables \<noteq> length (mfTables m)
          then \<lparr>chType = AssertTableCount, chTable = [], chOK = False,
            chDetail = ''the restored database holds '' @ Itoa (int (length tables)) @ '' tables, the manifest records '' @ Itoa (int (length (mfTables m)))\<rparr>
          else \<lparr>chType = AssertTableCount, chTable = [], chOK = True,
            chDetail = Itoa (int (length tables)) @ '' tables, as the manifest records''\<rparr>)"

definition unqualified :: "string \<Rightarrow> string" where
  "unqualified name = (case Cut name ''.'' of (_, table, found) \<Rightarrow> if found then table else name)"

definition select_one :: "TableInfo list \<Rightarrow> string \<Rightarrow> TableInfo option" where
  "select_one tables name = find (\<lambda>t. tiName t = name \<or> unqualified (tiName t) = name) tables"

definition selectTables :: "Manifest \<Rightarrow> string list \<Rightarrow> TableInfo list \<times> string list" where
  "selectTables m names =
     (if names = [] then (mfTables m, [])
      else (List.map_filter (select_one (mfTables m)) names, filter (\<lambda>n. select_one (mfTables m) n = None) names))"

definition estimateTolerance :: rat where "estimateTolerance = round64 (1 / 5)"

definition toleranceFor :: "Assertion \<Rightarrow> TableInfo \<Rightarrow> go_float \<times> bool" where
  "toleranceFor a t =
     (case aTolerance a of
        Some x \<Rightarrow> (x, False)
      | None \<Rightarrow> if tiRowsExact t then (Fin 0, False) else (Fin estimateTolerance, True))"

definition withinTolerance :: "int \<Rightarrow> int \<Rightarrow> go_float \<Rightarrow> bool" where
  "withinTolerance want got tolerance =
     (if want = got then True
      else case tolerance of
             NaN \<Rightarrow> False
           | NegInf \<Rightarrow> False
           | PosInf \<Rightarrow> float_of want \<noteq> 0
           | Fin t \<Rightarrow>
               if t \<le> 0 then False
               else \<bar>round64 (float_of got - float_of want)\<bar> \<le> round64 (t * \<bar>float_of want\<bar>))"

text \<open>\<open>%.0f\<close> of a hundred times the tolerance.\<close>

definition percent :: "go_float \<Rightarrow> string" where
  "percent x =
     (case x of NaN \<Rightarrow> ''NaN'' | NegInf \<Rightarrow> ''-Inf'' | PosInf \<Rightarrow> ''+Inf'' | Fin t \<Rightarrow> Itoa (round_half_even (round64 (t * 100)))) @ ''%''"

definition hasRowCounts :: "Manifest \<Rightarrow> bool" where
  "hasRowCounts m \<longleftrightarrow> list_ex (\<lambda>t. tiRowsExact t \<or> tiRows t > 0) (mfTables m)"

definition row_check :: "inspector \<Rightarrow> Assertion \<Rightarrow> TableInfo \<Rightarrow> Check" where
  "row_check ins a t =
     (case inCountRows ins (tiName t) of
        Inl err \<Rightarrow> \<lparr>chType = AssertRowCount, chTable = tiName t, chOK = False, chDetail = ''the rows could not be counted: '' @ err_text err\<rparr>
      | Inr got \<Rightarrow>
          (let (tolerance, estimated) = toleranceFor a t;
               against = (if estimated then ''estimated, within '' @ percent tolerance
                          else if float_less (Fin 0) tolerance then ''within '' @ percent tolerance else ''counted'')
           in if \<not> withinTolerance (tiRows t) got tolerance
              then \<lparr>chType = AssertRowCount, chTable = tiName t, chOK = False,
                chDetail = tiName t @ '' came back with '' @ Itoa got @ '' rows, the manifest records '' @ Itoa (tiRows t) @ '' ('' @ against @ '')''\<rparr>
              else \<lparr>chType = AssertRowCount, chTable = tiName t, chOK = True,
                chDetail = tiName t @ '': '' @ Itoa got @ '' rows against '' @ Itoa (tiRows t) @ '' in the manifest ('' @ against @ '')''\<rparr>))"

definition rowCountChecks :: "inspector \<Rightarrow> Manifest \<Rightarrow> Assertion \<Rightarrow> Check list" where
  "rowCountChecks ins m a =
     (if \<not> hasRowCounts m
      then [\<lparr>chType = AssertRowCount, chTable = [], chOK = False,
        chDetail = ''the manifest records no row counts to compare against; set row_estimate to estimate or exact on this target, or drop the row_count assertion''\<rparr>]
      else let (tables, missing) = selectTables m (aTables a) in
        map (\<lambda>name. \<lparr>chType = AssertRowCount, chTable = name, chOK = False, chDetail = ''the manifest records no table named '' @ name\<rparr>) missing
        @ map (row_check ins a) tables)"

definition oneLine :: "string \<Rightarrow> string" where
  "oneLine s = Join '' '' (Fields s)"

definition queryCheck :: "(go_float \<Rightarrow> string) \<Rightarrow> inspector \<Rightarrow> Assertion \<Rightarrow> Check" where
  "queryCheck ft ins a =
     (case inScalar ins (aSQL a) of
        Inl err \<Rightarrow>
          if errors_Is err ErrQueryUnsupported
          then \<lparr>chType = AssertQuery, chTable = [], chOK = False, chDetail = ''this engine has no queries to assert on''\<rparr>
          else \<lparr>chType = AssertQuery, chTable = [], chOK = False, chDetail = ''the assertion query failed: '' @ err_text err\<rparr>
      | Inr v \<Rightarrow>
          if \<not> valuesEqual ft v (aExpect a)
          then \<lparr>chType = AssertQuery, chTable = [], chOK = False,
            chDetail = oneLine (aSQL a) @ '' returned '' @ renderValue ft v @ '', the assertion expects '' @ renderValue ft (aExpect a)\<rparr>
          else \<lparr>chType = AssertQuery, chTable = [], chOK = True,
            chDetail = oneLine (aSQL a) @ '' returned '' @ renderValue ft v @ '', as expected''\<rparr>)"

definition round_age :: "duration \<Rightarrow> duration" where
  "round_age d = (if d < Minute then Duration_Round d Second else Duration_Round d Minute)"

definition maxAgeCheck :: "Manifest \<Rightarrow> Assertion \<Rightarrow> time \<Rightarrow> Check" where
  "maxAgeCheck m a now =
     (let age = Age m now in
      if age > aMaxAge a
      then \<lparr>chType = AssertMaxAge, chTable = [], chOK = False,
        chDetail = ''the backup is '' @ Duration_String (round_age age) @ '' old; the assertion allows '' @ Duration_String (aMaxAge a)\<rparr>
      else \<lparr>chType = AssertMaxAge, chTable = [], chOK = True,
        chDetail = ''the backup is '' @ Duration_String (round_age age) @ '' old, within '' @ Duration_String (aMaxAge a)\<rparr>)"

definition assertion_checks :: "(go_float \<Rightarrow> string) \<Rightarrow> inspector \<Rightarrow> Manifest \<Rightarrow> time \<Rightarrow> Assertion \<Rightarrow> Check list" where
  "assertion_checks ft ins m now a =
     (if aType a = AssertTableCount then [tableCountCheck ins m]
      else if aType a = AssertRowCount then rowCountChecks ins m a
      else if aType a = AssertQuery then [queryCheck ft ins a]
      else if aType a = AssertMaxAge then [maxAgeCheck m a now]
      else [\<lparr>chType = aType a, chTable = [], chOK = False, chDetail = ''unknown assertion type '' @ fmt_q (aType a)\<rparr>])"

text \<open>\<open>ctxErr i\<close> is what the context reports before the \<open>i\<close>th assertion.\<close>

fun runAssertions :: "(nat \<Rightarrow> err option) \<Rightarrow> (go_float \<Rightarrow> string) \<Rightarrow> inspector \<Rightarrow> Manifest \<Rightarrow> time \<Rightarrow> nat \<Rightarrow> Assertion list \<Rightarrow> Check list result" where
  "runAssertions ctxErr ft ins m now i [] = Inr []"
| "runAssertions ctxErr ft ins m now i (a # as) =
     (case ctxErr i of
        Some err \<Rightarrow> Inl err
      | None \<Rightarrow>
          (case runAssertions ctxErr ft ins m now (Suc i) as of
             Inl err \<Rightarrow> Inl err
           | Inr checks \<Rightarrow> Inr (assertion_checks ft ins m now a @ checks)))"

section \<open>The shape of a dump\<close>

definition headBytes :: nat where "headBytes = 512"
definition tailBytes :: nat where "tailBytes = 4 * 1024"

text \<open>The window of a validator over the chunks that went past, and what it is after all of them.\<close>

record window =
  wiHead :: string
  wiTail :: string
  wiTotal :: int

definition window_Write :: "window \<Rightarrow> string \<Rightarrow> window" where
  "window_Write w p =
     (let hd' = (if length (wiHead w) < headBytes then wiHead w @ take (min (length p) (headBytes - length (wiHead w))) p else wiHead w);
          tl' = wiTail w @ p;
          tl'' = (if length tl' > tailBytes then drop (length tl' - tailBytes) tl' else tl')
      in \<lparr>wiHead = hd', wiTail = tl'', wiTotal = wiTotal w + int (length p)\<rparr>)"

definition empty_window :: window where
  "empty_window = \<lparr>wiHead = [], wiTail = [], wiTotal = 0\<rparr>"

text \<open>\<open>Validate\<close> and \<open>Describe\<close> of the validator of an engine.\<close>

definition validator_Validate :: "Engine \<Rightarrow> window \<Rightarrow> err option" where
  "validator_Validate engine w =
     (if wiTotal w = 0 then Some (ErrText ''the backup is empty'')
      else if engine = EnginePostgres then
        (if HasPrefix (wiHead w) ''PGDMP'' then None
         else Some (ErrText ''the decrypted stream does not start like a pg_dump custom-format archive''))
      else if engine = EngineMongoDB then
        (if HasPrefix (wiHead w) [CHR 0x6D, CHR 0xE2, CHR 0x99, CHR 0x81] then None
         else Some (ErrText ''the decrypted stream does not start like a mongodump archive''))
      else if engine = EngineMySQL \<or> engine = EngineMariaDB then
        (if \<not> Contains (wiHead w) ''MySQL dump'' \<and> \<not> Contains (wiHead w) ''MariaDB dump''
         then Some (ErrText ''the decrypted stream does not start like a mysqldump or mariadb-dump file'')
         else if \<not> Contains (wiTail w) ''Dump completed''
         then Some (ErrText ''the dump has no completion marker, so it was cut short'')
         else None)
      else None)"

definition validator_Describe :: "Engine \<Rightarrow> string" where
  "validator_Describe engine =
     (if engine = EnginePostgres then ''a pg_dump custom-format archive''
      else if engine = EngineMongoDB then ''a mongodump archive''
      else if engine = EngineMySQL \<or> engine = EngineMariaDB then ''a mysqldump or mariadb-dump file''
      else ''a non-empty dump'')"

section \<open>Levels\<close>

type_synonym Level = string

definition LevelIntegrity :: Level where "LevelIntegrity = ''integrity''"
definition LevelStructural :: Level where "LevelStructural = ''structural''"
definition LevelRestore :: Level where "LevelRestore = ''restore''"

lemmas level_defs = LevelIntegrity_def LevelStructural_def LevelRestore_def

record VResult =
  vrLevel :: Level
  vrOK :: bool
  vrAt :: time
  vrProblems :: "string list"
  vrDetails :: fields
  vrSkipped :: bool
  vrReason :: string
  vrDuration :: duration
  vrChecks :: "Check list"

definition zero_VResult :: VResult where
  "zero_VResult = \<lparr>vrLevel = [], vrOK = False, vrAt = 0, vrProblems = [], vrDetails = [], vrSkipped = False,
     vrReason = [], vrDuration = 0, vrChecks = []\<rparr>"

definition Summary :: "VResult \<Rightarrow> string \<Rightarrow> string" where
  "Summary r target =
     (if vrSkipped r then ''skipped: '' @ target @ '' was not verified: '' @ vrReason r
      else if vrOK r then ''ok: '' @ target @ '' passed '' @ vrLevel r @ '' verification''
      else case vrProblems r of
             [] \<Rightarrow> target @ '' failed '' @ vrLevel r @ '' verification''
           | p # _ \<Rightarrow> target @ '' failed '' @ vrLevel r @ '' verification: '' @ p)"

definition problem :: "string \<Rightarrow> VResult \<Rightarrow> VResult" where
  "problem p r = r\<lparr>vrOK := False, vrProblems := vrProblems r @ [p]\<rparr>"

definition detail :: "string \<Rightarrow> json \<Rightarrow> VResult \<Rightarrow> VResult" where
  "detail k v r = r\<lparr>vrDetails := map_put k v (vrDetails r)\<rparr>"

record verify_env =
  veCodecs :: codecs
  veHash :: "string \<Rightarrow> string"
  veIdentities :: "string list"
  vePassphrase :: string
  veStarted :: time
  veFinished :: time
  veRead :: nat
  veRestoreTook :: duration
  veAssertNow :: time
  veCtxErr :: "nat \<Rightarrow> err option"
  veCanceled :: "err option"
  veMidStream :: bool
  veFloatText :: "go_float \<Rightarrow> string"
  veAssertions :: "Assertion list"
  vePrefix :: string

subsection \<open>Integrity\<close>

definition check_object :: "string \<Rightarrow> StoredObject \<Rightarrow> ObjectInfo \<Rightarrow> VResult \<Rightarrow> VResult" where
  "check_object what ob info r =
     (let r = detail (what @ ''_bytes'') (json_int (oBytes info)) r;
          r = (if oBytes info \<noteq> soBytes ob
               then problem (''the '' @ what @ '' is '' @ Itoa (oBytes info) @ '' bytes in the bucket but the manifest records '' @ Itoa (soBytes ob)) r
               else r)
      in if oSHA256 info \<noteq> [] \<and> oSHA256 info \<noteq> soSHA256 ob
         then problem (''the '' @ what @ '' checksum in the bucket does not match the manifest'') r else r)"

fun integrity_loop :: "'s store_ops \<Rightarrow> (string \<times> StoredObject) list \<Rightarrow> VResult \<Rightarrow> ('s, VResult) action" where
  "integrity_loop ops [] r s = (Inr r, s)"
| "integrity_loop ops ((what, ob) # rest) r s =
     (case sHead ops (soKey ob) s of
        (Inl err, s1) \<Rightarrow>
          if errors_Is err ErrNotFound
          then integrity_loop ops rest (problem (''the '' @ what @ '' '' @ soKey ob @ '' is missing from the bucket'') r) s1
          else (Inl err, s1)
      | (Inr info, s1) \<Rightarrow> integrity_loop ops rest (check_object what ob info r) s1)"

definition manifest_objects :: "Manifest \<Rightarrow> (string \<times> StoredObject) list" where
  "manifest_objects m = (''object'', mfObject m) # (case mfGlobals m of None \<Rightarrow> [] | Some g \<Rightarrow> [(''globals'', g)])"

definition integrity :: "'s store_ops \<Rightarrow> Manifest \<Rightarrow> ('s, VResult) action" where
  "integrity ops m = integrity_loop ops (manifest_objects m) (zero_VResult\<lparr>vrOK := True\<rparr>)"

subsection \<open>Structural\<close>

definition canDecrypt :: "verify_env \<Rightarrow> PipeSpec \<Rightarrow> err option" where
  "canDecrypt env spec =
     (if enMode (psEncryption spec) = ModeAge \<and> veIdentities env = []
      then Some (ErrText ''this backup is age-encrypted; pass the private key with --identity-file to verify it'')
      else if enMode (psEncryption spec) = ModePassphrase \<and> vePassphrase env = []
      then Some (ErrText ''this backup is encrypted with a passphrase; the config must supply it to verify'')
      else None)"

definition addCiphertext :: "Manifest \<Rightarrow> Sum \<Rightarrow> VResult \<Rightarrow> VResult" where
  "addCiphertext m sm r =
     (let r = detail ''object_sha256'' (JStr (suSHA256 sm)) r in
      if suBytes sm = soBytes (mfObject m) \<and> suSHA256 sm \<noteq> soSHA256 (mfObject m)
      then problem ''the checksum of the stored object does not match the manifest'' r else r)"

fun no_identity :: "err \<Rightarrow> unit option" where
  "no_identity ErrNoIdentityMatch = Some ()"
| "no_identity _ = None"

definition check_plaintext :: "verify_env \<Rightarrow> Manifest \<Rightarrow> string \<Rightarrow> VResult \<Rightarrow> VResult" where
  "check_plaintext env m plain r =
     (let sm = sum_of (veHash env) plain;
          r = detail ''plaintext_sha256'' (JStr (suSHA256 sm)) (detail ''plaintext_bytes'' (json_int (suBytes sm)) r);
          r = (if suBytes sm \<noteq> ptBytes (mfPlaintext m)
               then problem (''the restored stream is '' @ Itoa (suBytes sm) @ '' bytes but the manifest records '' @ Itoa (ptBytes (mfPlaintext m))) r else r);
          r = (if suSHA256 sm \<noteq> ptSHA256 (mfPlaintext m)
               then problem ''the checksum of the restored stream does not match the manifest'' r else r)
      in case validator_Validate (mfEngine m) (window_Write empty_window plain) of
           Some err \<Rightarrow> problem (err_text err) r
         | None \<Rightarrow> detail ''format'' (JStr (validator_Describe (mfEngine m))) r)"

text \<open>
  The checksum is taken of what the decoder drew from the object. A decoder that reaches the end of
  its output has seen the end of its input (zstd and gzip look for a next frame, age for data after
  the last chunk), so on success that is the whole object; on a failure it is the first
  \<open>veRead\<close> bytes.
\<close>

definition structural_read :: "verify_env \<Rightarrow> Manifest \<Rightarrow> PipeSpec \<Rightarrow> string \<Rightarrow> VResult \<Rightarrow> VResult result" where
  "structural_read env m spec body r =
     (case pipe_Reader (veCodecs env) spec (veIdentities env) body of
        Inl err \<Rightarrow>
          if errors_As no_identity err \<noteq> None
          then Inl (ErrText ''none of the supplied identities can decrypt this backup; check --identity-file'')
          else Inr (addCiphertext m (sum_of (veHash env) (take (veRead env) body))
                 (problem (''the backup could not be read back: '' @ err_text err) r))
      | Inr plain \<Rightarrow> Inr (check_plaintext env m plain (addCiphertext m (sum_of (veHash env) body) r)))"

definition structural :: "'s store_ops \<Rightarrow> verify_env \<Rightarrow> Manifest \<Rightarrow> ('s, VResult) action" where
  "structural ops env m s =
     (case integrity ops m s of
        (Inl err, s1) \<Rightarrow> (Inl err, s1)
      | (Inr r, s1) \<Rightarrow>
          if \<not> vrOK r then (Inr r, s1)
          else
            case ParseSpec (prCompression (mfPipeline m)) (prEncryption (mfPipeline m)) of
              Inl err \<Rightarrow> (Inl err, s1)
            | Inr spec0 \<Rightarrow>
                (let spec = with_passphrase (vePassphrase env) spec0 in
                 case canDecrypt env spec of
                   Some err \<Rightarrow> (Inl err, s1)
                 | None \<Rightarrow>
                     (case sGet ops (soKey (mfObject m)) s1 of
                        (Inl err, s2) \<Rightarrow> (Inl err, s2)
                      | (Inr body, s2) \<Rightarrow> (structural_read env m spec body r, s2))))"

section \<open>Restoring\<close>

text \<open>
  \<open>core.Restorer\<close>: whether the destination is empty, and applying a stream, which answers an
  error or nothing and how much of the stream it read. A stream that fails half way is \<open>Inl\<close>.
\<close>

record 'p restorer =
  rsIsEmpty :: "('p, bool) action"
  rsRestore :: "string result \<Rightarrow> 'p \<Rightarrow> (err option \<times> nat) \<times> 'p"

record RestoreSpec =
  reIdentities :: "string list"
  rePassphrase :: string
  reForce :: bool

record RestoreResult =
  rrBytes :: int
  rrSHA256 :: string
  rrDuration :: duration
  rrMatched :: bool

definition zero_RestoreResult :: RestoreResult where
  "zero_RestoreResult = \<lparr>rrBytes = 0, rrSHA256 = [], rrDuration = 0, rrMatched = False\<rparr>"

definition short_sum :: "string \<Rightarrow> string" where
  "short_sum x = (if length x \<le> 12 then x else take 12 x @ [CHR 0xE2, CHR 0x80, CHR 0xA6])"

definition restore_key_missing :: "RestoreSpec \<Rightarrow> PipeSpec \<Rightarrow> err option" where
  "restore_key_missing rs spec =
     (if enMode (psEncryption spec) = ModeAge \<and> reIdentities rs = []
      then Some (ErrText ''this backup is age-encrypted; pass the private key with --identity-file'')
      else if enMode (psEncryption spec) = ModePassphrase \<and> rePassphrase rs = []
      then Some (ErrText ''this backup is encrypted with a passphrase; the config must supply it'')
      else None)"

text \<open>The stream applied, and what was read of it compared with the manifest.\<close>

definition apply_stream ::
  "'p restorer \<Rightarrow> verify_env \<Rightarrow> Manifest \<Rightarrow> string result \<Rightarrow> 's \<times> 'p \<Rightarrow> (RestoreResult \<times> err option) \<times> ('s \<times> 'p)" where
  "apply_stream box env m body st =
     (case rsRestore box body (snd st) of
        ((Some err, _), p1) \<Rightarrow> ((zero_RestoreResult, Some err), (fst st, p1))
      | ((None, n), p1) \<Rightarrow>
          (let data = take n (case body of Inr x \<Rightarrow> x | Inl _ \<Rightarrow> []);
               r = \<lparr>rrBytes = int (length data), rrSHA256 = veHash env data, rrDuration = veRestoreTook env,
                    rrMatched = (veHash env data = ptSHA256 (mfPlaintext m) \<and> int (length data) = ptBytes (mfPlaintext m))\<rparr>
           in (if rrMatched r then (r, None)
               else (r, Some (ErrText (''the restored stream does not match the manifest: the restore applied, but what was written is not what was backed up: ''
                  @ Itoa (rrBytes r) @ '' bytes with checksum '' @ short_sum (rrSHA256 r) @ '', against ''
                  @ Itoa (ptBytes (mfPlaintext m)) @ '' and '' @ short_sum (ptSHA256 (mfPlaintext m)) @ '' in the manifest''))), (fst st, p1))))"

definition restore_Run ::
  "'s store_ops \<Rightarrow> 'p restorer \<Rightarrow> verify_env \<Rightarrow> Manifest \<Rightarrow> RestoreSpec \<Rightarrow> 's \<times> 'p \<Rightarrow> (RestoreResult \<times> err option) \<times> ('s \<times> 'p)" where
  "restore_Run ops box env m rs st =
     (let fail = (\<lambda>err st'. ((zero_RestoreResult, Some err), st')) in
      case rsIsEmpty box (snd st) of
        (Inl err, p1) \<Rightarrow> fail err (fst st, p1)
      | (Inr isEmpty, p1) \<Rightarrow>
          if \<not> isEmpty \<and> \<not> reForce rs then fail ErrDestinationNotEmpty (fst st, p1)
          else
            case ParseSpec (prCompression (mfPipeline m)) (prEncryption (mfPipeline m)) of
              Inl err \<Rightarrow> fail err (fst st, p1)
            | Inr spec0 \<Rightarrow>
                (let spec = with_passphrase (rePassphrase rs) spec0 in
                 case restore_key_missing rs spec of
                   Some err \<Rightarrow> fail err (fst st, p1)
                 | None \<Rightarrow>
                     (case sGet ops (soKey (mfObject m)) (fst st) of
                        (Inl err, s1) \<Rightarrow> fail err (s1, p1)
                      | (Inr body, s1) \<Rightarrow>
                          (case pipe_Reader (veCodecs env) spec (reIdentities rs) body of
                             Inl err \<Rightarrow> if veMidStream env then apply_stream box env m (Inl err) (s1, p1) else fail err (s1, p1)
                           | Inr plain \<Rightarrow> apply_stream box env m (Inr plain) (s1, p1)))))"

section \<open>Restore verification\<close>

record 'p staging =
  pvProbe :: "('p, ServerInfo) action"
  pvCreate :: "string \<Rightarrow> TableInfo list \<Rightarrow> ('p, unit) action"
  pvList :: "('p, string list) action"
  pvDrop :: "string \<Rightarrow> ('p, unit) action"
  pvBox :: "string \<Rightarrow> 'p restorer"
  pvBoxDrop :: "string \<Rightarrow> ('p, unit) action"
  pvInspect :: "string \<Rightarrow> 'p \<Rightarrow> inspector"

definition majorVersion :: "string \<Rightarrow> int" where
  "majorVersion version = (case Atoi (takeWhile is_digit version) of None \<Rightarrow> 0 | Some n \<Rightarrow> n)"

definition versionSkip :: "Manifest \<Rightarrow> ServerInfo \<Rightarrow> string" where
  "versionSkip m info =
     (let source = majorVersion (mfServerVersion m); staging = majorVersion (siVersion info) in
      if source = 0 \<or> staging = 0 then []
      else if staging < source
      then ''the verify target runs '' @ siVersion info @ '' and this backup came from '' @ mfServerVersion m
             @ ''; restoring needs a server at least as new''
      else [])"

definition sandboxName :: "string \<Rightarrow> string \<Rightarrow> string" where
  "sandboxName prefix i = prefix @ ToLower i"

definition problemBytes :: nat where "problemBytes = 1000"

definition problemText :: "err \<Rightarrow> string" where
  "problemText err =
     (let text = oneLine (err_text err) in
      if length text > problemBytes then take problemBytes text @ [CHR 0xE2, CHR 0x80, CHR 0xA6] else text)"

definition cannotRun :: "verify_env \<Rightarrow> err \<Rightarrow> err option" where
  "cannotRun env err =
     (if veCanceled env \<noteq> None then Some err
      else if errors_As no_identity err \<noteq> None
      then Some (ErrText ''none of the supplied identities can decrypt this backup; check --identity-file'')
      else if errors_Is err ErrDestinationNotEmpty
      then Some (ErrJoin ''; run `vaultd verify --gc`'' (ErrWrap ''the verify database is not empty'' err) (ErrText []))
      else None)"

definition check_json :: "Check \<Rightarrow> json" where
  "check_json c = JObj ([(''type'', JStr (chType c))] @ omit_str ''table'' (chTable c)
     @ [(''ok'', JBool (chOK c)), (''detail'', JStr (chDetail c))])"

definition failed_checks :: "Check list \<Rightarrow> VResult \<Rightarrow> VResult" where
  "failed_checks checks r = foldl (\<lambda>r c. if chOK c then r else problem (chDetail c) r) r checks"

text \<open>What happens between the creation of the sandbox and its drop.\<close>

definition in_sandbox ::
  "'s store_ops \<Rightarrow> 'p staging \<Rightarrow> verify_env \<Rightarrow> Manifest \<Rightarrow> ServerInfo \<Rightarrow> string \<Rightarrow> 's \<times> 'p \<Rightarrow> VResult result \<times> ('s \<times> 'p)" where
  "in_sandbox ops pv env m info name st =
     (let r0 = detail ''verify_target_version'' (JStr (siVersion info))
            (detail ''verify_database'' (JStr name) (zero_VResult\<lparr>vrOK := True\<rparr>)) in
      case restore_Run ops (pvBox pv name) env m \<lparr>reIdentities = veIdentities env, rePassphrase = vePassphrase env, reForce = False\<rparr> st of
        ((restored, Some err), st1) \<Rightarrow>
          (case cannotRun env err of
             Some failure \<Rightarrow> (Inl failure, st1)
           | None \<Rightarrow>
               (let r = problem (''the backup did not restore: '' @ problemText err) r0
                in (Inr (if rrBytes restored > 0 then detail ''plaintext_bytes'' (json_int (rrBytes restored)) r else r), st1)))
      | ((restored, None), st1) \<Rightarrow>
          (let r = detail ''restore_ms'' (json_int (Duration_Milliseconds (rrDuration restored)))
                 (detail ''plaintext_sha256'' (JStr (rrSHA256 restored))
                   (detail ''plaintext_bytes'' (json_int (rrBytes restored)) r0))
           in case runAssertions (veCtxErr env) (veFloatText env) (pvInspect pv name (snd st1)) m (veAssertNow env) 0 (veAssertions env) of
                Inl err \<Rightarrow> (Inl err, st1)
              | Inr checks \<Rightarrow>
                  (Inr (if checks = [] then r
                        else failed_checks checks ((detail ''assertions'' (JArr (map check_json checks)) r)\<lparr>vrChecks := checks\<rparr>)), st1)))"

definition verify_restore ::
  "'s store_ops \<Rightarrow> 'p staging option \<Rightarrow> verify_env \<Rightarrow> Manifest \<Rightarrow> 's \<times> 'p \<Rightarrow> VResult result \<times> ('s \<times> 'p)" where
  "verify_restore ops sandbox env m st =
     (case sandbox of
        None \<Rightarrow> (Inl (ErrText (''target '' @ fmt_q (mfTarget m)
          @ '' has no verify target to restore into; set verify.into and declare it under verify_targets'')), st)
      | Some pv \<Rightarrow>
          (case ParseSpec (prCompression (mfPipeline m)) (prEncryption (mfPipeline m)) of
             Inl err \<Rightarrow> (Inl err, st)
           | Inr spec \<Rightarrow>
               (case canDecrypt env (with_passphrase (vePassphrase env) spec) of
                  Some err \<Rightarrow> (Inl err, st)
                | None \<Rightarrow>
                    (case pvProbe pv (snd st) of
                       (Inl err, p1) \<Rightarrow> (Inl err, (fst st, p1))
                     | (Inr info, p1) \<Rightarrow>
                         if versionSkip m info \<noteq> []
                         then (Inr (zero_VResult\<lparr>vrSkipped := True, vrReason := versionSkip m info\<rparr>), (fst st, p1))
                         else
                           (let name = sandboxName (vePrefix env) (mfID m) in
                            case pvCreate pv name (mfTables m) p1 of
                              (Inl err, p2) \<Rightarrow>
                                if errors_Is err ErrSandboxUnsupported
                                then (Inr (zero_VResult\<lparr>vrSkipped := True, vrReason := err_text err\<rparr>), (fst st, p2))
                                else (Inl err, (fst st, p2))
                            | (Inr _, p2) \<Rightarrow>
                                (case in_sandbox ops pv env m info name (fst st, p2) of
                                   (r, st3) \<Rightarrow> (r, (fst st3, snd (pvBoxDrop pv name (snd st3))))))))))"

text \<open>\<open>CollectGarbage\<close>: drops what the server lists, up to the first failure.\<close>

fun drop_all :: "'p staging \<Rightarrow> string list \<Rightarrow> 'p \<Rightarrow> (string list \<times> err option) \<times> 'p" where
  "drop_all pv [] p = (([], None), p)"
| "drop_all pv (n # ns) p =
     (case pvDrop pv n p of
        (Inl err, p1) \<Rightarrow> (([], Some err), p1)
      | (Inr _, p1) \<Rightarrow> (case drop_all pv ns p1 of ((ds, e), p2) \<Rightarrow> ((n # ds, e), p2)))"

definition CollectGarbage :: "'p staging option \<Rightarrow> 'p \<Rightarrow> (string list \<times> err option) \<times> 'p" where
  "CollectGarbage sandbox p =
     (case sandbox of
        None \<Rightarrow> (([], Some (ErrText ''this target has no verify target; --gc collects the databases restore verification creates'')), p)
      | Some pv \<Rightarrow>
          (case pvList pv p of
             (Inl err, p1) \<Rightarrow> (([], Some err), p1)
           | (Inr names, p1) \<Rightarrow> drop_all pv names p1))"

section \<open>Verifying a backup\<close>

definition verify_Manifest ::
  "'s store_ops \<Rightarrow> 'p staging option \<Rightarrow> verify_env \<Rightarrow> Manifest \<Rightarrow> Level \<Rightarrow> 's \<times> 'p \<Rightarrow> VResult result \<times> ('s \<times> 'p)" where
  "verify_Manifest ops sandbox env m level st =
     (let lift = (\<lambda>(r, s1). (r, (s1, snd st)));
          found = (if level = LevelIntegrity then lift (integrity ops m (fst st))
                   else if level = LevelStructural then lift (structural ops env m (fst st))
                   else if level = LevelRestore then verify_restore ops sandbox env m st
                   else (Inl (ErrText (''unknown verify level '' @ fmt_q level @ ''; use one of integrity, structural, restore'')), st))
      in case found of
           (Inl err, st1) \<Rightarrow> (Inl err, st1)
         | (Inr r, st1) \<Rightarrow>
             (Inr (r\<lparr>vrLevel := level, vrAt := veStarted env, vrDuration := time_Sub (veFinished env) (veStarted env)\<rparr>), st1))"

definition firstProblem :: "VResult \<Rightarrow> string" where
  "firstProblem r = (case vrProblems r of [] \<Rightarrow> ''the check reported no detail'' | p # _ \<Rightarrow> p)"

definition summarizeChecks :: "Check list \<Rightarrow> string list" where
  "summarizeChecks checks =
     map (\<lambda>c. (if chOK c then ''ok'' else ''FAIL'') @ '' '' @ chType c @ '': '' @ chDetail c) checks"

definition fmt_minutes :: "time \<Rightarrow> string" where
  "fmt_minutes t = fmt_date (day_number UTC t) @ '' '' @ append_int 2 (time_Hour UTC t) @ '':'' @ append_int 2 (time_Minute UTC t) @ ''Z''"

definition verifiedEvent :: "Manifest \<Rightarrow> VResult \<Rightarrow> Notification" where
  "verifiedEvent m r =
     (let event = (if vrOK r then EventVerifySucceeded else EventVerifyFailed);
          summary = (if vrOK r
            then mfTarget m @ '' passed '' @ vrLevel r @ '' verification of the backup from '' @ fmt_minutes (mfFinishedAt m)
            else mfTarget m @ '' failed '' @ vrLevel r @ '' verification of the backup from '' @ fmt_minutes (mfFinishedAt m) @ '': '' @ firstProblem r)
      in (new_Notification event (vrAt r) (mfTarget m) summary)
         \<lparr>nBackupID := mfID m, nDurationMS := Duration_Milliseconds (vrDuration r),
          nDetails := [(''level'', JStr (vrLevel r)), (''object'', JStr (soKey (mfObject m)))]
            @ (if vrProblems r \<noteq> [] then [(''problems'', JArr (map JStr (vrProblems r)))] else [])
            @ (if vrChecks r \<noteq> [] then [(''assertions'', JArr (map JStr (summarizeChecks (vrChecks r))))] else []),
          nError := (if vrOK r then None
            else Some \<lparr>fPhase = vrLevel r, fCode = ''VERIFY_'' @ ToUpper (vrLevel r) @ ''_FAILED'', fMessage = firstProblem r, fStderrTail = []\<rparr>)\<rparr>)"

definition recorded :: "Manifest \<Rightarrow> VResult \<Rightarrow> Manifest" where
  "recorded m r =
     m\<lparr>mfVerify := Some \<lparr>vLevel = vrLevel r, vAt = vrAt r, vOK = vrOK r,
        vDetails = (if vrProblems r \<noteq> [] then map_put ''problems'' (JArr (map JStr (vrProblems r))) (vrDetails r) else vrDetails r)\<rparr>\<rparr>"

definition verify_record :: "'s store_ops \<Rightarrow> Layout \<Rightarrow> Manifest \<Rightarrow> string \<Rightarrow> VResult \<Rightarrow> ('s, unit) action" where
  "verify_record ops l m manifestKey r s =
     (case Manifest_Marshal (recorded m r) of
        Inl err \<Rightarrow> (Inl err, s)
      | Inr raw \<Rightarrow>
          (case sPut ops manifestKey (Inr raw) s of
             (Inl err, s1) \<Rightarrow> (Inl (ErrWrap ''rewriting the manifest'' err), s1)
           | (Inr _, s1) \<Rightarrow> index_SetVerification ops l (mfID m) (vrLevel r) (vrOK r) (vrAt r) s1))"

text \<open>The result and an error can both be reported.\<close>

definition verify_Backup ::
  "'s store_ops \<Rightarrow> 'p staging option \<Rightarrow> verify_env \<Rightarrow> Layout \<Rightarrow> Entry \<Rightarrow> Level \<Rightarrow> 's run \<times> 'p \<Rightarrow> (VResult \<times> err option) \<times> ('s run \<times> 'p)" where
  "verify_Backup ops sandbox env l entry level st =
     (case st of ((s, out), p) \<Rightarrow>
        if \<not> Succeeded entry
        then ((zero_VResult, Some (ErrText (fmt_RFC3339 UTC (eFinishedAt entry) @ '' is a failed run, not a backup''))), st)
        else
          case index_fetch ops (eManifestKey entry) s of
            (Inl err, s1) \<Rightarrow> ((zero_VResult, Some err), ((s1, out), p))
          | (Inr m, s1) \<Rightarrow>
              (case verify_Manifest ops sandbox env m level (s1, p) of
                 (Inl err, (s2, p2)) \<Rightarrow> ((zero_VResult, Some err), ((s2, out), p2))
               | (Inr r, (s2, p2)) \<Rightarrow>
                   if vrSkipped r then ((r, None), ((s2, out), p2))
                   else
                     (let out2 = out @ [verifiedEvent m r] in
                      case verify_record ops l m (eManifestKey entry) r s2 of
                        (Inl err, s3) \<Rightarrow>
                          ((r, Some (ErrWrap ''the verification ran but its result was not recorded'' err)), ((s3, out2), p2))
                      | (Inr _, s3) \<Rightarrow> ((r, None), ((s3, out2), p2)))))"

end
