(* ===== verification/Verify_Run.thy ===== *)
theory Verify_Run
  imports Verify Backup_Run
begin

text \<open>
  The theorems of verification: a structural check passes exactly when the backup reads back as
  its manifest records, the windows of a validator do not depend on how the stream was cut, a
  fresh backup passes, and a restore verification never leaves its database behind.
\<close>

section \<open>Windows\<close>

lemma take_app_take: "take n xs @ take (n - length (take n xs)) ys = take n (xs @ ys)"
  by (simp add: min_def)

definition window_of :: "string \<Rightarrow> window" where
  "window_of xs = \<lparr>wiHead = take headBytes xs, wiTail = drop (length xs - tailBytes) xs, wiTotal = int (length xs)\<rparr>"

lemma window_Write_of: "window_Write (window_of xs) p = window_of (xs @ p)"
proof -
  have head: "(if length (take headBytes xs) < headBytes
      then take headBytes xs @ take (min (length p) (headBytes - length (take headBytes xs))) p else take headBytes xs)
    = take headBytes (xs @ p)"
    by (cases "length xs < headBytes") (auto simp: min_def)
  have tail: "(let t = drop (length xs - tailBytes) xs @ p in if length t > tailBytes then drop (length t - tailBytes) t else t)
    = drop (length (xs @ p) - tailBytes) (xs @ p)"
    by (cases "length xs \<le> tailBytes"; cases p) (auto simp: Let_def not_less Suc_diff_le add.commute)
  show ?thesis using head tail
    unfolding window_Write_def window_of_def Let_def by (auto simp del: take_append drop_append length_take length_drop split: if_splits)
qed

lemma window_chunks: "foldl window_Write empty_window chunks = window_of (concat chunks)"
proof -
  have "foldl window_Write (window_of xs) chunks = window_of (xs @ concat chunks)" for xs
    by (induction chunks arbitrary: xs) (simp_all add: window_Write_of)
  from this [of "[]"] show ?thesis by (simp add: window_of_def empty_window_def)
qed

section \<open>Structural verification\<close>

definition object_there :: "memory \<Rightarrow> StoredObject \<Rightarrow> bool" where
  "object_there s ob \<longleftrightarrow> (\<exists>b e. mem_view s (soKey ob) = Some (b, e) \<and> int (length b) = soBytes ob)"

lemma problem_not_ok [simp]: "\<not> vrOK (problem p r)" "vrProblems (problem p r) = vrProblems r @ [p]"
  by (simp_all add: problem_def)

lemma detail_ok [simp]: "vrOK (detail k v r) = vrOK r" "vrProblems (detail k v r) = vrProblems r"
  by (simp_all add: detail_def)

definition consistent :: "VResult \<Rightarrow> bool" where
  "consistent r \<longleftrightarrow> (vrOK r \<longleftrightarrow> vrProblems r = [])"

lemma consistent_steps [simp]:
  "consistent (problem p r)" "consistent (detail k v r) \<longleftrightarrow> consistent r"
  by (simp_all add: consistent_def)

lemma integrity_loop_quiet:
  "\<exists>r'. integrity_loop (memory_ops h) obs r s = (Inr r', s) \<and>
     (vrOK r' \<longleftrightarrow> vrOK r \<and> (\<forall>wo\<in>set obs. object_there s (snd wo))) \<and> (consistent r \<longrightarrow> consistent r')"
proof (induction obs arbitrary: r)
  case (Cons wo obs)
  obtain w ob where wo: "wo = (w, ob)" by (cases wo)
  show ?case
  proof (cases "map_of (mObjects s) (soKey ob)")
    case None
    then have "\<not> object_there s ob" by (simp add: object_there_def mem_view_def)
    moreover have "integrity_loop (memory_ops h) (wo # obs) r s = integrity_loop (memory_ops h) obs
        (problem (''the '' @ w @ '' '' @ soKey ob @ '' is missing from the bucket'') r) s"
      using None by (simp add: wo memory_Head_def mem_notFound_def)
    ultimately show ?thesis
      using Cons.IH [of "problem (''the '' @ w @ '' '' @ soKey ob @ '' is missing from the bucket'') r"] by (auto simp: wo)
  next
    case (Some obj)
    let ?r = "check_object w ob (mem_info (soKey ob) obj) r"
    have there: "object_there s ob \<longleftrightarrow> int (length (obData obj)) = soBytes ob"
      using Some by (simp add: object_there_def mem_view_def)
    have "vrOK ?r \<longleftrightarrow> vrOK r \<and> object_there s ob" "consistent r \<longrightarrow> consistent ?r"
      by (auto simp: check_object_def Let_def mem_info_def there)
    moreover have "integrity_loop (memory_ops h) (wo # obs) r s = integrity_loop (memory_ops h) obs ?r s"
      using Some by (simp add: wo memory_Head_def)
    ultimately show ?thesis using Cons.IH [of ?r] by (auto simp: wo)
  qed
qed simp

definition reads_back :: "verify_env \<Rightarrow> Manifest \<Rightarrow> string \<Rightarrow> string \<Rightarrow> bool" where
  "reads_back env m body plain \<longleftrightarrow>
     (\<exists>spec. ParseSpec (prCompression (mfPipeline m)) (prEncryption (mfPipeline m)) = Inr spec \<and>
        pipe_Reader (veCodecs env) (with_passphrase (vePassphrase env) spec) (veIdentities env) body = Inr plain)"

text \<open>What a manifest promises, checked against the store.\<close>

definition manifest_holds :: "verify_env \<Rightarrow> Manifest \<Rightarrow> memory \<Rightarrow> bool" where
  "manifest_holds env m s \<longleftrightarrow>
     (\<forall>wo\<in>set (manifest_objects m). object_there s (snd wo)) \<and>
     (\<exists>body e plain. mem_view s (soKey (mfObject m)) = Some (body, e) \<and> veHash env body = soSHA256 (mfObject m) \<and>
        reads_back env m body plain \<and> int (length plain) = ptBytes (mfPlaintext m) \<and>
        veHash env plain = ptSHA256 (mfPlaintext m) \<and> validator_Validate (mfEngine m) (window_of plain) = None)"

lemma window_plain: "window_Write empty_window plain = window_of plain"
  using window_chunks [of "[plain]"] by simp

lemma plaintext_verdict:
  "vrOK (check_plaintext env m plain r) \<longleftrightarrow> vrOK r \<and> int (length plain) = ptBytes (mfPlaintext m) \<and>
     veHash env plain = ptSHA256 (mfPlaintext m) \<and> validator_Validate (mfEngine m) (window_of plain) = None"
  "consistent r \<Longrightarrow> consistent (check_plaintext env m plain r)"
  by (auto simp: check_plaintext_def Let_def sum_of_def window_plain split: option.splits)

lemma ciphertext_verdict:
  "vrOK (addCiphertext m sm r) \<longleftrightarrow> vrOK r \<and> \<not> (suBytes sm = soBytes (mfObject m) \<and> suSHA256 sm \<noteq> soSHA256 (mfObject m))"
  "consistent r \<Longrightarrow> consistent (addCiphertext m sm r)"
  by (auto simp: addCiphertext_def Let_def)

lemma structural_verdict:
  assumes "structural (memory_ops h) env m s = (Inr r, s')"
  shows "s' = s \<and> (vrOK r \<longleftrightarrow> manifest_holds env m s) \<and> (vrOK r \<longleftrightarrow> vrProblems r = [])"
proof -
  have "consistent (zero_VResult\<lparr>vrOK := True\<rparr>)" by (simp add: consistent_def zero_VResult_def)
  then obtain r0 where r0: "integrity (memory_ops h) m s = (Inr r0, s)"
    "vrOK r0 \<longleftrightarrow> (\<forall>wo\<in>set (manifest_objects m). object_there s (snd wo))" "consistent r0"
    using integrity_loop_quiet [of h "manifest_objects m" "zero_VResult\<lparr>vrOK := True\<rparr>" s] by (auto simp: integrity_def)
  show ?thesis
  proof (cases "vrOK r0")
    case False
    then show ?thesis using assms r0 by (auto simp: structural_def manifest_holds_def consistent_def)
  next
    case True
    then have "object_there s (mfObject m)" using r0(2) by (simp add: manifest_objects_def)
    then obtain body e where body: "mem_view s (soKey (mfObject m)) = Some (body, e)" "int (length body) = soBytes (mfObject m)"
      by (auto simp: object_there_def)
    obtain spec where spec: "ParseSpec (prCompression (mfPipeline m)) (prEncryption (mfPipeline m)) = Inr spec"
      using assms r0(1) True by (auto simp: structural_def split: sum.splits)
    let ?spec = "with_passphrase (vePassphrase env) spec"
    have run: "Inr r = structural_read env m ?spec body r0" "s' = s"
      using assms r0(1) True spec mem.get_hit [OF body(1), of h] by (auto simp: structural_def Let_def split: option.splits)
    show ?thesis
    proof (cases "pipe_Reader (veCodecs env) ?spec (veIdentities env) body")
      case (Inl err)
      then have "\<not> manifest_holds env m s" using body(1) spec by (auto simp: manifest_holds_def reads_back_def)
      moreover have "\<not> vrOK r" "consistent r"
        using run(1) Inl by (auto simp: structural_read_def ciphertext_verdict split: if_splits)
      ultimately show ?thesis using run(2) by (simp add: consistent_def)
    next
      case (Inr plain)
      then have r: "r = check_plaintext env m plain (addCiphertext m (sum_of (veHash env) body) r0)"
        using run(1) by (simp add: structural_read_def)
      have "vrOK r \<longleftrightarrow> manifest_holds env m s"
        using True r0(2) body spec Inr
        by (auto simp: r plaintext_verdict ciphertext_verdict manifest_holds_def reads_back_def sum_of_def)
      moreover have "consistent r" using r0(3) by (simp add: r plaintext_verdict ciphertext_verdict)
      ultimately show ?thesis using run(2) by (simp add: consistent_def)
    qed
  qed
qed

text \<open>C29: A structural verification that reaches a verdict says exactly what it should: the backup passes
  when every object of its manifest is stored with the recorded size, the data object has the
  recorded checksum and reads back, through the recorded stages and with the keys given, as a
  stream of the recorded size and checksum that looks like a dump of its engine; otherwise it
  fails, and then names a problem. It changes nothing in the store.\<close>

theorem structural_exact:
  assumes "structural (memory_ops h) env m s = (Inr r, s')"
  shows "s' = s \<and> (vrOK r \<longleftrightarrow> manifest_holds env m s) \<and> (vrOK r \<longleftrightarrow> vrProblems r = [])"
  using assms by (rule structural_verdict)

section \<open>Restore verification cleans up\<close>

text \<open>A staging server with a log of the databases created and of the drops asked for.\<close>

datatype staging_call = Created string | Dropped string

definition unlogged :: "('p, 'a) action \<Rightarrow> ('p \<times> staging_call list, 'a) action" where
  "unlogged f st = (case f (fst st) of (r, p1) \<Rightarrow> (r, (p1, snd st)))"

definition logged :: "'p staging \<Rightarrow> ('p \<times> staging_call list) staging" where
  "logged pv =
     \<lparr>pvProbe = unlogged (pvProbe pv),
      pvCreate = (\<lambda>n ts st. case pvCreate pv n ts (fst st) of
         (Inl err, p1) \<Rightarrow> (Inl err, (p1, snd st)) | (Inr u, p1) \<Rightarrow> (Inr u, (p1, snd st @ [Created n]))),
      pvList = unlogged (pvList pv), pvDrop = (\<lambda>n. unlogged (pvDrop pv n)),
      pvBox = (\<lambda>n. \<lparr>rsIsEmpty = unlogged (rsIsEmpty (pvBox pv n)),
         rsRestore = (\<lambda>b st. case rsRestore (pvBox pv n) b (fst st) of (x, p1) \<Rightarrow> (x, (p1, snd st)))\<rparr>),
      pvBoxDrop = (\<lambda>n st. case pvBoxDrop pv n (fst st) of (r, p1) \<Rightarrow> (r, (p1, snd st @ [Dropped n]))),
      pvInspect = (\<lambda>n st. pvInspect pv n (fst st))\<rparr>"

lemma logged_calls:
  "pvProbe (logged pv) st = unlogged (pvProbe pv) st"
  "pvCreate (logged pv) n ts st = (case pvCreate pv n ts (fst st) of
      (Inl err, p1) \<Rightarrow> (Inl err, (p1, snd st)) | (Inr u, p1) \<Rightarrow> (Inr u, (p1, snd st @ [Created n])))"
  "snd (pvBoxDrop (logged pv) n st) = (snd (pvBoxDrop pv n (fst st)), snd st @ [Dropped n])"
  by (auto simp: logged_def split: prod.splits)

lemma logged_restore:
  assumes "restore_Run ops (pvBox (logged pv) n) env m rs (s, (p, calls)) = (x, (s', (p', calls')))"
  shows "calls' = calls"
  using assms
  by (auto simp: restore_Run_def logged_def unlogged_def apply_stream_def Let_def
      split: prod.splits sum.splits if_splits option.splits)

lemma logged_sandbox:
  assumes "in_sandbox ops (logged pv) env m info n (s, (p, calls)) = (x, (s', (p', calls')))"
  shows "calls' = calls"
proof -
  obtain y st1 where "restore_Run ops (pvBox (logged pv) n) env m \<lparr>reIdentities = veIdentities env, rePassphrase = vePassphrase env, reForce = False\<rparr> (s, (p, calls)) = (y, st1)"
    by (cases "restore_Run ops (pvBox (logged pv) n) env m \<lparr>reIdentities = veIdentities env, rePassphrase = vePassphrase env, reForce = False\<rparr> (s, (p, calls))")
  moreover have "snd (snd st1) = calls" using logged_restore calculation by (metis prod.collapse)
  ultimately show ?thesis using assms
    by (auto simp: in_sandbox_def Let_def split: prod.splits sum.splits option.splits)
qed

lemma skip_steps [simp]: "vrSkipped (problem p r) = vrSkipped r" "vrSkipped (detail k v r) = vrSkipped r"
  by (simp_all add: problem_def detail_def)

lemma failed_not_skipped [simp]: "vrSkipped (failed_checks cs r) = vrSkipped r"
  unfolding failed_checks_def by (induction cs arbitrary: r) auto

lemma logged_verify_restore:
  assumes "verify_restore ops (Some (logged pv)) env m (s, (p, [])) = (x, (s', (p', calls)))"
  shows "calls = [] \<or> calls = [Created (sandboxName (vePrefix env) (mfID m)), Dropped (sandboxName (vePrefix env) (mfID m))]"
    and "x = Inr r \<Longrightarrow> vrSkipped r \<Longrightarrow> calls = [] \<and> s' = s"
proof -
  let ?n = "sandboxName (vePrefix env) (mfID m)"
  obtain info p1 where probe: "pvProbe pv p = (info, p1)" by (cases "pvProbe pv p")
  obtain c p2 where create: "pvCreate pv ?n (mfTables m) p1 = (c, p2)" by (cases "pvCreate pv ?n (mfTables m) p1")
  have box: "snd (snd st3) = [Created ?n]" if "in_sandbox ops (logged pv) env m i ?n (s, (p2, [Created ?n])) = (y, st3)" for i y st3
    using logged_sandbox that by (metis prod.collapse)
  have skip: "\<not> vrSkipped r" if "in_sandbox ops (logged pv) env m i ?n (s, (p2, [Created ?n])) = (Inr r, st3)" for i r st3
    using that by (auto simp: in_sandbox_def Let_def failed_not_skipped zero_VResult_def
        split: prod.splits sum.splits option.splits if_splits)
  have "calls = [] \<and> s' = s \<or> (\<exists>i st3. in_sandbox ops (logged pv) env m i ?n (s, (p2, [Created ?n])) = (x, st3) \<and>
      calls = snd (snd st3) @ [Dropped ?n])"
  proof (cases "ParseSpec (prCompression (mfPipeline m)) (prEncryption (mfPipeline m))")
    case (Inr spec)
    show ?thesis
    proof (cases "canDecrypt env (with_passphrase (vePassphrase env) spec)")
      case None
      show ?thesis
      proof (cases info)
        case info: (Inr i)
        obtain y s3 p3 c3 where y: "in_sandbox ops (logged pv) env m i ?n (s, (p2, [Created ?n])) = (y, (s3, (p3, c3)))"
          by (rule prod_cases4)
        show ?thesis
          using assms Inr None info probe create y
          by (cases "versionSkip m i = []"; cases c)
            (auto simp: verify_restore_def logged_calls unlogged_def Let_def split: if_splits)
      qed (use assms Inr None probe in \<open>auto simp: verify_restore_def logged_calls unlogged_def\<close>)
    qed (use assms Inr in \<open>auto simp: verify_restore_def\<close>)
  qed (use assms in \<open>auto simp: verify_restore_def\<close>)
  then consider (early) "calls = [] \<and> s' = s"
    | (made) i st3 where "in_sandbox ops (logged pv) env m i ?n (s, (p2, [Created ?n])) = (x, st3)" and "calls = snd (snd st3) @ [Dropped ?n]"
    by blast
  note cs = this
  show "calls = [] \<or> calls = [Created ?n, Dropped ?n]"
  proof (cases rule: cs)
    case (made i st3)
    then show ?thesis using box [OF made(1)] by simp
  qed simp
  show "calls = [] \<and> s' = s" if "x = Inr r" and "vrSkipped r"
  proof (cases rule: cs)
    case (made i st3)
    then show ?thesis using skip that by blast
  qed simp
qed

lemma levels_not_skipped:
  "integrity ops m s = (Inr r, s') \<Longrightarrow> \<not> vrSkipped r" "structural ops env m s = (Inr r, s') \<Longrightarrow> \<not> vrSkipped r"
proof -
  have loop: "integrity_loop ops obs r0 s = (Inr r, s') \<Longrightarrow> vrSkipped r = vrSkipped r0" for ops :: "'a store_ops" and obs r0 s r s'
    by (induction ops obs r0 s rule: integrity_loop.induct)
      (auto simp: check_object_def Let_def split: prod.splits sum.splits if_splits)
  then show int: "integrity ops m s = (Inr r, s') \<Longrightarrow> \<not> vrSkipped r" for r s'
    by (auto simp: integrity_def zero_VResult_def)
  have "structural_read env m spec body r0 = Inr r \<Longrightarrow> vrSkipped r = vrSkipped r0" for spec body r0
    by (auto simp: structural_read_def check_plaintext_def addCiphertext_def Let_def split: sum.splits if_splits option.splits)
  then show "structural ops env m s = (Inr r, s') \<Longrightarrow> \<not> vrSkipped r"
    using int by (fastforce simp: structural_def Let_def split: prod.splits sum.splits if_splits option.splits)
qed

lemma manifest_calls:
  assumes "verify_Manifest ops (Some (logged pv)) env m level (s, (p, [])) = (x, (s', (p', calls)))"
  shows "(calls = [] \<or> calls = [Created (sandboxName (vePrefix env) (mfID m)), Dropped (sandboxName (vePrefix env) (mfID m))]) \<and>
    (\<forall>r. x = Inr r \<longrightarrow> vrSkipped r \<longrightarrow> calls = [] \<and> s' = s)"
proof (cases "level = LevelRestore")
  case True
  obtain y st1 where v: "verify_restore ops (Some (logged pv)) env m (s, (p, [])) = (y, st1)"
    by (cases "verify_restore ops (Some (logged pv)) env m (s, (p, []))")
  then show ?thesis using assms True logged_verify_restore [of ops pv env m s p y "fst st1" "fst (snd st1)" "snd (snd st1)"]
    by (auto simp: verify_Manifest_def level_defs split: sum.splits)
next
  case False
  then show ?thesis using assms
    by (auto simp: verify_Manifest_def Let_def split: sum.splits prod.splits if_splits dest: levels_not_skipped)
qed

text \<open>C30: Whatever the store, the database client and the staging server answer, and however the check
  ends: a restore verification creates at most one database, its own, and when it has created
  it the last thing it does on the server is to drop it; a check that is skipped creates and
  drops nothing, and neither writes to the store nor announces anything.\<close>

theorem sandbox_cleanup:
  assumes "verify_Backup ops (Some (logged pv)) env l entry level ((s, out), (p, [])) = ((r, e), ((s', out'), (p', calls)))"
    and "index_fetch ops (eManifestKey entry) s = (Inr m, s1)"
  shows "(calls = [] \<or> calls = [Created (sandboxName (vePrefix env) (mfID m)), Dropped (sandboxName (vePrefix env) (mfID m))]) \<and>
    (vrSkipped r \<longrightarrow> calls = [] \<and> e = None \<and> s' = s1 \<and> out' = out)"
proof -
  have zero: "\<not> vrSkipped zero_VResult" by (simp add: zero_VResult_def)
  obtain x s2 p2 calls2 where v: "verify_Manifest ops (Some (logged pv)) env m level (s1, (p, [])) = (x, (s2, (p2, calls2)))"
    by (cases "verify_Manifest ops (Some (logged pv)) env m level (s1, (p, []))") auto
  have calls: "calls2 = [] \<or> calls2 = [Created (sandboxName (vePrefix env) (mfID m)), Dropped (sandboxName (vePrefix env) (mfID m))]"
    and skipped: "x = Inr r2 \<Longrightarrow> vrSkipped r2 \<Longrightarrow> calls2 = [] \<and> s2 = s1" for r2
    using manifest_calls [OF v] by blast+
  show ?thesis
    using assms v calls skipped zero
    by (auto simp: verify_Backup_def Let_def split: prod.splits sum.splits if_splits)
qed

section \<open>A fresh backup\<close>

text \<open>The check reaches its verdict when the objects are there and the key is at hand.\<close>

lemma verdict_reached:
  assumes "manifest_holds ve m s" and "ParseSpec (prCompression (mfPipeline m)) (prEncryption (mfPipeline m)) = Inr sp"
    and "canDecrypt ve (with_passphrase (vePassphrase ve) sp) = None"
  shows "\<exists>r. structural (memory_ops h) ve m s = (Inr r, s) \<and> vrOK r"
proof -
  obtain body e plain where body: "mem_view s (soKey (mfObject m)) = Some (body, e)" "reads_back ve m body plain"
    using assms(1) by (auto simp: manifest_holds_def)
  obtain r0 where r0: "integrity (memory_ops h) m s = (Inr r0, s)" "vrOK r0"
    using integrity_loop_quiet [of h "manifest_objects m" "zero_VResult\<lparr>vrOK := True\<rparr>" s] assms(1)
    by (auto simp: integrity_def manifest_holds_def)
  have "\<exists>r. structural (memory_ops h) ve m s = (Inr r, s)"
    using r0 body assms(2,3) mem.get_hit [OF body(1), of h]
    by (auto simp: structural_def structural_read_def reads_back_def)
  then show ?thesis using structural_verdict assms(1) by blast
qed

lemma readable_key:
  assumes "ParseSpec c (Encryption_String e) = Inr sp"
    and "pipe_Reader cod (with_passphrase pw sp) ids x = Inr y" and "PipeSpec_Validate cod ps = None" and "psEncryption ps = e"
  shows "(enMode (psEncryption sp) = ModeAge \<longrightarrow> ids \<noteq> []) \<and> (enMode (psEncryption sp) = ModePassphrase \<longrightarrow> enPassphrase e \<noteq> [])"
proof -
  have "enMode (psEncryption sp) = ModePassphrase \<Longrightarrow> enMode e = ModePassphrase"
    using assms(1) by (auto simp: ParseSpec_def Let_def Encryption_String_def stage_defs split: if_splits prod.splits sum.splits option.splits)
  moreover have "ids \<noteq> []" if "enMode (psEncryption sp) = ModeAge"
    using assms(2) that by (auto simp: pipe_Reader_def decryptReader_def with_passphrase_def stage_defs Let_def split: sum.splits)
  ultimately show ?thesis using assms(3,4)
    by (auto simp: PipeSpec_Validate_def Let_def stage_defs split: if_splits)
qed

text \<open>C31: A backup passes its own verification. Right after a run that succeeded, with or without an
  object of server-wide globals beside the dump, on a store that takes every write and for a full
  dump that is not empty and looks like one of its engine, a structural check with the matching
  keys finds every object of the manifest with the recorded size, the dump with the recorded
  checksums, and reports that everything is as recorded.\<close>

theorem fresh_backup_verifies:
  assumes "duProbe d = Inr info" and "streams env spec w" and "pdErr (fst (duDump d)) = None"
    and "pdData (fst (duDump d)) \<noteq> []" and "\<forall>g. duGlobals d = Some g \<longrightarrow> pdErr (fst g) = None"
    and "mFailPut s = None" and "index_at mem_view (bsLayout spec) s = (es, None)"
    and "\<forall>b. mem_view s (Layout_Index (bsLayout spec)) \<noteq> Some (b, [])" and "\<forall>e\<in>set es. entry_storable e"
    and "reserve (memory_ops h) spec (suStarted env) s = (Inr started, s)"
    and "layout_ok (bsLayout spec)" and "json_time_ok started" and "spec_kind spec = KindFull"
    and m: "m = backup_manifest env spec info started
           (Layout_Data (bsLayout spec) started KindFull (spec_extension spec)) (snd (duDump d))
           (sums_of env w (pdData (fst (duDump d)))) (stored_globals env w spec started d)"
    and "manifest_ok m" and "entry_storable (NewEntry m (Layout_Manifest (bsLayout spec) started KindFull))"
    and "codecs_ok (suCodecs env) opens" and "in_int64 (cLevel (psCompression (bsPipeline spec)))"
    and "can_open (suCodecs env) opens (bsPipeline spec) (veIdentities ve)"
    and "veCodecs ve = suCodecs env" and "veHash ve = suHash env"
    and "vePassphrase ve = enPassphrase (psEncryption (bsPipeline spec))"
    and "validator_Validate (siEngine info) (window_of (pdData (fst (duDump d)))) = None"
  shows "\<exists>s' out' r. backup_Run (memory_ops h) env d True spec (s, out) = (Inr m, (s', out')) \<and>
    structural (memory_ops h) ve m s' = (Inr r, s') \<and> vrOK r"
proof -
  let ?data = "pdData (fst (duDump d))" and ?l = "bsLayout spec"
  from run_restorable [OF assms(1-19), of out] obtain s' stored etag sp where
    run: "backup_Run (memory_ops h) env d True spec (s, out) = (Inr m, (s', out @ [startedEvent spec (suStarted env), succeededEvent m]))"
    and stored: "mem_view s' (soKey (mfObject m)) = Some (stored, etag)" "soBytes (mfObject m) = int (length stored)"
      "soSHA256 (mfObject m) = suHash env stored"
    and sp: "ParseSpec (prCompression (mfPipeline m)) (prEncryption (mfPipeline m)) = Inr sp"
    and rd: "pipe_Reader (suCodecs env) (with_passphrase (enPassphrase (psEncryption (bsPipeline spec))) sp) (veIdentities ve) stored = Inr ?data"
    and globals: "\<forall>g. mfGlobals m = Some g \<longrightarrow> (\<exists>b e. mem_view s' (soKey g) = Some (b, e) \<and> soBytes g = int (length b))"
    by blast
  have fields: "mfEngine m = siEngine info" "ptBytes (mfPlaintext m) = int (length ?data)"
    "ptSHA256 (mfPlaintext m) = suHash env ?data"
    "prEncryption (mfPipeline m) = Encryption_String (psEncryption (bsPipeline spec))"
    by (simp_all add: m backup_manifest_def sums_of_def sum_of_def)
  have "\<forall>wo\<in>set (manifest_objects m). object_there s' (snd wo)"
    using stored(1,2) globals by (cases "mfGlobals m") (auto simp: manifest_objects_def object_there_def)
  then have "manifest_holds ve m s'"
    unfolding manifest_holds_def reads_back_def
    using stored sp rd fields assms(20-23) by auto
  moreover have "canDecrypt ve (with_passphrase (vePassphrase ve) sp) = None"
    using readable_key [OF sp [unfolded fields(4)] rd] assms(2,22) by (auto simp: canDecrypt_def with_passphrase_def streams_def)
  ultimately show ?thesis using run verdict_reached [OF _ sp, of ve s' h] by blast
qed

section \<open>Examples\<close>

definition demo_verify :: verify_env where
  "demo_verify = \<lparr>veCodecs = demo_codecs, veHash = suHash demo_env, veIdentities = [''age1qq''], vePassphrase = [],
     veStarted = demo_time + Hour, veFinished = demo_time + Hour + Second, veRead = 0, veRestoreTook = Second,
     veAssertNow = demo_time + Hour, veCtxErr = (\<lambda>i. None), veCanceled = None, veMidStream = False, veFloatText = (\<lambda>x. []),
     veAssertions = [], vePrefix = ''vaultd_''\<rparr>"

text \<open>A dump of a server with one role, kept beside it.\<close>

definition globals_dumper :: dumper where
  "globals_dumper = (demo_dumper ''PGDMP'')\<lparr>duGlobals := Some (demo_dump ''CREATE ROLE'')\<rparr>"

definition globals_result :: Manifest where
  "globals_result = demo_result\<lparr>mfGlobals := Some
     \<lparr>soKey = Layout_Globals (demo_layout ''app'') demo_time (globalsExtension demo_backup), soBytes = 22, soSHA256 = ''ab''\<rparr>\<rparr>"

lemma globals_key:
  "Layout_Globals (demo_layout ''app'') demo_time (globalsExtension demo_backup)
     = ''backups/prod/app/2025/08/05/app-20250805T141320Z-globals.sql.zst.age''"
  by code_simp

lemma wf_globals:
  assumes "wf_json (JObj (manifest_fields m))" and "valid_utf8 (soKey g)" and "valid_utf8 (soSHA256 g)"
  shows "wf_json (JObj (manifest_fields (m\<lparr>mfGlobals := Some g\<rparr>)))"
  using assms
  by (simp add: manifest_fields_def wf_fields_omit object_json_def omit_ptr_def valid_utf8_ascii
       del: valid_utf8.simps wf_json.simps(4)) (auto split: if_splits)

lemma globals_result_ok: "manifest_ok globals_result"
proof -
  have "wf_json (JObj (manifest_fields globals_result))"
    unfolding globals_key globals_result_def
    by (rule wf_globals) (use demo_result_ok in \<open>simp_all add: manifest_ok_def valid_utf8_ascii del: valid_utf8.simps wf_json.simps(4)\<close>)
  then show ?thesis using demo_result_ok
    by (simp add: manifest_ok_def globals_result_def manifest_times_ok_def in_int64_def)
qed

lemma globals_result_entry:
  "entry_storable (NewEntry globals_result (Layout_Manifest (demo_layout ''app'') demo_time KindFull))"
proof -
  let ?e = "NewEntry demo_result (Layout_Manifest (demo_layout ''app'') demo_time KindFull)"
  let ?k = "''backups/prod/app/2025/08/05/app-20250805T141320Z-globals.sql.zst.age''"
  have e: "NewEntry globals_result (Layout_Manifest (demo_layout ''app'') demo_time KindFull) = ?e\<lparr>eGlobalsKey := ?k\<rparr>"
    "eGlobalsKey ?e = []"
    by (simp_all add: globals_result_def globals_key NewEntry_def demo_result_def backup_manifest_def zero_Entry_def Let_def)
  have "entry_ok (?e\<lparr>eGlobalsKey := ?k\<rparr>)"
    using demo_result_line(1) by (simp add: entry_ok_def entry_times_ok_def valid_utf8_ascii del: valid_utf8.simps)
  moreover have "line_bound (?e\<lparr>eGlobalsKey := ?k\<rparr>) < max_line"
    using demo_result_line(2) e(2) print_JStr_length [of ?k]
    by (simp add: line_bound_def entry_fields_def omit_str_def max_line_def del: print_json.simps(4))
  ultimately show ?thesis unfolding e(1) by (rule storable_bound)
qed

theorem fresh_backup_verifies_witness:
  "\<exists>s' out' r. backup_Run (memory_ops demo_hash) demo_env globals_dumper True demo_backup
        (demo_store [demo_entry ''a'' demo_time], []) = (Inr globals_result, (s', out')) \<and>
     structural (memory_ops demo_hash) demo_verify globals_result s' = (Inr r, s') \<and> vrOK r"
proof -
  let ?s = "demo_store [demo_entry ''a'' demo_time]"
  have o: "can_open demo_codecs demo_opens demo_spec [''age1qq'']"
    by (simp add: can_open_def demo_codecs_def demo_spec_def demo_opens_def HasPrefix_def)
  have sp: "enPassphrase (psEncryption demo_spec) = []" "in_int64 (cLevel (psCompression demo_spec))"
    by (simp_all add: demo_spec_def in_int64_def)
  have quiet: "mFailPut ?s = None" by (simp add: demo_store_def memory_write_def Let_def memory_New_def)
  have st: "\<forall>e\<in>set [demo_entry ''a'' demo_time]. entry_storable e" by simp
  have val: "validator_Validate (siEngine demo_info) (window_of ''PGDMP'') = None" by code_simp
  have m: "globals_result = backup_manifest demo_env demo_backup demo_info demo_time
      (Layout_Data (bsLayout demo_backup) demo_time KindFull (spec_extension demo_backup)) (snd (duDump globals_dumper))
      (sums_of demo_env demo_writer (pdData (fst (duDump globals_dumper)))) (stored_globals demo_env demo_writer demo_backup demo_time globals_dumper)"
    by (simp add: globals_result_def demo_result_def backup_manifest_def globals_dumper_def stored_globals_def demo_writer_def
        demo_env_def)
  show ?thesis
    by (rule fresh_backup_verifies [where info = demo_info and w = demo_writer and opens = demo_opens
        and es = "[demo_entry ''a'' demo_time]", OF _ demo_streams _ _ _ _ _ _ _ _ _ _ _ m])
      (use demo_store_index demo_store_etag globals_result_ok globals_result_entry demo_codecs_ok o sp quiet val st
        reserve_at_once [OF demo_slot_free] demo_layout_ok(1) demo_times [of 0] in
        \<open>simp_all add: globals_dumper_def demo_verify_def del: demo_keys\<close>)
qed

text \<open>An object that lost its last byte.\<close>

definition cut_store :: memory where
  "cut_store = snd (memory_write demo_hash (soKey (mfObject demo_result)) (butlast (demo_writer ''PGDMP'')) (memory_New 0))"

theorem structural_exact_witness:
  "\<exists>r. structural (memory_ops demo_hash) demo_verify demo_result cut_store = (Inr r, cut_store) \<and> \<not> vrOK r \<and>
     \<not> manifest_holds demo_verify demo_result cut_store"
proof -
  have "\<not> object_there cut_store (mfObject demo_result)"
    by (auto simp: object_there_def cut_store_def mem_view_write demo_result_def backup_manifest_def sums_of_def sum_of_def
        demo_writer_def)
  then have not: "\<not> manifest_holds demo_verify demo_result cut_store"
    by (simp add: manifest_holds_def manifest_objects_def)
  obtain r0 where r0: "integrity (memory_ops demo_hash) demo_result cut_store = (Inr r0, cut_store)" "\<not> vrOK r0"
    using integrity_loop_quiet [of demo_hash "manifest_objects demo_result" "zero_VResult\<lparr>vrOK := True\<rparr>" cut_store]
      \<open>\<not> object_there cut_store (mfObject demo_result)\<close>
    by (auto simp: integrity_def manifest_objects_def)
  then have run: "structural (memory_ops demo_hash) demo_verify demo_result cut_store = (Inr r0, cut_store)"
    by (simp add: structural_def)
  from structural_exact [OF run] show ?thesis using run not by blast
qed

text \<open>A staging server that restores into a database and then refuses every drop.\<close>

definition stubborn :: "string list staging" where
  "stubborn = \<lparr>pvProbe = (\<lambda>p. (Inr demo_info, p)), pvCreate = (\<lambda>n ts p. (Inr (), n # p)), pvList = (\<lambda>p. (Inr p, p)),
     pvDrop = (\<lambda>n p. (Inl ErrCanceled, p)),
     pvBox = (\<lambda>n. \<lparr>rsIsEmpty = (\<lambda>p. (Inr True, p)), rsRestore = (\<lambda>b p. ((Some (ErrText ''out of disk''), 0), p))\<rparr>),
     pvBoxDrop = (\<lambda>n p. (Inl ErrCanceled, p)),
     pvInspect = (\<lambda>n p. \<lparr>inTables = Inr [], inCountRows = (\<lambda>t. Inr 0), inScalar = (\<lambda>q. Inr GNull)\<rparr>)\<rparr>"

theorem sandbox_cleanup_witness:
  "\<exists>r e s' out' p' calls. verify_Backup (memory_ops demo_hash) (Some (logged stubborn)) demo_verify (demo_layout ''app'')
        (NewEntry demo_manifest ''m'') LevelRestore
        ((snd (memory_write demo_hash ''m'' (manifest_text demo_manifest) (memory_New 0)), []), ([], []))
      = ((r, e), ((s', out'), (p', calls))) \<and>
    (calls = [] \<or> calls = [Created ''vaultd_01j'', Dropped ''vaultd_01j''])"
proof -
  let ?s = "snd (memory_write demo_hash ''m'' (manifest_text demo_manifest) (memory_New 0))"
  have "mem_view ?s ''m'' = Some (manifest_text demo_manifest, demo_hash (manifest_text demo_manifest))"
    by (simp add: mem_view_write)
  from mem.get_hit [OF this, of demo_hash] have f: "index_fetch (memory_ops demo_hash) ''m'' ?s = (Inr demo_manifest, ?s)"
    by (simp add: index_fetch_def manifest_read_back(2) [OF demo_manifest_ok] demo_manifest_back)
  have e: "eManifestKey (NewEntry demo_manifest ''m'') = ''m''"
    by (simp add: NewEntry_def demo_manifest_def zero_Manifest_def zero_Entry_def)
  have n: "sandboxName (vePrefix demo_verify) (mfID demo_manifest) = ''vaultd_01j''" by code_simp
  obtain r e s' out' p' calls where v: "verify_Backup (memory_ops demo_hash) (Some (logged stubborn)) demo_verify (demo_layout ''app'')
        (NewEntry demo_manifest ''m'') LevelRestore ((?s, []), ([], [])) = ((r, e), ((s', out'), (p', calls)))"
    by (metis prod.collapse)
  from sandbox_cleanup [OF v] f e n v show ?thesis by auto
qed

end
