(* ===== verification/App.thy ===== *)
theory App
  imports Config Backup
begin

text \<open>
  From the configuration to the parts that run: the jobs of \<open>internal/scheduler/job.go\<close> and
  the wiring of \<open>internal/app\<close>. The memoised stores, dumpers and fanouts are built once; what
  is modelled is what they are built from. A cron schedule is the function from an instant to
  the next one it fires.
\<close>

section \<open>Jobs\<close>

type_synonym JobKind = string

definition KindBackup :: JobKind where "KindBackup = ''backup''"
definition KindVerify :: JobKind where "KindVerify = ''verify''"

record Job =
  jTarget :: string
  jKind :: JobKind
  jSpec :: string
  jSchedule :: "(time \<Rightarrow> time) option"
  jLevel :: VerifyLevel
  jTier :: string

definition Job_Key :: "Job \<Rightarrow> string" where
  "Job_Key j = jTarget j @ ''/'' @ jKind j"

definition Job_Due :: "Job \<Rightarrow> time \<Rightarrow> time \<Rightarrow> bool" where
  "Job_Due j lastAt now =
     (case jSchedule j of
        None \<Rightarrow> True
      | Some nxt \<Rightarrow> if IsZero lastAt then True else \<not> now < nxt lastAt)"

definition Job_Next :: "Job \<Rightarrow> time \<Rightarrow> time" where
  "Job_Next j t = (case jSchedule j of None \<Rightarrow> 0 | Some nxt \<Rightarrow> nxt t)"

definition target_jobs :: "checkers \<Rightarrow> Target \<Rightarrow> Job list result" where
  "target_jobs ck t =
     (let backups =
        (if tgSchedule t = [] then Inr []
         else case ckCron ck (tgSchedule t) of
                Inl err \<Rightarrow> Inl (ErrWrap (''target '' @ fmt_q (tgName t) @ '' has an invalid schedule '' @ fmt_q (tgSchedule t)) err)
              | Inr f \<Rightarrow> Inr [\<lparr>jTarget = tgName t, jKind = KindBackup, jSpec = tgSchedule t, jSchedule = Some f, jLevel = [], jTier = []\<rparr>])
      in case backups of
           Inl err \<Rightarrow> Inl err
         | Inr js \<Rightarrow>
             (case tgVerify t of
                None \<Rightarrow> Inr js
              | Some v \<Rightarrow>
                  if vsSchedule v = [] then Inr js
                  else case ckCron ck (vsSchedule v) of
                         Inl err \<Rightarrow> Inl (ErrWrap (''target '' @ fmt_q (tgName t) @ '' has an invalid verify schedule '' @ fmt_q (vsSchedule v)) err)
                       | Inr f \<Rightarrow> Inr (js @ [\<lparr>jTarget = tgName t, jKind = KindVerify, jSpec = vsSchedule v, jSchedule = Some f,
                                            jLevel = vsLevel v, jTier = []\<rparr>])))"

fun jobs_loop :: "checkers \<Rightarrow> Target list \<Rightarrow> Job list result" where
  "jobs_loop ck [] = Inr []"
| "jobs_loop ck (t # ts) =
     (case target_jobs ck t of
        Inl err \<Rightarrow> Inl err
      | Inr js \<Rightarrow> (case jobs_loop ck ts of Inl err \<Rightarrow> Inl err | Inr js' \<Rightarrow> Inr (js @ js')))"

definition Jobs :: "checkers \<Rightarrow> Config \<Rightarrow> Job list result" where
  "Jobs ck cfg = jobs_loop ck (cfTargets cfg)"

definition Manual :: "string \<Rightarrow> JobKind \<Rightarrow> Job" where
  "Manual target kind = \<lparr>jTarget = target, jKind = kind, jSpec = ''manual'', jSchedule = None, jLevel = [], jTier = []\<rparr>"

section \<open>Wiring\<close>

definition app_Layout :: "Config \<Rightarrow> Target \<Rightarrow> Layout result" where
  "app_Layout cfg t =
     (case Config_Destination cfg (tgDestination t) of
        None \<Rightarrow> Inl (ErrText (''target '' @ fmt_q (tgName t) @ '' writes to destination '' @ fmt_q (tgDestination t) @ '', which is not declared''))
      | Some dest \<Rightarrow> Inr \<lparr>lPrefix = dePrefix dest, lTarget = tgName t\<rparr>)"

definition pipelineSpec :: "Target \<Rightarrow> PipeSpec" where
  "pipelineSpec t =
     \<lparr>psCompression = (case tgCompression t of
         None \<Rightarrow> psCompression zero_PipeSpec
       | Some c \<Rightarrow> \<lparr>cAlgo = ccAlgo c, cLevel = ccLevel c, cLong = ccLong c\<rparr>),
      psEncryption = (case tgEncryption t of
         None \<Rightarrow> psEncryption zero_PipeSpec
       | Some e \<Rightarrow> \<lparr>enMode = ceMode e, enRecipients = ceRecipients e, enPassphrase = cePassphrase e\<rparr>)\<rparr>"

definition app_BackupSpec :: "Config \<Rightarrow> Target \<Rightarrow> string \<Rightarrow> BackupSpec result" where
  "app_BackupSpec cfg t tier =
     (case app_Layout cfg t of
        Inl err \<Rightarrow> Inl err
      | Inr l \<Rightarrow>
          if tgSpool t = SpoolDisk
          then Inl (ErrText (''target '' @ fmt_q (tgName t) @ '' sets spool: disk, which is not implemented yet; backups stream straight to the destination''))
          else Inr \<lparr>bsTarget = tgName t, bsEngine = tgEngine t, bsKind = KindFull, bsTier = tier, bsLayout = l,
             bsPipeline = pipelineSpec t, bsTimeout = (case tgTimeout t of None \<Rightarrow> 0 | Some d \<Rightarrow> d)\<rparr>)"

definition app_Retention :: "Target \<Rightarrow> Policy" where
  "app_Retention t =
     (let zero = \<lparr>pHourly = \<lparr>rKeep = 0\<rparr>, pDaily = \<lparr>rKeep = 0\<rparr>, pWeekly = \<lparr>wKeep = 0, wOn = 0\<rparr>,
            pMonthly = \<lparr>mKeep = 0, mOn = 0\<rparr>, pYearly = \<lparr>rKeep = 0\<rparr>, pMinKeep = 1, pLocation = None\<rparr>;
          rule = (\<lambda>r. case r of None \<Rightarrow> \<lparr>rKeep = 0\<rparr> | Some x \<Rightarrow> \<lparr>rKeep = trKeep x\<rparr>)
      in case tgRetention t of
           None \<Rightarrow> zero
         | Some d \<Rightarrow>
             zero\<lparr>pMinKeep := crMinKeep d, pHourly := rule (crHourly d), pDaily := rule (crDaily d), pYearly := rule (crYearly d),
               pWeekly := (case crWeekly d of None \<Rightarrow> \<lparr>wKeep = 0, wOn = 0\<rparr> | Some w \<Rightarrow> \<lparr>wKeep = wrKeep w, wOn = wrOn w\<rparr>),
               pMonthly := (case crMonthly d of None \<Rightarrow> \<lparr>mKeep = 0, mOn = 0\<rparr> | Some m \<Rightarrow> \<lparr>mKeep = mrKeep m, mOn = mrOn m\<rparr>)\<rparr>)"

definition storageClassFor :: "Destination \<Rightarrow> string" where
  "storageClassFor dest = (if deProvider dest = ProviderR2 then [] else deStorageClass dest)"

text \<open>The subscriptions of a target's fanout; \<open>build\<close> makes the webhook of a declared notifier.\<close>

definition app_notifier :: "(CfgNotifier \<Rightarrow> 'w notifier) \<Rightarrow> CfgNotifier \<Rightarrow> 'w notifier result" where
  "app_notifier build n =
     (if cnType n = NotifierWebhook \<or> cnType n = [] then Inr (build n)
      else Inl (ErrText (''notifier '' @ fmt_q (cnName n) @ '' has unknown type '' @ fmt_q (cnType n))))"

fun app_subs :: "Config \<Rightarrow> (CfgNotifier \<Rightarrow> 'w notifier) \<Rightarrow> string \<Rightarrow> string list \<Rightarrow> 'w Subscription list result" where
  "app_subs cfg build target [] = Inr []"
| "app_subs cfg build target (name # names) =
     (case Config_Notifier cfg name of
        None \<Rightarrow> Inl (ErrText (''target '' @ fmt_q target @ '' notifies '' @ fmt_q name @ '', which is not declared under notifiers''))
      | Some n \<Rightarrow>
          (case app_notifier build n of
             Inl err \<Rightarrow> Inl err
           | Inr w \<Rightarrow>
               (case app_subs cfg build target names of
                  Inl err \<Rightarrow> Inl err
                | Inr subs \<Rightarrow> Inr (\<lparr>subName = cnName n, subNotifier = w, subEvents = cnEvents n,
                     subDedup = (case cnDedupWindow n of None \<Rightarrow> 0 | Some d \<Rightarrow> d)\<rparr> # subs))))"

definition app_Notifier :: "Config \<Rightarrow> (CfgNotifier \<Rightarrow> 'w notifier) \<Rightarrow> Target \<Rightarrow> 'w Subscription list option result" where
  "app_Notifier cfg build t =
     (if notify_list (tgNotify t) = [] then Inr None
      else case app_subs cfg build (tgName t) (notify_list (tgNotify t)) of Inl err \<Rightarrow> Inl err | Inr subs \<Rightarrow> Inr (Some subs))"

text \<open>
  \<open>attachSandbox\<close>: the staging server a restore verification uses, as the configuration names it.
  The constructor of its client, which still parses the connection string, is a client library's
  and can fail after this.
\<close>

definition attachSandbox :: "Config \<Rightarrow> Target \<Rightarrow> VerifyTarget result" where
  "attachSandbox cfg t =
     (let unset = Inl (ErrText (''target '' @ fmt_q (tgName t)
            @ '' does not say where to restore for verification; set verify.into to a declared verify target''))
      in case tgVerify t of
           None \<Rightarrow> unset
         | Some v \<Rightarrow>
             if vsInto v = [] then unset
             else case Config_VerifyTarget cfg (vsInto v) of
                    None \<Rightarrow> Inl (ErrText (''target '' @ fmt_q (tgName t) @ '' restores into verify target '' @ fmt_q (vsInto v) @ '', which is not declared''))
                  | Some into \<Rightarrow>
                      if vtEngine into \<noteq> tgEngine t
                      then Inl (ErrText (''target '' @ fmt_q (tgName t) @ '' ('' @ tgEngine t @ '') restores into verify target ''
                             @ fmt_q (vtName into) @ '' ('' @ vtEngine into @ ''); engines must match''))
                      else if \<not> Engine_Valid (vtEngine into)
                      then Inl (ErrText (''verify target '' @ fmt_q (vtName into) @ '' uses unknown engine '' @ fmt_q (vtEngine into)))
                      else Inr into)"

section \<open>What validation guarantees\<close>

named_theorems diag

lemmas diag_let [diag] = Let_def

lemma HasErrors_Nil [diag]: "HasErrors [] \<longleftrightarrow> False"
  by (simp add: HasErrors_def)

lemma HasErrors_append [diag]: "HasErrors (xs @ ys) \<longleftrightarrow> HasErrors xs \<or> HasErrors ys"
  by (simp add: HasErrors_def)

lemma HasErrors_errorf [diag]: "HasErrors (errorf p msg)"
  by (simp add: HasErrors_def errorf_def)

lemma HasErrors_warnf [diag]: "HasErrors (warnf p msg) \<longleftrightarrow> False"
  by (simp add: HasErrors_def warnf_def SeverityError_def SeverityWarn_def)

lemma HasErrors_if [diag]: "HasErrors (if b then xs else ys) \<longleftrightarrow> (if b then HasErrors xs else HasErrors ys)"
  by simp

lemma HasErrors_concat [diag]: "HasErrors (concat (map f xs)) \<longleftrightarrow> (\<exists>x\<in>set xs. HasErrors (f x))"
  by (auto simp: HasErrors_def list_ex_iff)

lemma check_each_ok:
  assumes "\<not> HasErrors (check_each f name seen i xs)" and "x \<in> set xs"
  shows "\<exists>seen' j. \<not> HasErrors (f seen' j x)"
  using assms by (induction f name seen i xs rule: check_each.induct) (auto simp: diag)

lemma check_each_distinct:
  assumes "\<not> HasErrors (check_each f name seen i xs)"
    and "\<And>seen' j x. \<not> HasErrors (f seen' j x) \<Longrightarrow> name x \<notin> set seen'"
  shows "distinct (map name xs) \<and> set (map name xs) \<inter> set seen = {}"
  using assms by (induction f name seen i xs rule: check_each.induct) (auto simp: diag)

lemma find_distinct: "distinct (map f xs) \<Longrightarrow> x \<in> set xs \<Longrightarrow> find (\<lambda>y. f y = f x) xs = Some x"
  by (induction xs) auto

lemma name_plain: "nameRE_match s \<Longrightarrow> plain_comp s"
  by (auto simp: nameRE_match_def plain_comp_def name_head_def name_char_def is_digit_def list_all_iff split: list.splits)

lemma name_ok:
  assumes "\<not> HasErrors (check_target ck c seen i t)"
  shows "tgName t \<notin> set seen \<and> nameRE_match (tgName t) \<and> Engine_Valid (tgEngine t)"
  using assms by (auto simp: check_target_def diag split: if_splits)

lemma target_checked:
  assumes "\<not> HasErrors (Validate ck c)" and "t \<in> set (cfTargets c)"
  obtains seen i where "\<not> HasErrors (check_target ck c seen i t)" and "Config_Target c (tgName t) = Some t"
proof -
  have ok: "\<not> HasErrors (check_each (check_target ck c) tgName [] 0 (cfTargets c))"
    using assms by (auto simp: Validate_def validateTargets_def diag split: if_splits)
  from check_each_ok [OF this assms(2)] obtain seen i where "\<not> HasErrors (check_target ck c seen i t)" by blast
  moreover have "distinct (map tgName (cfTargets c))"
    using check_each_distinct [OF ok] name_ok by blast
  then have "Config_Target c (tgName t) = Some t"
    unfolding Config_Target_def using assms(2) by (rule find_distinct)
  ultimately show thesis by (rule that)
qed

lemma recipients_parse:
  assumes "\<not> HasErrors (check_each (\<lambda>_ j r. case ckRecipient ck r of Inr _ \<Rightarrow> [] | Inl err \<Rightarrow> errorf (p j) (q j r err)) (\<lambda>r. r) seen i rs)"
    and "coParseRecipient cod = ckRecipient ck"
  shows "\<exists>out. recipients_of cod rs = Inr out"
proof -
  have "\<forall>r\<in>set rs. \<exists>x. ckRecipient ck r = Inr x"
    using check_each_ok [OF assms(1)] by (fastforce simp: diag split: sum.splits)
  then show ?thesis by (induction rs) (auto simp: assms(2))
qed

lemma stages_agree:
  "CompressionZstd = AlgoZstd" "CompressionGzip = AlgoGzip" "CompressionNone = AlgoNone"
  "EncryptionAge = ModeAge" "EncryptionPassphrase = ModePassphrase" "EncryptionNone = ModeNone"
  by (simp_all add: enum_defs stage_defs)

lemma encryption_ok:
  assumes "\<not> HasErrors (validateEncryption ck p target eo)" and "coParseRecipient cod = ckRecipient ck"
  obtains e where "eo = Some e" and "ceMode e \<in> set EncryptionModes"
    and "ceMode e = EncryptionAge \<Longrightarrow> ceRecipients e \<noteq> [] \<and> (\<exists>rs. recipients_of cod (ceRecipients e) = Inr rs)"
    and "ceMode e = EncryptionPassphrase \<Longrightarrow> cePassphrase e \<noteq> []"
proof -
  obtain e where e: "eo = Some e" using assms(1) by (cases eo) (auto simp: validateEncryption_def diag)
  have mode: "ceMode e \<in> set EncryptionModes"
    using assms(1) e by (auto simp: validateEncryption_def diag valid_in_def list_ex_iff split: if_splits)
  moreover have "ceRecipients e \<noteq> [] \<and> (\<exists>rs. recipients_of cod (ceRecipients e) = Inr rs)" if "ceMode e = EncryptionAge"
    using assms(1) e mode that recipients_parse [OF _ assms(2)]
    by (auto simp: validateEncryption_def diag valid_in_def list_ex_iff split: if_splits)
  moreover have "cePassphrase e \<noteq> []" if "ceMode e = EncryptionPassphrase"
    using assms(1) e mode that
    by (auto simp: validateEncryption_def diag valid_in_def list_ex_iff enum_defs split: if_splits)
  ultimately show thesis using that e by blast
qed

lemma compression_ok:
  assumes "\<not> HasErrors (validateCompression p target (Some c))"
  shows "ccAlgo c \<in> set CompressionAlgos"
  using assms by (auto simp: validateCompression_def diag valid_in_def list_ex_iff split: if_splits)

lemma pipeline_accepts:
  assumes "\<not> HasErrors (validateCompression p target (tgCompression t))"
    and "\<not> HasErrors (validateEncryption ck p' target (tgEncryption t))" and "coParseRecipient cod = ckRecipient ck"
  shows "PipeSpec_Validate cod (pipelineSpec t) = None \<and> enMode (psEncryption (pipelineSpec t)) \<noteq> []"
proof -
  obtain e where e: "tgEncryption t = Some e" "ceMode e \<in> set EncryptionModes"
    "ceMode e = EncryptionAge \<Longrightarrow> ceRecipients e \<noteq> [] \<and> (\<exists>rs. recipients_of cod (ceRecipients e) = Inr rs)"
    "ceMode e = EncryptionPassphrase \<Longrightarrow> cePassphrase e \<noteq> []"
    using encryption_ok [OF assms(2,3)] by metis
  have "cAlgo (psCompression (pipelineSpec t)) \<in> {[], AlgoZstd, AlgoGzip, AlgoNone}"
    using assms(1) compression_ok
    by (cases "tgCompression t") (auto simp: pipelineSpec_def zero_PipeSpec_def CompressionAlgos_def stages_agree)
  then show ?thesis using e
    by (auto simp: PipeSpec_Validate_def Let_def pipelineSpec_def EncryptionModes_def stages_agree stage_defs)
qed

lemma total_zero:
  assumes "\<forall>tk\<in>set tiers. snd tk = (0::int)"
  shows "foldl (\<lambda>total tk. wrap64 (total + snd tk)) 0 tiers = 0"
  using assms by (induction tiers) (auto simp: wrap64_id in_int64_def)

lemma retention_ok:
  assumes "\<not> HasErrors (validateRetention ck p target (tgRetention t))" and "\<And>xs. mset (ckOrder ck xs) = mset xs"
    and "\<not> Retention_Empty (tgRetention t)"
  shows "1 \<le> pMinKeep (app_Retention t) \<and> (\<forall>tier. 0 \<le> keepOf (app_Retention t) tier) \<and> \<not> policy_empty (app_Retention t)"
proof -
  obtain r where r: "tgRetention t = Some r" using assms(3) by (cases "tgRetention t") (auto simp: Retention_Empty_def)
  let ?tiers = "ckOrder ck (retention_tiers r)"
  have "\<forall>tk\<in>set ?tiers. 0 \<le> snd tk"
    and total: "foldl (\<lambda>total tk. wrap64 (total + snd tk)) 0 ?tiers \<noteq> 0" and min: "1 \<le> crMinKeep r"
    using assms(1,3) r by (fastforce simp: validateRetention_def diag split: if_splits)+
  moreover have sets: "set ?tiers = set (retention_tiers r)" using assms(2) by (metis set_mset_mset)
  ultimately have pos: "\<forall>tk\<in>set (retention_tiers r). 0 \<le> snd tk" by simp
  have "\<exists>tk\<in>set (retention_tiers r). snd tk \<noteq> 0" using total total_zero sets by metis
  then have "\<exists>tier\<in>set rungs. keepOf (app_Retention t) tier \<noteq> 0"
    using r by (cases "crHourly r"; cases "crDaily r"; cases "crWeekly r"; cases "crMonthly r"; cases "crYearly r")
      (auto simp: retention_tiers_def app_Retention_def rungs_def tierKeep_def)
  moreover have "0 \<le> keepOf (app_Retention t) tier" for tier
    using pos r by (cases tier) (auto simp: retention_tiers_def app_Retention_def tierKeep_def split: option.splits)
  ultimately show ?thesis using min r
    by (auto simp: policy_empty_def list_all_iff app_Retention_def Let_def order_less_le)
qed

lemma empty_policy: "Retention_Empty (tgRetention t) \<Longrightarrow> policy_empty (app_Retention t)"
  by (auto simp: Retention_Empty_def policy_empty_def rungs_def app_Retention_def split: option.splits)

lemma jobs_ok:
  assumes "\<forall>t\<in>set ts. \<exists>js. target_jobs ck t = Inr js"
  shows "\<exists>js. jobs_loop ck ts = Inr js"
  using assms by (induction ts) auto

lemma subs_ok:
  assumes "\<forall>n\<in>set ns. \<exists>x. Config_Notifier cfg n = Some x \<and> cnType x = NotifierWebhook"
  shows "\<exists>subs. app_subs cfg build target ns = Inr subs \<and> map subName subs = ns"
proof -
  have "Config_Notifier cfg n = Some x \<Longrightarrow> cnName x = n" for n x
    unfolding Config_Notifier_def by (auto simp: find_Some_iff)
  then show ?thesis using assms by (induction ns) (fastforce simp: app_notifier_def)+
qed

lemma notifier_types:
  assumes "\<not> HasErrors (Validate ck c)" and "Config_Notifier c n = Some x"
  shows "cnType x = NotifierWebhook"
proof -
  have "x \<in> set (cfNotifiers c)" using assms(2) by (auto simp: Config_Notifier_def find_Some_iff)
  moreover have "\<not> HasErrors (validateNotifiers ck c)" using assms(1) by (simp add: Validate_def diag)
  ultimately obtain used seen i where "\<not> HasErrors (check_notifier ck used seen i x)"
    unfolding validateNotifiers_def Let_def by (metis check_each_ok)
  then show ?thesis by (auto simp: check_notifier_def diag valid_in_def NotifierTypes_def split: if_splits)
qed

lemma jobs_of_checked:
  assumes "\<not> HasErrors (check_target ck c seen i t)"
  shows "\<exists>js. target_jobs ck t = Inr js"
proof -
  have b: "tgSchedule t \<noteq> [] \<Longrightarrow> \<exists>f. ckCron ck (tgSchedule t) = Inr f"
    using assms by (auto simp: check_target_def diag split: if_splits sum.splits)
  have "\<not> HasErrors (validateTargetVerify ck c (path_index ''targets'' i) t)"
    using assms by (simp add: check_target_def diag)
  then have v: "tgVerify t = Some v \<Longrightarrow> vsSchedule v \<noteq> [] \<Longrightarrow> \<exists>f. ckCron ck (vsSchedule v) = Inr f" for v
    by (auto simp: validateTargetVerify_def diag split: if_splits sum.splits)
  show ?thesis
  proof (cases "tgVerify t")
    case None
    then show ?thesis using b by (cases "tgSchedule t = []") (auto simp: target_jobs_def)
  next
    case (Some vs)
    then show ?thesis using b v [OF Some]
      by (cases "tgSchedule t = []"; cases "vsSchedule vs = []") (auto simp: target_jobs_def)
  qed
qed

lemma sandbox_ok:
  assumes "\<not> HasErrors (validateTargetVerify ck c p t)" and "tgVerify t = Some v" and "vsLevel v = VerifyRestore"
    and "Engine_Valid (tgEngine t)"
  shows "\<exists>into. attachSandbox c t = Inr into \<and> vtEngine into = tgEngine t"
  using assms by (auto simp: validateTargetVerify_def attachSandbox_def diag split: if_splits option.splits)

text \<open>C28: A configuration that passes validation can be run. Every target is found under its own name,
  which is safe inside an object key; its layout, its jobs and its notifiers can be built and, at
  level restore, a staging server of the same engine is declared; the pipeline accepts its stages and an
  encryption mode was chosen; its retention keeps everything or keeps at least one backup and
  no negative number of any tier; and a backup specification exists exactly when it does not
  ask for spooling to disk.\<close>

theorem validated_config_runs:
  assumes "\<not> HasErrors (Validate ck c)" and "t \<in> set (cfTargets c)"
    and "coParseRecipient cod = ckRecipient ck" and "\<And>xs. mset (ckOrder ck xs) = mset xs"
  shows "Config_Target c (tgName t) = Some t \<and> plain_comp (tgName t) \<and>
    (\<exists>l. app_Layout c t = Inr l \<and> lTarget l = tgName t) \<and> (\<exists>js. Jobs ck c = Inr js) \<and>
    (\<exists>subs. app_Notifier c build t = Inr subs) \<and>
    (\<forall>v. tgVerify t = Some v \<and> vsLevel v = VerifyRestore \<longrightarrow> (\<exists>into. attachSandbox c t = Inr into \<and> vtEngine into = tgEngine t)) \<and>
    PipeSpec_Validate cod (pipelineSpec t) = None \<and> enMode (psEncryption (pipelineSpec t)) \<noteq> [] \<and>
    (policy_empty (app_Retention t) \<or>
      1 \<le> pMinKeep (app_Retention t) \<and> (\<forall>tier. 0 \<le> keepOf (app_Retention t) tier)) \<and>
    ((\<exists>spec. app_BackupSpec c t tier = Inr spec) \<longleftrightarrow> tgSpool t \<noteq> SpoolDisk)"
proof -
  obtain seen i where ok: "\<not> HasErrors (check_target ck c seen i t)" and found: "Config_Target c (tgName t) = Some t"
    using target_checked [OF assms(1,2)] .
  let ?p = "path_index ''targets'' i"
  have dest: "Config_Destination c (tgDestination t) \<noteq> None"
    using ok by (auto simp: check_target_def validateTargetDestination_def diag split: if_splits)
  then have lay: "\<exists>l. app_Layout c t = Inr l \<and> lTarget l = tgName t" by (auto simp: app_Layout_def)
  then have spec: "(\<exists>spec. app_BackupSpec c t tier = Inr spec) \<longleftrightarrow> tgSpool t \<noteq> SpoolDisk" by (auto simp: app_BackupSpec_def)
  have jobs: "\<exists>js. Jobs ck c = Inr js"
    unfolding Jobs_def using jobs_ok jobs_of_checked target_checked [OF assms(1)] by metis
  have "\<forall>n\<in>set (notify_list (tgNotify t)). \<exists>x. Config_Notifier c n = Some x"
    using ok check_each_ok by (fastforce simp: check_target_def diag split: if_splits)
  then have subs: "\<exists>subs. app_Notifier c build t = Inr subs"
    using subs_ok [of "notify_list (tgNotify t)" c build "tgName t"] notifier_types [OF assms(1)]
    by (fastforce simp: app_Notifier_def)
  have parts: "\<not> HasErrors (validateCompression (?p @ ''.compression'') (tgName t) (tgCompression t))"
    "\<not> HasErrors (validateEncryption ck (?p @ ''.encryption'') (tgName t) (tgEncryption t))"
    "\<not> HasErrors (validateRetention ck (?p @ ''.retention'') (tgName t) (tgRetention t))"
    "\<not> HasErrors (validateTargetVerify ck c ?p t)"
    using ok by (simp_all add: check_target_def diag)
  have pol: "policy_empty (app_Retention t) \<or>
      1 \<le> pMinKeep (app_Retention t) \<and> (\<forall>tier. 0 \<le> keepOf (app_Retention t) tier)"
    using retention_ok [OF parts(3) assms(4)] empty_policy by blast
  show ?thesis
    using found name_ok [OF ok] name_plain lay jobs subs sandbox_ok [OF parts(4)] pipeline_accepts [OF parts(1,2) assms(3)] pol spec
    by blast
qed

section \<open>Defaults are resolved once\<close>

lemma Trim_char_idem: "Trim_char c (Trim_char c s) = Trim_char c s"
proof -
  have d: "dropWhile P (dropWhile P xs) = dropWhile P xs" for P and xs :: string
    by (induction xs) auto
  have "dropWhile P (rev (dropWhile P (rev (dropWhile P xs)))) = rev (dropWhile P (rev (dropWhile P xs)))" for P and xs :: string
  proof (cases "dropWhile P xs")
    case (Cons y ys)
    then have "\<not> P y" using hd_dropWhile [of P xs] by simp
    then show ?thesis using Cons by (simp add: dropWhile_append)
  next
    case Nil
    show ?thesis unfolding Nil by simp
  qed
  then show ?thesis by (simp add: Trim_char_def d)
qed

lemma compression_defaults_idem: "compression_defaults (compression_defaults c) = compression_defaults c"
  by (auto simp: compression_defaults_def Let_def)

lemma retention_defaults_idem: "retention_defaults (retention_defaults r) = retention_defaults r"
  by (cases "crMonthly r") (auto simp: retention_defaults_def builtinMinKeep_def Let_def)

lemma verify_defaults_idem: "verify_defaults (verify_defaults v) = verify_defaults v"
  by (simp add: verify_defaults_def)

lemmas defaults_idem = compression_defaults_idem retention_defaults_idem verify_defaults_idem Trim_char_idem

lemma block_idem: "applyDefaultsBlock (applyDefaultsBlock d) = applyDefaultsBlock d"
  by (simp add: applyDefaultsBlock_def defaults_idem option.map_comp comp_def)

lemma clone_notify_idem: "clone_notify (clone_notify n) = clone_notify n"
  by (auto simp: clone_notify_def split: option.splits list.splits)

lemma target_idem:
  "target_defaults (applyDefaultsBlock d) (target_defaults (applyDefaultsBlock d) t) = target_defaults (applyDefaultsBlock d) t"
  by (auto simp: target_defaults_def applyDefaultsBlock_def defaults_idem option.map_comp comp_def split: option.split)

lemma ApplyDefaults_idem: "ApplyDefaults (ApplyDefaults c) = ApplyDefaults c"
  by (simp add: ApplyDefaults_def Let_def block_idem target_idem destination_defaults_def defaults_idem comp_def)

section \<open>A concrete configuration\<close>

definition demo_checkers :: checkers where
  "demo_checkers = \<lparr>ckURL = (\<lambda>s. if HasPrefix s ''https://'' then Inr (''https'', drop 8 s) else Inl (ErrText ''no scheme'')),
     ckCron = (\<lambda>s. if s = ''@daily'' then Inr (\<lambda>t. t + 24 * Hour) else Inl (ErrText ''expected 5 fields'')),
     ckRecipient = coParseRecipient demo_codecs, ckGlob = (\<lambda>g. None), ckOrder = rev, ckFloat = (\<lambda>x. ''0'')\<rparr>"

definition demo_target :: Target where
  "demo_target = \<lparr>tgName = ''app'', tgEngine = EnginePostgres, tgDSN = ''postgres://db/app'', tgURI = [], tgDestination = ''main'',
     tgSchedule = ''@daily'', tgOptions = \<lparr>opExcludeTableData = [], opIncludeGlobals = None, opOnNonInnoDB = [], opOplog = None\<rparr>,
     tgVerify = Some \<lparr>vsLevel = VerifyRestore, vsSchedule = ''@daily'', vsInto = ''staging'', vsAssertions = []\<rparr>,
     tgCompression = None, tgEncryption = Some \<lparr>ceMode = EncryptionAge, ceRecipients = [''age1qq''], cePassphrase = []\<rparr>,
     tgRetention = Some \<lparr>crHourly = None, crDaily = Some \<lparr>trKeep = 7\<rparr>, crWeekly = None,
        crMonthly = Some \<lparr>mrKeep = 3, mrOn = 0\<rparr>, crYearly = None, crMinKeep = 0\<rparr>,
     tgTimeout = None, tgNotify = Some [''ops''], tgSpool = [], tgOnOverlap = [], tgRowEstimate = []\<rparr>"

definition demo_config :: Config where
  "demo_config = \<lparr>cfVersion = 1, cfDefaults = \<lparr>dfCompression = None, dfEncryption = None, dfRetention = None, dfTimeout = None,
        dfNotify = None, dfSpool = [], dfOnOverlap = [], dfRowEstimate = []\<rparr>,
     cfDestinations = [\<lparr>deName = ''main'', deProvider = ProviderS3, deBucket = ''b'', deEndpoint = [], deRegion = ''eu'',
        dePrefix = ''/backups/prod/'', deAccessKeyID = [], deSecretAccessKey = [], deStorageClass = [], deForcePathStyle = False\<rparr>],
     cfTargets = [demo_target],
     cfVerifyTargets = [\<lparr>vtName = ''staging'', vtEngine = EnginePostgres, vtDSN = ''postgres://s/'', vtURI = [],
        vtDatabasePrefix = ''vaultd_'', vtMaxConcurrent = 0\<rparr>],
     cfNotifiers = [\<lparr>cnName = ''ops'', cnType = [], cnURL = ''https://h'', cnSecret = ''k'', cnEvents = [EventBackupFailed],
        cnTemplate = [], cnDedupWindow = None\<rparr>],
     cfServer = \<lparr>svListen = [], svUI = True, svAuthMode = [], svAuthToken = ''t'', svMetrics = False\<rparr>\<rparr>"

theorem validated_config_runs_witness:
  "let c = ApplyDefaults demo_config; t = target_defaults (applyDefaultsBlock (cfDefaults demo_config)) demo_target in
     Config_Target c ''app'' = Some t \<and> PipeSpec_Validate demo_codecs (pipelineSpec t) = None \<and>
     1 \<le> pMinKeep (app_Retention t) \<and> (\<exists>spec. app_BackupSpec c t ''daily'' = Inr spec)"
proof -
  let ?c = "ApplyDefaults demo_config" and ?t = "target_defaults (applyDefaultsBlock (cfDefaults demo_config)) demo_target"
  have ok: "\<not> HasErrors (Validate demo_checkers ?c)" by code_simp
  have t: "?t \<in> set (cfTargets ?c)" by (simp add: ApplyDefaults_def Let_def demo_config_def)
  have "tgName ?t = ''app''" "tgSpool ?t \<noteq> SpoolDisk" "\<not> policy_empty (app_Retention ?t)" by code_simp+
  with validated_config_runs [OF ok t, of demo_codecs "\<lambda>n x w. (None, w)" "''daily''"] show ?thesis
    by (auto simp: Let_def demo_checkers_def)
qed

end
