(* ===== verification/Metrics.thy ===== *)
theory Metrics
  imports Notify
begin

text \<open>
  The metrics of \<open>internal/metrics/metrics.go\<close>: one field per collector, from the values of its
  labels to what it shows. A gauge or counter that was never touched has no series. The
  histogram keeps the durations it observed; the registry and the exposition format belong to
  the Prometheus client.
\<close>

record Metrics =
  backupDuration :: "string \<times> string \<Rightarrow> duration list"
  backupBytes :: "string \<times> string \<rightharpoonup> int"
  backupLastSuccess :: "string \<rightharpoonup> int"
  backupFailures :: "string \<times> string \<rightharpoonup> int"
  verifyLastSuccess :: "string \<times> string \<rightharpoonup> int"
  retentionObjects :: "string \<times> string \<rightharpoonup> int"
  scheduleMissed :: "string \<times> string \<rightharpoonup> int"
  runsInFlight :: "string \<rightharpoonup> int"

definition metrics_New :: Metrics where
  "metrics_New = \<lparr>backupDuration = (\<lambda>_. []), backupBytes = Map.empty, backupLastSuccess = Map.empty,
     backupFailures = Map.empty, verifyLastSuccess = Map.empty, retentionObjects = Map.empty,
     scheduleMissed = Map.empty, runsInFlight = Map.empty\<rparr>"

definition KindCompressed :: string where "KindCompressed = ''compressed''"
definition KindPlain :: string where "KindPlain = ''plain''"

text \<open>\<open>Add\<close> on the series of a label; a new series starts at zero.\<close>

definition series_add :: "'k \<Rightarrow> int \<Rightarrow> ('k \<rightharpoonup> int) \<Rightarrow> ('k \<rightharpoonup> int)" where
  "series_add k d m = m(k \<mapsto> (case m k of None \<Rightarrow> 0 | Some n \<Rightarrow> n) + d)"

definition BackupSucceeded :: "string \<Rightarrow> string \<Rightarrow> duration \<Rightarrow> int \<Rightarrow> int \<Rightarrow> time \<Rightarrow> Metrics \<Rightarrow> Metrics" where
  "BackupSucceeded target engine d compressed plain at m =
     m\<lparr>backupDuration := (backupDuration m)((target, engine) := backupDuration m (target, engine) @ [d]),
       backupBytes := (backupBytes m)((target, KindCompressed) \<mapsto> float64_of_int compressed, (target, KindPlain) \<mapsto> float64_of_int plain),
       backupLastSuccess := (backupLastSuccess m)(target \<mapsto> float64_of_int (unix_seconds at))\<rparr>"

definition BackupFailed :: "string \<Rightarrow> string \<Rightarrow> Metrics \<Rightarrow> Metrics" where
  "BackupFailed target phase m = m\<lparr>backupFailures := series_add (target, phase) 1 (backupFailures m)\<rparr>"

definition VerifySucceeded :: "string \<Rightarrow> string \<Rightarrow> time \<Rightarrow> Metrics \<Rightarrow> Metrics" where
  "VerifySucceeded target level at m =
     m\<lparr>verifyLastSuccess := (verifyLastSuccess m)((target, level) \<mapsto> float64_of_int (unix_seconds at))\<rparr>"

definition SeedBackup :: "string \<Rightarrow> time \<Rightarrow> int \<Rightarrow> int \<Rightarrow> Metrics \<Rightarrow> Metrics" where
  "SeedBackup target at compressed plain m =
     (if IsZero at then m
      else let m1 = m\<lparr>backupLastSuccess := (backupLastSuccess m)(target \<mapsto> float64_of_int (unix_seconds at))\<rparr>;
               m2 = (if compressed > 0 then m1\<lparr>backupBytes := (backupBytes m1)((target, KindCompressed) \<mapsto> float64_of_int compressed)\<rparr> else m1)
           in if plain > 0 then m2\<lparr>backupBytes := (backupBytes m2)((target, KindPlain) \<mapsto> float64_of_int plain)\<rparr> else m2)"

definition SeedVerify :: "string \<Rightarrow> string \<Rightarrow> time \<Rightarrow> Metrics \<Rightarrow> Metrics" where
  "SeedVerify target level at m = (if IsZero at then m else VerifySucceeded target level at m)"

text \<open>Every series of the target is dropped before the new counts are set.\<close>

definition RetentionObjects :: "string \<Rightarrow> (string \<times> int) list \<Rightarrow> Metrics \<Rightarrow> Metrics" where
  "RetentionObjects target byTier m =
     m\<lparr>retentionObjects := (\<lambda>k. if fst k = target then map_option float64_of_int (map_of byTier (snd k)) else retentionObjects m k)\<rparr>"

definition ScheduleMissed :: "string \<Rightarrow> string \<Rightarrow> Metrics \<Rightarrow> Metrics" where
  "ScheduleMissed target kind m = m\<lparr>scheduleMissed := series_add (target, kind) 1 (scheduleMissed m)\<rparr>"

definition RunStarted :: "string \<Rightarrow> Metrics \<Rightarrow> Metrics" where
  "RunStarted kind m = m\<lparr>runsInFlight := series_add kind 1 (runsInFlight m)\<rparr>"

definition RunFinished :: "string \<Rightarrow> Metrics \<Rightarrow> Metrics" where
  "RunFinished kind m = m\<lparr>runsInFlight := series_add kind (- 1) (runsInFlight m)\<rparr>"

end
