(* ===== verification/Executor.thy ===== *)
theory Executor
  imports App Verify Lock Metrics
begin

text \<open>
  One dispatch of a job: \<open>internal/scheduler/exec.go\<close> and \<open>labels.go\<close>, with the assembly of the
  runners in \<open>internal/app/app.go\<close>. The world is the buckets by destination, the notifications
  handed to \<open>notify.Emit\<close>, the staging servers and the metrics.
\<close>

section \<open>Assembling the runners\<close>

record ('s, 'p) world =
  wStore :: "string \<Rightarrow> 's"
  wOut :: "Notification list"
  wStaging :: 'p
  wMetrics :: "Metrics option"

text \<open>
  \<open>exOpen\<close> is what opening a bucket answers (\<open>s3.New\<close>), \<open>exEngine\<close> and \<open>exProvision\<close> are the
  adapters the engine packages build for a target and a verify target.
\<close>

record ('s, 'p) executor =
  exConfig :: Config
  exOps :: "'s store_ops"
  exOpen :: "Destination \<Rightarrow> err option"
  exEngine :: "Target \<Rightarrow> dumper result"
  exProvision :: "VerifyTarget \<Rightarrow> 'p staging result"
  exCaller :: Caller
  exIdentities :: "string list"
  exPrune :: bool
  exLockTTL :: duration

definition app_Store :: "('s, 'p) executor \<Rightarrow> string \<Rightarrow> unit result" where
  "app_Store ex name =
     (case Config_Destination (exConfig ex) name of
        None \<Rightarrow> Inl (ErrText (''destination '' @ fmt_q name @ '' is not declared''))
      | Some dest \<Rightarrow>
          (case exOpen ex dest of
             Some err \<Rightarrow> Inl (ErrWrap (''destination '' @ fmt_q name) err)
           | None \<Rightarrow> Inr ()))"

definition app_Dumper :: "('s, 'p) executor \<Rightarrow> Target \<Rightarrow> dumper result" where
  "app_Dumper ex t =
     (if Engine_Valid (tgEngine t) then exEngine ex t
      else Inl (ErrText (''target '' @ fmt_q (tgName t) @ '' uses unknown engine '' @ fmt_q (tgEngine t))))"

definition app_Provisioner :: "('s, 'p) executor \<Rightarrow> VerifyTarget \<Rightarrow> 'p staging result" where
  "app_Provisioner ex into =
     (if Engine_Valid (vtEngine into) then exProvision ex into
      else Inl (ErrText (''verify target '' @ fmt_q (vtName into) @ '' uses unknown engine '' @ fmt_q (vtEngine into))))"

definition app_Index :: "('s, 'p) executor \<Rightarrow> Target \<Rightarrow> Layout result" where
  "app_Index ex t =
     (case app_Store ex (tgDestination t) of
        Inl err \<Rightarrow> Inl err
      | Inr _ \<Rightarrow> app_Layout (exConfig ex) t)"

text \<open>Whether the fanout of a target can be built, and whether there is one.\<close>

definition fanout_of :: "('s, 'p) executor \<Rightarrow> Target \<Rightarrow> bool result" where
  "fanout_of ex t =
     (case app_Notifier (exConfig ex) (\<lambda>n x (w :: unit). (None, w)) t of
        Inl err \<Rightarrow> Inl err
      | Inr subs \<Rightarrow> Inr (subs \<noteq> None))"

definition app_Runner :: "('s, 'p) executor \<Rightarrow> Target \<Rightarrow> dumper result" where
  "app_Runner ex t =
     (case app_Store ex (tgDestination t) of
        Inl err \<Rightarrow> Inl err
      | Inr _ \<Rightarrow>
          (case app_Dumper ex t of
             Inl err \<Rightarrow> Inl err
           | Inr d \<Rightarrow>
               (case app_Layout (exConfig ex) t of
                  Inl err \<Rightarrow> Inl err
                | Inr _ \<Rightarrow> (case fanout_of ex t of Inl err \<Rightarrow> Inl err | Inr _ \<Rightarrow> Inr d))))"

definition app_Pruner :: "('s, 'p) executor \<Rightarrow> Target \<Rightarrow> PruneRunner result" where
  "app_Pruner ex t =
     (case app_Store ex (tgDestination t) of
        Inl err \<Rightarrow> Inl err
      | Inr _ \<Rightarrow>
          (case app_Index ex t of
             Inl err \<Rightarrow> Inl err
           | Inr l \<Rightarrow>
               (case fanout_of ex t of
                  Inl err \<Rightarrow> Inl err
                | Inr _ \<Rightarrow> Inr \<lparr>prTarget = tgName t, prLayout = l, prPolicy = app_Retention t\<rparr>)))"

definition assertionsOf :: "CfgAssertion list \<Rightarrow> Assertion list" where
  "assertionsOf = map (\<lambda>a. \<lparr>aType = asType a, aTables = asTables a, aTolerance = asTolerance a, aSQL = asSQL a,
     aExpect = asExpect a, aMaxAge = (case asValue a of None \<Rightarrow> 0 | Some d \<Rightarrow> d)\<rparr>)"

text \<open>The verifier of a target: its index, its staging server if the level needs one, its settings.\<close>

definition app_Verifier ::
  "('s, 'p) executor \<Rightarrow> Target \<Rightarrow> Level \<Rightarrow> verify_env \<Rightarrow> (Layout \<times> 'p staging option \<times> verify_env) result" where
  "app_Verifier ex t level env =
     (case app_Store ex (tgDestination t) of
        Inl err \<Rightarrow> Inl err
      | Inr _ \<Rightarrow>
          (case app_Index ex t of
             Inl err \<Rightarrow> Inl err
           | Inr l \<Rightarrow>
               (case fanout_of ex t of
                  Inl err \<Rightarrow> Inl err
                | Inr _ \<Rightarrow>
                    (let env1 = env\<lparr>veIdentities := exIdentities ex,
                           vePassphrase := (case tgEncryption t of None \<Rightarrow> [] | Some e \<Rightarrow> cePassphrase e),
                           veAssertions := [], vePrefix := []\<rparr>
                     in if level \<noteq> LevelRestore then Inr (l, None, env1)
                        else case attachSandbox (exConfig ex) t of
                               Inl err \<Rightarrow> Inl err
                             | Inr into \<Rightarrow>
                                 (case app_Provisioner ex into of
                                    Inl err \<Rightarrow> Inl err
                                  | Inr box \<Rightarrow>
                                      Inr (l, Some box, env1\<lparr>vePrefix := vtDatabasePrefix into,
                                        veAssertions := (case tgVerify t of None \<Rightarrow> [] | Some v \<Rightarrow> assertionsOf (vsAssertions v))\<rparr>))))))"

section \<open>Labels\<close>

definition defaultTier :: string where "defaultTier = ''daily''"

definition tierOf :: "Job \<Rightarrow> string" where
  "tierOf job = (if jTier job \<noteq> [] then jTier job else defaultTier)"

definition phaseOf :: "err \<Rightarrow> string" where
  "phaseOf err = (case errors_As as_backup_error err of Some (phase, _) \<Rightarrow> phase | None \<Rightarrow> PhaseDump)"

section \<open>The executor\<close>

definition OutcomeRan :: string where "OutcomeRan = ''ran''"
definition OutcomeLocked :: string where "OutcomeLocked = ''locked''"
definition OutcomeNotDue :: string where "OutcomeNotDue = ''not_due''"
definition OutcomeNothing :: string where "OutcomeNothing = ''nothing''"

record RunResult =
  rrJob :: Job
  rrOutcome :: string
  rrDuration :: duration
  rrDetail :: string
  rrBackupID :: string
  rrManifest :: "Manifest option"
  rrErr :: "err option"

definition new_RunResult :: "Job \<Rightarrow> RunResult" where
  "new_RunResult job = \<lparr>rrJob = job, rrOutcome = [], rrDuration = 0, rrDetail = [], rrBackupID = [], rrManifest = None, rrErr = None\<rparr>"

text \<open>
  What one dispatch meets: the readings of the clock, the identifiers and attempts of the lock,
  the instants of the heartbeats while the work runs, and the surroundings of the runners.
\<close>

record occasion =
  ocStarted :: time
  ocChecked :: time
  ocFinished :: time
  ocIDs :: "nat \<Rightarrow> string"
  ocClock :: "nat \<Rightarrow> time"
  ocBeats :: "time list"
  ocRun :: surroundings
  ocVerify :: verify_env
  ocPlanned :: time
  ocPruned :: time

definition metric :: "(Metrics \<Rightarrow> Metrics) \<Rightarrow> ('s, 'p) world \<Rightarrow> ('s, 'p) world" where
  "metric f w = w\<lparr>wMetrics := map_option f (wMetrics w)\<rparr>"

definition put_store :: "string \<Rightarrow> 's \<Rightarrow> ('s, 'p) world \<Rightarrow> ('s, 'p) world" where
  "put_store d s w = w\<lparr>wStore := (wStore w)(d := s)\<rparr>"

definition put_run :: "string \<Rightarrow> 's run \<Rightarrow> ('s, 'p) world \<Rightarrow> ('s, 'p) world" where
  "put_run d st w = (put_store d (fst st) w)\<lparr>wOut := snd st\<rparr>"

definition exec_acquire ::
  "('s, 'p) executor \<Rightarrow> occasion \<Rightarrow> Target \<Rightarrow> Job \<Rightarrow> ('s, 'p) world \<Rightarrow> (Locker \<times> Held) result \<times> ('s, 'p) world" where
  "exec_acquire ex oc t job w =
     (case app_Store ex (tgDestination t) of
        Inl err \<Rightarrow> (Inl err, w)
      | Inr _ \<Rightarrow>
          (case app_Layout (exConfig ex) t of
             Inl err \<Rightarrow> (Inl err, w)
           | Inr l \<Rightarrow>
               (let locker = \<lparr>lkKey = Layout_Lock l, lkTTL = exLockTTL ex\<rparr> in
                case Acquire (exOps ex) locker (exCaller ex) (ocIDs oc) (ocClock oc) (tgName t) (jKind job) (wStore w (tgDestination t)) of
                  (Inl err, s) \<Rightarrow> (Inl err, put_store (tgDestination t) s w)
                | (Inr held, s) \<Rightarrow> (Inr (locker, held), put_store (tgDestination t) s w))))"

definition exec_release :: "('s, 'p) executor \<Rightarrow> occasion \<Rightarrow> Target \<Rightarrow> Locker \<times> Held \<Rightarrow> ('s, 'p) world \<Rightarrow> ('s, 'p) world" where
  "exec_release ex oc t lh w =
     (case heartbeat (exOps ex) (fst lh) (ocBeats oc) (snd lh) (wStore w (tgDestination t)) of
        (lost, held, s) \<Rightarrow> (case Release (exOps ex) (fst lh) held s of (err, held', s') \<Rightarrow> put_store (tgDestination t) s' w))"

definition last_step :: "JobKind \<Rightarrow> time \<Rightarrow> Entry \<Rightarrow> time" where
  "last_step kind lastAt entry =
     (if kind = KindBackup then if eFinishedAt entry > lastAt then eFinishedAt entry else lastAt
      else if kind = KindVerify
      then case eVerifiedAt entry of Some v \<Rightarrow> if v > lastAt then v else lastAt | None \<Rightarrow> lastAt
      else lastAt)"

definition lastRun :: "('s, 'p) executor \<Rightarrow> Target \<Rightarrow> JobKind \<Rightarrow> ('s, 'p) world \<Rightarrow> time result \<times> ('s, 'p) world" where
  "lastRun ex t kind w =
     (case app_Index ex t of
        Inl err \<Rightarrow> (Inl err, w)
      | Inr l \<Rightarrow>
          (case index_Entries (exOps ex) l (wStore w (tgDestination t)) of
             (Inl err, s) \<Rightarrow> (Inl err, put_store (tgDestination t) s w)
           | (Inr (entries, _), s) \<Rightarrow> (Inr (foldl (last_step kind) 0 entries), put_store (tgDestination t) s w)))"

text \<open>
  \<open>latestBackup\<close> sorts with \<open>sort.Slice\<close>, which leaves open which of several backups that
  finished at the same instant comes first; here it is the one the index lists first.
\<close>

definition latestBackup :: "('s, 'p) executor \<Rightarrow> Target \<Rightarrow> ('s, 'p) world \<Rightarrow> Entry option result \<times> ('s, 'p) world" where
  "latestBackup ex t w =
     (case app_Index ex t of
        Inl err \<Rightarrow> (Inl err, w)
      | Inr l \<Rightarrow>
          (case index_Entries (exOps ex) l (wStore w (tgDestination t)) of
             (Inl err, s) \<Rightarrow> (Inl err, put_store (tgDestination t) s w)
           | (Inr (entries, _), s) \<Rightarrow>
               (case sort_desc eFinishedAt (filter Succeeded entries) of
                  [] \<Rightarrow> (Inr None, put_store (tgDestination t) s w)
                | e # _ \<Rightarrow> (Inr (Some e), put_store (tgDestination t) s w))))"

definition exec_prune :: "('s, 'p) executor \<Rightarrow> occasion \<Rightarrow> Target \<Rightarrow> ('s, 'p) world \<Rightarrow> ('s, 'p) world" where
  "exec_prune ex oc t w =
     (case app_Pruner ex t of
        Inl err \<Rightarrow> w
      | Inr r \<Rightarrow>
          (case prune_Plan (exOps ex) r (ocPlanned oc) (wStore w (tgDestination t)) of
             (Inl err, s) \<Rightarrow> put_store (tgDestination t) s w
           | (Inr (plan, _), s) \<Rightarrow>
               (let w1 = metric (RetentionObjects (tgName t) (TierCounts plan)) (put_store (tgDestination t) s w);
                    st = (wStore w1 (tgDestination t), wOut w1)
                in if plBlocked plan \<noteq> [] then put_run (tgDestination t) (AnnounceBlocked r (ocPruned oc) plan st) w1
                   else if plDelete plan = [] then w1
                   else put_run (tgDestination t) (snd (prune_Apply (exOps ex) r (ocPruned oc) plan [] st)) w1)))"

definition exec_backup ::
  "('s, 'p) executor \<Rightarrow> occasion \<Rightarrow> Target \<Rightarrow> Job \<Rightarrow> RunResult \<Rightarrow> ('s, 'p) world \<Rightarrow> RunResult \<times> ('s, 'p) world" where
  "exec_backup ex oc t job r w =
     (case app_BackupSpec (exConfig ex) t (tierOf job) of
        Inl err \<Rightarrow> (r\<lparr>rrErr := Some err\<rparr>, w)
      | Inr spec \<Rightarrow>
          (case app_Runner ex t of
             Inl err \<Rightarrow> (r\<lparr>rrErr := Some err\<rparr>, w)
           | Inr d \<Rightarrow>
               (case backup_Run (exOps ex) (ocRun oc) d True spec (wStore w (tgDestination t), wOut w) of
                  (Inl err, st) \<Rightarrow>
                    (r\<lparr>rrErr := Some err\<rparr>, metric (BackupFailed (tgName t) (phaseOf err)) (put_run (tgDestination t) st w))
                | (Inr m, st) \<Rightarrow>
                    (let w1 = metric (BackupSucceeded (tgName t) (mfEngine m) (wrap64 (mfDurationMS m * Millisecond))
                           (soBytes (mfObject m)) (ptBytes (mfPlaintext m)) (mfFinishedAt m)) (put_run (tgDestination t) st w)
                     in (r\<lparr>rrOutcome := OutcomeRan, rrBackupID := mfID m, rrManifest := Some m,
                           rrDetail := Itoa (soBytes (mfObject m)) @ '' bytes stored at '' @ soKey (mfObject m)\<rparr>,
                         if exPrune ex then exec_prune ex oc t w1 else w1)))))"

definition exec_verify ::
  "('s, 'p) executor \<Rightarrow> occasion \<Rightarrow> Target \<Rightarrow> Job \<Rightarrow> RunResult \<Rightarrow> ('s, 'p) world \<Rightarrow> RunResult \<times> ('s, 'p) world" where
  "exec_verify ex oc t job r w =
     (let level = (if jLevel job = [] then LevelIntegrity else jLevel job) in
      case latestBackup ex t w of
        (Inl err, w1) \<Rightarrow> (r\<lparr>rrErr := Some err\<rparr>, w1)
      | (Inr None, w1) \<Rightarrow> (r\<lparr>rrOutcome := OutcomeNothing, rrDetail := ''no backup to verify yet''\<rparr>, w1)
      | (Inr (Some entry), w1) \<Rightarrow>
          (case app_Verifier ex t level (ocVerify oc) of
             Inl err \<Rightarrow> (r\<lparr>rrErr := Some err\<rparr>, w1)
           | Inr (l, box, env) \<Rightarrow>
               (case verify_Backup (exOps ex) box env l entry level ((wStore w1 (tgDestination t), wOut w1), wStaging w1) of
                  ((v, err), (st, p)) \<Rightarrow>
                    (let w2 = (put_run (tgDestination t) st w1)\<lparr>wStaging := p\<rparr>;
                         r2 = r\<lparr>rrOutcome := OutcomeRan, rrBackupID := eID entry, rrDetail := Summary v (tgName t)\<rparr>
                     in case err of
                          Some e \<Rightarrow> (r\<lparr>rrErr := Some e\<rparr>, w2)
                        | None \<Rightarrow>
                            if vrSkipped v then (r2\<lparr>rrOutcome := OutcomeNothing\<rparr>, w2)
                            else if vrOK v then (r2, metric (VerifySucceeded (tgName t) level (vrAt v)) w2)
                            else (r2\<lparr>rrErr := Some (ErrText (Summary v (tgName t)))\<rparr>, w2)))))"

text \<open>The work, bracketed by the in-flight gauge.\<close>

definition exec_work ::
  "('s, 'p) executor \<Rightarrow> occasion \<Rightarrow> Target \<Rightarrow> Job \<Rightarrow> RunResult \<Rightarrow> ('s, 'p) world \<Rightarrow> RunResult \<times> ('s, 'p) world" where
  "exec_work ex oc t job r w =
     (let w0 = metric (RunStarted (jKind job)) w;
          (r1, w1) = (if jKind job = KindBackup then exec_backup ex oc t job r w0
                      else if jKind job = KindVerify then exec_verify ex oc t job r w0
                      else (r\<lparr>rrErr := Some (ErrText (''unknown job kind '' @ fmt_q (jKind job)))\<rparr>, w0))
      in (r1, metric (RunFinished (jKind job)) w1))"

text \<open>What happens under the lock: the second due check, then the work.\<close>

definition exec_locked ::
  "('s, 'p) executor \<Rightarrow> occasion \<Rightarrow> Target \<Rightarrow> Job \<Rightarrow> RunResult \<Rightarrow> ('s, 'p) world \<Rightarrow> RunResult \<times> ('s, 'p) world" where
  "exec_locked ex oc t job r w =
     (if jSchedule job = None then exec_work ex oc t job r w
      else case lastRun ex t (jKind job) w of
             (Inl err, w1) \<Rightarrow> (r\<lparr>rrErr := Some err\<rparr>, w1)
           | (Inr lastAt, w1) \<Rightarrow>
               if \<not> Job_Due job lastAt (ocChecked oc)
               then (r\<lparr>rrOutcome := OutcomeNotDue, rrDetail := ''already run at '' @ fmt_RFC3339 UTC lastAt\<rparr>, w1)
               else exec_work ex oc t job r w1)"

fun as_locked :: "err \<Rightarrow> Owner option" where
  "as_locked (ErrLocked k owner) = Some owner"
| "as_locked e = None"

definition finish :: "occasion \<Rightarrow> RunResult \<Rightarrow> RunResult" where
  "finish oc r = r\<lparr>rrDuration := time_Sub (ocFinished oc) (ocStarted oc)\<rparr>"

definition Executor_Run :: "('s, 'p) executor \<Rightarrow> occasion \<Rightarrow> Job \<Rightarrow> ('s, 'p) world \<Rightarrow> RunResult \<times> ('s, 'p) world" where
  "Executor_Run ex oc job w =
     (let r = new_RunResult job in
      case Config_Target (exConfig ex) (jTarget job) of
        None \<Rightarrow> (finish oc (r\<lparr>rrErr := Some (ErrText (''target '' @ fmt_q (jTarget job) @ '' is not declared''))\<rparr>), w)
      | Some t \<Rightarrow>
          (case exec_acquire ex oc t job w of
             (Inl err, w1) \<Rightarrow>
               (case errors_As as_locked err of
                  Some owner \<Rightarrow> (finish oc (r\<lparr>rrOutcome := OutcomeLocked, rrDetail := Owner_String owner\<rparr>), w1)
                | None \<Rightarrow> (finish oc (r\<lparr>rrErr := Some err\<rparr>), w1))
           | (Inr lh, w1) \<Rightarrow>
               (case exec_locked ex oc t job r w1 of
                  (r2, w2) \<Rightarrow> (finish oc r2, exec_release ex oc t lh w2))))"

end
