(* ===== verification/Scheduler.thy ===== *)
theory Scheduler
  imports Executor
begin

text \<open>
  The scheduler of \<open>internal/scheduler/scheduler.go\<close>: its cache of last runs, the overlap policy,
  the worker of each target with its one-slot channel, the tick, the refresh from the index, the
  one-shot run, and the interleaving of the scheduler's loop with its workers.
\<close>

section \<open>The state\<close>

text \<open>
  Where a worker's loop is: at the channel, with a job it has received, running it with \<open>busy\<close>
  set, or done with it and \<open>busy\<close> not yet cleared.
\<close>

datatype phase = Waiting | Received Job | Running Job | Done

record worker =
  wkOverlap :: Overlap
  wkJobs :: "Job list"
  wkPhase :: phase

definition wkBusy :: "worker \<Rightarrow> bool" where
  "wkBusy wk = (case wkPhase wk of Running _ \<Rightarrow> True | Done \<Rightarrow> True | _ \<Rightarrow> False)"

record scheduler =
  shJobs :: "Job list"
  shLast :: "string \<rightharpoonup> time"
  shReady :: bool
  shWorkers :: "string \<rightharpoonup> worker"

definition last_of :: "scheduler \<Rightarrow> Job \<Rightarrow> time" where
  "last_of sh job = (case shLast sh (Job_Key job) of None \<Rightarrow> 0 | Some v \<Rightarrow> v)"

definition sched_due :: "scheduler \<Rightarrow> time \<Rightarrow> Job \<Rightarrow> bool" where
  "sched_due sh now job = Job_Due job (last_of sh job) now"

definition sched_Next :: "scheduler \<Rightarrow> time \<Rightarrow> Job \<Rightarrow> time" where
  "sched_Next sh now job =
     (let lastAt = last_of sh job in Job_Next job (if IsZero lastAt then now else lastAt))"

definition set_last :: "Job \<Rightarrow> time \<Rightarrow> scheduler \<Rightarrow> scheduler" where
  "set_last job now sh = sh\<lparr>shLast := (shLast sh)(Job_Key job \<mapsto> now)\<rparr>"

text \<open>\<open>record\<close>: whatever the run did, its job was looked at now.\<close>

definition sched_record :: "Job \<Rightarrow> RunResult \<Rightarrow> time \<Rightarrow> scheduler \<Rightarrow> scheduler" where
  "sched_record job r now sh = set_last job now sh"

section \<open>Reading the index\<close>

fun refresh_read :: "('s, 'p) executor \<Rightarrow> Job list \<Rightarrow> (string \<rightharpoonup> time) \<Rightarrow> ('s, 'p) world \<Rightarrow> (string \<rightharpoonup> time) result \<times> ('s, 'p) world" where
  "refresh_read ex [] found w = (Inr found, w)"
| "refresh_read ex (job # jobs) found w =
     (case Config_Target (exConfig ex) (jTarget job) of
        None \<Rightarrow> refresh_read ex jobs found w
      | Some t \<Rightarrow>
          (case lastRun ex t (jKind job) w of
             (Inl err, w1) \<Rightarrow> (Inl err, w1)
           | (Inr v, w1) \<Rightarrow> refresh_read ex jobs (found(Job_Key job \<mapsto> v)) w1))"

definition refresh_merge :: "(string \<rightharpoonup> time) \<Rightarrow> scheduler \<Rightarrow> scheduler" where
  "refresh_merge found sh =
     sh\<lparr>shLast := (\<lambda>key. case found key of
           None \<Rightarrow> shLast sh key
         | Some v \<Rightarrow> (case shLast sh key of None \<Rightarrow> Some v | Some current \<Rightarrow> if v > current then Some v else Some current)),
        shReady := True\<rparr>"

definition sched_refresh :: "('s, 'p) executor \<Rightarrow> scheduler \<times> ('s, 'p) world \<Rightarrow> err option \<times> scheduler \<times> ('s, 'p) world" where
  "sched_refresh ex st =
     (case refresh_read ex (shJobs (fst st)) Map.empty (snd st) of
        (Inl err, w1) \<Rightarrow> (Some err, fst st, w1)
      | (Inr found, w1) \<Rightarrow> (None, refresh_merge found (fst st), w1))"

section \<open>Dispatching\<close>

definition overlapName :: "Overlap \<Rightarrow> string" where
  "overlapName overlap = (if overlap = [] then OverlapSkip else overlap)"

definition announce :: "('s, 'p) executor \<Rightarrow> Job \<Rightarrow> time \<Rightarrow> string \<Rightarrow> ('s, 'p) world \<Rightarrow> ('s, 'p) world" where
  "announce ex job now reason w =
     (case Config_Target (exConfig ex) (jTarget job) of
        None \<Rightarrow> w
      | Some t \<Rightarrow>
          (case fanout_of ex t of
             Inl err \<Rightarrow> w
           | Inr False \<Rightarrow> w
           | Inr True \<Rightarrow>
               w\<lparr>wOut := wOut w @ [(new_Notification EventScheduleMissed now (jTarget job) reason)
                   \<lparr>nDetails := [(''kind'', JStr (jKind job)), (''schedule'', JStr (jSpec job))]\<rparr>]\<rparr>))"

definition missed :: "('s, 'p) executor \<Rightarrow> Job \<Rightarrow> Overlap \<Rightarrow> time \<Rightarrow> ('s, 'p) world \<Rightarrow> ('s, 'p) world" where
  "missed ex job overlap now w =
     announce ex job now
       (jKind job @ '' of '' @ jTarget job @ '' was due while the previous run was still going (on_overlap: ''
          @ overlapName overlap @ '')'')
       (metric (ScheduleMissed (jTarget job) (jKind job)) w)"

definition queue_slots :: nat where "queue_slots = 1"

text \<open>\<open>claim\<close> is the reading of the clock that claims the slot, \<open>now\<close> the one of an announcement.\<close>

definition dispatch :: "('s, 'p) executor \<Rightarrow> Job \<Rightarrow> time \<Rightarrow> time \<Rightarrow> scheduler \<times> ('s, 'p) world \<Rightarrow> scheduler \<times> ('s, 'p) world" where
  "dispatch ex job claim now st =
     (case shWorkers (fst st) (jTarget job) of
        None \<Rightarrow> st
      | Some wk \<Rightarrow>
          (let sh1 = set_last job claim (fst st) in
           if wkOverlap wk \<noteq> OverlapQueue \<and> (wkBusy wk \<or> wkJobs wk \<noteq> [])
           then (sh1, missed ex job (wkOverlap wk) now (snd st))
           else if length (wkJobs wk) < queue_slots
           then (sh1\<lparr>shWorkers := (shWorkers sh1)(jTarget job \<mapsto> wk\<lparr>wkJobs := wkJobs wk @ [job]\<rparr>)\<rparr>, snd st)
           else (sh1, missed ex job (wkOverlap wk) now (snd st))))"

text \<open>The tick; \<open>clock i\<close> are the three readings at the \<open>i\<close>-th job.\<close>

fun tick_loop ::
  "('s, 'p) executor \<Rightarrow> (nat \<Rightarrow> time \<times> time \<times> time) \<Rightarrow> nat \<Rightarrow> Job list \<Rightarrow> scheduler \<times> ('s, 'p) world \<Rightarrow> scheduler \<times> ('s, 'p) world" where
  "tick_loop ex clock i [] st = st"
| "tick_loop ex clock i (job # jobs) st =
     tick_loop ex clock (i + 1) jobs
       (case clock i of (asked, claim, now) \<Rightarrow>
          if sched_due (fst st) asked job then dispatch ex job claim now st else st)"

definition tick :: "('s, 'p) executor \<Rightarrow> (nat \<Rightarrow> time \<times> time \<times> time) \<Rightarrow> scheduler \<times> ('s, 'p) world \<Rightarrow> scheduler \<times> ('s, 'p) world" where
  "tick ex clock st = tick_loop ex clock 0 (shJobs (fst st)) st"

section \<open>Workers\<close>

fun start_workers :: "('s, 'p) executor \<Rightarrow> Job list \<Rightarrow> (string \<rightharpoonup> worker) \<Rightarrow> (string \<rightharpoonup> worker)" where
  "start_workers ex [] ws = ws"
| "start_workers ex (job # jobs) ws =
     start_workers ex jobs
       (if ws (jTarget job) \<noteq> None then ws
        else ws(jTarget job \<mapsto>
           \<lparr>wkOverlap = (case Config_Target (exConfig ex) (jTarget job) of Some t \<Rightarrow> tgOnOverlap t | None \<Rightarrow> []),
            wkJobs = [], wkPhase = Waiting\<rparr>))"

definition sched_start :: "('s, 'p) executor \<Rightarrow> scheduler \<Rightarrow> scheduler" where
  "sched_start ex sh = sh\<lparr>shWorkers := start_workers ex (shJobs sh) Map.empty\<rparr>"

definition new_scheduler :: "Job list \<Rightarrow> scheduler" where
  "new_scheduler jobs = \<lparr>shJobs = jobs, shLast = Map.empty, shReady = False, shWorkers = Map.empty\<rparr>"

section \<open>One-shot runs\<close>

definition sched_Due :: "('s, 'p) executor \<Rightarrow> (nat \<Rightarrow> time) \<Rightarrow> scheduler \<times> ('s, 'p) world \<Rightarrow> Job list result \<times> scheduler \<times> ('s, 'p) world" where
  "sched_Due ex clock st =
     (case sched_refresh ex st of
        (Some err, st1) \<Rightarrow> (Inl err, st1)
      | (None, st1) \<Rightarrow>
          (Inr (map snd (filter (\<lambda>(i, job). sched_due (fst st1) (clock i) job) (enumerate 0 (shJobs (fst st1))))), st1))"

text \<open>\<open>ctxErr i\<close> is what the context says after the \<open>i\<close>-th job ran.\<close>

fun run_once_loop ::
  "('s, 'p) executor \<Rightarrow> (nat \<Rightarrow> occasion) \<Rightarrow> (nat \<Rightarrow> time \<times> time) \<Rightarrow> (nat \<Rightarrow> err option) \<Rightarrow> nat \<Rightarrow> Job list \<Rightarrow> RunResult list
   \<Rightarrow> scheduler \<times> ('s, 'p) world \<Rightarrow> (RunResult list \<times> err option) \<times> scheduler \<times> ('s, 'p) world" where
  "run_once_loop ex oc clock ctxErr i [] results st = ((results, None), st)"
| "run_once_loop ex oc clock ctxErr i (job # jobs) results st =
     (if \<not> sched_due (fst st) (fst (clock i)) job then run_once_loop ex oc clock ctxErr (i + 1) jobs results st
      else case Executor_Run ex (oc i) job (snd st) of
             (r, w1) \<Rightarrow>
               (let st1 = (sched_record job r (snd (clock i)) (fst st), w1) in
                case ctxErr i of
                  Some err \<Rightarrow> ((results @ [r], Some err), st1)
                | None \<Rightarrow> run_once_loop ex oc clock ctxErr (i + 1) jobs (results @ [r]) st1))"

definition RunOnce ::
  "('s, 'p) executor \<Rightarrow> (nat \<Rightarrow> occasion) \<Rightarrow> (nat \<Rightarrow> time \<times> time) \<Rightarrow> (nat \<Rightarrow> err option)
   \<Rightarrow> scheduler \<times> ('s, 'p) world \<Rightarrow> (RunResult list \<times> err option) \<times> scheduler \<times> ('s, 'p) world" where
  "RunOnce ex oc clock ctxErr st =
     (case sched_refresh ex st of
        (Some err, st1) \<Rightarrow> (([], Some err), st1)
      | (None, st1) \<Rightarrow> run_once_loop ex oc clock ctxErr 0 (shJobs (fst st1)) [] st1)"

section \<open>The daemon\<close>

text \<open>
  The scheduler's loop and its workers interleave: a step is one job of a tick, one half of a
  refresh, or one stretch of a worker's loop. The clock never goes back. Two histories are kept
  for the statements: the slots that were claimed and the jobs whose run ended.
\<close>

record ('s, 'p) daemon =
  dmNow :: time
  dmSched :: scheduler
  dmWorld :: "('s, 'p) world"
  dmRead :: "(string \<rightharpoonup> time) option"
  dmClaims :: "(Job \<times> time) list"
  dmRuns :: "Job list"

definition set_worker :: "string \<Rightarrow> worker \<Rightarrow> scheduler \<Rightarrow> scheduler" where
  "set_worker target wk sh = sh\<lparr>shWorkers := (shWorkers sh)(target \<mapsto> wk)\<rparr>"

inductive sched_step :: "('s, 'p) executor \<Rightarrow> ('s, 'p) daemon \<Rightarrow> ('s, 'p) daemon \<Rightarrow> bool" for ex where
  step_job:
    "job \<in> set (shJobs (dmSched D)) \<Longrightarrow> dmNow D \<le> asked \<Longrightarrow> asked \<le> claim \<Longrightarrow> claim \<le> now \<Longrightarrow>
     sched_due (dmSched D) asked job \<Longrightarrow> shWorkers (dmSched D) (jTarget job) \<noteq> None \<Longrightarrow>
     dispatch ex job claim now (dmSched D, dmWorld D) = (sh, w) \<Longrightarrow>
     sched_step ex D (D\<lparr>dmNow := now, dmSched := sh, dmWorld := w, dmClaims := dmClaims D @ [(job, claim)]\<rparr>)"
| step_read:
    "dmNow D \<le> now \<Longrightarrow> refresh_read ex (shJobs (dmSched D)) Map.empty (dmWorld D) = (Inr found, w) \<Longrightarrow>
     sched_step ex D (D\<lparr>dmNow := now, dmWorld := w, dmRead := Some found\<rparr>)"
| step_unread:
    "dmNow D \<le> now \<Longrightarrow> refresh_read ex (shJobs (dmSched D)) Map.empty (dmWorld D) = (Inl err, w) \<Longrightarrow>
     sched_step ex D (D\<lparr>dmNow := now, dmWorld := w\<rparr>)"
| step_merge:
    "dmRead D = Some found \<Longrightarrow> sched_step ex D (D\<lparr>dmSched := refresh_merge found (dmSched D), dmRead := None\<rparr>)"
| step_receive:
    "shWorkers (dmSched D) target = Some wk \<Longrightarrow> wkPhase wk = Waiting \<Longrightarrow> wkJobs wk = job # jobs \<Longrightarrow>
     sched_step ex D (D\<lparr>dmSched := set_worker target (wk\<lparr>wkJobs := jobs, wkPhase := Received job\<rparr>) (dmSched D)\<rparr>)"
| step_busy:
    "shWorkers (dmSched D) target = Some wk \<Longrightarrow> wkPhase wk = Received job \<Longrightarrow>
     sched_step ex D (D\<lparr>dmSched := set_worker target (wk\<lparr>wkPhase := Running job\<rparr>) (dmSched D)\<rparr>)"
| step_run:
    "shWorkers (dmSched D) target = Some wk \<Longrightarrow> wkPhase wk = Running job \<Longrightarrow> dmNow D \<le> now \<Longrightarrow>
     Executor_Run ex oc job (dmWorld D) = (r, w) \<Longrightarrow>
     sched_step ex D (D\<lparr>dmNow := now, dmWorld := w, dmRuns := dmRuns D @ [job],
        dmSched := sched_record job r now (set_worker target (wk\<lparr>wkPhase := Done\<rparr>) (dmSched D))\<rparr>)"
| step_idle:
    "shWorkers (dmSched D) target = Some wk \<Longrightarrow> wkPhase wk = Done \<Longrightarrow>
     sched_step ex D (D\<lparr>dmSched := set_worker target (wk\<lparr>wkPhase := Waiting\<rparr>) (dmSched D)\<rparr>)"

definition daemon_init :: "('s, 'p) executor \<Rightarrow> Job list \<Rightarrow> time \<Rightarrow> ('s, 'p) world \<Rightarrow> ('s, 'p) daemon" where
  "daemon_init ex jobs now w =
     \<lparr>dmNow = now, dmSched = sched_start ex (new_scheduler jobs), dmWorld = w, dmRead = None, dmClaims = [], dmRuns = []\<rparr>"

end
