(* ===== verification/Executor_Run.thy ===== *)
theory Executor_Run
  imports Executor Verify_Run
begin

text \<open>
  What one dispatch does to the bucket: the lock operations touch the lock object only, and the
  second due check makes a dispatch with a stale view leave everything else as it is.
\<close>

section \<open>The lock operations touch the lock object only\<close>

locale lock_frame = store_frame +
  assumes absent_frame: "ok s \<Longrightarrow> sPutIfAbsent ops k b s = (ra, s') \<Longrightarrow> ok s' \<and> (\<forall>j. j \<noteq> k \<longrightarrow> vw s' j = vw s j)"
begin

lemma lock_read_frame: "ok s \<Longrightarrow> lock_read ops l s = (r, s') \<Longrightarrow> ok s' \<and> vw s' = vw s"
  unfolding lock_read_def
  by (auto split: prod.splits sum.splits if_splits option.splits) (metis head_frame get_frame)+

lemma hold_frame: "ok s \<Longrightarrow> hold ops l ow e s = (r, s') \<Longrightarrow> ok s' \<and> vw s' = vw s"
  unfolding hold_def by (auto split: prod.splits sum.splits if_splits dest: head_frame)

lemma attempt_frame:
  assumes "ok s" and "lock_attempt ops l me i now target kind s = (r, s')"
  shows "ok s' \<and> (\<forall>j. j \<noteq> lkKey l \<longrightarrow> vw s' j = vw s j)"
proof (cases "Owner_Marshal (new_owner l me i now target kind)")
  case (Inl x)
  then show ?thesis using assms by (simp add: lock_attempt_def)
next
  case (Inr body)
  obtain ra s1 where a: "sPutIfAbsent ops (lkKey l) body s = (ra, s1)" by fastforce
  note fa = absent_frame [OF assms(1) a]
  show ?thesis
  proof (cases "ra = Inr False")
    case True
    obtain rr s2 where rd: "lock_read ops l s1 = (rr, s2)" by fastforce
    with fa have f2: "ok s2 \<and> vw s2 = vw s1" using lock_read_frame by blast
    show ?thesis
    proof (cases rr)
      case (Inr ce)
      obtain cur etag where ce: "ce = (cur, etag)" by fastforce
      obtain rm s3 where m: "sPutIfMatch ops (lkKey l) body etag s2 = (rm, s3)" by fastforce
      have f3: "ok s3 \<and> (\<forall>j. j \<noteq> lkKey l \<longrightarrow> vw s3 j = vw s2 j)" using match_frame [OF _ m] f2 by blast
      have after: "ok s' \<and> vw s' = vw s3" if "\<not> (\<not> Owner_Expired cur now)"
        using assms(2) that f3 unfolding lock_attempt_def Let_def
        by (auto simp: \<open>Owner_Marshal _ = Inr body\<close> a True rd Inr ce m
            split: prod.splits sum.splits if_splits dest: lock_read_frame hold_frame)
      show ?thesis
      proof (cases "Owner_Expired cur now")
        case True
        then show ?thesis using after f2 f3 fa by auto
      next
        case False
        then have "s' = s2" using assms(2) unfolding lock_attempt_def Let_def
          by (simp add: \<open>Owner_Marshal _ = Inr body\<close> a \<open>ra = Inr False\<close> rd Inr ce)
        then show ?thesis using f2 fa by auto
      qed
    qed (use assms(2) fa f2 in \<open>auto simp: lock_attempt_def Let_def \<open>Owner_Marshal _ = Inr body\<close> a True rd\<close>)
  next
    case False
    then have "s' = s1 \<or> hold ops l (new_owner l me i now target kind) [] s1 = (r, s')"
      using assms(2) unfolding lock_attempt_def Let_def
      by (auto simp: Inr a split: sum.splits if_splits)
    then show ?thesis using fa hold_frame by auto
  qed
qed

lemma acquire_loop_frame:
  "ok s \<Longrightarrow> acquire_loop ops l me ids clock target kind n a x s = (r, s') \<Longrightarrow>
    ok s' \<and> (\<forall>j. j \<noteq> lkKey l \<longrightarrow> vw s' j = vw s j)"
proof (induction n arbitrary: a x s)
  case (Suc n)
  obtain ra s1 where at: "lock_attempt ops l me (ids a) (clock a) target kind s = (ra, s1)" by fastforce
  note f = attempt_frame [OF Suc.prems(1) at]
  show ?case
  proof (cases "s' = s1")
    case True
    then show ?thesis using f by simp
  next
    case False
    then obtain y where "acquire_loop ops l me ids clock target kind n (a + 1) y s1 = (r, s')"
      using Suc.prems(2) at by (auto split: sum.splits if_splits)
    then show ?thesis using Suc.IH f by metis
  qed
qed simp

lemma renew_frame: "ok s \<Longrightarrow> renew ops l now held s = (r, s') \<Longrightarrow> ok s' \<and> (\<forall>j. j \<noteq> lkKey l \<longrightarrow> vw s' j = vw s j)"
  unfolding renew_def Let_def
  by (auto split: prod.splits sum.splits if_splits dest: match_frame)

lemma heartbeat_frame:
  "ok s \<Longrightarrow> heartbeat ops l ticks held s = (e, held', s') \<Longrightarrow> ok s' \<and> (\<forall>j. j \<noteq> lkKey l \<longrightarrow> vw s' j = vw s j)"
proof (induction ticks arbitrary: held s)
  case (Cons now ticks)
  obtain rr s1 where rn: "renew ops l now held s = (rr, s1)" by fastforce
  note f = renew_frame [OF Cons.prems(1) rn]
  show ?case using Cons.prems(2) rn f Cons.IH by (fastforce split: sum.splits)
qed simp

lemma release_frame: "ok s \<Longrightarrow> Release ops l held s = (e, held', s') \<Longrightarrow> ok s' \<and> (\<forall>j. j \<noteq> lkKey l \<longrightarrow> vw s' j = vw s j)"
  unfolding Release_def Let_def
  by (auto split: prod.splits sum.splits if_splits) (metis head_frame delete_frame empty_iff empty_set set_ConsD)+

end

interpretation qlock: lock_frame "memory_ops h" mem_view "\<lambda>s. True" for h
proof unfold_locales
  fix s k b ra s'
  assume a: "sPutIfAbsent (memory_ops h) k b s = (ra, s')"
  show "True \<and> (\<forall>j. j \<noteq> k \<longrightarrow> mem_view s' j = mem_view s j)"
    using a mem.absent_taken [where h = h and b = b and s = s and k = k] mem.absent_free [where h = h and b = b and s = s and k = k]
    by (cases "mem_view s k") auto
qed

section \<open>The second due check\<close>

text \<open>When an attempt of a kind of job last touched an entry.\<close>

definition attempted :: "JobKind \<Rightarrow> Entry \<Rightarrow> time option" where
  "attempted kind x = (if kind = KindBackup then Some (eFinishedAt x) else if kind = KindVerify then eVerifiedAt x else None)"

lemma last_step_attempted: "last_step kind a x = (case attempted kind x of None \<Rightarrow> a | Some f \<Rightarrow> max a f)"
  by (auto simp: last_step_def attempted_def split: option.splits)

lemma last_step_bounds:
  "a \<le> foldl (last_step kind) a es \<and> (\<forall>x\<in>set es. \<forall>f. attempted kind x = Some f \<longrightarrow> f \<le> foldl (last_step kind) a es)"
proof (induction es arbitrary: a)
  case (Cons x es)
  have "a \<le> last_step kind a x" and "\<And>f. attempted kind x = Some f \<Longrightarrow> f \<le> last_step kind a x"
    by (auto simp: last_step_attempted split: option.splits)
  then show ?case using Cons.IH [of "last_step kind a x"] by (auto intro: order_trans)
qed simp

lemma not_due_in_slot:
  assumes "jSchedule job = Some nxt" and "mono nxt" and "x \<in> set es" and "attempted kind x = Some f" and "0 < f" and "now < nxt f"
  shows "\<not> Job_Due job (foldl (last_step kind) 0 es) now"
proof -
  have "f \<le> foldl (last_step kind) 0 es" using last_step_bounds assms(3,4) by blast
  then have "nxt f \<le> nxt (foldl (last_step kind) 0 es)" "foldl (last_step kind) 0 es \<noteq> 0"
    using assms(2,5) by (auto simp: mono_def)
  then show ?thesis using assms(1,6) by (auto simp: Job_Due_def IsZero_def)
qed

lemma lock_key_apart: "layout_ok l \<Longrightarrow> Layout_Lock l \<noteq> Layout_Index l"
proof
  assume ok: "layout_ok l" and eq: "Layout_Lock l = Layout_Index l"
  have "plain_comp (lTarget l @ ''.jsonl'')" "plain_comp (lTarget l @ ''.lock'')"
    using ok by (auto simp: layout_ok_def plain_comp_def)
  then have "Join ''/'' (prefix_comps l @ [''_locks'', lTarget l @ ''.lock'']) = Join ''/'' (prefix_comps l @ [''_index'', lTarget l @ ''.jsonl''])"
    and "list_all plain_comp (prefix_comps l @ [''_locks'', lTarget l @ ''.lock''])"
    and "list_all plain_comp (prefix_comps l @ [''_index'', lTarget l @ ''.jsonl''])"
    using eq ok by (auto simp: Layout_Index_def Layout_Lock_def layout_join_plain plain_comp_def layout_ok_def)
  then show False using Join_plain_inject by fastforce
qed

lemma entries_stored:
  assumes "mem_view s (Layout_Index l) = Some (b, e)" and "e \<noteq> []" and "ParseIndex b = (es, None)"
  shows "index_Entries (memory_ops h) l s = (Inr (es, True), s)"
  using mem.head_hit [OF assms(1)] mem.get_hit [OF assms(1)] assms(2,3)
  by (auto simp: index_Entries_def index_Load_def)

text \<open>What a dispatch that does no work leaves alone.\<close>

definition only_lock :: "string \<Rightarrow> string \<Rightarrow> (memory, 'p) world \<Rightarrow> (memory, 'p) world \<Rightarrow> bool" where
  "only_lock d k w w' \<longleftrightarrow> wOut w' = wOut w \<and> wMetrics w' = wMetrics w \<and> wStaging w' = wStaging w \<and>
     (\<forall>d' j. d' \<noteq> d \<or> j \<noteq> k \<longrightarrow> mem_view (wStore w' d') j = mem_view (wStore w d') j)"

lemma only_lock_refl: "only_lock d k w w"
  by (simp add: only_lock_def)

lemma only_lock_trans: "only_lock d k w w1 \<Longrightarrow> only_lock d k w1 w2 \<Longrightarrow> only_lock d k w w2"
  by (simp add: only_lock_def)

lemma only_lock_put:
  "(\<And>j. j \<noteq> k \<Longrightarrow> mem_view s j = mem_view (wStore w d) j) \<Longrightarrow> only_lock d k w (put_store d s w)"
  by (auto simp: only_lock_def put_store_def)

lemma acquire_only_lock:
  assumes "exOps ex = memory_ops h" and "app_Index ex t = Inr l" and "exec_acquire ex oc t job w = (r, w')"
  shows "only_lock (tgDestination t) (Layout_Lock l) w w' \<and> (\<forall>lh. r = Inr lh \<longrightarrow> lkKey (fst lh) = Layout_Lock l)"
proof -
  have lay: "app_Store ex (tgDestination t) = Inr ()" "app_Layout (exConfig ex) t = Inr l"
    using assms(2) by (auto simp: app_Index_def split: sum.splits)
  let ?lk = "\<lparr>lkKey = Layout_Lock l, lkTTL = exLockTTL ex\<rparr>"
  obtain ra s where a: "Acquire (exOps ex) ?lk (exCaller ex) (ocIDs oc) (ocClock oc) (tgName t) (jKind job)
      (wStore w (tgDestination t)) = (ra, s)" by fastforce
  have f: "mem_view s j = mem_view (wStore w (tgDestination t)) j" if "j \<noteq> Layout_Lock l" for j
    using qlock.acquire_loop_frame [OF TrueI a [unfolded Acquire_def assms(1)]] that by simp
  have "w' = put_store (tgDestination t) s w" and "r = map_sum id (\<lambda>held. (?lk, held)) ra"
    using assms(3) a lay by (auto simp: exec_acquire_def Let_def split: sum.splits)
  then show ?thesis using only_lock_put [of "Layout_Lock l" s w "tgDestination t", OF f] by (cases ra) auto
qed

lemma release_only_lock:
  assumes "exOps ex = memory_ops h" and "lkKey (fst lh) = k"
  shows "only_lock (tgDestination t) k w (exec_release ex oc t lh w)"
proof -
  obtain lost held s where b: "heartbeat (memory_ops h) (fst lh) (ocBeats oc) (snd lh) (wStore w (tgDestination t)) = (lost, held, s)"
    by (rule prod_cases3)
  obtain err held' s' where r: "Release (memory_ops h) (fst lh) held s = (err, held', s')" by (rule prod_cases3)
  have "exec_release ex oc t lh w = put_store (tgDestination t) s' w" using assms(1) b r by (simp add: exec_release_def)
  then show ?thesis
    using qlock.heartbeat_frame [OF TrueI b] qlock.release_frame [OF TrueI r] assms(2) by (auto intro: only_lock_put)
qed

text \<open>C32: No job runs twice in one slot. Once the index of a target lists an attempt of a job's kind,
  a dispatch of that job whose clock is still before the next instant of the schedule after that
  attempt does nothing, however stale the view it was started from: it ran nothing, announced
  nothing, counted nothing, and changed no object but the lock.\<close>

theorem recheck_under_lock:
  assumes "exOps ex = memory_ops h" and "Config_Target (exConfig ex) (jTarget job) = Some t" and "app_Index ex t = Inr l"
    and "layout_ok l" and "jSchedule job = Some nxt" and "mono nxt"
    and "mem_view (wStore w (tgDestination t)) (Layout_Index l) = Some (b, e)" and "e \<noteq> []" and "ParseIndex b = (es, None)"
    and "x \<in> set es" and "attempted (jKind job) x = Some f" and "0 < f" and "ocChecked oc < nxt f"
  shows "\<exists>r w'. Executor_Run ex oc job w = (r, w') \<and> only_lock (tgDestination t) (Layout_Lock l) w w' \<and>
    rrManifest r = None \<and> (rrOutcome r = OutcomeNotDue \<or> rrOutcome r = OutcomeLocked \<or> rrOutcome r = [] \<and> rrErr r \<noteq> None)"
proof -
  let ?d = "tgDestination t" and ?k = "Layout_Lock l"
  obtain ra w1 where a: "exec_acquire ex oc t job w = (ra, w1)" by fastforce
  note A = acquire_only_lock [OF assms(1,3) a]
  show ?thesis
  proof (cases ra)
    case (Inl err)
    then show ?thesis using A a assms(2)
      by (cases "errors_As as_locked err") (auto simp: Executor_Run_def Let_def finish_def new_RunResult_def)
  next
    case (Inr lh)
    then have key: "lkKey (fst lh) = ?k" using A by simp
    have "mem_view (wStore w1 ?d) (Layout_Index l) = Some (b, e)"
      using A assms(7) lock_key_apart [OF assms(4)] by (auto simp: only_lock_def)
    note ent = entries_stored [OF this assms(8,9), where h = h]
    have "lastRun ex t (jKind job) w1 = (Inr (foldl (last_step (jKind job)) 0 es), put_store ?d (wStore w1 ?d) w1)"
      using ent assms(1,3) by (simp add: lastRun_def)
    then obtain r2 where "exec_locked ex oc t job (new_RunResult job) w1 = (r2, put_store ?d (wStore w1 ?d) w1)"
      and r2: "rrManifest r2 = None" "rrOutcome r2 = OutcomeNotDue"
      using not_due_in_slot [OF assms(5,6,10-13)] assms(5) by (auto simp: exec_locked_def new_RunResult_def)
    then have "Executor_Run ex oc job w = (finish oc r2, exec_release ex oc t lh (put_store ?d (wStore w1 ?d) w1))"
      using assms(2) a Inr by (simp add: Executor_Run_def Let_def)
    moreover have "only_lock ?d ?k w (exec_release ex oc t lh (put_store ?d (wStore w1 ?d) w1))"
      using A only_lock_put [of ?k "wStore w1 ?d" w1 ?d] release_only_lock [OF assms(1) key] only_lock_trans by blast
    ultimately show ?thesis using r2 by (simp add: finish_def)
  qed
qed

section \<open>An example\<close>

definition demo_executor :: "(memory, string list) executor" where
  "demo_executor = \<lparr>exConfig = demo_config, exOps = memory_ops demo_hash, exOpen = (\<lambda>d. None),
     exEngine = (\<lambda>t. Inr (demo_dumper ''PGDMP'')), exProvision = (\<lambda>v. Inr stubborn), exCaller = \<lparr>clHost = ''db'', clPID = 1, clVersion = ''1''\<rparr>,
     exIdentities = [''age1qq''], exPrune = True, exLockTTL = 0\<rparr>"

definition demo_world :: "(memory, string list) world" where
  "demo_world = \<lparr>wStore = (\<lambda>d. demo_store [demo_entry ''a'' demo_time]), wOut = [], wStaging = [], wMetrics = Some metrics_New\<rparr>"

definition demo_job :: Job where
  "demo_job = \<lparr>jTarget = ''app'', jKind = KindBackup, jSpec = ''@daily'', jSchedule = Some (\<lambda>t. t + 24 * Hour), jLevel = [], jTier = []\<rparr>"

definition demo_occasion :: "time \<Rightarrow> occasion" where
  "demo_occasion now = \<lparr>ocStarted = now, ocChecked = now, ocFinished = now, ocIDs = (\<lambda>i. ''01j''), ocClock = (\<lambda>i. now), ocBeats = [],
     ocRun = demo_env, ocVerify = demo_verify, ocPlanned = now, ocPruned = now\<rparr>"

text \<open>A replica that wakes up an hour after another one finished the day's backup.\<close>

theorem recheck_under_lock_witness:
  "\<exists>r w'. Executor_Run demo_executor (demo_occasion (demo_time + Hour)) demo_job demo_world = (r, w') \<and>
    only_lock ''main'' (Layout_Lock (demo_layout ''app'')) demo_world w' \<and> rrManifest r = None"
proof -
  have t: "Config_Target (exConfig demo_executor) (jTarget demo_job) = Some demo_target" by code_simp
  have l: "app_Index demo_executor demo_target = Inr (demo_layout ''app'')"
    by (simp add: demo_executor_def app_Index_def app_Store_def app_Layout_def demo_config_def demo_target_def
        Config_Destination_def demo_layout_def)
  have p: "ParseIndex (index_text [demo_entry ''a'' demo_time]) = ([demo_entry ''a'' demo_time], None)"
    using demo_store_index by (simp add: index_at_def demo_store_view del: demo_keys)
  have v: "mem_view (wStore demo_world (tgDestination demo_target)) (Layout_Index (demo_layout ''app''))
      = Some (index_text [demo_entry ''a'' demo_time], demo_hash (index_text [demo_entry ''a'' demo_time]))"
    by (simp add: demo_world_def demo_store_view del: demo_keys)
  have "\<exists>r w'. Executor_Run demo_executor (demo_occasion (demo_time + Hour)) demo_job demo_world = (r, w') \<and>
    only_lock (tgDestination demo_target) (Layout_Lock (demo_layout ''app'')) demo_world w' \<and> rrManifest r = None \<and>
    (rrOutcome r = OutcomeNotDue \<or> rrOutcome r = OutcomeLocked \<or> rrOutcome r = [] \<and> rrErr r \<noteq> None)"
    by (rule recheck_under_lock [OF _ t l _ _ _ v _ p, where x = "demo_entry ''a'' demo_time" and f = demo_time
          and nxt = "\<lambda>t. t + 24 * Hour"])
      (use demo_layout_ok(1) in \<open>simp_all add: demo_executor_def demo_job_def mono_def demo_hash_def attempted_def demo_entry_def
          NewFailureEntry_def demo_time_def unit_defs demo_occasion_def\<close>)
  then show ?thesis by (auto simp: demo_target_def)
qed

end
