(* ===== verification/Daemon.thy ===== *)
theory Daemon
  imports Scheduler Executor_Run
begin

text \<open>
  Invariants of the daemon: the spacing of the slots it claims, the bound on what a target has
  waiting, and an account of every slot.
\<close>

section \<open>What the parts leave alone\<close>

named_theorems frame_simps \<open>what an operation leaves alone\<close>

definition missed_of :: "('s, 'p) world \<Rightarrow> (string \<times> string \<rightharpoonup> int) option" where
  "missed_of w = map_option scheduleMissed (wMetrics w)"

lemma missed_of_put [frame_simps]:
  "missed_of (put_store d s w) = missed_of w" "missed_of (put_run d st w) = missed_of w"
  "missed_of (w\<lparr>wStaging := p\<rparr>) = missed_of w"
  by (simp_all add: missed_of_def put_store_def put_run_def)

lemma missed_of_metric [frame_simps]:
  "missed_of (metric (BackupFailed a b) w) = missed_of w"
  "missed_of (metric (BackupSucceeded a b d x y z) w) = missed_of w"
  "missed_of (metric (VerifySucceeded a b v) w) = missed_of w"
  "missed_of (metric (RetentionObjects a c) w) = missed_of w"
  "missed_of (metric (RunStarted a) w) = missed_of w"
  "missed_of (metric (RunFinished a) w) = missed_of w"
  by (cases "wMetrics w"; simp add: missed_of_def metric_def BackupFailed_def BackupSucceeded_def VerifySucceeded_def
      RetentionObjects_def RunStarted_def RunFinished_def)+

lemma lastRun_missed [frame_simps]: "missed_of (snd (lastRun ex t kind w)) = missed_of w"
  by (simp add: lastRun_def frame_simps split: sum.split prod.split)

lemma latestBackup_missed [frame_simps]: "missed_of (snd (latestBackup ex t w)) = missed_of w"
  by (simp add: latestBackup_def frame_simps split: sum.split prod.split list.split)

lemma exec_prune_missed [frame_simps]: "missed_of (exec_prune ex oc t w) = missed_of w"
  by (simp add: exec_prune_def Let_def frame_simps split: sum.split prod.split)

lemma exec_backup_missed [frame_simps]: "missed_of (snd (exec_backup ex oc t job r w)) = missed_of w"
  by (simp add: exec_backup_def Let_def frame_simps split: sum.split prod.split)

lemma exec_verify_missed [frame_simps]: "missed_of (snd (exec_verify ex oc t job r w)) = missed_of w"
proof -
  obtain re w1 where l: "latestBackup ex t w = (re, w1)" by fastforce
  have "missed_of w1 = missed_of w" using latestBackup_missed [of ex t w] l by simp
  then show ?thesis
    by (auto simp: exec_verify_def Let_def l frame_simps split: sum.split prod.split option.split)
qed

lemma exec_work_missed [frame_simps]: "missed_of (snd (exec_work ex oc t job r w)) = missed_of w"
proof -
  let ?w0 = "metric (RunStarted (jKind job)) w"
  obtain rb wb rv wv where "exec_backup ex oc t job r ?w0 = (rb, wb)" "exec_verify ex oc t job r ?w0 = (rv, wv)" by fastforce
  moreover from this have "missed_of wb = missed_of w" "missed_of wv = missed_of w"
    by (metis exec_backup_missed exec_verify_missed missed_of_metric(5) snd_conv)+
  ultimately show ?thesis unfolding exec_work_def Let_def
    by (cases "jKind job = KindBackup"; cases "jKind job = KindVerify") (auto simp: frame_simps)
qed

lemma exec_acquire_missed [frame_simps]: "missed_of (snd (exec_acquire ex oc t job w)) = missed_of w"
  by (simp add: exec_acquire_def Let_def frame_simps split: sum.split prod.split)

lemma exec_release_missed [frame_simps]: "missed_of (exec_release ex oc t lh w) = missed_of w"
  by (simp add: exec_release_def frame_simps split: prod.split)

lemma exec_locked_missed [frame_simps]: "missed_of (snd (exec_locked ex oc t job r w)) = missed_of w"
proof -
  obtain rl w1 where "lastRun ex t (jKind job) w = (rl, w1)" by fastforce
  moreover from this have "missed_of w1 = missed_of w" by (metis lastRun_missed snd_conv)
  ultimately show ?thesis by (simp add: exec_locked_def frame_simps split: sum.split)
qed

lemma Executor_Run_missed: "missed_of (snd (Executor_Run ex oc job w)) = missed_of w"
proof (cases "Config_Target (exConfig ex) (jTarget job)")
  case (Some t)
  obtain ra w1 where a: "exec_acquire ex oc t job w = (ra, w1)" by fastforce
  then have "missed_of w1 = missed_of w" using exec_acquire_missed [of ex oc t job w] by simp
  moreover obtain r2 w2 where l: "exec_locked ex oc t job (new_RunResult job) w1 = (r2, w2)" by fastforce
  moreover from l have "missed_of w2 = missed_of w1" by (metis exec_locked_missed snd_conv)
  ultimately show ?thesis using Some a
    by (auto simp: Executor_Run_def Let_def frame_simps split: sum.split option.split)
qed (simp add: Executor_Run_def)

lemma refresh_read_missed: "missed_of (snd (refresh_read ex jobs found w)) = missed_of w"
proof (induction jobs arbitrary: found w)
  case (Cons job jobs)
  show ?case
  proof (cases "Config_Target (exConfig ex) (jTarget job)")
    case (Some t)
    obtain rl w1 where "lastRun ex t (jKind job) w = (rl, w1)" by fastforce
    then show ?thesis using Some Cons.IH lastRun_missed [of ex t "jKind job" w] by (auto split: sum.split)
  qed (simp add: Cons.IH)
qed simp

lemma announce_missed [frame_simps]: "missed_of (announce ex job now reason w) = missed_of w"
  by (simp add: announce_def missed_of_def split: option.split sum.split bool.split)

definition missed_count :: "('s, 'p) world \<Rightarrow> string \<times> string \<Rightarrow> int" where
  "missed_count w tk = (case missed_of w of None \<Rightarrow> 0 | Some m \<Rightarrow> (case m tk of None \<Rightarrow> 0 | Some n \<Rightarrow> n))"

lemma missed_missed:
  "missed_of (missed ex job ov now w) = map_option (series_add (jTarget job, jKind job) 1) (missed_of w)"
  unfolding missed_def announce_missed
  by (cases "wMetrics w") (simp_all add: missed_of_def metric_def ScheduleMissed_def)

section \<open>What a dispatch does\<close>

definition job_label :: "Job \<Rightarrow> string \<times> string" where
  "job_label job = (jTarget job, jKind job)"

definition hand :: "phase \<Rightarrow> Job list" where
  "hand p = (case p of Received j \<Rightarrow> [j] | Running j \<Rightarrow> [j] | _ \<Rightarrow> [])"

definition waiting :: "scheduler \<Rightarrow> string \<Rightarrow> Job list" where
  "waiting sh target = (case shWorkers sh target of None \<Rightarrow> [] | Some wk \<Rightarrow> wkJobs wk @ hand (wkPhase wk))"

definition count_label :: "string \<times> string \<Rightarrow> Job list \<Rightarrow> int" where
  "count_label tk js = int (length (filter (\<lambda>j. job_label j = tk) js))"

lemma count_label_simps [simp]:
  "count_label tk [] = 0"
  "count_label tk (j # js) = (if job_label j = tk then 1 else 0) + count_label tk js"
  "count_label tk (js @ ks) = count_label tk js + count_label tk ks"
  by (simp_all add: count_label_def)

lemma hand_simps [simp]: "hand Waiting = []" "hand Done = []" "hand (Received j) = [j]" "hand (Running j) = [j]"
  by (simp_all add: hand_def)

text \<open>A dispatch claims the slot, and either the job waits or the miss is counted.\<close>

lemma dispatch_effect:
  assumes "shWorkers sh (jTarget job) = Some wk" and "dispatch ex job claim now (sh, w) = (sh', w')"
  shows "shJobs sh' = shJobs sh \<and> shLast sh' = (shLast sh)(Job_Key job \<mapsto> claim) \<and>
    (shWorkers sh' = shWorkers sh \<and> w' = missed ex job (wkOverlap wk) now w \<or>
     wkJobs wk = [] \<and> shWorkers sh' = (shWorkers sh)(jTarget job \<mapsto> wk\<lparr>wkJobs := [job]\<rparr>) \<and> w' = w)"
  using assms by (auto simp: dispatch_def Let_def set_last_def queue_slots_def split: if_splits)

section \<open>The invariant\<close>

definition spaced :: "Job \<times> time \<Rightarrow> Job \<times> time \<Rightarrow> bool" where
  "spaced a b \<longleftrightarrow> (fst a = fst b \<longrightarrow> (case jSchedule (fst a) of None \<Rightarrow> True | Some nxt \<Rightarrow> nxt (snd a) \<le> snd b))"

definition claims_inv :: "Job list \<Rightarrow> ('s, 'p) daemon \<Rightarrow> bool" where
  "claims_inv jobs D \<longleftrightarrow> 0 < dmNow D \<and> shJobs (dmSched D) = jobs \<and> sorted_wrt spaced (dmClaims D) \<and>
     (\<forall>job t. (job, t) \<in> set (dmClaims D) \<longrightarrow>
        0 < t \<and> t \<le> dmNow D \<and> (\<exists>v. shLast (dmSched D) (Job_Key job) = Some v \<and> t \<le> v))"

definition regular :: "Job list \<Rightarrow> bool" where
  "regular jobs \<longleftrightarrow> (\<forall>job\<in>set jobs. \<forall>nxt. jSchedule job = Some nxt \<longrightarrow> mono nxt)"

lemma due_spaced:
  assumes "sched_due sh asked job" and "shLast sh (Job_Key job) = Some v" and "t \<le> v" and "0 < t" and "asked \<le> claim"
    and "\<And>nxt. jSchedule job = Some nxt \<Longrightarrow> mono nxt"
  shows "spaced (job, t) (job, claim)"
proof (cases "jSchedule job")
  case (Some nxt)
  then have "nxt t \<le> nxt v" using assms(3,6) by (auto simp: mono_def)
  then show ?thesis using assms Some by (auto simp: spaced_def sched_due_def Job_Due_def last_of_def IsZero_def split: if_splits)
qed (simp add: spaced_def)

lemma last_keeps:
  assumes "\<exists>v. shLast sh k = Some v \<and> t \<le> v" and "t \<le> now"
  shows "\<exists>v. shLast (set_last job now sh) k = Some v \<and> t \<le> v"
    and "\<exists>v. shLast (refresh_merge found sh) k = Some v \<and> t \<le> v"
    and "\<exists>v. shLast (set_worker target wk sh) k = Some v \<and> t \<le> v"
  using assms by (auto simp: set_last_def refresh_merge_def set_worker_def split: option.splits)

lemma claims_step:
  assumes "sched_step ex D D'" and "claims_inv jobs D" and "regular jobs"
  shows "claims_inv jobs D'"
  using assms(1)
proof cases
  case (step_job job asked claim now sh w)
  obtain wk where wk: "shWorkers (dmSched D) (jTarget job) = Some wk" using step_job by auto
  note E = dispatch_effect [OF wk step_job(8)]
  have reg: "\<And>nxt. jSchedule job = Some nxt \<Longrightarrow> mono nxt"
    using step_job assms(2,3) by (auto simp: claims_inv_def regular_def)
  have "spaced (j, t) (job, claim)" if claimed: "(j, t) \<in> set (dmClaims D)" for j t
  proof (cases "j = job")
    case True
    then obtain v where "shLast (dmSched D) (Job_Key job) = Some v" "t \<le> v" "0 < t"
      using claimed assms(2) by (auto simp: claims_inv_def)
    then show ?thesis using due_spaced [OF step_job(6) _ _ _ step_job(4) reg] True by blast
  qed (simp add: spaced_def)
  then show ?thesis
    using step_job assms(2) E by (fastforce simp: claims_inv_def sorted_wrt_append)
next
  case (step_run target wk job now oc r w)
  then show ?thesis using assms(2)
    by (auto simp: claims_inv_def sched_record_def set_last_def set_worker_def split: prod.splits) fastforce+
next
  case (step_merge found)
  then show ?thesis using assms(2) last_keeps(2) [of "dmSched D" _ _ _ found]
    by (fastforce simp: claims_inv_def refresh_merge_def)
qed (use assms(2) in \<open>fastforce simp: claims_inv_def set_worker_def\<close>)+

definition queues_inv :: "('s, 'p) daemon \<Rightarrow> bool" where
  "queues_inv D \<longleftrightarrow> (\<forall>target wk. shWorkers (dmSched D) target = Some wk \<longrightarrow>
     length (wkJobs wk) \<le> queue_slots \<and> (\<forall>j\<in>set (wkJobs wk @ hand (wkPhase wk)). jTarget j = target))"

lemma queues_set_worker:
  assumes "queues_inv D" and "shWorkers (dmSched D') = (shWorkers (dmSched D))(target \<mapsto> wk)"
    and "length (wkJobs wk) \<le> queue_slots" and "\<forall>j\<in>set (wkJobs wk @ hand (wkPhase wk)). jTarget j = target"
  shows "queues_inv D'"
  using assms unfolding queues_inv_def by (simp add: fun_upd_apply)

lemma queues_step:
  assumes "sched_step ex D D'" and "queues_inv D"
  shows "queues_inv D'"
proof -
  have old: "length (wkJobs wk) \<le> queue_slots \<and> (\<forall>j\<in>set (wkJobs wk @ hand (wkPhase wk)). jTarget j = target)"
    if "shWorkers (dmSched D) target = Some wk" for target wk
    using assms(2) that unfolding queues_inv_def by blast
  show ?thesis using assms(1)
  proof cases
    case (step_job job asked claim now sh w)
    then obtain wk where wk: "shWorkers (dmSched D) (jTarget job) = Some wk" by auto
    from dispatch_effect [OF wk step_job(8)] show ?thesis
    proof (elim conjE disjE)
      assume "shWorkers sh = shWorkers (dmSched D)"
      then show ?thesis using step_job(1) assms(2) by (simp add: queues_inv_def)
    next
      assume "shWorkers sh = (shWorkers (dmSched D))(jTarget job \<mapsto> wk\<lparr>wkJobs := [job]\<rparr>)"
      then show ?thesis
        using step_job(1) old [OF wk] by (intro queues_set_worker [OF assms(2)]) (auto simp: queue_slots_def)
    qed
  next
    case (step_receive target wk job jobs)
    then show ?thesis using old [of target wk]
      by (intro queues_set_worker [OF assms(2), where wk = "wk\<lparr>wkJobs := jobs, wkPhase := Received job\<rparr>" and target = target])
        (auto simp: set_worker_def)
  next
    case (step_busy target wk job)
    then show ?thesis using old [of target wk]
      by (intro queues_set_worker [OF assms(2), where wk = "wk\<lparr>wkPhase := Running job\<rparr>" and target = target]) (auto simp: set_worker_def)
  next
    case (step_run target wk job now oc r w)
    then show ?thesis using old [of target wk]
      by (intro queues_set_worker [OF assms(2), where wk = "wk\<lparr>wkPhase := Done\<rparr>" and target = target])
        (auto simp: set_worker_def sched_record_def set_last_def)
  next
    case (step_idle target wk)
    then show ?thesis using old [of target wk]
      by (intro queues_set_worker [OF assms(2), where wk = "wk\<lparr>wkPhase := Waiting\<rparr>" and target = target]) (auto simp: set_worker_def)
  qed (use assms(2) in \<open>simp_all add: queues_inv_def refresh_merge_def\<close>)
qed

definition balance :: "('s, 'p) daemon \<Rightarrow> string \<times> string \<Rightarrow> int" where
  "balance D tk = count_label tk (map fst (dmClaims D)) - missed_count (dmWorld D) tk
     - count_label tk (waiting (dmSched D) (fst tk)) - count_label tk (dmRuns D)"

lemma balance_step:
  assumes "sched_step ex D D'" and "queues_inv D" and "wMetrics (dmWorld D) \<noteq> None"
  shows "balance D' tk = balance D tk \<and> wMetrics (dmWorld D') \<noteq> None"
  using assms(1)
proof cases
  case (step_job job asked claim now sh w)
  then obtain wk where wk: "shWorkers (dmSched D) (jTarget job) = Some wk" by auto
  obtain m where m: "missed_of (dmWorld D) = Some m" using assms(3) by (auto simp: missed_of_def)
  from dispatch_effect [OF wk step_job(8)] show ?thesis
  proof (elim conjE disjE)
    assume same: "shWorkers sh = shWorkers (dmSched D)" and w: "w = missed ex job (wkOverlap wk) now (dmWorld D)"
    have "missed_of w = Some (series_add (jTarget job, jKind job) 1 m)" by (simp add: w missed_missed m)
    then show ?thesis using step_job same m
      by (auto simp: balance_def missed_count_def series_add_def job_label_def waiting_def missed_of_def split: option.splits)
  next
    assume e: "wkJobs wk = []" and q: "shWorkers sh = (shWorkers (dmSched D))(jTarget job \<mapsto> wk\<lparr>wkJobs := [job]\<rparr>)" and w: "w = dmWorld D"
    show ?thesis using step_job e q w wk assms(3)
      by (auto simp: balance_def waiting_def job_label_def)
  qed
next
  case (step_receive target wk job jobs)
  then show ?thesis using assms(3) by (auto simp: balance_def waiting_def set_worker_def)
next
  case (step_busy target wk job)
  then show ?thesis using assms(3) by (auto simp: balance_def waiting_def set_worker_def)
next
  case (step_run target wk job now oc r w)
  have "missed_of w = missed_of (dmWorld D)" using Executor_Run_missed [of ex oc job "dmWorld D"] step_run by simp
  moreover have "jTarget job = target" using assms(2) step_run by (auto simp: queues_inv_def)
  ultimately show ?thesis using step_run assms(3)
    by (auto simp: balance_def waiting_def set_worker_def sched_record_def set_last_def missed_count_def job_label_def missed_of_def
        split: option.splits)
next
  case (step_idle target wk)
  then show ?thesis using assms(3) by (auto simp: balance_def waiting_def set_worker_def)
next
  case (step_read now found w)
  have "missed_of w = missed_of (dmWorld D)"
    using refresh_read_missed [of ex "shJobs (dmSched D)" Map.empty "dmWorld D"] step_read by simp
  then show ?thesis using step_read assms(3) by (auto simp: balance_def missed_count_def missed_of_def)
next
  case (step_unread now err w)
  have "missed_of w = missed_of (dmWorld D)"
    using refresh_read_missed [of ex "shJobs (dmSched D)" Map.empty "dmWorld D"] step_unread by simp
  then show ?thesis using step_unread assms(3) by (auto simp: balance_def missed_count_def missed_of_def)
next
  case (step_merge found)
  then show ?thesis using assms(3) by (simp add: balance_def waiting_def refresh_merge_def)
qed

section \<open>The daemon from its start\<close>

lemma start_workers_fresh:
  "start_workers ex jobs ws target = Some wk \<Longrightarrow> ws target = Some wk \<or> wkJobs wk = [] \<and> wkPhase wk = Waiting"
proof (induction jobs arbitrary: ws)
  case (Cons job jobs)
  then show ?case by (fastforce split: if_splits)
qed simp

lemma init_queues:
  "shWorkers (dmSched (daemon_init ex jobs now w)) target = Some wk \<Longrightarrow> wkJobs wk = [] \<and> wkPhase wk = Waiting"
  using start_workers_fresh [of ex jobs Map.empty target wk]
  by (simp add: daemon_init_def sched_start_def new_scheduler_def)

lemma daemon_invariants:
  assumes "(sched_step ex)\<^sup>*\<^sup>* (daemon_init ex jobs now w) D"
  shows "queues_inv D"
    and "regular jobs \<Longrightarrow> 0 < now \<Longrightarrow> claims_inv jobs D"
    and "wMetrics w \<noteq> None \<Longrightarrow> balance D tk = - missed_count w tk \<and> wMetrics (dmWorld D) \<noteq> None"
proof -
  let ?D0 = "daemon_init ex jobs now w"
  have q0: "queues_inv ?D0" using init_queues by (fastforce simp: queues_inv_def)
  have q: "queues_inv D" if "(sched_step ex)\<^sup>*\<^sup>* ?D0 D" for D
    using that by induction (use q0 queues_step in blast)+
  show "queues_inv D" using q assms .
  show "claims_inv jobs D" if "regular jobs" "0 < now"
    using assms
  proof induction
    case base
    then show ?case using that by (simp add: claims_inv_def daemon_init_def sched_start_def new_scheduler_def)
  next
    case (step y z)
    then show ?case using claims_step that by blast
  qed
  show "balance D tk = - missed_count w tk \<and> wMetrics (dmWorld D) \<noteq> None" if "wMetrics w \<noteq> None"
    using assms
  proof induction
    case base
    have "waiting (dmSched ?D0) (fst tk) = []" using init_queues by (fastforce simp: waiting_def split: option.split)
    then show ?case using that by (simp add: balance_def daemon_init_def)
  next
    case (step y z)
    then show ?case using balance_step q by metis
  qed
qed

text \<open>C33: However the scheduler's loop and its workers interleave, two claims of a job's slot are at
  least one slot of its schedule apart, so that no tick dispatches a job again while the run it
  started has not reached the index; and a target never has more than one job waiting behind the
  one its worker holds.\<close>

theorem dispatch_spacing:
  assumes "(sched_step ex)\<^sup>*\<^sup>* (daemon_init ex jobs now w) D" and "regular jobs" and "0 < now"
  shows "sorted_wrt (\<lambda>a b. fst a = fst b \<longrightarrow>
      (case jSchedule (fst a) of None \<Rightarrow> True | Some nxt \<Rightarrow> nxt (snd a) \<le> snd b)) (dmClaims D) \<and>
    length (waiting (dmSched D) target) \<le> queue_slots + 1"
proof
  have "(\<lambda>a b. fst a = fst b \<longrightarrow> (case jSchedule (fst a) of None \<Rightarrow> True | Some nxt \<Rightarrow> nxt (snd a) \<le> snd b)) = spaced"
    by (intro ext) (simp add: spaced_def)
  then show "sorted_wrt (\<lambda>a b. fst a = fst b \<longrightarrow>
      (case jSchedule (fst a) of None \<Rightarrow> True | Some nxt \<Rightarrow> nxt (snd a) \<le> snd b)) (dmClaims D)"
    using daemon_invariants(2) [OF assms] by (simp add: claims_inv_def)
  show "length (waiting (dmSched D) target) \<le> queue_slots + 1"
  proof (cases "shWorkers (dmSched D) target")
    case (Some wk)
    then have "length (wkJobs wk) \<le> queue_slots" using daemon_invariants(1) [OF assms(1)] by (simp add: queues_inv_def)
    then show ?thesis using Some by (cases "wkPhase wk") (simp_all add: waiting_def)
  qed (simp add: waiting_def)
qed

text \<open>C34: Every slot is accounted for: the slots claimed for a kind of job of a target are exactly the
  runs that ended, the jobs its worker holds or has waiting, and the misses that were counted. No
  due run is dropped without a trace and none is executed twice.\<close>

theorem claims_accounted:
  assumes "(sched_step ex)\<^sup>*\<^sup>* (daemon_init ex jobs now w) D" and "wMetrics w \<noteq> None"
  shows "count_label tk (map fst (dmClaims D)) =
    count_label tk (dmRuns D) + count_label tk (waiting (dmSched D) (fst tk)) + (missed_count (dmWorld D) tk - missed_count w tk)"
  using daemon_invariants(3) [OF assms, of tk] by (simp add: balance_def)

section \<open>An example\<close>

text \<open>The daily backup is claimed twice while its worker never gets to run: the second slot is missed.\<close>

lemma demo_two_claims:
  "\<exists>D. (sched_step demo_executor)\<^sup>*\<^sup>* (daemon_init demo_executor [demo_job] demo_time demo_world) D \<and>
    dmClaims D = [(demo_job, demo_time), (demo_job, demo_time + 24 * Hour)]"
proof -
  let ?ex = demo_executor and ?D0 = "daemon_init demo_executor [demo_job] demo_time demo_world"
  have pos: "0 < demo_time" "0 < Hour" by (simp_all add: demo_time_def unit_defs)
  have w0: "shWorkers (dmSched ?D0) (jTarget demo_job) \<noteq> None"
    by (simp add: daemon_init_def sched_start_def new_scheduler_def)
  obtain sh w where d1: "dispatch ?ex demo_job demo_time demo_time (dmSched ?D0, dmWorld ?D0) = (sh, w)" by fastforce
  let ?D1 = "?D0\<lparr>dmNow := demo_time, dmSched := sh, dmWorld := w, dmClaims := dmClaims ?D0 @ [(demo_job, demo_time)]\<rparr>"
  have s1: "sched_step ?ex ?D0 ?D1"
    by (rule step_job [OF _ _ _ _ _ w0 d1, where asked = demo_time])
      (simp_all add: daemon_init_def sched_start_def new_scheduler_def sched_due_def Job_Due_def last_of_def IsZero_def demo_job_def)
  obtain wk where wk: "shWorkers (dmSched ?D0) (jTarget demo_job) = Some wk" using w0 by blast
  note E = dispatch_effect [OF wk d1]
  let ?t = "demo_time + 24 * Hour"
  obtain sh2 w2 where d2: "dispatch ?ex demo_job ?t ?t (dmSched ?D1, dmWorld ?D1) = (sh2, w2)" by fastforce
  let ?D2 = "?D1\<lparr>dmNow := ?t, dmSched := sh2, dmWorld := w2, dmClaims := dmClaims ?D1 @ [(demo_job, ?t)]\<rparr>"
  have w1: "shWorkers (dmSched ?D1) (jTarget demo_job) \<noteq> None" using E wk by auto
  have "sched_due (dmSched ?D1) ?t demo_job"
    using E by (simp add: sched_due_def last_of_def Job_Due_def demo_job_def)
  moreover have "demo_job \<in> set (shJobs (dmSched ?D1))"
    using E by (simp add: daemon_init_def sched_start_def new_scheduler_def)
  ultimately have "sched_step ?ex ?D1 ?D2"
    using pos by (intro step_job [OF _ _ _ _ _ w1 d2, where asked = ?t]) simp_all
  then show ?thesis using s1
    by (intro exI [of _ ?D2]) (auto simp: daemon_init_def intro: rtranclp.intros)
qed

lemma demo_regular: "regular [demo_job]"
  by (simp add: regular_def demo_job_def mono_def)

theorem dispatch_spacing_witness:
  "\<exists>D :: (memory, string list) daemon. dmClaims D = [(demo_job, demo_time), (demo_job, demo_time + 24 * Hour)] \<and>
    length (waiting (dmSched D) ''app'') \<le> queue_slots + 1 \<and>
    (case jSchedule demo_job of None \<Rightarrow> True | Some nxt \<Rightarrow> nxt demo_time \<le> demo_time + 24 * Hour)"
proof -
  obtain D where D: "(sched_step demo_executor)\<^sup>*\<^sup>* (daemon_init demo_executor [demo_job] demo_time demo_world) D"
    and c: "dmClaims D = [(demo_job, demo_time), (demo_job, demo_time + 24 * Hour)]" using demo_two_claims by blast
  have "0 < demo_time" by (simp add: demo_time_def unit_defs)
  note S = dispatch_spacing [OF D demo_regular this, of "''app''"]
  then have "case jSchedule demo_job of None \<Rightarrow> True | Some nxt \<Rightarrow> nxt demo_time \<le> demo_time + 24 * Hour"
    by (simp add: demo_job_def)
  then show ?thesis using S c by blast
qed

theorem claims_accounted_witness:
  "\<exists>D :: (memory, string list) daemon. dmClaims D = [(demo_job, demo_time), (demo_job, demo_time + 24 * Hour)] \<and>
    2 = count_label (''app'', ''backup'') (dmRuns D) + count_label (''app'', ''backup'') (waiting (dmSched D) ''app'')
      + missed_count (dmWorld D) (''app'', ''backup'')"
proof -
  obtain D where D: "(sched_step demo_executor)\<^sup>*\<^sup>* (daemon_init demo_executor [demo_job] demo_time demo_world) D"
    and c: "dmClaims D = [(demo_job, demo_time), (demo_job, demo_time + 24 * Hour)]" using demo_two_claims by blast
  have m: "wMetrics demo_world \<noteq> None" by (simp add: demo_world_def)
  have "missed_count demo_world (''app'', ''backup'') = 0"
    by (simp add: missed_count_def missed_of_def demo_world_def metrics_New_def)
  with claims_accounted [OF D m, of "(''app'', ''backup'')"]
  have "2 = count_label (''app'', ''backup'') (dmRuns D) + count_label (''app'', ''backup'') (waiting (dmSched D) ''app'')
      + missed_count (dmWorld D) (''app'', ''backup'')"
    unfolding c by (simp add: job_label_def demo_job_def KindBackup_def)
  then show ?thesis using c by blast
qed

end
