(* ===== verification/Server.thy ===== *)
theory Server
  imports Executor
begin

text \<open>
  The HTTP surface of \<open>internal/server\<close>: the registry of runs started from the UI, the throttle
  on wrong tokens and the authentication around every guarded route, the traffic light, the
  overview, the readiness probe, and the actions. A response is its status and what it carries;
  headers, JSON rendering and the static files are left to \<open>net/http\<close>.
\<close>

section \<open>Runs started from the UI\<close>

definition runHistory :: nat where "runHistory = 50"

type_synonym RunState = string

definition RunRunning :: RunState where "RunRunning = ''running''"
definition RunSucceeded :: RunState where "RunSucceeded = ''succeeded''"
definition RunFailed :: RunState where "RunFailed = ''failed''"
definition RunSkipped :: RunState where "RunSkipped = ''skipped''"

record LogLine =
  lnAt :: time
  lnLevel :: string
  lnMessage :: string
  lnFields :: fields

record Run =
  ruID :: string
  ruTarget :: string
  ruKind :: string
  ruState :: RunState
  ruStartedAt :: time
  ruFinishedAt :: time
  ruDetail :: string
  ruError :: string
  ruBackupID :: string
  ruLog :: "LogLine list"

record runs =
  rgByID :: "string \<rightharpoonup> Run"
  rgOrder :: "string list"
  rgActive :: "string \<rightharpoonup> string"

definition newRuns :: runs where
  "newRuns = \<lparr>rgByID = Map.empty, rgOrder = [], rgActive = Map.empty\<rparr>"

definition is_running :: "(string \<rightharpoonup> Run) \<Rightarrow> string \<Rightarrow> bool" where
  "is_running byID i = (case byID i of None \<Rightarrow> False | Some run \<Rightarrow> ruState run = RunRunning)"

text \<open>\<open>trim\<close> may loop forever: not returning is \<open>None\<close>.\<close>

partial_function (option) trim_loop :: "string list \<Rightarrow> (string \<rightharpoonup> Run) \<Rightarrow> (string list \<times> (string \<rightharpoonup> Run)) option" where
  "trim_loop order byID =
     (if length order > runHistory
      then let oldest = hd order; rest = tl order in
           if is_running byID oldest then trim_loop (rest @ [oldest]) byID
           else trim_loop rest (byID(oldest := None))
      else Some (order, byID))"

definition runs_trim :: "runs \<Rightarrow> runs option" where
  "runs_trim r = map_option (\<lambda>(order, byID). r\<lparr>rgOrder := order, rgByID := byID\<rparr>) (trim_loop (rgOrder r) (rgByID r))"

text \<open>\<open>begin\<close>: \<open>i\<close> is the new identifier and \<open>now\<close> the clock.\<close>

definition runs_begin :: "string \<Rightarrow> string \<Rightarrow> string \<Rightarrow> time \<Rightarrow> runs \<Rightarrow> ((Run option \<times> bool) \<times> runs) option" where
  "runs_begin target kind i now r =
     (case rgActive r target of
        Some old \<Rightarrow> Some ((rgByID r old, False), r)
      | None \<Rightarrow>
          (let run = \<lparr>ruID = i, ruTarget = target, ruKind = kind, ruState = RunRunning, ruStartedAt = now, ruFinishedAt = 0,
                 ruDetail = [], ruError = [], ruBackupID = [], ruLog = []\<rparr>
           in map_option (\<lambda>r'. ((Some run, True), r'))
                (runs_trim (r\<lparr>rgByID := (rgByID r)(i \<mapsto> run), rgOrder := rgOrder r @ [i], rgActive := (rgActive r)(target \<mapsto> i)\<rparr>))))"

definition runs_finish :: "string \<Rightarrow> RunState \<Rightarrow> string \<Rightarrow> string \<Rightarrow> err option \<Rightarrow> time \<Rightarrow> runs \<Rightarrow> runs" where
  "runs_finish i state det backupID err now r =
     (case rgByID r i of
        None \<Rightarrow> r
      | Some run \<Rightarrow>
          (let run1 = run\<lparr>ruState := state, ruFinishedAt := now, ruDetail := det, ruBackupID := backupID\<rparr>;
               run2 = (case err of None \<Rightarrow> run1 | Some e \<Rightarrow> run1\<lparr>ruError := err_text e\<rparr>)
           in r\<lparr>rgByID := (rgByID r)(i \<mapsto> run2), rgActive := (rgActive r)(ruTarget run2 := None)\<rparr>))"

definition runs_append :: "string \<Rightarrow> LogLine \<Rightarrow> runs \<Rightarrow> runs" where
  "runs_append i line r =
     (case rgByID r i of
        None \<Rightarrow> r
      | Some run \<Rightarrow> r\<lparr>rgByID := (rgByID r)(i \<mapsto> run\<lparr>ruLog := ruLog run @ [line]\<rparr>)\<rparr>)"

definition runs_get :: "string \<Rightarrow> runs \<Rightarrow> Run option" where
  "runs_get i r = rgByID r i"

text \<open>Newest first. Runs started at the same instant, which \<open>sort.Slice\<close> may leave in any order, keep the order they were begun in.\<close>

definition runs_list :: "string \<Rightarrow> runs \<Rightarrow> Run list" where
  "runs_list target r =
     sort_desc ruStartedAt (filter (\<lambda>run. target = [] \<or> ruTarget run = target) (map (\<lambda>i. the (rgByID r i)) (rgOrder r)))"

definition maxRunLogLines :: nat where "maxRunLogLines = 500"

text \<open>\<open>capture\<close>, with the record's attributes already resolved; the clock stands in for a record without a time.\<close>

definition capture :: "string \<Rightarrow> LogLine \<Rightarrow> time \<Rightarrow> runs \<Rightarrow> runs" where
  "capture i line now r =
     (case runs_get i r of
        None \<Rightarrow> r
      | Some run \<Rightarrow>
          if length (ruLog run) \<ge> maxRunLogLines then r
          else runs_append i (if IsZero (lnAt line) then line\<lparr>lnAt := now\<rparr> else line) r)"

section \<open>Wrong tokens\<close>

definition failureBudget :: nat where "failureBudget = 5"
definition lockout :: duration where "lockout = 5 * Second"
definition maxLockout :: duration where "maxLockout = 5 * Minute"
definition forget :: duration where "forget = 15 * Minute"

record attempts =
  atCount :: nat
  atLast :: time
  atUntil :: time

record throttle =
  thSeen :: "string \<rightharpoonup> attempts"
  thSwept :: time

definition newThrottle :: throttle where
  "newThrottle = \<lparr>thSeen = Map.empty, thSwept = 0\<rparr>"

definition sweep :: "time \<Rightarrow> throttle \<Rightarrow> throttle" where
  "sweep now t =
     (if time_Sub now (thSwept t) < forget then t
      else t\<lparr>thSwept := now,
        thSeen := (\<lambda>host. case thSeen t host of
            None \<Rightarrow> None
          | Some a \<Rightarrow> if time_Sub now (atLast a) > forget then None else Some a)\<rparr>)"

text \<open>\<open>blocked\<close> reads the clock twice: \<open>sweptAt\<close> in \<open>sweep\<close>, \<open>now\<close> for the wait.\<close>

definition throttle_blocked :: "string \<Rightarrow> time \<Rightarrow> time \<Rightarrow> throttle \<Rightarrow> duration option \<times> throttle" where
  "throttle_blocked host sweptAt now t =
     (let t1 = sweep sweptAt t in
      case thSeen t1 host of
        None \<Rightarrow> (None, t1)
      | Some a \<Rightarrow>
          (let wait = time_Sub (atUntil a) now in if wait \<le> 0 then (None, t1) else (Some wait, t1)))"

definition penalty_after :: "nat \<Rightarrow> duration" where
  "penalty_after n = min (lockout * 2 ^ min (n - failureBudget - 1) 6) maxLockout"

definition throttle_failed :: "string \<Rightarrow> time \<Rightarrow> throttle \<Rightarrow> throttle" where
  "throttle_failed host now t =
     (let a = (case thSeen t host of None \<Rightarrow> \<lparr>atCount = 0, atLast = 0, atUntil = 0\<rparr> | Some a \<Rightarrow> a);
          a1 = a\<lparr>atCount := atCount a + 1, atLast := now\<rparr>;
          a2 = (if atCount a1 > failureBudget then a1\<lparr>atUntil := now + penalty_after (atCount a1)\<rparr> else a1)
      in t\<lparr>thSeen := (thSeen t)(host \<mapsto> a2)\<rparr>)"

definition throttle_succeeded :: "string \<Rightarrow> throttle \<Rightarrow> throttle" where
  "throttle_succeeded host t = t\<lparr>thSeen := (thSeen t)(host := None)\<rparr>"

section \<open>Authentication\<close>

text \<open>\<open>presented\<close>: the header and the value of the cookie, if there is one.\<close>

definition presented :: "string \<Rightarrow> string option \<Rightarrow> string" where
  "presented header cookie =
     (let prefix = ''Bearer '' in
      if length header > length prefix \<and> take (length prefix) header = prefix then drop (length prefix) header
      else case cookie of Some v \<Rightarrow> v | None \<Rightarrow> [])"

record request =
  rqHost :: string
  rqHeader :: string
  rqCookie :: "string option"

text \<open>The routes that \<open>routes\<close> wraps in \<open>authenticate\<close>. Each call of the wrapper makes a throttle of its own.\<close>

datatype guard = GetMetrics | GetAPI | PostAPI

definition guarded :: "CfgServer \<Rightarrow> bool \<Rightarrow> guard list" where
  "guarded cfg hasMetrics = (if svMetrics cfg \<and> hasMetrics then [GetMetrics] else []) @ [GetAPI, PostAPI]"

text \<open>What the wrapper does with a request: hand it on, or answer itself.\<close>

datatype verdict = Served | Unauthorized | TooManyRequests int

record answer =
  anGuard :: guard
  anRequest :: request
  anAt :: time
  anVerdict :: verdict

text \<open>
  The guarded routes while requests are served concurrently: the clock, the throttle of each route,
  the requests that \<open>blocked\<close> let pass and whose token is not compared yet, and the answers so far.
\<close>

record gate =
  gtClock :: time
  gtThrottle :: "guard \<Rightarrow> throttle"
  gtInside :: "(guard \<times> request) list"
  gtAnswers :: "answer list"

definition new_gate :: "time \<Rightarrow> gate" where
  "new_gate now = \<lparr>gtClock = now, gtThrottle = (\<lambda>_. newThrottle), gtInside = [], gtAnswers = []\<rparr>"

text \<open>The first critical section of the wrapper: is this address blocked?\<close>

definition authenticate_enter :: "guard \<Rightarrow> request \<Rightarrow> time \<Rightarrow> time \<Rightarrow> gate \<Rightarrow> gate" where
  "authenticate_enter g rq sweptAt now s =
     (case throttle_blocked (rqHost rq) sweptAt now (gtThrottle s g) of
        (Some wait, t1) \<Rightarrow>
          s\<lparr>gtClock := now, gtThrottle := (gtThrottle s)(g := t1),
            gtAnswers := gtAnswers s @ [\<lparr>anGuard = g, anRequest = rq, anAt = now, anVerdict = TooManyRequests (wait div Second + 1)\<rparr>]\<rparr>
      | (None, t1) \<Rightarrow>
          s\<lparr>gtClock := now, gtThrottle := (gtThrottle s)(g := t1), gtInside := gtInside s @ [(g, rq)]\<rparr>)"

text \<open>The second: the comparison of the token, and \<open>failed\<close> or \<open>succeeded\<close>.\<close>

definition authenticate_check :: "CfgServer \<Rightarrow> guard \<Rightarrow> request \<Rightarrow> time \<Rightarrow> gate \<Rightarrow> gate" where
  "authenticate_check cfg g rq now s =
     (let wrong = presented (rqHeader rq) (rqCookie rq) \<noteq> svAuthToken cfg;
          t1 = (if wrong then throttle_failed (rqHost rq) now (gtThrottle s g) else throttle_succeeded (rqHost rq) (gtThrottle s g))
      in s\<lparr>gtClock := now, gtThrottle := (gtThrottle s)(g := t1), gtInside := remove1 (g, rq) (gtInside s),
           gtAnswers := gtAnswers s @ [\<lparr>anGuard = g, anRequest = rq, anAt = now, anVerdict = (if wrong then Unauthorized else Served)\<rparr>]\<rparr>)"

text \<open>
  A step of the guarded routes. The clock never runs backwards; between the two sections of one
  request any number of others may run. Without token authentication every request is handed on.
\<close>

inductive gate_step :: "CfgServer \<Rightarrow> bool \<Rightarrow> gate \<Rightarrow> gate \<Rightarrow> bool" for cfg hasMetrics where
  enter: "svAuthMode cfg = AuthToken \<Longrightarrow> g \<in> set (guarded cfg hasMetrics) \<Longrightarrow> gtClock s \<le> sweptAt \<Longrightarrow> sweptAt \<le> now \<Longrightarrow>
    gate_step cfg hasMetrics s (authenticate_enter g rq sweptAt now s)"
| check: "svAuthMode cfg = AuthToken \<Longrightarrow> (g, rq) \<in> set (gtInside s) \<Longrightarrow> gtClock s \<le> now \<Longrightarrow>
    gate_step cfg hasMetrics s (authenticate_check cfg g rq now s)"
| hand_on: "svAuthMode cfg \<noteq> AuthToken \<Longrightarrow> g \<in> set (guarded cfg hasMetrics) \<Longrightarrow> gtClock s \<le> now \<Longrightarrow>
    gate_step cfg hasMetrics s (s\<lparr>gtClock := now,
      gtAnswers := gtAnswers s @ [\<lparr>anGuard = g, anRequest = rq, anAt = now, anVerdict = Served\<rparr>]\<rparr>)"

section \<open>Readiness\<close>

text \<open>\<open>reachable\<close>: the reason, if some destination in use does not answer.\<close>

fun reachable :: "('s, 'p) executor \<Rightarrow> Target list \<Rightarrow> ('s, 'p) world \<Rightarrow> string option \<times> ('s, 'p) world" where
  "reachable ex [] w = (None, w)"
| "reachable ex (t # ts) w =
     (case app_Store ex (tgDestination t) of
        Inl err \<Rightarrow> (Some (''destination '' @ tgDestination t @ '': '' @ err_text err), w)
      | Inr _ \<Rightarrow>
          (case app_Layout (exConfig ex) t of
             Inl err \<Rightarrow> (Some (err_text err), w)
           | Inr l \<Rightarrow>
               (case sHead (exOps ex) (Layout_Index l) (wStore w (tgDestination t)) of
                  (r, s) \<Rightarrow>
                    (let w1 = put_store (tgDestination t) s w in
                     case r of
                       Inl err \<Rightarrow>
                         if errors_Is err ErrNotFound then reachable ex ts w1
                         else (Some (''destination '' @ tgDestination t @ '': '' @ err_text err), w1)
                     | Inr _ \<Rightarrow> reachable ex ts w1))))"

record readiness =
  rdAt :: time
  rdDetail :: "string option"
  rdChecked :: bool

definition readyCache :: duration where "readyCache = 15 * Second"

definition readiness_check :: "('s, 'p) executor \<Rightarrow> time \<Rightarrow> readiness \<times> ('s, 'p) world \<Rightarrow> string option \<times> readiness \<times> ('s, 'p) world" where
  "readiness_check ex now st =
     (case st of (rd, w) \<Rightarrow>
        if rdChecked rd \<and> time_Sub now (rdAt rd) < readyCache then (rdDetail rd, rd, w)
        else case reachable ex (cfTargets (exConfig ex)) w of
               (d, w1) \<Rightarrow> (d, \<lparr>rdAt = now, rdDetail = d, rdChecked = True\<rparr>, w1))"

section \<open>The traffic light\<close>

type_synonym Health = string

definition HealthGreen :: Health where "HealthGreen = ''green''"
definition HealthAmber :: Health where "HealthAmber = ''amber''"
definition HealthRed :: Health where "HealthRed = ''red''"
definition HealthUnknown :: Health where "HealthUnknown = ''unknown''"

definition defaultMaxAge :: duration where "defaultMaxAge = 26 * Hour"
definition staleFactor :: int where "staleFactor = 2"

record Assessment =
  asmHealth :: Health
  asmReason :: string
  asmMaxAge :: duration

text \<open>The gap between the next two firings of a schedule after \<open>from\<close>.\<close>

definition ScheduleInterval :: "checkers \<Rightarrow> time \<Rightarrow> string \<Rightarrow> duration" where
  "ScheduleInterval ck from spec =
     (if spec = [] then 0
      else case ckCron ck spec of
             Inl err \<Rightarrow> 0
           | Inr nxt \<Rightarrow>
               (let first = nxt from; second = nxt first in
                if IsZero second \<or> IsZero first then 0 else time_Sub second first))"

definition MaxAgeOf :: "checkers \<Rightarrow> time \<Rightarrow> Target \<Rightarrow> duration" where
  "MaxAgeOf ck from t =
     (case (case tgVerify t of None \<Rightarrow> None
            | Some v \<Rightarrow> find (\<lambda>a. asType a = AssertMaxAge \<and> asValue a \<noteq> None) (vsAssertions v)) of
        Some a \<Rightarrow> the (asValue a)
      | None \<Rightarrow>
          (let interval = ScheduleInterval ck from (tgSchedule t) in
           if interval > 0 then wrap64 (interval * staleFactor) else defaultMaxAge))"

definition Assess :: "checkers \<Rightarrow> time \<Rightarrow> Target \<Rightarrow> Entry option \<Rightarrow> Entry option \<Rightarrow> time \<Rightarrow> Assessment" where
  "Assess ck from t latest latestSuccess now =
     (let maxAge = MaxAgeOf ck from t;
          light = (\<lambda>h r. \<lparr>asmHealth = h, asmReason = r, asmMaxAge = maxAge\<rparr>)
      in case latestSuccess of
           None \<Rightarrow>
             if latest = None then light HealthUnknown ''no run has been recorded yet''
             else light HealthRed ''every recorded run failed''
         | Some good \<Rightarrow>
             if latest \<noteq> None \<and> \<not> Succeeded (the latest)
             then light HealthRed (''the most recent run failed during '' @ ePhase (the latest))
             else let age = time_Sub now (eFinishedAt good) in
               if age > maxAge
               then light HealthRed (''the newest backup is '' @ Duration_String (Duration_Round age Minute) @ '' old, past the ''
                 @ Duration_String maxAge @ '' limit'')
               else if eVerifyOK good = Some False
               then light HealthAmber (''the newest backup failed '' @ eVerifyLevel good @ '' verification'')
               else if tgVerify t \<noteq> None \<and> eVerifiedAt good = None
               then light HealthAmber ''the newest backup has not been verified yet''
               else light HealthGreen (''backed up '' @ Duration_String (Duration_Round age Minute) @ '' ago''))"

section \<open>The overview\<close>

text \<open>The most recent run and the most recent successful one; of equals, the first listed.\<close>

definition newest_step :: "Entry option \<times> Entry option \<Rightarrow> Entry \<Rightarrow> Entry option \<times> Entry option" where
  "newest_step acc e =
     (let later = (\<lambda>best. case best of None \<Rightarrow> True | Some b \<Rightarrow> eFinishedAt e > eFinishedAt b) in
      (if later (fst acc) then Some e else fst acc,
       if Succeeded e \<and> later (snd acc) then Some e else snd acc))"

definition newest :: "Entry list \<Rightarrow> Entry option \<times> Entry option" where
  "newest entries = foldl newest_step (None, None) entries"

record TargetSummary =
  smName :: string
  smEngine :: Engine
  smDestination :: string
  smSchedule :: string
  smHealth :: Health
  smReason :: string
  smLastBackupAt :: time
  smLastBackupID :: string
  smAgeSeconds :: int
  smBytes :: int
  smPlaintextBytes :: int
  smBackups :: nat
  smTotalBytes :: int
  smVerifyLevel :: string
  smVerifiedAt :: time
  smVerifyOK :: "bool option"
  smLastFailure :: string
  smFailedAt :: time
  smError :: string

definition server_entries :: "('s, 'p) executor \<Rightarrow> Target \<Rightarrow> ('s, 'p) world \<Rightarrow> Entry list result \<times> ('s, 'p) world" where
  "server_entries ex t w =
     (case app_Index ex t of
        Inl err \<Rightarrow> (Inl err, w)
      | Inr l \<Rightarrow>
          (case index_Entries (exOps ex) l (wStore w (tgDestination t)) of
             (Inl err, s) \<Rightarrow> (Inl err, put_store (tgDestination t) s w)
           | (Inr (entries, _), s) \<Rightarrow> (Inr entries, put_store (tgDestination t) s w)))"

definition summarize :: "checkers \<Rightarrow> ('s, 'p) executor \<Rightarrow> time \<Rightarrow> time \<Rightarrow> Target \<Rightarrow> ('s, 'p) world \<Rightarrow> TargetSummary \<times> ('s, 'p) world" where
  "summarize ck ex from now t w =
     (let s0 = \<lparr>smName = tgName t, smEngine = tgEngine t, smDestination = tgDestination t, smSchedule = tgSchedule t,
            smHealth = [], smReason = [], smLastBackupAt = 0, smLastBackupID = [], smAgeSeconds = 0, smBytes = 0,
            smPlaintextBytes = 0, smBackups = 0, smTotalBytes = 0,
            smVerifyLevel = (case tgVerify t of None \<Rightarrow> [] | Some v \<Rightarrow> vsLevel v),
            smVerifiedAt = 0, smVerifyOK = None, smLastFailure = [], smFailedAt = 0, smError = []\<rparr>
      in case server_entries ex t w of
           (Inl err, w1) \<Rightarrow>
             (s0\<lparr>smHealth := HealthUnknown, smError := err_text err, smReason := ''the index could not be read''\<rparr>, w1)
         | (Inr entries, w1) \<Rightarrow>
             (let (latest, good) = newest entries;
                  a = Assess ck from t latest good now;
                  kept = filter Succeeded entries;
                  s1 = s0\<lparr>smHealth := asmHealth a, smReason := asmReason a, smBackups := length kept,
                     smTotalBytes := foldl (\<lambda>n e. wrap64 (n + eBytes e)) 0 kept\<rparr>;
                  s2 = (case good of
                          None \<Rightarrow> s1
                        | Some g \<Rightarrow> s1\<lparr>smLastBackupAt := eFinishedAt g, smLastBackupID := eID g,
                            smAgeSeconds := quot_int (time_Sub now (eFinishedAt g)) Second, smBytes := eBytes g,
                            smPlaintextBytes := ePlaintextBytes g, smVerifyOK := eVerifyOK g,
                            smVerifiedAt := (case eVerifiedAt g of None \<Rightarrow> 0 | Some v \<Rightarrow> v)\<rparr>);
                  s3 = (case latest of
                          Some e \<Rightarrow> if \<not> Succeeded e then s2\<lparr>smLastFailure := eError e, smFailedAt := eFinishedAt e\<rparr> else s2
                        | None \<Rightarrow> s2)
              in (s3, w1)))"

section \<open>Actions\<close>

record RetentionRow =
  rwID :: string
  rwAt :: time
  rwBytes :: int
  rwReason :: string

definition rowsOf :: "Decision list \<Rightarrow> RetentionRow list" where
  "rowsOf = map (\<lambda>d. \<lparr>rwID = bID (dBackup d), rwAt = bAt (dBackup d), rwBytes = bBytes (dBackup d), rwReason = Why d\<rparr>)"

record RetentionView =
  rvKeep :: "RetentionRow list"
  rvDelete :: "RetentionRow list"
  rvBlocked :: string
  rvFreed :: int

definition retention_view :: "Plan \<Rightarrow> RetentionView" where
  "retention_view plan = \<lparr>rvKeep = rowsOf (plKeep plan), rvDelete = rowsOf (plDelete plan), rvBlocked = plBlocked plan, rvFreed = Plan_Bytes plan\<rparr>"

definition projectRetention :: "('s, 'p) executor \<Rightarrow> time \<Rightarrow> Target \<Rightarrow> ('s, 'p) world \<Rightarrow> RetentionView option \<times> ('s, 'p) world" where
  "projectRetention ex now t w =
     (case app_Pruner ex t of
        Inl err \<Rightarrow> (None, w)
      | Inr r \<Rightarrow>
          (case prune_Plan (exOps ex) r now (wStore w (tgDestination t)) of
             (Inl err, s) \<Rightarrow> (None, put_store (tgDestination t) s w)
           | (Inr (plan, _), s) \<Rightarrow> (Some (retention_view plan), put_store (tgDestination t) s w)))"

text \<open>\<open>sha\<close> is the hexadecimal SHA-256 of a string of bytes.\<close>

definition token_text :: "Plan \<Rightarrow> string" where
  "token_text plan = concat (map (\<lambda>i. i @ [CHR 0x00]) (DeletedIDs plan))"

definition planToken :: "(string \<Rightarrow> string) \<Rightarrow> Plan \<Rightarrow> string" where
  "planToken sha plan = take 16 (sha (token_text plan))"

record PruneResponse =
  prPlan :: RetentionView
  prToken :: string
  prDryRun :: bool
  prApplied :: bool
  prObjects :: int

text \<open>A response: an error with its status and text, or what is sent with a status.\<close>

datatype 'a response = Refused int string | Sent int 'a

definition actionPrune ::
  "('s, 'p) executor \<Rightarrow> (string \<Rightarrow> string) \<Rightarrow> time \<Rightarrow> time \<Rightarrow> string \<Rightarrow> string \<Rightarrow> ('s, 'p) world \<Rightarrow> PruneResponse response \<times> ('s, 'p) world" where
  "actionPrune ex sha planned now name confirm w =
     (case Config_Target (exConfig ex) name of
        None \<Rightarrow> (Refused 404 (''no target named '' @ fmt_q name), w)
      | Some t \<Rightarrow>
          (case app_Pruner ex t of
             Inl err \<Rightarrow> (Refused 500 (err_text err), w)
           | Inr r \<Rightarrow>
               (case prune_Plan (exOps ex) r planned (wStore w (tgDestination t)) of
                  (Inl err, s) \<Rightarrow> (Refused 500 (err_text err), put_store (tgDestination t) s w)
                | (Inr (plan, _), s) \<Rightarrow>
                    (let w1 = put_store (tgDestination t) s w;
                         resp = \<lparr>prPlan = retention_view plan, prToken = planToken sha plan, prDryRun = False, prApplied = False, prObjects = 0\<rparr>
                     in if confirm = [] then (Sent 200 (resp\<lparr>prDryRun := True\<rparr>), w1)
                        else if confirm \<noteq> prToken resp
                        then (Refused 409 ''the plan changed since it was previewed; look at it again before applying'', w1)
                        else if plDelete plan = [] then (Sent 200 resp, w1)
                        else case prune_Apply (exOps ex) r now plan [] (wStore w1 (tgDestination t), wOut w1) of
                               ((objects, Some err), st) \<Rightarrow> (Refused 500 (err_text err), put_run (tgDestination t) st w1)
                             | ((objects, None), st) \<Rightarrow>
                                 (Sent 200 (resp\<lparr>prApplied := True, prObjects := objects\<rparr>), put_run (tgDestination t) st w1)))))"

text \<open>Starting a run: the response and, when one was started, the job for the background.\<close>

definition startRun ::
  "('s, 'p) executor option \<Rightarrow> Config \<Rightarrow> JobKind \<Rightarrow> string \<Rightarrow> string \<Rightarrow> time \<Rightarrow> runs
   \<Rightarrow> ((Run option response \<times> (string \<times> Job) option) \<times> runs) option" where
  "startRun ex cfg kind name i now r =
     (if ex = None then Some ((Refused 501 ''this vaultd is not running a scheduler, so it cannot start runs'', None), r)
      else case Config_Target cfg name of
             None \<Rightarrow> Some ((Refused 404 (''no target named '' @ fmt_q name), None), r)
           | Some t \<Rightarrow>
               if kind = KindVerify \<and> tgVerify t = None
               then Some ((Refused 400 (''target '' @ fmt_q (tgName t) @ '' declares no verification''), None), r)
               else case runs_begin (tgName t) kind i now r of
                      None \<Rightarrow> None
                    | Some ((run, False), r1) \<Rightarrow> Some ((Sent 409 run, None), r1)
                    | Some ((run, True), r1) \<Rightarrow>
                        (let job = Manual (tgName t) kind;
                             job1 = (if kind = KindVerify then job\<lparr>jLevel := (case tgVerify t of None \<Rightarrow> [] | Some v \<Rightarrow> vsLevel v)\<rparr> else job)
                         in Some ((Sent 202 run, Some (i, job1)), r1)))"

definition execute :: "('s, 'p) executor \<Rightarrow> occasion \<Rightarrow> string \<Rightarrow> Job \<Rightarrow> time \<Rightarrow> runs \<times> ('s, 'p) world \<Rightarrow> runs \<times> ('s, 'p) world" where
  "execute ex oc runID job now st =
     (case Executor_Run ex oc job (snd st) of
        (r, w) \<Rightarrow>
          (let state = (if rrErr r \<noteq> None then RunFailed else if rrOutcome r \<noteq> OutcomeRan then RunSkipped else RunSucceeded);
               det = (if rrDetail r = [] then rrOutcome r else rrDetail r)
           in (runs_finish runID state det (rrBackupID r) (rrErr r) now (fst st), w)))"

definition downloadTTL :: duration where "downloadTTL = 5 * Minute"

text \<open>Which object of a backup a download link is for.\<close>

definition download_key :: "Entry \<Rightarrow> string \<Rightarrow> string" where
  "download_key e which =
     (if which = ''manifest'' then eManifestKey e
      else if which = ''globals'' \<and> eGlobalsKey e \<noteq> [] then eGlobalsKey e else eKey e)"

record Download =
  dlURL :: string
  dlKey :: string
  dlExpires :: int

text \<open>\<open>presign\<close> is the presigner of a destination, when its store is one.\<close>

definition apiDownload ::
  "('s, 'p) executor \<Rightarrow> (string \<Rightarrow> (string \<Rightarrow> duration \<Rightarrow> string result) option) \<Rightarrow> string \<Rightarrow> string \<Rightarrow> string
   \<Rightarrow> ('s, 'p) world \<Rightarrow> Download response \<times> ('s, 'p) world" where
  "apiDownload ex presign name i which w =
     (case Config_Target (exConfig ex) name of
        None \<Rightarrow> (Refused 404 (''no target named '' @ fmt_q name), w)
      | Some t \<Rightarrow>
          (case server_entries ex t w of
             (Inl err, w1) \<Rightarrow> (Refused 500 (err_text err), w1)
           | (Inr entries, w1) \<Rightarrow>
               (case find (\<lambda>e. eID e = i \<and> Succeeded e) entries of
                  None \<Rightarrow> (Refused 404 (''no backup '' @ fmt_q i @ '' in '' @ tgName t), w1)
                | Some e \<Rightarrow>
                    (case app_Store ex (tgDestination t) of
                       Inl err \<Rightarrow> (Refused 500 (err_text err), w1)
                     | Inr _ \<Rightarrow>
                         (case presign (tgDestination t) of
                            None \<Rightarrow> (Refused 501 (''destination '' @ fmt_q (tgDestination t) @ '' cannot issue download links''), w1)
                          | Some sign \<Rightarrow>
                              (case sign (download_key e which) downloadTTL of
                                 Inl err \<Rightarrow> (Refused 500 (err_text err), w1)
                               | Inr url \<Rightarrow>
                                   (Sent 200 \<lparr>dlURL = url, dlKey = download_key e which, dlExpires = downloadTTL div Second\<rparr>, w1)))))))"

definition restoreCommand :: "Target \<Rightarrow> string \<Rightarrow> string" where
  "restoreCommand t i =
     ''vaultd restore '' @ i @ '' --to '' @ [CHR 0x27] @ ''<dsn>'' @ [CHR 0x27] @ '' --confirm''
       @ (case tgEncryption t of
            Some e \<Rightarrow> if ceMode e = EncryptionAge then '' --identity-file /path/to/key.txt'' else []
          | None \<Rightarrow> [])"

section \<open>Reading\<close>

definition apiRun :: "string \<Rightarrow> runs \<Rightarrow> Run response" where
  "apiRun i r =
     (case runs_get i r of
        None \<Rightarrow> Refused 404 (''no run '' @ fmt_q i @ ''; the daemon remembers the last '' @ Itoa (int runHistory))
      | Some run \<Rightarrow> Sent 200 run)"

text \<open>The overview: each target on its own, at its own reading of the clock.\<close>

fun apiTargets :: "checkers \<Rightarrow> ('s, 'p) executor \<Rightarrow> (nat \<Rightarrow> time \<times> time) \<Rightarrow> nat \<Rightarrow> Target list \<Rightarrow> ('s, 'p) world \<Rightarrow> TargetSummary list \<times> ('s, 'p) world" where
  "apiTargets ck ex clock i [] w = ([], w)"
| "apiTargets ck ex clock i (t # ts) w =
     (case summarize ck ex (fst (clock i)) (snd (clock i)) t w of
        (s, w1) \<Rightarrow> apfst ((#) s) (apiTargets ck ex clock (i + 1) ts w1))"

record TargetDetail =
  tdSummary :: TargetSummary
  tdEntries :: "Entry list"
  tdRetention :: "RetentionView option"

definition apiTarget ::
  "checkers \<Rightarrow> ('s, 'p) executor \<Rightarrow> time \<Rightarrow> time \<Rightarrow> time \<Rightarrow> string \<Rightarrow> ('s, 'p) world \<Rightarrow> TargetDetail response \<times> ('s, 'p) world" where
  "apiTarget ck ex from now planned name w =
     (case Config_Target (exConfig ex) name of
        None \<Rightarrow> (Refused 404 (''no target named '' @ fmt_q name), w)
      | Some t \<Rightarrow>
          (case summarize ck ex from now t w of
             (s, w1) \<Rightarrow>
               (case server_entries ex t w1 of
                  (Inl err, w2) \<Rightarrow> (Sent 200 \<lparr>tdSummary = s\<lparr>smError := err_text err\<rparr>, tdEntries = [], tdRetention = None\<rparr>, w2)
                | (Inr entries, w2) \<Rightarrow>
                    (case projectRetention ex planned t w2 of
                       (view, w3) \<Rightarrow> (Sent 200 \<lparr>tdSummary = s, tdEntries = sort_desc eFinishedAt entries, tdRetention = view\<rparr>, w3)))))"

record BackupDetail =
  bdManifest :: Manifest
  bdEntry :: Entry
  bdRestoreCommand :: string

definition apiBackup :: "('s, 'p) executor \<Rightarrow> string \<Rightarrow> string \<Rightarrow> ('s, 'p) world \<Rightarrow> BackupDetail response \<times> ('s, 'p) world" where
  "apiBackup ex name i w =
     (case Config_Target (exConfig ex) name of
        None \<Rightarrow> (Refused 404 (''no target named '' @ fmt_q name), w)
      | Some t \<Rightarrow>
          (case server_entries ex t w of
             (Inl err, w1) \<Rightarrow> (Refused 500 (err_text err), w1)
           | (Inr entries, w1) \<Rightarrow>
               (case find (\<lambda>e. eID e = i \<and> Succeeded e) entries of
                  None \<Rightarrow> (Refused 404 (''no backup '' @ fmt_q i @ '' in '' @ tgName t), w1)
                | Some e \<Rightarrow>
                    (case index_fetch (exOps ex) (eManifestKey e) (wStore w1 (tgDestination t)) of
                       (Inl err, s) \<Rightarrow> (Refused 500 (err_text err), put_store (tgDestination t) s w1)
                     | (Inr m, s) \<Rightarrow>
                         (Sent 200 \<lparr>bdManifest = m, bdEntry = e, bdRestoreCommand = restoreCommand t (mfID m)\<rparr>,
                          put_store (tgDestination t) s w1)))))"

end
