(* ===== verification/Server_Run.thy ===== *)
theory Server_Run
  imports Server Executor_Run
begin

text \<open>
  When the registry of runs answers, what the throttle guarantees, and what a confirmed prune
  deletes.
\<close>

section \<open>Trimming the registry\<close>

lemma is_running_delete: "\<not> is_running byID i \<Longrightarrow> is_running (byID(i := None)) = is_running byID"
  by (rule ext) (auto simp: is_running_def)

text \<open>What a trim that returns has done: it forgot runs that had ended, and only those.\<close>

definition trimmed :: "string list \<Rightarrow> (string \<rightharpoonup> Run) \<Rightarrow> string list \<times> (string \<rightharpoonup> Run) \<Rightarrow> bool" where
  "trimmed order byID y \<longleftrightarrow> length (fst y) \<le> runHistory \<and> snd y \<subseteq>\<^sub>m byID \<and>
     length (filter (is_running byID) (fst y)) = length (filter (is_running byID) order) \<and>
     (\<forall>j. is_running byID j \<longrightarrow> snd y j = byID j) \<and>
     (distinct order \<and> set order = dom byID \<longrightarrow> distinct (fst y) \<and> set (fst y) = dom (snd y))"

lemma trimmed_rotate: "is_running byID i \<Longrightarrow> trimmed (rest @ [i]) byID y \<Longrightarrow> trimmed (i # rest) byID y"
  by (auto simp: trimmed_def)

lemma trimmed_drop:
  assumes "\<not> is_running byID i" and "trimmed rest (byID(i := None)) y"
  shows "trimmed (i # rest) byID y"
proof -
  have "snd y \<subseteq>\<^sub>m byID(i := None)" using assms(2) by (simp add: trimmed_def)
  moreover have "byID(i := None) \<subseteq>\<^sub>m byID" by (auto simp: map_le_def)
  ultimately have "snd y \<subseteq>\<^sub>m byID" by (rule map_le_trans)
  moreover have "snd y j = byID j" if "is_running byID j" for j
    using assms that by (auto simp: trimmed_def is_running_delete)
  moreover have "distinct (fst y) \<and> set (fst y) = dom (snd y)" if "distinct (i # rest) \<and> set (i # rest) = dom byID"
  proof -
    have "distinct rest \<and> set rest = dom (byID(i := None))" using that by auto
    then show ?thesis using assms(2) by (simp add: trimmed_def)
  qed
  ultimately show ?thesis using assms by (simp add: trimmed_def is_running_delete)
qed

lemma trim_step:
  "length order > runHistory \<Longrightarrow> trim_loop order byID =
    (if is_running byID (hd order) then trim_loop (tl order @ [hd order]) byID else trim_loop (tl order) (byID(hd order := None)))"
  by (subst trim_loop.simps) (simp add: Let_def)

lemma trim_result: "trim_loop order byID = Some y \<Longrightarrow> trimmed order byID y"
proof (rule trim_loop.raw_induct [of trimmed])
  fix f order byID y
  assume IH: "\<And>order byID y. f order byID = Some y \<Longrightarrow> trimmed order byID y"
    and body: "(if runHistory < length order
      then let oldest = hd order; rest = tl order in
           if is_running byID oldest then f (rest @ [oldest]) byID else f rest (byID(oldest := None))
      else Some (order, byID)) = Some y"
  show "trimmed order byID y"
  proof (cases "runHistory < length order")
    case True
    then obtain i rest where o: "order = i # rest" by (cases order) auto
    then show ?thesis using body True IH trimmed_rotate trimmed_drop
      by (cases "is_running byID i") (auto simp: Let_def)
  qed (use body in \<open>auto simp: trimmed_def\<close>)
qed

lemma trim_returns:
  "length (filter (is_running byID) order) \<le> runHistory \<Longrightarrow> \<exists>y. trim_loop order byID = Some y"
proof (induction "(length order, length (takeWhile (is_running byID) order))" arbitrary: order byID
    rule: wf_induct_rule [OF wf_lex_prod [OF wf_less_than wf_less_than]])
  case 1
  show ?case
  proof (cases "length order > runHistory")
    case long: True
    then obtain oldest rest where o: "order = oldest # rest" by (cases order) auto
    show ?thesis
    proof (cases "is_running byID oldest")
      case run: True
      have "\<not> (\<forall>j\<in>set order. is_running byID j)" using "1.prems" long by (metis filter_True not_le)
      then obtain j where j: "j \<in> set rest" "\<not> is_running byID j" using o run by auto
      have "takeWhile (is_running byID) (rest @ [oldest]) = takeWhile (is_running byID) rest"
        using j by (rule takeWhile_append1)
      then have "\<exists>y. trim_loop (rest @ [oldest]) byID = Some y"
        using "1.hyps" [of "rest @ [oldest]" byID] "1.prems" run o by simp
      then show ?thesis using trim_step [OF long] run o by simp
    next
      case ended: False
      then have "\<exists>y. trim_loop rest (byID(oldest := None)) = Some y"
        using "1.hyps" [of rest "byID(oldest := None)"] "1.prems" o by (simp add: is_running_delete)
      then show ?thesis using trim_step [OF long] ended o by simp
    qed
  qed (simp add: trim_loop.simps [of order])
qed

lemma trim_returns_iff:
  "(\<exists>y. trim_loop order byID = Some y) \<longleftrightarrow> length (filter (is_running byID) order) \<le> runHistory"
proof
  assume "\<exists>y. trim_loop order byID = Some y"
  then obtain y where "trim_loop order byID = Some y" ..
  from trim_result [OF this] show "length (filter (is_running byID) order) \<le> runHistory"
    using length_filter_le [of "is_running byID" "fst y"] by (simp add: trimmed_def)
qed (rule trim_returns)

section \<open>The registry\<close>

text \<open>The registries the server can have: \<open>execute\<close> finishes each run it was handed once.\<close>

inductive registry :: "runs \<Rightarrow> bool" where
  registry_new: "registry newRuns"
| registry_begin: "registry r \<Longrightarrow> rgByID r i = None \<Longrightarrow> runs_begin target kind i now r = Some (x, r') \<Longrightarrow> registry r'"
| registry_finish: "registry r \<Longrightarrow> is_running (rgByID r) i \<Longrightarrow> state \<noteq> RunRunning \<Longrightarrow> registry (runs_finish i state det backupID err now r)"
| registry_append: "registry r \<Longrightarrow> registry (runs_append i line r)"

definition runs_ok :: "runs \<Rightarrow> bool" where
  "runs_ok r \<longleftrightarrow> distinct (rgOrder r) \<and> set (rgOrder r) = dom (rgByID r) \<and>
     (\<forall>t i. rgActive r t = Some i \<longleftrightarrow> is_running (rgByID r) i \<and> ruTarget (the (rgByID r i)) = t)"

lemma is_running_upd: "is_running (byID(i \<mapsto> run)) j = (if j = i then ruState run = RunRunning else is_running byID j)"
  by (simp add: is_running_def)

lemma runs_ok_begin:
  assumes "runs_ok r" and "rgByID r i = None" and "runs_begin target kind i now r = Some (x, r')"
  shows "runs_ok r'"
proof (cases "rgActive r target")
  case None
  let ?run = "\<lparr>ruID = i, ruTarget = target, ruKind = kind, ruState = RunRunning, ruStartedAt = now, ruFinishedAt = 0,
     ruDetail = [], ruError = [], ruBackupID = [], ruLog = []\<rparr>"
  let ?byID = "(rgByID r)(i \<mapsto> ?run)" and ?order = "rgOrder r @ [i]"
  obtain o' b' where t: "trim_loop ?order ?byID = Some (o', b')"
    and r': "r' = r\<lparr>rgByID := b', rgOrder := o', rgActive := (rgActive r)(target \<mapsto> i)\<rparr>"
    using assms(3) None by (auto simp: runs_begin_def runs_trim_def Let_def)
  have T: "trimmed ?order ?byID (o', b')" using trim_result [OF t] .
  have ok: "distinct ?order \<and> set ?order = dom ?byID" using assms(1,2) by (auto simp: runs_ok_def)
  have le: "b' \<subseteq>\<^sub>m ?byID" and kept: "\<And>j. is_running ?byID j \<Longrightarrow> b' j = ?byID j" using T by (simp_all add: trimmed_def)
  have run: "is_running b' j = is_running ?byID j" for j
  proof (cases "b' j")
    case None
    then show ?thesis using kept [of j] by (auto simp: is_running_def)
  next
    case (Some x)
    then have "b' j = ?byID j" using le by (metis domI map_le_def)
    then show ?thesis unfolding is_running_def by simp
  qed
  have old: "\<not> is_running (rgByID r) i" using assms(2) by (simp add: is_running_def)
  have "((rgActive r)(target \<mapsto> i)) t = Some j \<longleftrightarrow> is_running b' j \<and> ruTarget (the (b' j)) = t" for t j
  proof -
    have act: "rgActive r u = Some v \<longleftrightarrow> is_running (rgByID r) v \<and> ruTarget (the (rgByID r v)) = u" for u v
      using assms(1) by (simp add: runs_ok_def)
    have "is_running b' j \<and> ruTarget (the (b' j)) = t \<longleftrightarrow> is_running ?byID j \<and> ruTarget (the (?byID j)) = t"
      using kept [of j] by (auto simp: run)
    also have "\<dots> \<longleftrightarrow> (if j = i then target = t else is_running (rgByID r) j \<and> ruTarget (the (rgByID r j)) = t)"
      by (simp add: is_running_upd)
    also have "\<dots> \<longleftrightarrow> ((rgActive r)(target \<mapsto> i)) t = Some j"
      using act [of t j] act [of target j] None old act [of t i] by (cases "j = i"; cases "t = target") auto
    finally show ?thesis by simp
  qed
  then show ?thesis using T ok by (simp add: runs_ok_def r' trimmed_def)
qed (use assms in \<open>simp add: runs_begin_def\<close>)

lemma runs_ok_finish:
  assumes "runs_ok r" and "is_running (rgByID r) i" and "state \<noteq> RunRunning"
  shows "runs_ok (runs_finish i state det backupID err now r)"
proof -
  obtain run where run: "rgByID r i = Some run" "ruState run = RunRunning"
    using assms(2) by (auto simp: is_running_def split: option.splits)
  then have a: "rgActive r (ruTarget run) = Some i" using assms(1,2) by (simp add: runs_ok_def)
  obtain run2 where f: "runs_finish i state det backupID err now r
      = r\<lparr>rgByID := (rgByID r)(i \<mapsto> run2), rgActive := (rgActive r)(ruTarget run := None)\<rparr>"
    and "ruState run2 = state" using run by (cases err) (auto simp: runs_finish_def Let_def)
  then have "is_running ((rgByID r)(i \<mapsto> run2)) j = (j \<noteq> i \<and> is_running (rgByID r) j)" for j
    using assms(3) by (simp add: is_running_upd)
  moreover have "j = i" if "rgActive r (ruTarget run) = Some j" for j using that a by simp
  ultimately show ?thesis using assms(1) run f by (auto simp: runs_ok_def)
qed

lemma runs_ok_append: "runs_ok r \<Longrightarrow> runs_ok (runs_append i line r)"
  by (cases "rgByID r i") (auto simp: runs_append_def runs_ok_def is_running_def)

lemma registry_ok: "registry r \<Longrightarrow> runs_ok r"
proof (induction rule: registry.induct)
  case registry_new
  then show ?case by (simp add: runs_ok_def newRuns_def is_running_def)
qed (use runs_ok_begin runs_ok_finish runs_ok_append in blast)+

lemma running_count:
  assumes "runs_ok r"
  shows "length (filter (is_running (rgByID r)) (rgOrder r)) = card (dom (rgActive r))"
proof -
  have running: "is_running (rgByID r) i \<Longrightarrow> i \<in> set (rgOrder r)" for i
    using assms by (auto simp: runs_ok_def is_running_def split: option.splits)
  have "set (filter (is_running (rgByID r)) (rgOrder r)) = {i. is_running (rgByID r) i}" using running by auto
  then have "length (filter (is_running (rgByID r)) (rgOrder r)) = card {i. is_running (rgByID r) i}"
    using assms distinct_card [of "filter (is_running (rgByID r)) (rgOrder r)"] by (simp add: runs_ok_def)
  also have "\<dots> = card (dom (rgActive r))"
  proof (rule bij_betw_same_card [of "\<lambda>i. ruTarget (the (rgByID r i))"])
    have a: "rgActive r t = Some i \<longleftrightarrow> is_running (rgByID r) i \<and> ruTarget (the (rgByID r i)) = t" for t i
      using assms by (simp add: runs_ok_def)
    show "bij_betw (\<lambda>i. ruTarget (the (rgByID r i))) {i. is_running (rgByID r) i} (dom (rgActive r))"
      unfolding bij_betw_def inj_on_def
    proof (intro conjI ballI impI)
      fix i j assume "i \<in> {i. is_running (rgByID r) i}" "j \<in> {i. is_running (rgByID r) i}"
        "ruTarget (the (rgByID r i)) = ruTarget (the (rgByID r j))"
      then show "i = j" using a [of "ruTarget (the (rgByID r j))"] by (metis mem_Collect_eq option.inject)
    qed (auto simp: a image_iff dom_def)
  qed
  finally show ?thesis .
qed

text \<open>C35: When the registry of runs answers. On every registry the server can have, \<open>begin\<close> of a run
  on a target returns exactly when that target already has a run or fewer than fifty targets
  have one; with fifty runs in flight the next one rotates the list forever, holding the mutex.
  When it returns, the list is within its bound and no run in flight was forgotten.\<close>

theorem begin_returns:
  assumes "registry r" and "rgByID r i = None"
  shows "(runs_begin target kind i now r \<noteq> None \<longleftrightarrow> rgActive r target \<noteq> None \<or> card (dom (rgActive r)) < runHistory) \<and>
    (case runs_begin target kind i now r of
       None \<Rightarrow> True
     | Some ((run, started), r') \<Rightarrow>
         (if started then length (rgOrder r') \<le> runHistory else r' = r) \<and>
         (\<forall>j. is_running (rgByID r) j \<longrightarrow> rgByID r' j = rgByID r j))"
proof (cases "rgActive r target")
  case None
  let ?run = "\<lparr>ruID = i, ruTarget = target, ruKind = kind, ruState = RunRunning, ruStartedAt = now, ruFinishedAt = 0,
     ruDetail = [], ruError = [], ruBackupID = [], ruLog = []\<rparr>"
  let ?byID = "(rgByID r)(i \<mapsto> ?run)" and ?order = "rgOrder r @ [i]"
  have ok: "runs_ok r" using registry_ok [OF assms(1)] .
  have new: "i \<notin> set (rgOrder r)" "\<not> is_running (rgByID r) i" using ok assms(2) by (auto simp: runs_ok_def is_running_def)
  have "filter (is_running ?byID) (rgOrder r) = filter (is_running (rgByID r)) (rgOrder r)"
    using new by (intro filter_cong) (auto simp: is_running_upd)
  then have n: "length (filter (is_running ?byID) ?order) = card (dom (rgActive r)) + 1"
    using running_count [OF ok] by (simp add: is_running_upd)
  have ret: "(\<exists>y. trim_loop ?order ?byID = Some y) \<longleftrightarrow> card (dom (rgActive r)) < runHistory"
    unfolding trim_returns_iff n by linarith
  show ?thesis
  proof (cases "trim_loop ?order ?byID")
    case None': None
    then show ?thesis using None ret by (simp add: runs_begin_def runs_trim_def Let_def)
  next
    case (Some y)
    then have "trimmed ?order ?byID y" by (rule trim_result)
    moreover have "is_running ?byID j \<and> ?byID j = rgByID r j" if "is_running (rgByID r) j" for j
      using that new(2) by (auto simp: is_running_upd)
    ultimately show ?thesis using None ret Some
      by (cases y) (auto simp: runs_begin_def runs_trim_def Let_def trimmed_def)
  qed
qed (simp add: runs_begin_def)

text \<open>The first run a daemon starts.\<close>

theorem begin_returns_witness:
  "registry newRuns \<and> (case runs_begin ''app'' KindBackup ''1'' demo_time newRuns of
     None \<Rightarrow> False | Some ((run, started), r') \<Rightarrow> if started then length (rgOrder r') \<le> runHistory else r' = newRuns)"
proof -
  have "rgByID newRuns ''1'' = None" "card (dom (rgActive newRuns)) < runHistory" by (simp_all add: newRuns_def runHistory_def)
  with begin_returns [OF registry_new this(1), of "''app''" KindBackup demo_time] show ?thesis
    by (auto simp: registry_new split: option.splits)
qed

section \<open>The throttle\<close>

lemma penalty_bounds: "failureBudget < n \<Longrightarrow> lockout \<le> penalty_after n \<and> penalty_after n \<le> maxLockout"
  by (simp add: penalty_after_def lockout_def maxLockout_def unit_defs)

lemma penalty_mono: "m \<le> n \<Longrightarrow> penalty_after m \<le> penalty_after n"
proof -
  assume "m \<le> n"
  then have "(2::int) ^ min (m - failureBudget - 1) 6 \<le> 2 ^ min (n - failureBudget - 1) 6" by (intro power_increasing) auto
  moreover have "0 \<le> lockout" by (simp add: lockout_def unit_defs)
  ultimately have "lockout * 2 ^ min (m - failureBudget - 1) 6 \<le> lockout * 2 ^ min (n - failureBudget - 1) 6"
    by (rule mult_left_mono)
  then show ?thesis by (simp add: penalty_after_def min_le_iff_disj)
qed

text \<open>A lockout in force until \<open>u\<close>: the record of the address, made at most a penalty ago.\<close>

definition locked_out :: "string \<Rightarrow> nat \<Rightarrow> time \<Rightarrow> time \<Rightarrow> throttle \<Rightarrow> bool" where
  "locked_out host n u now t \<longleftrightarrow> (\<exists>a. thSeen t host = Some a \<and> n \<le> atCount a \<and> failureBudget < atCount a \<and>
     atLast a \<le> now \<and> u \<le> atUntil a \<and> atUntil a = atLast a + penalty_after (atCount a))"

lemma sweep_keeps:
  assumes "locked_out host n u now t" and "x < u" and "now \<le> x"
  shows "thSeen (sweep x t) host = thSeen t host"
proof -
  obtain a where a: "thSeen t host = Some a" "atLast a \<le> x" "x < atLast a + penalty_after (atCount a)" "failureBudget < atCount a"
    using assms by (auto simp: locked_out_def)
  have "\<not> forget < time_Sub x (atLast a)"
    using penalty_bounds [OF a(4)] a(2,3)
    by (auto simp: forget_def time_Sub_def maxLockout_def unit_defs MaxInt64_def MinInt64_def)
  then show ?thesis using a(1) by (auto simp: sweep_def)
qed

lemma locked_later: "locked_out host n u now t \<Longrightarrow> now \<le> now' \<Longrightarrow> thSeen t' host = thSeen t host \<Longrightarrow> locked_out host n u now' t'"
  by (auto simp: locked_out_def)

lemma blocked_sweeps: "throttle_blocked h sweptAt now t = (r, t1) \<Longrightarrow> t1 = sweep sweptAt t"
  by (auto simp: throttle_blocked_def Let_def split: option.splits if_splits)

lemma locked_blocked:
  assumes "locked_out host n u c t" and "c \<le> sweptAt" and "sweptAt \<le> now" and "now < u"
  shows "\<exists>wait. throttle_blocked host sweptAt now t = (Some wait, sweep sweptAt t)"
proof -
  obtain a where "thSeen t host = Some a" "now < atUntil a" using assms(1,4) by (auto simp: locked_out_def)
  moreover have "0 < time_Sub (atUntil a) now" using calculation(2)
    by (auto simp: time_Sub_def MaxInt64_def MinInt64_def)
  ultimately show ?thesis using sweep_keeps [OF assms(1) _ assms(2)] assms(3,4) by (simp add: throttle_blocked_def Let_def)
qed

lemma failed_again:
  assumes "locked_out host n u c t" and "c \<le> now" and "u \<le> now + penalty_after n"
  shows "locked_out host n u now (throttle_failed host now t)"
proof -
  obtain a where a: "thSeen t host = Some a" "n \<le> atCount a" "failureBudget < atCount a" using assms(1) by (auto simp: locked_out_def)
  have "u \<le> now + penalty_after (Suc (atCount a))"
    using assms(3) penalty_mono [of n "Suc (atCount a)"] a(2) by linarith
  then show ?thesis using a by (simp add: locked_out_def throttle_failed_def)
qed

text \<open>
  What is kept from the wrong token on: the lockout, no request of the address let in, no token of
  it compared but those that were inside already, and nobody handed on without the token.
\<close>

definition answer_ok :: "CfgServer \<Rightarrow> guard \<Rightarrow> string \<Rightarrow> (guard \<times> request) list \<Rightarrow> answer \<Rightarrow> bool" where
  "answer_ok cfg g host inside an \<longleftrightarrow>
     (anVerdict an = Served \<longrightarrow> presented (rqHeader (anRequest an)) (rqCookie (anRequest an)) = svAuthToken cfg) \<and>
     (anGuard an = g \<and> rqHost (anRequest an) = host \<longrightarrow>
        (\<exists>n. anVerdict an = TooManyRequests n) \<or> anVerdict an = Unauthorized \<and> (g, anRequest an) \<in> set inside)"

definition of_host :: "guard \<Rightarrow> string \<Rightarrow> guard \<times> request \<Rightarrow> bool" where
  "of_host g host x \<longleftrightarrow> fst x = g \<and> rqHost (snd x) = host"

lemma gate_clock: "gate_step cfg has s s' \<Longrightarrow> gtClock s \<le> gtClock s'"
  by (auto simp: authenticate_enter_def authenticate_check_def Let_def elim!: gate_step.cases split: prod.splits option.splits)

lemma lockout_step:
  assumes "gate_step cfg has s s'" and "svAuthMode cfg = AuthToken" and "gtClock s' < u" and "t0 \<le> gtClock s" and "u = t0 + penalty_after n"
    and "locked_out host n u (gtClock s) (gtThrottle s g)"
    and "\<forall>x\<in>set inside. of_host g host x \<longrightarrow> presented (rqHeader (snd x)) (rqCookie (snd x)) \<noteq> svAuthToken cfg"
    and "filter (of_host g host) (gtInside s) = ys" and "set ys \<subseteq> set inside"
  shows "locked_out host n u (gtClock s') (gtThrottle s' g) \<and>
    (\<exists>new. gtAnswers s' = gtAnswers s @ new \<and> (\<forall>an\<in>set new. answer_ok cfg g host inside an)) \<and>
    set (filter (of_host g host) (gtInside s')) \<subseteq> set inside"
  using assms(1)
proof cases
  case (enter g' sweptAt now rq)
  obtain r t1 where b: "throttle_blocked (rqHost rq) sweptAt now (gtThrottle s g') = (r, t1)" by fastforce
  have s': "gtClock s' = now" using enter(1) b by (auto simp: authenticate_enter_def split: option.splits)
  have lock: "locked_out host n u now (gtThrottle s' g)"
  proof (rule locked_later [OF assms(6)])
    show "gtClock s \<le> now" using enter by simp
    show "thSeen (gtThrottle s' g) host = thSeen (gtThrottle s g) host"
      using enter(1) b blocked_sweeps [OF b] sweep_keeps [OF assms(6), of sweptAt] enter(4,5) assms(3) s'
      by (auto simp: authenticate_enter_def split: option.splits)
  qed
  have "\<exists>wait. r = Some wait" if "g' = g" "rqHost rq = host"
    using locked_blocked [OF assms(6) enter(4,5)] assms(3) s' b that by auto
  then show ?thesis using lock enter(1) b assms(8,9) s'
    by (cases r) (auto simp: authenticate_enter_def answer_ok_def of_host_def)
next
  case (check g' rq now)
  let ?wrong = "presented (rqHeader rq) (rqCookie rq) \<noteq> svAuthToken cfg"
  have s': "gtClock s' = now" using check(1) by (simp add: authenticate_check_def Let_def)
  have mine: "?wrong \<and> (g, rq) \<in> set inside" if "g' = g" "rqHost rq = host"
  proof -
    have "(g, rq) \<in> set ys" using check(3) that assms(8) by (auto simp: of_host_def)
    then have "(g, rq) \<in> set inside" using assms(9) by blast
    then show ?thesis using assms(7) that by (auto simp: of_host_def)
  qed
  have "locked_out host n u now (gtThrottle s' g)"
  proof (cases "g' = g \<and> rqHost rq = host")
    case True
    then show ?thesis using mine check(1,4) failed_again [OF assms(6), of now] assms(4,5) by (simp add: authenticate_check_def Let_def)
  next
    case False
    then have "thSeen (gtThrottle s' g) host = thSeen (gtThrottle s g) host"
      using check(1) by (auto simp: authenticate_check_def Let_def throttle_failed_def throttle_succeeded_def)
    then show ?thesis using locked_later [OF assms(6)] check(4) by blast
  qed
  moreover have "set (filter (of_host g host) (gtInside s')) \<subseteq> set ys"
    using check(1) assms(8) set_remove1_subset [of "(g', rq)" "gtInside s"] by (auto simp: authenticate_check_def Let_def)
  ultimately show ?thesis using check(1) mine assms(9) s' by (auto simp: authenticate_check_def Let_def answer_ok_def)
next
  case hand_on
  then show ?thesis using assms(2) by simp
qed

lemma lockout_run:
  assumes "(gate_step cfg has)\<^sup>*\<^sup>* s s'" and "svAuthMode cfg = AuthToken" and "u = gtClock s + penalty_after n"
    and "locked_out host n u (gtClock s) (gtThrottle s g)"
    and "\<forall>x\<in>set (gtInside s). of_host g host x \<longrightarrow> presented (rqHeader (snd x)) (rqCookie (snd x)) \<noteq> svAuthToken cfg"
  shows "gtClock s \<le> gtClock s' \<and> (gtClock s' < u \<longrightarrow> locked_out host n u (gtClock s') (gtThrottle s' g) \<and>
    (\<exists>new. gtAnswers s' = gtAnswers s @ new \<and> (\<forall>an\<in>set new. answer_ok cfg g host (gtInside s) an)) \<and>
    set (filter (of_host g host) (gtInside s')) \<subseteq> set (gtInside s))"
  using assms(1)
proof (induction rule: rtranclp_induct)
  case base
  then show ?case using assms(4) by auto
next
  case (step s1 s2)
  note mono = gate_clock [OF step.hyps(2)]
  show ?case
  proof (intro conjI impI)
    show "gtClock s \<le> gtClock s2" using step.IH mono by simp
    assume lt: "gtClock s2 < u"
    then have IH: "locked_out host n u (gtClock s1) (gtThrottle s1 g)"
      "set (filter (of_host g host) (gtInside s1)) \<subseteq> set (gtInside s)" and
      old: "\<exists>new. gtAnswers s1 = gtAnswers s @ new \<and> (\<forall>an\<in>set new. answer_ok cfg g host (gtInside s) an)"
      using step.IH mono by auto
    note S = lockout_step [OF step.hyps(2) assms(2) lt conjunct1 [OF step.IH] assms(3) IH(1) assms(5) refl IH(2)]
    show "locked_out host n u (gtClock s2) (gtThrottle s2 g)"
      "set (filter (of_host g host) (gtInside s2)) \<subseteq> set (gtInside s)" using S by blast+
    from S obtain new2 where new2: "gtAnswers s2 = gtAnswers s1 @ new2" "\<forall>an\<in>set new2. answer_ok cfg g host (gtInside s) an" by blast
    from old obtain new1 where "gtAnswers s1 = gtAnswers s @ new1" "\<forall>an\<in>set new1. answer_ok cfg g host (gtInside s) an" by blast
    with new2 show "\<exists>new. gtAnswers s2 = gtAnswers s @ new \<and> (\<forall>an\<in>set new. answer_ok cfg g host (gtInside s) an)"
      by (intro exI [of _ "new1 @ new2"]) auto
  qed
qed

text \<open>The step that answers a wrong token.\<close>

lemma unauthorized_step:
  assumes "gate_step cfg has s0 s" and "gtAnswers s = gtAnswers s0 @ [\<lparr>anGuard = g, anRequest = rq, anAt = t, anVerdict = Unauthorized\<rparr>]"
  shows "svAuthMode cfg = AuthToken \<and> gtClock s = t \<and> (g, rq) \<in> set (gtInside s0) \<and>
    gtThrottle s = (gtThrottle s0)(g := throttle_failed (rqHost rq) t (gtThrottle s0 g))"
  using assms
  by cases (auto simp: authenticate_enter_def authenticate_check_def Let_def split: prod.splits option.splits if_splits)

lemma failed_locks:
  assumes "thSeen (throttle_failed host t th) host = Some a" and "failureBudget < atCount a"
  shows "locked_out host (atCount a) (t + penalty_after (atCount a)) t (throttle_failed host t th)"
  using assms by (auto simp: locked_out_def throttle_failed_def Let_def split: if_splits)

text \<open>C36: Guessing is slowed down, on each guarded route by itself. Once an address is answered a wrong
  token on a route with its budget there exceeded, then until the penalty ends, at least five
  seconds and at most five minutes later, every request it sends to that route is turned away
  without its token being looked at, in whatever order the sections of the requests in flight
  interleave. Only requests that had passed the check for a lockout before may still have their
  token compared, and provided none of those carries the right token none is handed on. The
  throttles of the other routes know nothing of it. Meanwhile no request on any route is
  handed on that does not carry the configured token.\<close>

theorem lockout_holds:
  assumes "gate_step cfg has s0 s"
    and "gtAnswers s = gtAnswers s0 @ [\<lparr>anGuard = g, anRequest = rq, anAt = t, anVerdict = Unauthorized\<rparr>]"
    and "thSeen (gtThrottle s g) (rqHost rq) = Some a" and "failureBudget < atCount a"
    and "\<forall>r. (g, r) \<in> set (gtInside s) \<and> rqHost r = rqHost rq \<longrightarrow> presented (rqHeader r) (rqCookie r) \<noteq> svAuthToken cfg"
    and "(gate_step cfg has)\<^sup>*\<^sup>* s s'" and "gtClock s' < t + penalty_after (atCount a)"
  shows "lockout \<le> penalty_after (atCount a) \<and> penalty_after (atCount a) \<le> maxLockout \<and>
    (\<forall>g'. g' \<noteq> g \<longrightarrow> gtThrottle s g' = gtThrottle s0 g') \<and>
    (\<forall>r. (g, r) \<in> set (gtInside s') \<and> rqHost r = rqHost rq \<longrightarrow> (g, r) \<in> set (gtInside s)) \<and>
    (\<exists>new. gtAnswers s' = gtAnswers s @ new \<and>
      (\<forall>an\<in>set new. anVerdict an = Served \<longrightarrow> presented (rqHeader (anRequest an)) (rqCookie (anRequest an)) = svAuthToken cfg) \<and>
      (\<forall>an\<in>set new. anGuard an = g \<and> rqHost (anRequest an) = rqHost rq \<longrightarrow>
         (\<exists>n. anVerdict an = TooManyRequests n) \<or> anVerdict an = Unauthorized \<and> (g, anRequest an) \<in> set (gtInside s)))"
proof -
  note S = unauthorized_step [OF assms(1,2)]
  have "locked_out (rqHost rq) (atCount a) (t + penalty_after (atCount a)) t (gtThrottle s g)"
    using failed_locks [of "rqHost rq" t "gtThrottle s0 g" a] S assms(3,4) by simp
  then have "locked_out (rqHost rq) (atCount a) (gtClock s + penalty_after (atCount a)) (gtClock s) (gtThrottle s g)" using S by simp
  note lock = this
  have "\<forall>x\<in>set (gtInside s). of_host g (rqHost rq) x \<longrightarrow> presented (rqHeader (snd x)) (rqCookie (snd x)) \<noteq> svAuthToken cfg"
    using assms(5) by (auto simp: of_host_def)
  note R = lockout_run [OF assms(6) _ refl lock this]
  have "gtClock s' < gtClock s + penalty_after (atCount a)" using S assms(7) by simp
  with R S obtain new where "gtAnswers s' = gtAnswers s @ new" "\<forall>an\<in>set new. answer_ok cfg g (rqHost rq) (gtInside s) an"
    "set (filter (of_host g (rqHost rq)) (gtInside s')) \<subseteq> set (gtInside s)"
    by blast
  then show ?thesis using penalty_bounds [OF assms(4)] S by (auto simp: answer_ok_def of_host_def)
qed

definition demo_server :: CfgServer where
  "demo_server = \<lparr>svListen = '':8080'', svUI = True, svAuthMode = AuthToken, svAuthToken = ''s3cret'', svMetrics = True\<rparr>"

definition demo_request :: "string \<Rightarrow> string \<Rightarrow> request" where
  "demo_request host header = \<lparr>rqHost = host, rqHeader = header, rqCookie = None\<rparr>"

text \<open>An address that has used up its budget on one route, with two more guesses on the way.\<close>

definition demo_gate :: gate where
  "demo_gate = (let rq = demo_request ''10.0.0.9'' ''Bearer guess'' in
     \<lparr>gtClock = Second,
       gtThrottle = (\<lambda>_. newThrottle)(GetAPI := \<lparr>thSeen = [''10.0.0.9'' \<mapsto> \<lparr>atCount = 5, atLast = 0, atUntil = 0\<rparr>], thSwept = 0\<rparr>),
       gtInside = [(GetAPI, rq), (GetAPI, rq)], gtAnswers = []\<rparr>)"

lemma gate_twice: "gate_step cfg has s s1 \<Longrightarrow> gate_step cfg has s1 s2 \<Longrightarrow> (gate_step cfg has)\<^sup>*\<^sup>* s s2"
  by simp

text \<open>A sixth wrong token; a second later the right one is turned away on that route and let in on another.\<close>

theorem lockout_holds_witness:
  "let right = demo_request ''10.0.0.9'' ''Bearer s3cret'';
       s = authenticate_check demo_server GetAPI (demo_request ''10.0.0.9'' ''Bearer guess'') Second demo_gate;
       s1 = authenticate_enter GetAPI right (2 * Second) (2 * Second) s;
       s2 = authenticate_enter PostAPI right (2 * Second) (2 * Second) s1
   in (GetAPI, right) \<notin> set (gtInside s2) \<and> (PostAPI, right) \<in> set (gtInside s2) \<and>
      (\<exists>n. anVerdict (last (gtAnswers s2)) = TooManyRequests n)"
proof -
  let ?rq = "demo_request ''10.0.0.9'' ''Bearer guess''" and ?right = "demo_request ''10.0.0.9'' ''Bearer s3cret''"
  let ?s = "authenticate_check demo_server GetAPI ?rq Second demo_gate"
  let ?s1 = "authenticate_enter GetAPI ?right (2 * Second) (2 * Second) ?s"
  let ?s2 = "authenticate_enter PostAPI ?right (2 * Second) (2 * Second) ?s1"
  note defs = demo_server_def demo_request_def demo_gate_def authenticate_check_def authenticate_enter_def throttle_blocked_def
    sweep_def time_Sub_def MaxInt64_def MinInt64_def forget_def unit_defs presented_def throttle_failed_def throttle_succeeded_def
    failureBudget_def newThrottle_def guarded_def penalty_after_def lockout_def maxLockout_def Let_def
  have clock: "gtClock ?s = Second" "gtClock ?s1 = 2 * Second" by (simp_all add: defs)
  have mode: "svAuthMode demo_server = AuthToken" by (simp add: demo_server_def)
  have steps: "gate_step demo_server True demo_gate ?s"
    by (rule gate_step.check [OF mode]) (simp_all add: demo_gate_def Let_def)
  have one: "gate_step demo_server True ?s ?s1"
    by (rule gate_step.enter [OF mode]) (simp_all add: clock guarded_def, simp add: unit_defs)
  have two: "gate_step demo_server True ?s1 ?s2"
    by (rule gate_step.enter [OF mode]) (simp_all add: clock guarded_def)
  have run: "(gate_step demo_server True)\<^sup>*\<^sup>* ?s ?s2"
    by (rule gate_twice [OF one two])
  let ?a = "\<lparr>atCount = 6, atLast = Second, atUntil = Second + penalty_after 6\<rparr>"
  have a: "thSeen (gtThrottle ?s GetAPI) (rqHost ?rq) = Some ?a" by (simp add: defs)
  have ans: "gtAnswers ?s = gtAnswers demo_gate @ [\<lparr>anGuard = GetAPI, anRequest = ?rq, anAt = Second, anVerdict = Unauthorized\<rparr>]"
    by (simp add: defs)
  have ins: "\<forall>r. (GetAPI, r) \<in> set (gtInside ?s) \<and> rqHost r = rqHost ?rq \<longrightarrow> presented (rqHeader r) (rqCookie r) \<noteq> svAuthToken demo_server"
    by (auto simp: defs)
  have lt: "gtClock ?s2 < Second + penalty_after (atCount ?a)" by (simp add: defs)
  from lockout_holds [OF steps ans a _ ins run lt]
  have "\<forall>r. (GetAPI, r) \<in> set (gtInside ?s2) \<and> rqHost r = rqHost ?rq \<longrightarrow> (GetAPI, r) \<in> set (gtInside ?s)"
    by (simp add: failureBudget_def)
  moreover have "(GetAPI, ?right) \<notin> set (gtInside ?s)" by (simp add: defs)
  ultimately have "(GetAPI, ?right) \<notin> set (gtInside ?s2)" by (auto simp: demo_request_def)
  moreover have "(PostAPI, ?right) \<in> set (gtInside ?s2)" "\<exists>n. anVerdict (last (gtAnswers ?s2)) = TooManyRequests n"
    by (simp_all add: defs)
  ultimately show ?thesis by (simp add: Let_def)
qed

section \<open>A confirmed prune\<close>

lemma token_text_inject:
  assumes "\<forall>i\<in>set is. CHR 0x00 \<notin> set i" and "\<forall>i\<in>set js. CHR 0x00 \<notin> set i"
    and "concat (map (\<lambda>i. i @ [CHR 0x00]) is) = concat (map (\<lambda>i. i @ [CHR 0x00]) js)"
  shows "is = js"
  using assms
proof (induction "is" arbitrary: js)
  case Nil
  then show ?case by (cases js) auto
next
  case (Cons i "is")
  then obtain j js' where js: "js = j # js'" by (cases js) auto
  let ?p = "\<lambda>c. c \<noteq> CHR 0x00"
  have tw: "takeWhile ?p (concat (map (\<lambda>i. i @ [CHR 0x00]) (x # xs))) = x" if "CHR 0x00 \<notin> set x" for x xs
    using that by (simp, subst takeWhile_append2) auto
  have no: "CHR 0x00 \<notin> set i" "CHR 0x00 \<notin> set j" using Cons.prems(1,2) js by simp_all
  have "i = takeWhile ?p (concat (map (\<lambda>i. i @ [CHR 0x00]) (i # is)))" using tw [OF no(1)] by (rule sym)
  also have "\<dots> = takeWhile ?p (concat (map (\<lambda>i. i @ [CHR 0x00]) (j # js')))" using Cons.prems(3) js by metis
  also have "\<dots> = j" by (rule tw [OF no(2)])
  finally have "i = j" .
  moreover from this have "concat (map (\<lambda>i. i @ [CHR 0x00]) is) = concat (map (\<lambda>i. i @ [CHR 0x00]) js')"
    using Cons.prems(3) unfolding js by simp
  then have "is = js'" using Cons.prems(1,2) js by (intro Cons.IH) auto
  ultimately show ?case using js by simp
qed

text \<open>The plan a request computes.\<close>

definition plan_now :: "('s, 'p) executor \<Rightarrow> time \<Rightarrow> string \<Rightarrow> ('s, 'p) world \<Rightarrow> (Target \<times> PruneRunner \<times> Plan \<times> 's) option" where
  "plan_now ex planned name w =
     (case Config_Target (exConfig ex) name of
        None \<Rightarrow> None
      | Some t \<Rightarrow>
          (case app_Pruner ex t of
             Inl err \<Rightarrow> None
           | Inr r \<Rightarrow>
               (case prune_Plan (exOps ex) r planned (wStore w (tgDestination t)) of
                  (Inl err, s) \<Rightarrow> None
                | (Inr (plan, _), s) \<Rightarrow> Some (t, r, plan, s))))"

lemma rowsOf_ids: "map rwID (rowsOf ds) = map (\<lambda>d. bID (dBackup d)) ds"
  by (simp add: rowsOf_def)

lemma sent_plan:
  assumes "actionPrune ex sha planned now name [] w = (Sent code resp, w')"
  shows "\<exists>t r plan s. plan_now ex planned name w = Some (t, r, plan, s) \<and> w' = put_store (tgDestination t) s w \<and>
    prToken resp = planToken sha plan \<and> map rwID (rvDelete (prPlan resp)) = DeletedIDs plan \<and> prDryRun resp \<and> \<not> prApplied resp"
  using assms
  by (auto simp: actionPrune_def plan_now_def Let_def retention_view_def rowsOf_ids DeletedIDs_def
      split: option.splits sum.splits prod.splits)

lemma confirmed:
  assumes "plan_now ex planned name w = Some (t, r, plan, s)" and "confirm \<noteq> []"
  shows "confirm \<noteq> planToken sha plan \<Longrightarrow> actionPrune ex sha planned now name confirm w =
      (Refused 409 ''the plan changed since it was previewed; look at it again before applying'', put_store (tgDestination t) s w)"
    and "confirm = planToken sha plan \<Longrightarrow> DeletedIDs plan = [] \<Longrightarrow>
      \<exists>resp. actionPrune ex sha planned now name confirm w = (Sent 200 resp, put_store (tgDestination t) s w) \<and> \<not> prApplied resp"
    and "confirm = planToken sha plan \<Longrightarrow> DeletedIDs plan \<noteq> [] \<Longrightarrow>
      prune_Apply (exOps ex) r now plan [] (s, wOut w) = ((objects, failed), st) \<Longrightarrow>
      \<exists>resp. actionPrune ex sha planned now name confirm w = (resp, put_run (tgDestination t) st (put_store (tgDestination t) s w)) \<and>
        (case failed of Some err \<Rightarrow> resp = Refused 500 (err_text err)
         | None \<Rightarrow> \<exists>p. resp = Sent 200 p \<and> prApplied p \<and> prObjects p = objects)"
proof -
  from assms(1) obtain b where P: "Config_Target (exConfig ex) name = Some t" "app_Pruner ex t = Inr r"
    "prune_Plan (exOps ex) r planned (wStore w (tgDestination t)) = (Inr (plan, b), s)"
    by (auto simp: plan_now_def split: option.splits sum.splits prod.splits)
  note defs = actionPrune_def Let_def P DeletedIDs_def assms(2) put_store_def
  show "actionPrune ex sha planned now name confirm w =
      (Refused 409 ''the plan changed since it was previewed; look at it again before applying'', put_store (tgDestination t) s w)"
    if "confirm \<noteq> planToken sha plan" using that by (simp add: defs)
  show "\<exists>resp. actionPrune ex sha planned now name confirm w = (Sent 200 resp, put_store (tgDestination t) s w) \<and> \<not> prApplied resp"
    if "confirm = planToken sha plan" "DeletedIDs plan = []" using that assms(2) by (auto simp: defs)
  show "\<exists>resp. actionPrune ex sha planned now name confirm w = (resp, put_run (tgDestination t) st (put_store (tgDestination t) s w)) \<and>
      (case failed of Some err \<Rightarrow> resp = Refused 500 (err_text err)
       | None \<Rightarrow> \<exists>p. resp = Sent 200 p \<and> prApplied p \<and> prObjects p = objects)"
    if "confirm = planToken sha plan" "DeletedIDs plan \<noteq> []"
      "prune_Apply (exOps ex) r now plan [] (s, wOut w) = ((objects, failed), st)"
    using that assms(2) by (cases failed) (auto simp: defs)
qed

text \<open>C37: A prune from the UI deletes what was previewed. A preview applies nothing. A request that
  carries its token back and then computes a plan of its own applies that plan exactly when it
  deletes the backups the preview listed, in the same order; with any other plan it is refused and
  changes nothing beyond what planning did, as is every request whose token is not the one of
  the plan just computed. The digest is a parameter: it has 64 hex digits, and of the two
  texts digested here, if they differ, the sixteen characters a token keeps differ too.\<close>

theorem prune_applies_preview:
  assumes "actionPrune ex sha p1 n1 name [] w = (Sent code shown, w1)"
    and "listed = map rwID (rvDelete (prPlan shown))"
    and "plan_now ex p2 name w2 = Some (t, r, plan, s)"
    and "prune_Apply (exOps ex) r n2 plan [] (s, wOut w2) = ((objects, failed), st)"
    and "\<forall>i\<in>set (listed @ DeletedIDs plan). CHR 0x00 \<notin> set i" and "\<forall>x. length (sha x) = 64"
    and "concat (map (\<lambda>i. i @ [CHR 0x00]) listed) \<noteq> token_text plan \<longrightarrow>
      take 16 (sha (concat (map (\<lambda>i. i @ [CHR 0x00]) listed))) \<noteq> take 16 (sha (token_text plan))"
  shows "\<not> prApplied shown \<and>
    (\<exists>t1 r1 plan1 s1. plan_now ex p1 name w = Some (t1, r1, plan1, s1) \<and> DeletedIDs plan1 = listed \<and> w1 = put_store (tgDestination t1) s1 w) \<and>
    (DeletedIDs plan \<noteq> listed \<longrightarrow> actionPrune ex sha p2 n2 name (prToken shown) w2 =
       (Refused 409 ''the plan changed since it was previewed; look at it again before applying'', put_store (tgDestination t) s w2)) \<and>
    (DeletedIDs plan = listed \<and> listed = [] \<longrightarrow> snd (actionPrune ex sha p2 n2 name (prToken shown) w2) = put_store (tgDestination t) s w2) \<and>
    (DeletedIDs plan = listed \<and> listed \<noteq> [] \<longrightarrow>
       (\<exists>resp. actionPrune ex sha p2 n2 name (prToken shown) w2 = (resp, put_run (tgDestination t) st (put_store (tgDestination t) s w2)) \<and>
          (case failed of Some err \<Rightarrow> resp = Refused 500 (err_text err)
           | None \<Rightarrow> \<exists>p. resp = Sent 200 p \<and> prApplied p \<and> prObjects p = objects))) \<and>
    (\<forall>confirm. confirm \<noteq> [] \<and> confirm \<noteq> planToken sha plan \<longrightarrow>
       snd (actionPrune ex sha p2 n2 name confirm w2) = put_store (tgDestination t) s w2)"
proof -
  obtain t1 r1 plan1 s1 where one: "plan_now ex p1 name w = Some (t1, r1, plan1, s1)" "w1 = put_store (tgDestination t1) s1 w"
    "prToken shown = planToken sha plan1" "DeletedIDs plan1 = listed" "\<not> prApplied shown"
    using sent_plan [OF assms(1)] assms(2) by auto
  have text1: "token_text plan1 = concat (map (\<lambda>i. i @ [CHR 0x00]) listed)" by (simp add: token_text_def one(4))
  have "length (prToken shown) = 16" using assms(6) by (simp add: one(3) planToken_def)
  then have tok: "prToken shown \<noteq> []" by auto
  have same: "prToken shown = planToken sha plan \<longleftrightarrow> DeletedIDs plan = listed"
  proof
    assume "prToken shown = planToken sha plan"
    then have "concat (map (\<lambda>i. i @ [CHR 0x00]) listed) = token_text plan"
      using assms(7) text1 by (auto simp: one(3) planToken_def)
    then show "DeletedIDs plan = listed"
      using token_text_inject [of listed "DeletedIDs plan"] assms(5) by (auto simp: token_text_def)
  next
    assume "DeletedIDs plan = listed"
    then show "prToken shown = planToken sha plan" using text1 by (simp add: one(3) planToken_def) (simp add: token_text_def)
  qed
  note C = confirmed [OF assms(3)]
  have "snd (actionPrune ex sha p2 n2 name (prToken shown) w2) = put_store (tgDestination t) s w2"
    if "DeletedIDs plan = listed" "listed = []" using C(2) [OF tok, of sha n2] same that by auto
  moreover have "snd (actionPrune ex sha p2 n2 name confirm w2) = put_store (tgDestination t) s w2"
    if "confirm \<noteq> []" "confirm \<noteq> planToken sha plan" for confirm using C(1) [OF that] by simp
  ultimately show ?thesis
    using one C(1) [OF tok] C(3) [OF tok _ _ assms(4)] same by blast
qed

text \<open>Preview and apply on the two backups of one day.\<close>

definition pruning_target :: Target where
  "pruning_target = demo_target\<lparr>tgRetention := Some \<lparr>crHourly = None, crDaily = Some \<lparr>trKeep = 1\<rparr>, crWeekly = None,
     crMonthly = Some \<lparr>mrKeep = 0, mrOn = 1\<rparr>, crYearly = None, crMinKeep = 1\<rparr>\<rparr>"

definition pruning_executor :: "(memory, string list) executor" where
  "pruning_executor = demo_executor\<lparr>exConfig := demo_config\<lparr>cfTargets := [pruning_target]\<rparr>\<rparr>"

definition pruning_world :: "(memory, string list) world" where
  "pruning_world = demo_world\<lparr>wStore := (\<lambda>d. demo_store demo_pair)\<rparr>"

lemma pruning_planned:
  "app_Pruner pruning_executor pruning_target = Inr demo_runner"
  "prune_Plan (memory_ops demo_hash) demo_runner demo_time (demo_store demo_pair) = (Inr (demo_plan, True), demo_store demo_pair)"
proof -
  have "app_Store pruning_executor (tgDestination pruning_target) = Inr ()"
    "app_Layout (exConfig pruning_executor) pruning_target = Inr (demo_layout ''app'')"
    by (simp_all add: pruning_executor_def pruning_target_def demo_executor_def app_Store_def app_Layout_def demo_config_def
        demo_target_def Config_Destination_def demo_layout_def)
  moreover have "fanout_of pruning_executor pruning_target = Inr True"
    by (simp add: fanout_of_def pruning_executor_def pruning_target_def demo_executor_def app_Notifier_def demo_target_def
        notify_list_def demo_config_def Config_Notifier_def app_notifier_def)
  ultimately show "app_Pruner pruning_executor pruning_target = Inr demo_runner"
    by (simp add: app_Pruner_def app_Index_def demo_runner_def demo_target_def pruning_target_def app_Retention_def demo_policy_def)
  have "ParseIndex (index_text demo_pair) = (demo_pair, None)"
    using demo_pair_index by (simp add: index_at_def demo_store_view demo_runner_def del: demo_keys)
  then have "index_Entries (memory_ops demo_hash) (demo_layout ''app'') (demo_store demo_pair) = (Inr (demo_pair, True), demo_store demo_pair)"
    by (intro entries_stored [OF demo_store_view]) (simp_all add: demo_hash_def)
  then show "prune_Plan (memory_ops demo_hash) demo_runner demo_time (demo_store demo_pair) = (Inr (demo_plan, True), demo_store demo_pair)"
    by (simp add: prune_Plan_def demo_runner_def demo_plan_def prune_input_def)
qed

lemma pruning_deletes: "DeletedIDs demo_plan = [''b'']" "plDelete demo_plan \<noteq> []"
  by code_simp+

text \<open>A digest of 64 characters.\<close>

definition demo_sha :: "string \<Rightarrow> string" where
  "demo_sha x = take 64 (x @ replicate 64 CHR ''0'')"

theorem prune_applies_preview_witness:
  "\<exists>shown w1 applied w3. actionPrune pruning_executor demo_sha demo_time demo_time ''app'' [] pruning_world = (Sent 200 shown, w1) \<and>
    actionPrune pruning_executor demo_sha demo_time demo_time ''app'' (prToken shown) pruning_world = (Sent 200 applied, w3) \<and>
    prApplied applied \<and> \<not> prApplied shown"
proof -
  have t: "Config_Target (exConfig pruning_executor) ''app'' = Some pruning_target"
    by (simp add: pruning_executor_def Config_Target_def pruning_target_def demo_target_def)
  have d: "tgDestination pruning_target = ''main''" "exOps pruning_executor = memory_ops demo_hash"
    "wStore pruning_world x = demo_store demo_pair" for x
    by (simp_all add: pruning_target_def demo_target_def pruning_executor_def demo_executor_def pruning_world_def)
  let ?shown = "\<lparr>prPlan = retention_view demo_plan, prToken = planToken demo_sha demo_plan, prDryRun = True, prApplied = False, prObjects = 0\<rparr>"
  let ?w = "put_store ''main'' (demo_store demo_pair) pruning_world"
  have one: "actionPrune pruning_executor demo_sha demo_time demo_time ''app'' [] pruning_world = (Sent 200 ?shown, ?w)"
    using t d pruning_planned by (simp add: actionPrune_def Let_def)
  have plan: "plan_now pruning_executor demo_time ''app'' pruning_world = Some (pruning_target, demo_runner, demo_plan, demo_store demo_pair)"
    using t d pruning_planned by (simp add: plan_now_def)
  from apply_quiet [OF demo_plan_result demo_pair_owns demo_pair_index demo_pair_etag demo_pair_storable,
      of demo_hash demo_time "wOut pruning_world"] demo_plan_facts(1) obtain s' out' where
    ap: "prune_Apply (exOps pruning_executor) demo_runner demo_time demo_plan [] (demo_store demo_pair, wOut pruning_world) = ((1, None), (s', out'))"
    using d(2) by fastforce
  have ids: "map rwID (rvDelete (prPlan ?shown)) = DeletedIDs demo_plan" by (simp add: retention_view_def rowsOf_ids DeletedIDs_def)
  have "\<forall>x. length (demo_sha x) = 64" by (auto simp: demo_sha_def)
  from prune_applies_preview [OF one refl plan ap _ this] ids pruning_deletes(1)
  obtain p w3 where "actionPrune pruning_executor demo_sha demo_time demo_time ''app'' (prToken ?shown) pruning_world = (Sent 200 p, w3)" "prApplied p"
    by (auto simp: token_text_def)
  then show ?thesis using one by auto
qed

end
