(* ===== verification/S3.thy ===== *)
theory S3
  imports Memory App "HOL-Library.Monad_Syntax"
begin

text \<open>
  The S3 store of \<open>internal/storage/s3\<close>: \<open>s3.go\<close> with the operations of \<open>core.Store\<close>, and the
  streaming multipart upload of \<open>uploader.go\<close>. The AWS SDK and the service behind it are a
  record of calls on a service state, a parameter of every definition. What the store relies on
  of them is the predicate \<open>s3_laws\<close> (conditional writes, reads, listings, batched deletes) and
  the predicate \<open>multipart_laws\<close>; the results are in \<open>S3_Store\<close> and \<open>S3_Upload\<close>.
\<close>

section \<open>The SDK's interface\<close>

text \<open>
  What the store looks at of an error of the SDK: whether \<open>errors.As\<close> finds a \<open>NoSuchKey\<close> or a
  \<open>NotFound\<close> in it, the HTTP status of the \<open>ResponseError\<close> in it, the code of the \<open>APIError\<close>
  in it, and the error itself.
\<close>

record sdk_error =
  seMissing :: bool
  seStatus :: "int option"
  seCode :: "string option"
  seErr :: err

type_synonym ('s, 'a) s3_call = "'s \<Rightarrow> (sdk_error + 'a) \<times> 's"

record PutObjectInput =
  piBucket :: string
  piKey :: string
  piBody :: string
  piContentLength :: "int option"
  piContentType :: "string option"
  piStorageClass :: string
  piMetadata :: "(string \<times> string) list"
  piIfMatch :: "string option"
  piIfNoneMatch :: "string option"

record CreateMultipartInput =
  ciBucket :: string
  ciKey :: string
  ciContentType :: "string option"
  ciStorageClass :: string
  ciMetadata :: "(string \<times> string) list"

record HeadObjectOutput =
  hoETag :: "string option"
  hoContentLength :: "int option"
  hoLastModified :: "time option"
  hoMetadata :: "(string \<times> string) list"

record ListedObject =
  loKey :: "string option"
  loETag :: "string option"
  loSize :: "int option"
  loLastModified :: "time option"

text \<open>A page of a listing, and the token of the page after it. The paginator has more pages
  before the first one and after every page that carried a token.\<close>

record ListPage =
  lpContents :: "ListedObject list"
  lpNext :: "string option"

text \<open>The key and the message of an object that could not be deleted.\<close>

type_synonym delete_error = "string option \<times> string option"

text \<open>A part of a multipart upload, as it is completed: its number and its etag.\<close>

type_synonym CompletedPart = "int \<times> string option"

text \<open>The calls that a cancelled context can interrupt are given \<open>ctx.Err()\<close>.\<close>

record 's s3_api =
  apiPutObject :: "err option \<Rightarrow> PutObjectInput \<Rightarrow> ('s, string option) s3_call"
  apiGetObject :: "string \<Rightarrow> string \<Rightarrow> ('s, string) s3_call"
  apiHeadObject :: "string \<Rightarrow> string \<Rightarrow> ('s, HeadObjectOutput) s3_call"
  apiListObjectsV2 :: "string \<Rightarrow> string \<Rightarrow> string option \<Rightarrow> ('s, ListPage) s3_call"
  apiDeleteObjects :: "string \<Rightarrow> string list \<Rightarrow> ('s, delete_error list) s3_call"
  apiCreateMultipartUpload :: "err option \<Rightarrow> CreateMultipartInput \<Rightarrow> ('s, string option) s3_call"
  apiUploadPart :: "err option \<Rightarrow> string \<Rightarrow> string \<Rightarrow> string \<Rightarrow> int \<Rightarrow> string \<Rightarrow> ('s, string option) s3_call"
  apiCompleteMultipartUpload :: "err option \<Rightarrow> string \<Rightarrow> string \<Rightarrow> string \<Rightarrow> CompletedPart list \<Rightarrow> ('s, string option) s3_call"
  apiAbortMultipartUpload :: "string \<Rightarrow> string \<Rightarrow> string \<Rightarrow> ('s, unit) s3_call"
  apiCreateBucket :: "string \<Rightarrow> ('s, unit) s3_call"
  apiPresignGetObject :: "string \<Rightarrow> string \<Rightarrow> duration \<Rightarrow> ('s, string) s3_call"

definition ToString :: "string option \<Rightarrow> string" where
  "ToString p = (case p of None \<Rightarrow> [] | Some s \<Rightarrow> s)"

section \<open>Building a store\<close>

record S3Config =
  scProvider :: Provider
  scBucket :: string
  scEndpoint :: string
  scRegion :: string
  scAccessKeyID :: string
  scSecretAccessKey :: string
  scForcePathStyle :: bool
  scStorageClass :: string

text \<open>What \<open>New\<close> sets on the client: the static credentials are left to the SDK's own chain when
  no key is configured, the endpoint when it is empty.\<close>

record client_options =
  coRegion :: string
  coCredentials :: "(string \<times> string) option"
  coBaseEndpoint :: "string option"
  coUsePathStyle :: bool

record S3Store =
  stClient :: client_options
  stBucket :: string
  stStorageClass :: string

text \<open>\<open>load\<close> is \<open>awsconfig.LoadDefaultConfig\<close>: the error it returns, if any.\<close>

definition s3_New :: "(string \<Rightarrow> (string \<times> string) option \<Rightarrow> err option) \<Rightarrow> S3Config \<Rightarrow> S3Store result" where
  "s3_New load cfg =
     (if scBucket cfg = [] then Inl (ErrText ''no bucket configured'')
      else
        let region = (if scRegion cfg = [] \<and> scProvider cfg = ProviderR2 then ''auto'' else scRegion cfg);
            creds = (if scAccessKeyID cfg \<noteq> [] then Some (scAccessKeyID cfg, scSecretAccessKey cfg) else None)
        in case load region creds of
             Some err \<Rightarrow> Inl (ErrWrap ''loading AWS configuration'' err)
           | None \<Rightarrow>
               Inr \<lparr>stClient = \<lparr>coRegion = region, coCredentials = creds,
                      coBaseEndpoint = (if scEndpoint cfg \<noteq> [] then Some (scEndpoint cfg) else None),
                      coUsePathStyle = (scForcePathStyle cfg \<or> scProvider cfg = ProviderMinIO)\<rparr>,
                    stBucket = scBucket cfg, stStorageClass = scStorageClass cfg\<rparr>)"

text \<open>\<open>App.Store\<close> builds the store of a destination once; \<open>stores\<close> is what was built before.\<close>

definition open_store ::
  "(string \<Rightarrow> (string \<times> string) option \<Rightarrow> err option) \<Rightarrow> Config \<Rightarrow> string \<Rightarrow> (string \<rightharpoonup> S3Store)
     \<Rightarrow> S3Store result \<times> (string \<rightharpoonup> S3Store)" where
  "open_store load cfg name stores =
     (case stores name of
        Some store \<Rightarrow> (Inr store, stores)
      | None \<Rightarrow>
          (case Config_Destination cfg name of
             None \<Rightarrow> (Inl (ErrText (''destination '' @ fmt_q name @ '' is not declared'')), stores)
           | Some dest \<Rightarrow>
               (case s3_New load \<lparr>scProvider = deProvider dest, scBucket = deBucket dest, scEndpoint = deEndpoint dest,
                    scRegion = deRegion dest, scAccessKeyID = deAccessKeyID dest, scSecretAccessKey = deSecretAccessKey dest,
                    scForcePathStyle = deForcePathStyle dest, scStorageClass = storageClassFor dest\<rparr> of
                  Inl err \<Rightarrow> (Inl (ErrWrap (''destination '' @ fmt_q name) err), stores)
                | Inr store \<Rightarrow> (Inr store, stores(name \<mapsto> store)))))"

section \<open>Errors and etags\<close>

definition statusCode :: "sdk_error \<Rightarrow> int" where
  "statusCode e = (case seStatus e of None \<Rightarrow> 0 | Some c \<Rightarrow> c)"

definition isNotFound :: "sdk_error \<Rightarrow> bool" where
  "isNotFound e \<longleftrightarrow> seMissing e \<or> statusCode e = 404"

definition isPreconditionFailed :: "sdk_error \<Rightarrow> bool" where
  "isPreconditionFailed e \<longleftrightarrow>
     (if statusCode e = 412 then True
      else case seCode e of Some code \<Rightarrow> code = ''PreconditionFailed'' | None \<Rightarrow> False)"

definition s3_wrap :: "S3Store \<Rightarrow> string \<Rightarrow> string \<Rightarrow> sdk_error \<Rightarrow> err" where
  "s3_wrap st action key e =
     (if isNotFound e then ErrWrap (action @ '' '' @ fmt_q key) ErrNotFound
      else ErrWrap (action @ '' '' @ fmt_q key @ '' in bucket '' @ stBucket st) (seErr e))"

definition s3_unquote :: "string option \<Rightarrow> string" where
  "s3_unquote etag = Trim_char CHR 0x22 (ToString etag)"

definition s3_quote :: "string \<Rightarrow> string" where
  "s3_quote etag = (if HasPrefix etag [CHR 0x22] then etag else [CHR 0x22] @ etag @ [CHR 0x22])"

section \<open>Reads, deletes, conditional writes\<close>

definition s3_CreateBucket :: "'s s3_api \<Rightarrow> S3Store \<Rightarrow> ('s, unit) action" where
  "s3_CreateBucket api st s =
     (case apiCreateBucket api (stBucket st) s of
        (Inr u, s1) \<Rightarrow> (Inr u, s1)
      | (Inl e, s1) \<Rightarrow>
          if seCode e = Some ''BucketAlreadyOwnedByYou'' \<or> seCode e = Some ''BucketAlreadyExists'' then (Inr (), s1)
          else (Inl (ErrWrap (''creating bucket '' @ stBucket st) (seErr e)), s1))"

definition s3_Get :: "'s s3_api \<Rightarrow> S3Store \<Rightarrow> string \<Rightarrow> ('s, string) action" where
  "s3_Get api st key s =
     (case apiGetObject api (stBucket st) key s of
        (Inl e, s1) \<Rightarrow> (Inl (s3_wrap st ''getting'' key e), s1)
      | (Inr body, s1) \<Rightarrow> (Inr body, s1))"

definition metadataSHA256 :: string where "metadataSHA256 = ''vaultd-sha256''"

definition s3_Head :: "'s s3_api \<Rightarrow> S3Store \<Rightarrow> string \<Rightarrow> ('s, ObjectInfo) action" where
  "s3_Head api st key s =
     (case apiHeadObject api (stBucket st) key s of
        (Inl e, s1) \<Rightarrow> (Inl (s3_wrap st ''heading'' key e), s1)
      | (Inr out, s1) \<Rightarrow>
          (Inr \<lparr>oKey = key,
                oBytes = (case hoContentLength out of None \<Rightarrow> 0 | Some n \<Rightarrow> n),
                oETag = s3_unquote (hoETag out),
                oSHA256 = (case map_of (hoMetadata out) metadataSHA256 of None \<Rightarrow> [] | Some v \<Rightarrow> v),
                oLastModified = (case hoLastModified out of None \<Rightarrow> 0 | Some t \<Rightarrow> t)\<rparr>, s1))"

definition listed_info :: "ListedObject \<Rightarrow> ObjectInfo" where
  "listed_info obj = \<lparr>oKey = ToString (loKey obj),
     oBytes = (case loSize obj of None \<Rightarrow> 0 | Some n \<Rightarrow> n), oETag = s3_unquote (loETag obj), oSHA256 = [],
     oLastModified = (case loLastModified obj of None \<Rightarrow> 0 | Some t \<Rightarrow> t)\<rparr>"

text \<open>The loop over the paginator ends with the page that carries no token, or not at all.\<close>

partial_function (option) list_pages ::
  "'s s3_api \<Rightarrow> S3Store \<Rightarrow> string \<Rightarrow> string option \<Rightarrow> 's \<Rightarrow> (ObjectInfo list result \<times> 's) option" where
  "list_pages api st pfx token s =
     (case apiListObjectsV2 api (stBucket st) pfx token s of
        (Inl e, s1) \<Rightarrow> Some (Inl (s3_wrap st ''listing'' pfx e), s1)
      | (Inr page, s1) \<Rightarrow>
          (case lpNext page of
             None \<Rightarrow> Some (Inr (map listed_info (lpContents page)), s1)
           | Some tok \<Rightarrow>
               do {
                 r \<leftarrow> list_pages api st pfx (Some tok) s1;
                 Some (case fst r of Inl e \<Rightarrow> Inl e | Inr infos \<Rightarrow> Inr (map listed_info (lpContents page) @ infos), snd r)
               }))"

definition s3_List :: "'s s3_api \<Rightarrow> S3Store \<Rightarrow> string \<Rightarrow> 's \<Rightarrow> (ObjectInfo list result \<times> 's) option" where
  "s3_List api st pfx s = list_pages api st pfx None s"

definition deleteBatch :: nat where "deleteBatch = 1000"

definition delete_failure :: "delete_error list \<Rightarrow> nat \<Rightarrow> err" where
  "delete_failure errs batch =
     ErrText (''deleting '' @ ToString (fst (hd errs)) @ '': '' @ ToString (snd (hd errs)) @ '' (''
       @ Itoa (int (length errs)) @ '' of '' @ Itoa (int batch) @ '' objects failed)'')"

function s3_Delete :: "'s s3_api \<Rightarrow> S3Store \<Rightarrow> string list \<Rightarrow> ('s, unit) action" where
  "s3_Delete api st keys s =
     (if keys = [] then (Inr (), s)
      else case apiDeleteObjects api (stBucket st) (take deleteBatch keys) s of
             (Inl e, s1) \<Rightarrow> (Inl (ErrWrap ''deleting objects'' (seErr e)), s1)
           | (Inr errs, s1) \<Rightarrow>
               if errs \<noteq> [] then (Inl (delete_failure errs (length (take deleteBatch keys))), s1)
               else s3_Delete api st (drop deleteBatch keys) s1)"
  by pat_completeness auto
termination by (relation "measure (\<lambda>(api, st, keys, s). length keys)") (auto simp: deleteBatch_def)

declare s3_Delete.simps [simp del]

definition conditional_input :: "S3Store \<Rightarrow> string \<Rightarrow> string \<Rightarrow> PutObjectInput" where
  "conditional_input st key b = \<lparr>piBucket = stBucket st, piKey = key, piBody = b, piContentLength = None,
     piContentType = None, piStorageClass = [], piMetadata = [], piIfMatch = None, piIfNoneMatch = None\<rparr>"

definition s3_PutIfAbsent :: "'s s3_api \<Rightarrow> S3Store \<Rightarrow> string \<Rightarrow> string \<Rightarrow> ('s, bool) action" where
  "s3_PutIfAbsent api st key b s =
     (case apiPutObject api None ((conditional_input st key b)\<lparr>piIfNoneMatch := Some ''*''\<rparr>) s of
        (Inr _, s1) \<Rightarrow> (Inr True, s1)
      | (Inl e, s1) \<Rightarrow>
          if isPreconditionFailed e then (Inr False, s1)
          else (Inl (s3_wrap st ''creating'' key e), s1))"

definition s3_PutIfMatch ::
  "'s s3_api \<Rightarrow> S3Store \<Rightarrow> string \<Rightarrow> string \<Rightarrow> string \<Rightarrow> ('s, ObjectInfo \<times> bool) action" where
  "s3_PutIfMatch api st key b etag s =
     (let base = (conditional_input st key b)\<lparr>piContentType := Some ''application/x-ndjson''\<rparr>;
          input = (if etag = [] then base\<lparr>piIfNoneMatch := Some ''*''\<rparr>
                   else base\<lparr>piIfMatch := Some (s3_quote etag)\<rparr>)
      in case apiPutObject api None input s of
           (Inr out, s1) \<Rightarrow>
             (Inr (\<lparr>oKey = key, oBytes = int (length b), oETag = s3_unquote out, oSHA256 = [], oLastModified = 0\<rparr>, True), s1)
         | (Inl e, s1) \<Rightarrow>
             if isPreconditionFailed e \<or> isNotFound e then (Inr (zero_ObjectInfo, False), s1)
             else (Inl (s3_wrap st ''updating'' key e), s1))"

definition s3_Presign :: "'s s3_api \<Rightarrow> S3Store \<Rightarrow> string \<Rightarrow> duration \<Rightarrow> ('s, string) action" where
  "s3_Presign api st key ttl s =
     (case apiPresignGetObject api (stBucket st) key ttl s of
        (Inl e, s1) \<Rightarrow> (Inl (s3_wrap st ''presigning'' key e), s1)
      | (Inr url, s1) \<Rightarrow> (Inr url, s1))"

end
