(* ===== verification/S3_Upload.thy ===== *)
theory S3_Upload
  imports S3
begin

text \<open>
  The upload of \<open>internal/storage/s3/uploader.go\<close>: a stream of unknown length is read part by
  part; a stream that ends within the first part is one \<open>PutObject\<close>, a longer one a multipart
  upload whose parts are sent by up to \<open>concurrency\<close> goroutines while the next one is read. The
  goroutines make it a step relation, \<open>mp_step\<close>; \<open>putMultipart\<close> is its run in which every part
  is done before the next one is read. The results hold for every run.
\<close>

section \<open>Reading parts\<close>

definition minPartSize :: int where "minPartSize = 5 * 2 ^ 20"
definition initialPartSize :: int where "initialPartSize = 8 * 2 ^ 20"
definition maxPartSize :: int where "maxPartSize = 32 * 2 ^ 20"
definition partsPerGrowth :: int where "partsPerGrowth = 1000"
definition maxParts :: int where "maxParts = 10000"
definition maxConcurrency :: int where "maxConcurrency = 4"

lemmas part_consts = minPartSize_def initialPartSize_def maxPartSize_def partsPerGrowth_def
  maxParts_def maxConcurrency_def

record PutOptions =
  poContentType :: string
  poPartSize :: int
  poConcurrency :: int
  poMetadata :: "(string \<times> string) list"

definition clampPartSize :: "int \<Rightarrow> int" where
  "clampPartSize n = (if n \<le> 0 then initialPartSize else min (max n minPartSize) maxPartSize)"

definition clampConcurrency :: "int \<Rightarrow> int" where
  "clampConcurrency n = (if n < 1 \<or> n > maxConcurrency then maxConcurrency else n)"

definition contentType :: "PutOptions \<Rightarrow> string option" where
  "contentType opt = (if poContentType opt = [] then None else Some (poContentType opt))"

definition part_bytes :: "int \<Rightarrow> string" where
  "part_bytes n =
     (if n \<ge> 2 ^ 30 then Itoa (n div 2 ^ 30) @ ''GB''
      else if n \<ge> 2 ^ 20 then Itoa (n div 2 ^ 20) @ ''MB'' else Itoa n @ ''B'')"

text \<open>An \<open>io.Reader\<close>: the bytes it has left and the error it ends with, \<open>None\<close> for \<open>io.EOF\<close>.\<close>

type_synonym reader = "string \<times> err option"

definition io_EOF :: err where "io_EOF = ErrText ''EOF''"
definition io_ErrUnexpectedEOF :: err where "io_ErrUnexpectedEOF = ErrText ''unexpected EOF''"

text \<open>\<open>io.ReadFull\<close>: the bytes read, the error when they are fewer than \<open>n\<close>, and the reader.\<close>

definition ReadFull :: "reader \<Rightarrow> int \<Rightarrow> string \<times> err option \<times> reader" where
  "ReadFull r n =
     (if n \<le> int (length (fst r)) then (take (nat n) (fst r), None, (drop (nat n) (fst r), snd r))
      else (fst r,
            Some (case snd r of
                    None \<Rightarrow> if fst r = [] then io_EOF else io_ErrUnexpectedEOF
                  | Some e \<Rightarrow> if e = io_EOF \<and> fst r \<noteq> [] then io_ErrUnexpectedEOF else e),
            ([], snd r)))"

definition readPart :: "reader \<Rightarrow> int \<Rightarrow> (string \<times> bool) result \<times> reader" where
  "readPart r n =
     (case ReadFull r n of
        (buf, None, r1) \<Rightarrow> (Inr (buf, False), r1)
      | (buf, Some e, r1) \<Rightarrow>
          if errors_Is e io_EOF then (Inr ([], True), r1)
          else if errors_Is e io_ErrUnexpectedEOF then (Inr (buf, True), r1)
          else (Inl e, r1))"

section \<open>The steps of a multipart upload\<close>

text \<open>
  Where the loop of \<open>putMultipart\<close> stands: about to \<open>dispatch\<close> a part, past it, waiting for the
  goroutines with what the reader left behind, or returned.
\<close>

datatype mp_phase =
    Sending int string bool
  | Sent int
  | Draining "err option"
  | Finished "ObjectInfo result"

text \<open>
  \<open>mpInflight\<close>: the parts whose goroutine has not returned. \<open>mpErr\<close>: the error of the group, set
  by the first part that failed, which also cancels \<open>gctx\<close>. \<open>mpCtx\<close>: the error of the caller's
  context once it is cancelled.
\<close>

record 's mp =
  mpPhase :: mp_phase
  mpInflight :: "(int \<times> string) list"
  mpParts :: "CompletedPart list"
  mpErr :: "err option"
  mpCtx :: "err option"
  mpUploaded :: int
  mpPartSize :: int
  mpReader :: reader
  mpService :: 's

definition gctx_err :: "'s mp \<Rightarrow> err option" where
  "gctx_err m = (if mpErr m \<noteq> None then Some ErrCanceled else mpCtx m)"

definition mp_dispatch :: "int \<Rightarrow> string \<Rightarrow> bool \<Rightarrow> 's mp \<Rightarrow> 's mp" where
  "mp_dispatch number data final m =
     m\<lparr>mpInflight := mpInflight m @ [(number, data)],
       mpUploaded := mpUploaded m + int (length data),
       mpPhase := (if final then Draining None else Sent number)\<rparr>"

text \<open>The rest of the loop's body, after \<open>dispatch(number, data)\<close>.\<close>

definition limit_error :: err where
  "limit_error = ErrText (''backup exceeds the multipart limit of '' @ Itoa maxParts @ '' parts of up to ''
     @ part_bytes maxPartSize)"

definition grown :: "int \<Rightarrow> int \<Rightarrow> int" where
  "grown number partSize =
     (if (number - 1) mod partsPerGrowth = 0 then min (partSize * 2) maxPartSize else partSize)"

definition mp_feed :: "int \<Rightarrow> 's mp \<Rightarrow> 's mp" where
  "mp_feed sent m =
     (if gctx_err m \<noteq> None then m\<lparr>mpPhase := Draining None\<rparr>
      else
        let number = sent + 1 in
        if number > maxParts then m\<lparr>mpPhase := Draining (Some limit_error)\<rparr>
        else
          let partSize = grown number (mpPartSize m) in
          case readPart (mpReader m) partSize of
            (Inl e, r) \<Rightarrow>
              m\<lparr>mpPartSize := partSize, mpReader := r,
                mpPhase := Draining (Some (ErrWrap ''reading the backup stream'' e))\<rparr>
          | (Inr (data, final), r) \<Rightarrow>
              m\<lparr>mpPartSize := partSize, mpReader := r,
                mpPhase := (if data = [] then Draining None else Sending number data final)\<rparr>)"

text \<open>The goroutine of a part. The first error of the group is the one \<open>Wait\<close> returns.\<close>

definition part_error :: "int \<Rightarrow> string \<Rightarrow> sdk_error \<Rightarrow> err" where
  "part_error number key e = ErrWrap (''uploading part '' @ Itoa number @ '' of '' @ fmt_q key) (seErr e)"

definition mp_part :: "'s s3_api \<Rightarrow> S3Store \<Rightarrow> string \<Rightarrow> string \<Rightarrow> int \<times> string \<Rightarrow> 's mp \<Rightarrow> 's mp" where
  "mp_part api st key uploadID part m =
     (case apiUploadPart api (gctx_err m) (stBucket st) key uploadID (fst part) (snd part) (mpService m) of
        (Inl e, s1) \<Rightarrow>
          m\<lparr>mpService := s1,
            mpErr := (case mpErr m of None \<Rightarrow> Some (part_error (fst part) key e) | Some e0 \<Rightarrow> Some e0)\<rparr>
      | (Inr etag, s1) \<Rightarrow> m\<lparr>mpService := s1, mpParts := mpParts m @ [(fst part, etag)]\<rparr>)"

text \<open>The end of \<open>putMultipart\<close>, with the deferred abort of an upload that was not completed.\<close>

definition mp_abort :: "'s s3_api \<Rightarrow> S3Store \<Rightarrow> string \<Rightarrow> string \<Rightarrow> err \<Rightarrow> 's mp \<Rightarrow> 's mp" where
  "mp_abort api st key uploadID e m =
     m\<lparr>mpService := snd (apiAbortMultipartUpload api (stBucket st) key uploadID (mpService m)),
       mpPhase := Finished (Inl e)\<rparr>"

definition mp_finish :: "'s s3_api \<Rightarrow> S3Store \<Rightarrow> string \<Rightarrow> string \<Rightarrow> err option \<Rightarrow> 's mp \<Rightarrow> 's mp" where
  "mp_finish api st key uploadID readErr m =
     (case mpErr m of
        Some e \<Rightarrow> mp_abort api st key uploadID e m
      | None \<Rightarrow>
          (case readErr of
             Some e \<Rightarrow> mp_abort api st key uploadID e m
           | None \<Rightarrow>
               (case apiCompleteMultipartUpload api (mpCtx m) (stBucket st) key uploadID
                       (sort_key fst (mpParts m)) (mpService m) of
                  (Inl e, s1) \<Rightarrow>
                    mp_abort api st key uploadID (s3_wrap st ''completing the multipart upload of'' key e) (m\<lparr>mpService := s1\<rparr>)
                | (Inr etag, s1) \<Rightarrow>
                    m\<lparr>mpService := s1,
                      mpPhase := Finished (Inr \<lparr>oKey = key, oBytes = mpUploaded m, oETag = s3_unquote etag,
                        oSHA256 = [], oLastModified = 0\<rparr>)\<rparr>)))"

text \<open>A goroutine starts only while fewer than \<open>concurrency\<close> are running: \<open>dispatch\<close> blocks.\<close>

inductive mp_step :: "'s s3_api \<Rightarrow> S3Store \<Rightarrow> string \<Rightarrow> string \<Rightarrow> int \<Rightarrow> 's mp \<Rightarrow> 's mp \<Rightarrow> bool"
  for api st key uploadID concurrency where
  mp_dispatches: "mpPhase m = Sending number data final \<Longrightarrow> int (length (mpInflight m)) < concurrency \<Longrightarrow>
    mp_step api st key uploadID concurrency m (mp_dispatch number data final m)"
| mp_feeds: "mpPhase m = Sent number \<Longrightarrow> mp_step api st key uploadID concurrency m (mp_feed number m)"
| mp_parts: "mpInflight m = before @ part # after \<Longrightarrow>
    mp_step api st key uploadID concurrency m (mp_part api st key uploadID part (m\<lparr>mpInflight := before @ after\<rparr>))"
| mp_finishes: "mpPhase m = Draining readErr \<Longrightarrow> mpInflight m = [] \<Longrightarrow>
    mp_step api st key uploadID concurrency m (mp_finish api st key uploadID readErr m)"
| mp_cancels: "mpCtx m = None \<Longrightarrow> mp_step api st key uploadID concurrency m (m\<lparr>mpCtx := Some e\<rparr>)"

definition mp_start :: "err option \<Rightarrow> int \<Rightarrow> string \<Rightarrow> reader \<Rightarrow> 's \<Rightarrow> 's mp" where
  "mp_start ctxErr partSize firstPart r s =
     \<lparr>mpPhase = Sending 1 firstPart False, mpInflight = [], mpParts = [], mpErr = None, mpCtx = ctxErr,
      mpUploaded = 0, mpPartSize = partSize, mpReader = r, mpService = s\<rparr>"

section \<open>The upload\<close>

definition create_input :: "S3Store \<Rightarrow> PutOptions \<Rightarrow> string \<Rightarrow> CreateMultipartInput" where
  "create_input st opt key = \<lparr>ciBucket = stBucket st, ciKey = key, ciContentType = contentType opt,
     ciStorageClass = stStorageClass st, ciMetadata = poMetadata opt\<rparr>"

definition putSingle :: "'s s3_api \<Rightarrow> S3Store \<Rightarrow> PutOptions \<Rightarrow> err option \<Rightarrow> string \<Rightarrow> string \<Rightarrow> ('s, ObjectInfo) action" where
  "putSingle api st opt ctxErr key data s =
     (case apiPutObject api ctxErr \<lparr>piBucket = stBucket st, piKey = key, piBody = data,
          piContentLength = Some (int (length data)), piContentType = contentType opt,
          piStorageClass = stStorageClass st, piMetadata = poMetadata opt, piIfMatch = None, piIfNoneMatch = None\<rparr> s of
        (Inl e, s1) \<Rightarrow> (Inl (s3_wrap st ''putting'' key e), s1)
      | (Inr etag, s1) \<Rightarrow>
          (Inr \<lparr>oKey = key, oBytes = int (length data), oETag = s3_unquote etag, oSHA256 = [], oLastModified = 0\<rparr>, s1))"

lemma feed_sending:
  assumes "mpPhase (mp_feed number m) = Sending number' data final"
  shows "number' = number + 1 \<and> number' \<le> maxParts \<and> gctx_err m = None \<and> data \<noteq> [] \<and>
    readPart (mpReader m) (grown number' (mpPartSize m)) = (Inr (data, final), mpReader (mp_feed number m)) \<and>
    mpPartSize (mp_feed number m) = grown number' (mpPartSize m)"
  using assms by (auto simp: mp_feed_def Let_def split: if_splits prod.splits sum.splits)

text \<open>The run that does every part before it reads the next: the loop, from a part to send.\<close>

function put_parts :: "'s s3_api \<Rightarrow> S3Store \<Rightarrow> string \<Rightarrow> string \<Rightarrow> int \<Rightarrow> string \<Rightarrow> bool \<Rightarrow> 's mp \<Rightarrow> 's mp" where
  "put_parts api st key uploadID number data final m =
     (let m1 = mp_part api st key uploadID (number, data) ((mp_dispatch number data final m)\<lparr>mpInflight := []\<rparr>) in
      if final then m1
      else case mpPhase (mp_feed number m1) of
             Sending number' data' final' \<Rightarrow> put_parts api st key uploadID number' data' final' (mp_feed number m1)
           | _ \<Rightarrow> mp_feed number m1)"
  by pat_completeness auto
termination
  by (relation "measure (\<lambda>(api, st, key, uploadID, number, data, final, m). nat (maxParts + 1 - number))")
    (auto dest: feed_sending)

declare put_parts.simps [simp del]

definition putMultipart ::
  "'s s3_api \<Rightarrow> S3Store \<Rightarrow> PutOptions \<Rightarrow> err option \<Rightarrow> string \<Rightarrow> reader \<Rightarrow> string \<Rightarrow> int \<Rightarrow> ('s, ObjectInfo) action" where
  "putMultipart api st opt ctxErr key r firstPart partSize s =
     (case apiCreateMultipartUpload api ctxErr (create_input st opt key) s of
        (Inl e, s1) \<Rightarrow> (Inl (s3_wrap st ''starting a multipart upload for'' key e), s1)
      | (Inr created, s1) \<Rightarrow>
          (let uploadID = ToString created;
               m = put_parts api st key uploadID 1 firstPart False (mp_start ctxErr partSize firstPart r s1);
               m' = mp_finish api st key uploadID (case mpPhase m of Draining readErr \<Rightarrow> readErr | _ \<Rightarrow> None) m
           in (case mpPhase m' of Finished res \<Rightarrow> res | _ \<Rightarrow> Inl ErrCanceled, mpService m')))"

definition s3_upload ::
  "'s s3_api \<Rightarrow> S3Store \<Rightarrow> PutOptions \<Rightarrow> err option \<Rightarrow> string \<Rightarrow> reader \<Rightarrow> ('s, ObjectInfo) action" where
  "s3_upload api st opt ctxErr key r s =
     (let partSize = clampPartSize (poPartSize opt) in
      case readPart r partSize of
        (Inl e, r1) \<Rightarrow> (Inl (ErrWrap ''reading the backup stream'' e), s)
      | (Inr (firstPart, final), r1) \<Rightarrow>
          if final then putSingle api st opt ctxErr key firstPart s
          else putMultipart api st opt ctxErr key r1 firstPart partSize s)"

section \<open>What the service promises\<close>

text \<open>
  \<open>view\<close> gives the body and the etag stored under a key, \<open>pend\<close> the parts of the uploads in
  progress. Creating an upload gives one with no parts. \<open>UploadPart\<close> touches no object and no
  part but its own, which is stored when it succeeds. \<open>CompleteMultipartUpload\<close> fails under a
  cancelled context; when it succeeds it has put the bodies of the listed parts together, in the
  listed order, under the key; failing, or aborting, changes no other key.
\<close>

type_synonym uploads = "string \<rightharpoonup> string \<times> (int \<rightharpoonup> string \<times> string option)"

definition law_create :: "'s s3_api \<Rightarrow> string \<Rightarrow> ('s \<Rightarrow> string \<rightharpoonup> string \<times> string) \<Rightarrow> ('s \<Rightarrow> uploads) \<Rightarrow> bool" where
  "law_create api bucket view pend \<longleftrightarrow>
     (\<forall>ctxErr i s created s'. apiCreateMultipartUpload api ctxErr i s = (Inr created, s') \<longrightarrow> ciBucket i = bucket \<longrightarrow>
        view s' = view s \<and> pend s' (ToString created) = Some (ciKey i, Map.empty))"

definition law_part :: "'s s3_api \<Rightarrow> string \<Rightarrow> ('s \<Rightarrow> string \<rightharpoonup> string \<times> string) \<Rightarrow> ('s \<Rightarrow> uploads) \<Rightarrow> bool" where
  "law_part api bucket view pend \<longleftrightarrow>
     (\<forall>ctxErr k uid n d s r s' ps. apiUploadPart api ctxErr bucket k uid n d s = (r, s') \<longrightarrow> pend s uid = Some (k, ps) \<longrightarrow>
        view s' = view s \<and> (\<exists>ps'. pend s' uid = Some (k, ps') \<and> (\<forall>j. j \<noteq> n \<longrightarrow> ps' j = ps j) \<and>
          (case r of Inl _ \<Rightarrow> True | Inr etag \<Rightarrow> ps' n = Some (d, etag))))"

definition law_complete :: "'s s3_api \<Rightarrow> string \<Rightarrow> ('s \<Rightarrow> string \<rightharpoonup> string \<times> string) \<Rightarrow> ('s \<Rightarrow> uploads) \<Rightarrow> bool" where
  "law_complete api bucket view pend \<longleftrightarrow>
     (\<forall>ctxErr k uid parts s etag s' ps. apiCompleteMultipartUpload api ctxErr bucket k uid parts s = (Inr etag, s') \<longrightarrow>
        pend s uid = Some (k, ps) \<longrightarrow> ctxErr = None \<and>
        (\<exists>bodies. list_all2 (\<lambda>p d. ps (fst p) = Some (d, snd p)) parts bodies \<and>
          view s' = (view s)(k \<mapsto> (concat bodies, s3_unquote etag))))"

definition law_frame :: "'s s3_api \<Rightarrow> string \<Rightarrow> ('s \<Rightarrow> string \<rightharpoonup> string \<times> string) \<Rightarrow> bool" where
  "law_frame api bucket view \<longleftrightarrow>
     (\<forall>ctxErr k uid parts s j. j \<noteq> k \<longrightarrow>
        view (snd (apiCompleteMultipartUpload api ctxErr bucket k uid parts s)) j = view s j \<and>
        view (snd (apiAbortMultipartUpload api bucket k uid s)) j = view s j)"

definition multipart_laws ::
  "'s s3_api \<Rightarrow> string \<Rightarrow> ('s \<Rightarrow> string \<rightharpoonup> string \<times> string) \<Rightarrow> ('s \<Rightarrow> uploads) \<Rightarrow> bool" where
  "multipart_laws api bucket view pend \<longleftrightarrow>
     law_create api bucket view pend \<and> law_part api bucket view pend \<and>
     law_complete api bucket view pend \<and> law_frame api bucket view"

lemma mp_law_create:
  "multipart_laws api bucket view pend \<Longrightarrow> apiCreateMultipartUpload api ctxErr i s = (Inr created, s') \<Longrightarrow> ciBucket i = bucket \<Longrightarrow>
     view s' = view s \<and> pend s' (ToString created) = Some (ciKey i, Map.empty)"
  by (simp add: multipart_laws_def law_create_def)

lemma mp_law_part:
  assumes "multipart_laws api bucket view pend" and "apiUploadPart api ctxErr bucket k uid n d s = (r, s')"
    and "pend s uid = Some (k, ps)"
  shows "view s' = view s \<and> (\<exists>ps'. pend s' uid = Some (k, ps') \<and> (\<forall>j. j \<noteq> n \<longrightarrow> ps' j = ps j) \<and>
       (case r of Inl _ \<Rightarrow> True | Inr etag \<Rightarrow> ps' n = Some (d, etag)))"
  using assms(1) [unfolded multipart_laws_def law_part_def, THEN conjunct2, THEN conjunct1, rule_format, OF assms(2,3)] .

lemma mp_law_complete:
  assumes "multipart_laws api bucket view pend"
    and "apiCompleteMultipartUpload api ctxErr bucket k uid parts s = (Inr etag, s')" and "pend s uid = Some (k, ps)"
  shows "ctxErr = None \<and>
     (\<exists>bodies. list_all2 (\<lambda>p d. ps (fst p) = Some (d, snd p)) parts bodies \<and>
       view s' = (view s)(k \<mapsto> (concat bodies, s3_unquote etag)))"
  using assms(1) [unfolded multipart_laws_def law_complete_def, THEN conjunct2, THEN conjunct2, THEN conjunct1, rule_format, OF assms(2,3)] .

lemma mp_law_frame:
  "multipart_laws api bucket view pend \<Longrightarrow> j \<noteq> k \<Longrightarrow>
     view (snd (apiCompleteMultipartUpload api ctxErr bucket k uid parts s)) j = view s j \<and>
     view (snd (apiAbortMultipartUpload api bucket k uid s)) j = view s j"
  by (simp add: multipart_laws_def law_frame_def)

section \<open>The parts cover the stream\<close>

text \<open>
  What counts as the stream having ended, with \<open>b\<close> taken of it. A stream that ended without an error is
  taken whole. One that ended with an error is taken for ended when the error is or wraps
  \<open>io.ErrUnexpectedEOF\<close>, whole too, or wraps \<open>io.EOF\<close>, and then the part it ended in is lost.
\<close>

definition stream_taken :: "reader \<Rightarrow> string \<Rightarrow> bool" where
  "stream_taken r b \<longleftrightarrow>
     (\<exists>rest. fst r = b @ rest \<and>
       (case snd r of
          None \<Rightarrow> rest = []
        | Some e \<Rightarrow> (errors_Is e io_EOF \<or> errors_Is e io_ErrUnexpectedEOF) \<and>
            (rest \<noteq> [] \<longrightarrow> errors_Is e io_EOF \<and> e \<noteq> io_EOF \<and> int (length rest) < maxPartSize)))"

lemma stream_taken_append: "stream_taken r b \<Longrightarrow> stream_taken (xs @ fst r, snd r) (xs @ b)"
  by (auto simp: stream_taken_def)

lemma eof_facts [simp]:
  "errors_Is io_EOF io_EOF" "errors_Is io_ErrUnexpectedEOF io_ErrUnexpectedEOF" "\<not> errors_Is io_ErrUnexpectedEOF io_EOF"
  by (simp_all add: io_EOF_def io_ErrUnexpectedEOF_def)

lemma readPart_ok:
  assumes "readPart r n = (Inr (data, final), r')" and "0 < n" and "n \<le> maxPartSize"
  shows "snd r' = snd r \<and> int (length data) \<le> n \<and>
    (if final then stream_taken r data else data @ fst r' = fst r \<and> int (length data) = n)"
  using assms
  by (auto simp: readPart_def ReadFull_def stream_taken_def split: if_splits option.splits)

lemma grown_bounds:
  "minPartSize \<le> n \<Longrightarrow> n \<le> maxPartSize \<Longrightarrow> minPartSize \<le> grown k n \<and> grown k n \<le> maxPartSize \<and> 0 < grown k n"
  by (auto simp: grown_def part_consts)

lemma clamp_bounds: "minPartSize \<le> clampPartSize n \<and> clampPartSize n \<le> maxPartSize"
  by (auto simp: clampPartSize_def part_consts)

text \<open>
  The invariant: \<open>ds\<close> are the bodies dispatched so far, in order. The ledger says where each of
  them is: in flight, or stored under its number and listed; a part may be missing only once the
  group has an error. The cursor says how they and the reader make up the stream.
\<close>

definition mp_ledger :: "('s \<Rightarrow> uploads) \<Rightarrow> string \<Rightarrow> string \<Rightarrow> string list \<Rightarrow> 's mp \<Rightarrow> bool" where
  "mp_ledger pend key uid ds m \<longleftrightarrow>
     (\<exists>ps. pend (mpService m) uid = Some (key, ps) \<and>
       (\<forall>p\<in>set (mpParts m). ps (fst p) = Some (ds ! nat (fst p - 1), snd p))) \<and>
     (\<forall>p\<in>set (mpInflight m). snd p = ds ! nat (fst p - 1)) \<and>
     distinct (map fst (mpInflight m) @ map fst (mpParts m)) \<and>
     fst ` set (mpInflight m) \<union> fst ` set (mpParts m) \<subseteq> {1..int (length ds)} \<and>
     (mpErr m = None \<longrightarrow> {1..int (length ds)} \<subseteq> fst ` set (mpInflight m) \<union> fst ` set (mpParts m))"

definition mp_cursor :: "reader \<Rightarrow> string list \<Rightarrow> 's mp \<Rightarrow> bool" where
  "mp_cursor r0 ds m \<longleftrightarrow>
     snd (mpReader m) = snd r0 \<and> minPartSize \<le> mpPartSize m \<and> mpPartSize m \<le> maxPartSize \<and>
     mpUploaded m = int (length (concat ds)) \<and>
     (case mpPhase m of
        Sending n d final \<Rightarrow>
          n = int (length ds) + 1 \<and> n \<le> maxParts \<and> int (length d) \<le> maxPartSize \<and>
          (if final then stream_taken r0 (concat ds @ d)
           else minPartSize \<le> int (length d) \<and> concat ds @ d @ fst (mpReader m) = fst r0)
      | Sent n \<Rightarrow> n = int (length ds) \<and> concat ds @ fst (mpReader m) = fst r0
      | Draining e \<Rightarrow> e = None \<longrightarrow> mpErr m = None \<longrightarrow> mpCtx m = None \<longrightarrow> stream_taken r0 (concat ds)
      | Finished _ \<Rightarrow> False)"

lemma dispatch_keeps:
  assumes "mp_ledger pend key uid ds m" and "mp_cursor r0 ds m" and "mpPhase m = Sending n d final"
  shows "mp_ledger pend key uid (ds @ [d]) (mp_dispatch n d final m) \<and> mp_cursor r0 (ds @ [d]) (mp_dispatch n d final m)"
proof
  have n: "n = int (length ds) + 1" using assms(2,3) by (simp add: mp_cursor_def)
  have old: "(ds @ [d]) ! nat (j - 1) = ds ! nat (j - 1)" if "j \<in> {1..int (length ds)}" for j
    using that by (simp add: nth_append nat_less_iff)
  have sub: "fst ` set (mpInflight m) \<subseteq> {1..int (length ds)}" "fst ` set (mpParts m) \<subseteq> {1..int (length ds)}"
    using assms(1) by (auto simp: mp_ledger_def)
  have dom: "fst p \<in> {1..int (length ds)}" if "p \<in> set (mpInflight m)" for p using that sub by blast
  have dom': "fst p \<in> {1..int (length ds)}" if "p \<in> set (mpParts m)" for p using that sub by blast
  have rng: "{1..int (length (ds @ [d]))} = insert n {1..int (length ds)}" using n by auto
  have nin: "n \<notin> fst ` set (mpInflight m) \<union> fst ` set (mpParts m)" using sub n by fastforce
  show "mp_ledger pend key uid (ds @ [d]) (mp_dispatch n d final m)"
    using assms(1) nin dom dom' old n unfolding mp_ledger_def rng
    by (auto simp: mp_dispatch_def nth_append image_iff)
  show "mp_cursor r0 (ds @ [d]) (mp_dispatch n d final m)"
    using assms(2,3) by (auto simp: mp_cursor_def mp_dispatch_def)
qed

lemma feed_keeps:
  assumes "mp_ledger pend key uid ds m" and "mp_cursor r0 ds m" and "mpPhase m = Sent n"
  shows "mp_ledger pend key uid ds (mp_feed n m) \<and> mp_cursor r0 ds (mp_feed n m)"
proof
  show "mp_ledger pend key uid ds (mp_feed n m)"
    using assms(1) by (auto simp: mp_ledger_def mp_feed_def Let_def split: prod.splits sum.splits)
  show "mp_cursor r0 ds (mp_feed n m)"
  proof -
    obtain res r where Pair: "readPart (mpReader m) (grown (n + 1) (mpPartSize m)) = (res, r)"
      by (cases "readPart (mpReader m) (grown (n + 1) (mpPartSize m))")
    have b: "minPartSize \<le> grown (n + 1) (mpPartSize m)" "grown (n + 1) (mpPartSize m) \<le> maxPartSize" "0 < grown (n + 1) (mpPartSize m)"
      using grown_bounds assms(2) by (auto simp: mp_cursor_def)
    have err: "snd r = snd (mpReader m)" using Pair
      by (auto simp: readPart_def ReadFull_def split: if_splits option.splits)
    have cur: "snd (mpReader m) = snd r0" "mpUploaded m = int (length (concat ds))" "n = int (length ds)"
      "concat ds @ fst (mpReader m) = fst r0" "minPartSize \<le> mpPartSize m" "mpPartSize m \<le> maxPartSize"
      using assms(2,3) by (auto simp: mp_cursor_def)
    show ?thesis
    proof (cases res)
      case (Inl x)
      then show ?thesis using cur b err Pair by (auto simp: mp_cursor_def mp_feed_def Let_def gctx_err_def)
    next
      case (Inr df)
      obtain data final where df: "df = (data, final)" by (cases df)
      have "snd r = snd (mpReader m) \<and> int (length data) \<le> grown (n + 1) (mpPartSize m) \<and>
        (if final then stream_taken (mpReader m) data
         else data @ fst r = fst (mpReader m) \<and> int (length data) = grown (n + 1) (mpPartSize m))"
        using readPart_ok [OF _ b(3,2)] Pair Inr df by blast
      moreover have "stream_taken r0 (concat ds @ data)" if "stream_taken (mpReader m) data"
        using stream_taken_append [OF that, of "concat ds"] cur(1,4) by simp
      ultimately show ?thesis using cur b Pair Inr df
        by (cases final; cases "mpErr m"; cases "mpCtx m") (auto simp: mp_cursor_def mp_feed_def Let_def gctx_err_def)
    qed
  qed
qed

lemma part_keeps:
  assumes "multipart_laws api (stBucket st) view pend"
    and "mp_ledger pend key uid ds m" and "mp_cursor r0 ds m" and "mpInflight m = before @ part # after"
  shows "mp_ledger pend key uid ds (mp_part api st key uid part (m\<lparr>mpInflight := before @ after\<rparr>)) \<and>
    mp_cursor r0 ds (mp_part api st key uid part (m\<lparr>mpInflight := before @ after\<rparr>)) \<and>
    view (mpService (mp_part api st key uid part (m\<lparr>mpInflight := before @ after\<rparr>))) = view (mpService m)"
proof -
  let ?m = "m\<lparr>mpInflight := before @ after\<rparr>"
  obtain ps where ps: "pend (mpService m) uid = Some (key, ps)"
    and listed: "\<forall>p\<in>set (mpParts m). ps (fst p) = Some (ds ! nat (fst p - 1), snd p)"
    using assms(2) by (auto simp: mp_ledger_def)
  obtain res s1 where call: "apiUploadPart api (gctx_err ?m) (stBucket st) key uid (fst part) (snd part) (mpService m) = (res, s1)"
    by (cases "apiUploadPart api (gctx_err ?m) (stBucket st) key uid (fst part) (snd part) (mpService m)")
  obtain ps' where v: "view s1 = view (mpService m)" and ps': "pend s1 uid = Some (key, ps')"
    and other: "\<forall>j. j \<noteq> fst part \<longrightarrow> ps' j = ps j"
    and own: "case res of Inl _ \<Rightarrow> True | Inr etag \<Rightarrow> ps' (fst part) = Some (snd part, etag)"
    using mp_law_part [OF assms(1) call ps] by blast
  have fresh: "fst part \<notin> fst ` set (mpParts m)" and body: "snd part = ds ! nat (fst part - 1)"
    using assms(2,4) by (auto simp: mp_ledger_def)
  have kept: "\<forall>p\<in>set (mpParts m). ps' (fst p) = Some (ds ! nat (fst p - 1), snd p)"
    using listed other fresh by (metis image_eqI)
  have led: "mp_ledger pend key uid ds (mp_part api st key uid part ?m)"
  proof (cases res)
    case (Inl e)
    then show ?thesis using assms(2,4) call ps' kept
      by (auto simp: mp_ledger_def mp_part_def split: option.splits)
  next
    case (Inr etag)
    then show ?thesis using assms(2,4) call ps' kept own body fresh
      by (auto simp: mp_ledger_def mp_part_def)
  qed
  have "mp_cursor r0 ds (mp_part api st key uid part ?m)"
    using assms(3) call by (cases res) (auto simp: mp_cursor_def mp_part_def split: mp_phase.splits)
  with led v call show ?thesis by (cases res) (auto simp: mp_part_def)
qed

text \<open>Once every part is in, sorting by number puts the bodies in the order of the stream.\<close>

lemma sorted_numbers:
  assumes "distinct (map fst ps)" and "fst ` set ps = {1..int k}"
  shows "map fst (sort_key fst ps) = map int [1..<Suc k]"
proof (rule sorted_distinct_set_unique)
  show "distinct (map fst (sort_key fst ps))"
    using assms(1) by (simp add: distinct_map)
  show "distinct (map int [1..<Suc k])" by (simp add: distinct_map)
  show "sorted (map int [1..<Suc k])" by (simp add: sorted_map del: upt_Suc)
  have "{1..int k} = int ` {1..<Suc k}"
  proof (intro equalityI subsetI)
    fix x assume "x \<in> {1..int k}"
    then have "nat x \<in> {1..<Suc k}" and "x = int (nat x)" by auto
    then show "x \<in> int ` {1..<Suc k}" by blast
  qed auto
  then show "set (map fst (sort_key fst ps)) = set (map int [1..<Suc k])" using assms(2) by auto
qed simp

lemma bodies_in_order:
  assumes "distinct (map fst parts)" and "fst ` set parts = {1..int (length ds)}"
    and "\<forall>p\<in>set parts. ps (fst p) = Some (ds ! nat (fst p - 1), snd p)"
    and "list_all2 (\<lambda>p d. ps (fst p) = Some (d, snd p)) (sort_key fst parts) bodies"
  shows "bodies = ds"
proof (rule nth_equalityI)
  have nums: "map fst (sort_key fst parts) = map int [1..<Suc (length ds)]" by (rule sorted_numbers [OF assms(1,2)])
  have len: "length (sort_key fst parts) = length ds"
    using arg_cong [OF nums, of length] by (simp del: upt_Suc)
  show eq: "length bodies = length ds" using list_all2_lengthD [OF assms(4)] len by linarith
  fix i assume i: "i < length bodies"
  let ?p = "sort_key fst parts ! i"
  have mem: "?p \<in> set parts" using i eq len by (metis nth_mem set_sort)
  have "fst ?p = map fst (sort_key fst parts) ! i" using i eq len by (metis nth_map)
  also have "\<dots> = int (Suc i)" using i eq unfolding nums by (simp del: upt_Suc)
  finally have "fst ?p = int (Suc i)" .
  then have "ps (fst ?p) = Some (ds ! i, snd ?p)" using assms(3) [rule_format, OF mem] by simp
  moreover have "ps (fst ?p) = Some (bodies ! i, snd ?p)" using list_all2_nthD2 [OF assms(4) i] .
  ultimately show "bodies ! i = ds ! i" by simp
qed

section \<open>Every run\<close>

definition mp_inv ::
  "'s s3_api \<Rightarrow> S3Store \<Rightarrow> ('s \<Rightarrow> string \<rightharpoonup> string \<times> string) \<Rightarrow> ('s \<Rightarrow> uploads) \<Rightarrow> string \<Rightarrow> string \<Rightarrow> reader
     \<Rightarrow> (string \<rightharpoonup> string \<times> string) \<Rightarrow> 's mp \<Rightarrow> bool" where
  "mp_inv api st view pend key uid r0 v0 m \<longleftrightarrow>
     (case mpPhase m of
        Finished (Inr info) \<Rightarrow>
          mpInflight m = [] \<and> oKey info = key \<and>
          (\<exists>b. stream_taken r0 b \<and> view (mpService m) = v0(key \<mapsto> (b, oETag info)) \<and> oBytes info = int (length b))
      | Finished (Inl e) \<Rightarrow>
          mpInflight m = [] \<and> (\<exists>s. mpService m = snd (apiAbortMultipartUpload api (stBucket st) key uid s)) \<and>
          (\<forall>j. j \<noteq> key \<longrightarrow> view (mpService m) j = v0 j)
      | _ \<Rightarrow> view (mpService m) = v0 \<and> (\<exists>ds. mp_ledger pend key uid ds m \<and> mp_cursor r0 ds m))"

text \<open>Before the upload returns, the invariant is the ledger and the cursor, which excludes
  a returned upload.\<close>

lemma mp_inv_running:
  "mp_ledger pend key uid ds m \<Longrightarrow> mp_cursor r0 ds m \<Longrightarrow> view (mpService m) = v0 \<Longrightarrow>
    mp_inv api st view pend key uid r0 v0 m"
  by (auto simp: mp_inv_def mp_cursor_def split: mp_phase.splits)

lemma mp_inv_cases:
  assumes "mp_inv api st view pend key uid r0 v0 m" and "mpInflight m \<noteq> [] \<or> (\<forall>r. mpPhase m \<noteq> Finished r)"
  obtains ds where "mp_ledger pend key uid ds m" and "mp_cursor r0 ds m" and "view (mpService m) = v0"
  using assms by (auto simp: mp_inv_def split: mp_phase.splits sum.splits)

lemma abort_inv:
  assumes "multipart_laws api (stBucket st) view pend" and "mpInflight m = []"
    and "\<forall>j. j \<noteq> key \<longrightarrow> view (mpService m) j = v0 j"
  shows "mp_inv api st view pend key uid r0 v0 (mp_abort api st key uid e m)"
  using assms mp_law_frame [OF assms(1)] by (auto simp: mp_inv_def mp_abort_def)

lemma finish_inv:
  assumes "multipart_laws api (stBucket st) view pend"
    and "mp_ledger pend key uid ds m" and "mp_cursor r0 ds m" and "view (mpService m) = v0"
    and "mpPhase m = Draining readErr" and "mpInflight m = []"
  shows "mp_inv api st view pend key uid r0 v0 (mp_finish api st key uid readErr m)"
proof (cases "mpErr m = None \<and> readErr = None")
  case False
  then show ?thesis using assms(4,6) abort_inv [OF assms(1)] by (auto simp: mp_finish_def split: option.splits)
next
  case True
  obtain ps where ps: "pend (mpService m) uid = Some (key, ps)"
    and listed: "\<forall>p\<in>set (mpParts m). ps (fst p) = Some (ds ! nat (fst p - 1), snd p)"
    using assms(2) by (auto simp: mp_ledger_def)
  let ?call = "apiCompleteMultipartUpload api (mpCtx m) (stBucket st) key uid (sort_key fst (mpParts m)) (mpService m)"
  obtain res s1 where call: "?call = (res, s1)" by (cases ?call)
  show ?thesis
  proof (cases res)
    case (Inl e)
    have "\<forall>j. j \<noteq> key \<longrightarrow> view s1 j = v0 j" using mp_law_frame [OF assms(1)] call assms(4) by (metis snd_conv)
    then show ?thesis using True Inl call assms(6) abort_inv [OF assms(1), of "m\<lparr>mpService := s1\<rparr>"]
      by (simp add: mp_finish_def)
  next
    case (Inr etag)
    obtain bodies where live: "mpCtx m = None"
      and bodies: "list_all2 (\<lambda>p d. ps (fst p) = Some (d, snd p)) (sort_key fst (mpParts m)) bodies"
      and v: "view s1 = v0(key \<mapsto> (concat bodies, s3_unquote etag))"
      using mp_law_complete [OF assms(1) _ ps] call Inr assms(4) by blast
    have "distinct (map fst (mpParts m))" "fst ` set (mpParts m) = {1..int (length ds)}"
      using assms(2,6) True by (auto simp: mp_ledger_def)
    then have "bodies = ds" using bodies_in_order listed bodies by blast
    moreover have "stream_taken r0 (concat ds)" "mpUploaded m = int (length (concat ds))"
      using assms(3,5) True live by (auto simp: mp_cursor_def)
    ultimately show ?thesis using True Inr call v assms(6) by (auto simp: mp_finish_def mp_inv_def)
  qed
qed

lemma step_inv:
  assumes "mp_step api st key uid concurrency m m'" and "mp_inv api st view pend key uid r0 v0 m"
    and "multipart_laws api (stBucket st) view pend"
  shows "mp_inv api st view pend key uid r0 v0 m'"
  using assms(1)
proof cases
  case (mp_dispatches number data final)
  then obtain ds where ds: "mp_ledger pend key uid ds m" "mp_cursor r0 ds m" "view (mpService m) = v0"
    using assms(2) by (elim mp_inv_cases) auto
  have "mpService m' = mpService m" using mp_dispatches(1) by (simp add: mp_dispatch_def)
  then show ?thesis using dispatch_keeps [OF ds(1,2) mp_dispatches(2)] mp_dispatches(1) ds(3)
    by (intro mp_inv_running [of _ _ _ "ds @ [data]"]) simp_all
next
  case (mp_feeds number)
  then obtain ds where "mp_ledger pend key uid ds m" "mp_cursor r0 ds m" "view (mpService m) = v0"
    using assms(2) by (elim mp_inv_cases) auto
  moreover have "mpService (mp_feed number m) = mpService m"
    by (simp add: mp_feed_def Let_def split: prod.splits sum.splits)
  ultimately show ?thesis using feed_keeps [OF _ _ mp_feeds(2)] mp_feeds(1)
    by (intro mp_inv_running [of _ _ _ ds]) auto
next
  case (mp_parts before part after)
  then obtain ds where "mp_ledger pend key uid ds m" "mp_cursor r0 ds m" "view (mpService m) = v0"
    using assms(2) by (elim mp_inv_cases) auto
  then show ?thesis using part_keeps [OF assms(3) _ _ mp_parts(2)] mp_parts(1)
    by (intro mp_inv_running [of _ _ _ ds]) auto
next
  case (mp_finishes readErr)
  then obtain ds where "mp_ledger pend key uid ds m" "mp_cursor r0 ds m" "view (mpService m) = v0"
    using assms(2) by (elim mp_inv_cases) auto
  then show ?thesis using finish_inv [OF assms(3)] mp_finishes by blast
next
  case (mp_cancels e)
  show ?thesis
  proof (cases "\<exists>r. mpPhase m = Finished r")
    case True
    then show ?thesis using assms(2) mp_cancels(1) by (auto simp: mp_inv_def split: sum.splits)
  next
    case False
    then obtain ds where ds: "mp_ledger pend key uid ds m" "mp_cursor r0 ds m" "view (mpService m) = v0"
      using assms(2) by (elim mp_inv_cases) auto
    have "mp_ledger pend key uid ds m'" using ds(1) mp_cancels(1) by (simp add: mp_ledger_def)
    moreover have "mp_cursor r0 ds m'" using ds(2) mp_cancels(1)
      by (cases "mpPhase m") (simp_all add: mp_cursor_def)
    ultimately show ?thesis using ds(3) mp_cancels(1) by (intro mp_inv_running [of _ _ _ ds]) simp_all
  qed
qed

lemma start_inv:
  assumes "pend s uid = Some (key, Map.empty)" and "readPart r0 partSize = (Inr (firstPart, False), r)"
    and "minPartSize \<le> partSize" and "partSize \<le> maxPartSize"
  shows "mp_inv api st view pend key uid r0 (view s) (mp_start ctxErr partSize firstPart r s)"
proof (rule mp_inv_running [of _ _ _ "[]"])
  have "0 < partSize" using assms(3) by (simp add: minPartSize_def)
  then show "mp_cursor r0 [] (mp_start ctxErr partSize firstPart r s)"
    using readPart_ok [OF assms(2) _ assms(4)] assms(3,4) by (auto simp: mp_cursor_def mp_start_def maxParts_def)
qed (use assms(1) in \<open>auto simp: mp_ledger_def mp_start_def\<close>)

lemma run_inv:
  assumes "(mp_step api st key uid concurrency)\<^sup>*\<^sup>* m m'" and "mp_inv api st view pend key uid r0 v0 m"
    and "multipart_laws api (stBucket st) view pend"
  shows "mp_inv api st view pend key uid r0 v0 m'"
  using assms by (induction rule: rtranclp_induct) (auto intro: step_inv)

lemma step_buffers:
  "mp_step api st key uid concurrency m m' \<Longrightarrow> int (length (mpInflight m)) \<le> concurrency \<Longrightarrow>
    int (length (mpInflight m')) \<le> concurrency"
  by (induction rule: mp_step.induct)
    (auto simp: mp_dispatch_def mp_feed_def mp_part_def mp_finish_def mp_abort_def Let_def
      split: prod.splits sum.splits option.splits)

lemma run_buffers:
  "(mp_step api st key uid concurrency)\<^sup>*\<^sup>* m m' \<Longrightarrow> int (length (mpInflight m)) \<le> concurrency \<Longrightarrow>
    int (length (mpInflight m')) \<le> concurrency"
  by (induction rule: rtranclp_induct) (auto intro: step_buffers)

end
