(* ===== verification/S3_Store.thy ===== *)
theory S3_Store
  imports S3_Upload
begin

text \<open>
  The S3 store as a \<open>core.Store\<close>, and what is proved of it: with a service that keeps its
  documented promises, the store keeps the contract the rest of the program relies on
  (\<open>object_store\<close>), so every result about the index, the lock and pruning holds on a bucket; and
  an upload that reports success stored exactly the stream it was given, however its parts
  interleave, fail or are cancelled.
\<close>

section \<open>The store\<close>

text \<open>\<open>Put\<close> is handed the bytes of a reader, or the error it ended with before any.\<close>

definition s3_Put :: "'s s3_api \<Rightarrow> S3Store \<Rightarrow> PutOptions \<Rightarrow> string \<Rightarrow> string result \<Rightarrow> ('s, ObjectInfo) action" where
  "s3_Put api st opt key body s =
     s3_upload api st opt None key (case body of Inl e \<Rightarrow> ([], Some e) | Inr b \<Rightarrow> (b, None)) s"

definition s3_ops :: "'s s3_api \<Rightarrow> S3Store \<Rightarrow> PutOptions \<Rightarrow> 's store_ops" where
  "s3_ops api st opt = \<lparr>sPut = s3_Put api st opt, sGet = s3_Get api st, sHead = s3_Head api st,
     sList = (\<lambda>pfx s. the (s3_List api st pfx s)), sDelete = s3_Delete api st,
     sPutIfAbsent = s3_PutIfAbsent api st, sPutIfMatch = s3_PutIfMatch api st\<rparr>"

section \<open>What the service promises\<close>

definition quoted :: "string \<Rightarrow> string" where
  "quoted e = [CHR 0x22] @ e @ [CHR 0x22]"

text \<open>Etags are not empty and hold no quote; the service sends them in quotes.\<close>

definition law_etags :: "('s \<Rightarrow> string \<rightharpoonup> string \<times> string) \<Rightarrow> (string \<Rightarrow> string) \<Rightarrow> bool" where
  "law_etags view tag \<longleftrightarrow>
     (\<forall>b. tag b \<noteq> [] \<and> CHR 0x22 \<notin> set (tag b)) \<and>
     (\<forall>s k b e. view s k = Some (b, e) \<longrightarrow> e \<noteq> [] \<and> CHR 0x22 \<notin> set e)"

text \<open>Reads change nothing; an object that is not there is a 404.\<close>

definition law_reads :: "'s s3_api \<Rightarrow> string \<Rightarrow> ('s \<Rightarrow> string \<rightharpoonup> string \<times> string) \<Rightarrow> bool" where
  "law_reads api bucket view \<longleftrightarrow>
     (\<forall>s k. case view s k of
        Some (b, e) \<Rightarrow> apiGetObject api bucket k s = (Inr b, s) \<and>
          (\<exists>out. apiHeadObject api bucket k s = (Inr out, s) \<and> hoETag out = Some (quoted e) \<and>
            hoContentLength out = Some (int (length b)))
      | None \<Rightarrow> (\<exists>x. apiGetObject api bucket k s = (Inl x, s) \<and> isNotFound x) \<and>
          (\<exists>x. apiHeadObject api bucket k s = (Inl x, s) \<and> isNotFound x))"

text \<open>Following the tokens from the start, the pages of a prefix end, and hold its keys, each once.\<close>

fun page_chain :: "'s s3_api \<Rightarrow> string \<Rightarrow> string \<Rightarrow> 's \<Rightarrow> string option \<Rightarrow> ListPage list \<Rightarrow> bool" where
  "page_chain api bucket pfx s token [] \<longleftrightarrow> False"
| "page_chain api bucket pfx s token (page # pages) \<longleftrightarrow>
     apiListObjectsV2 api bucket pfx token s = (Inr page, s) \<and>
     (case lpNext page of None \<Rightarrow> pages = [] | Some tok \<Rightarrow> page_chain api bucket pfx s (Some tok) pages)"

definition law_list :: "'s s3_api \<Rightarrow> string \<Rightarrow> ('s \<Rightarrow> bool) \<Rightarrow> ('s \<Rightarrow> string \<rightharpoonup> string \<times> string) \<Rightarrow> bool" where
  "law_list api bucket good view \<longleftrightarrow>
     (\<forall>s p. good s \<longrightarrow> (\<exists>pages. page_chain api bucket p s None pages \<and>
        (let keys = map (ToString \<circ> loKey) (concat (map lpContents pages))
         in distinct keys \<and> set keys = {k. view s k \<noteq> None \<and> HasPrefix k p})))"

text \<open>A deletion takes from one to a thousand keys.\<close>

definition law_delete :: "'s s3_api \<Rightarrow> string \<Rightarrow> ('s \<Rightarrow> bool) \<Rightarrow> ('s \<Rightarrow> string \<rightharpoonup> string \<times> string) \<Rightarrow> bool" where
  "law_delete api bucket good view \<longleftrightarrow>
     (\<forall>s ks. 1 \<le> length ks \<longrightarrow> length ks \<le> 1000 \<longrightarrow>
        (\<exists>s'. apiDeleteObjects api bucket ks s = (Inr [], s') \<and> (good s \<longrightarrow> good s') \<and>
          view s' = (\<lambda>k. if k \<in> set ks then None else view s k)))"

text \<open>
  \<open>If-None-Match: *\<close> writes where there is nothing and is refused with a 412 where there is an
  object; \<open>If-Match\<close> writes over an object with that etag, and is refused with a 412 over another
  one and with a 404 where there is none.
\<close>

definition written :: "('s \<Rightarrow> bool) \<Rightarrow> ('s \<Rightarrow> string \<rightharpoonup> string \<times> string) \<Rightarrow> (string \<Rightarrow> string) \<Rightarrow> PutObjectInput
    \<Rightarrow> 's \<Rightarrow> (sdk_error + string option) \<times> 's \<Rightarrow> bool" where
  "written good view tag i s res \<longleftrightarrow>
     fst res = Inr (Some (quoted (tag (piBody i)))) \<and> (good s \<longrightarrow> good (snd res)) \<and>
     view (snd res) = (view s)(piKey i \<mapsto> (piBody i, tag (piBody i)))"

definition law_conditions ::
  "'s s3_api \<Rightarrow> string \<Rightarrow> ('s \<Rightarrow> bool) \<Rightarrow> ('s \<Rightarrow> string \<rightharpoonup> string \<times> string) \<Rightarrow> (string \<Rightarrow> string) \<Rightarrow> bool" where
  "law_conditions api bucket good view tag \<longleftrightarrow>
     (\<forall>s i. piBucket i = bucket \<longrightarrow>
        (case (piIfNoneMatch i, piIfMatch i) of
           (Some c, None) \<Rightarrow> c = ''*'' \<longrightarrow>
             (case view s (piKey i) of
                None \<Rightarrow> written good view tag i s (apiPutObject api None i s)
              | Some _ \<Rightarrow> (\<exists>x. apiPutObject api None i s = (Inl x, s) \<and> statusCode x = 412))
         | (None, Some q) \<Rightarrow>
             (case view s (piKey i) of
                None \<Rightarrow> (\<exists>x. apiPutObject api None i s = (Inl x, s) \<and> statusCode x = 404)
              | Some (b, e) \<Rightarrow>
                  if q = quoted e then written good view tag i s (apiPutObject api None i s)
                  else (\<exists>x. apiPutObject api None i s = (Inl x, s) \<and> statusCode x = 412))
         | _ \<Rightarrow> True))"

definition s3_laws ::
  "'s s3_api \<Rightarrow> string \<Rightarrow> ('s \<Rightarrow> bool) \<Rightarrow> ('s \<Rightarrow> string \<rightharpoonup> string \<times> string) \<Rightarrow> (string \<Rightarrow> string) \<Rightarrow> bool" where
  "s3_laws api bucket good view tag \<longleftrightarrow>
     law_etags view tag \<and> law_reads api bucket view \<and> law_list api bucket good view \<and>
     law_delete api bucket good view \<and> law_conditions api bucket good view tag"

section \<open>The contract\<close>

lemma Trim_quoted:
  assumes "CHR 0x22 \<notin> set e" and "e \<noteq> []"
  shows "Trim_char CHR 0x22 (quoted e) = e"
proof -
  have front: "dropWhile (\<lambda>c. c = CHR 0x22) (e @ [CHR 0x22]) = e @ [CHR 0x22]" using assms by (cases e) auto
  have backq: "dropWhile (\<lambda>c. c = CHR 0x22) (rev e) = rev e" using assms by (cases "rev e") auto
  show ?thesis by (simp add: Trim_char_def quoted_def front backq)
qed

lemma unquote_quoted [simp]: "CHR 0x22 \<notin> set e \<Longrightarrow> e \<noteq> [] \<Longrightarrow> s3_unquote (Some (quoted e)) = e"
  by (simp add: s3_unquote_def ToString_def Trim_quoted)

lemma quote_quoted: "CHR 0x22 \<notin> set e \<Longrightarrow> s3_quote e = quoted e"
  by (cases e) (auto simp: s3_quote_def quoted_def HasPrefix_def)

lemma quoted_inj [simp]: "quoted a = quoted b \<longleftrightarrow> a = b"
  by (simp add: quoted_def)

lemma wrap_not_found: "isNotFound x \<Longrightarrow> errors_Is (s3_wrap st a k x) ErrNotFound"
  by (simp add: s3_wrap_def)

lemma list_chain:
  "page_chain api (stBucket st) pfx s token pages \<Longrightarrow>
    list_pages api st pfx token s = Some (Inr (map listed_info (concat (map lpContents pages))), s)"
proof (induction pages arbitrary: token)
  case (Cons page pages)
  then show ?case by (subst list_pages.simps) (auto split: option.splits)
qed simp

lemma delete_exact:
  assumes "law_delete api (stBucket st) good view"
  shows "\<exists>s'. s3_Delete api st ks s = (Inr (), s') \<and> (good s \<longrightarrow> good s') \<and>
    view s' = (\<lambda>k. if k \<in> set ks then None else view s k)"
proof (induction "length ks" arbitrary: ks s rule: less_induct)
  case less
  show ?case
  proof (cases "ks = []")
    case True
    then show ?thesis by (simp add: s3_Delete.simps)
  next
    case False
    let ?a = "take deleteBatch ks" and ?b = "drop deleteBatch ks"
    have "1 \<le> length ?a" "length ?a \<le> 1000" using False by (cases ks, auto simp: deleteBatch_def)
    then obtain s1 where s1: "apiDeleteObjects api (stBucket st) ?a s = (Inr [], s1)" "good s \<longrightarrow> good s1"
      "view s1 = (\<lambda>k. if k \<in> set ?a then None else view s k)"
      using assms unfolding law_delete_def by blast
    have "length ?b < length ks" using False by (auto simp: deleteBatch_def)
    then obtain s2 where s2: "s3_Delete api st ?b s1 = (Inr (), s2)" "good s1 \<longrightarrow> good s2"
      "view s2 = (\<lambda>k. if k \<in> set ?b then None else view s1 k)"
      using less by blast
    have "set ks = set ?a \<union> set ?b" by (metis append_take_drop_id set_append)
    then have "view s2 = (\<lambda>k. if k \<in> set ks then None else view s k)" using s1(3) s2(3) by (auto simp: fun_eq_iff)
    then show ?thesis using False s1 s2 by (intro exI [of _ s2]) (simp add: s3_Delete.simps [of _ _ ks])
  qed
qed

text \<open>The two conditional writes, each on the outcomes the service can give them.\<close>

lemma put_absent:
  assumes "law_conditions api (stBucket st) good view tag"
  shows "view s k = None \<Longrightarrow> \<exists>s'. s3_PutIfAbsent api st k b s = (Inr True, s') \<and> (good s \<longrightarrow> good s') \<and>
      view s' = (view s)(k \<mapsto> (b, tag b))"
    and "view s k = Some v \<Longrightarrow> s3_PutIfAbsent api st k b s = (Inr False, s)"
proof -
  let ?i = "(conditional_input st k b)\<lparr>piIfNoneMatch := Some ''*''\<rparr>"
  have law: "case view s k of None \<Rightarrow> written good view tag ?i s (apiPutObject api None ?i s)
      | Some _ \<Rightarrow> (\<exists>x. apiPutObject api None ?i s = (Inl x, s) \<and> statusCode x = 412)"
    using assms [unfolded law_conditions_def, rule_format, of ?i s] by (simp add: conditional_input_def)
  show "\<exists>s'. s3_PutIfAbsent api st k b s = (Inr True, s') \<and> (good s \<longrightarrow> good s') \<and> view s' = (view s)(k \<mapsto> (b, tag b))"
    if "view s k = None"
    using law that by (auto simp: s3_PutIfAbsent_def written_def conditional_input_def split: prod.splits)
  show "s3_PutIfAbsent api st k b s = (Inr False, s)" if "view s k = Some v"
    using law that by (auto simp: s3_PutIfAbsent_def isPreconditionFailed_def)
qed

lemma put_match:
  assumes "law_conditions api (stBucket st) good view tag" and "law_etags view tag"
  shows "view s k = Some (b0, e) \<or> view s k = None \<and> e = [] \<Longrightarrow>
      \<exists>i s'. s3_PutIfMatch api st k b e s = (Inr (i, True), s') \<and> oETag i = tag b \<and> (good s \<longrightarrow> good s') \<and>
        view s' = (view s)(k \<mapsto> (b, tag b))"
    and "(case view s k of None \<Rightarrow> e \<noteq> [] | Some (b0, e0) \<Rightarrow> e0 \<noteq> e) \<Longrightarrow> CHR 0x22 \<notin> set e \<Longrightarrow>
      \<exists>i. s3_PutIfMatch api st k b e s = (Inr (i, False), s)"
proof -
  let ?base = "(conditional_input st k b)\<lparr>piContentType := Some ''application/x-ndjson''\<rparr>"
  let ?new = "?base\<lparr>piIfNoneMatch := Some ''*''\<rparr>" and ?old = "?base\<lparr>piIfMatch := Some (s3_quote e)\<rparr>"
  have new: "case view s k of None \<Rightarrow> written good view tag ?new s (apiPutObject api None ?new s)
      | Some _ \<Rightarrow> (\<exists>x. apiPutObject api None ?new s = (Inl x, s) \<and> statusCode x = 412)"
    using assms(1) [unfolded law_conditions_def, rule_format, of ?new s] by (simp add: conditional_input_def)
  have old: "case view s k of None \<Rightarrow> (\<exists>x. apiPutObject api None ?old s = (Inl x, s) \<and> statusCode x = 404)
      | Some (b1, e1) \<Rightarrow> if s3_quote e = quoted e1 then written good view tag ?old s (apiPutObject api None ?old s)
          else (\<exists>x. apiPutObject api None ?old s = (Inl x, s) \<and> statusCode x = 412)"
    using assms(1) [unfolded law_conditions_def, rule_format, of ?old s] by (simp add: conditional_input_def)
  have tags: "tag b \<noteq> []" "CHR 0x22 \<notin> set (tag b)" "\<And>b0 e. view s k = Some (b0, e) \<Longrightarrow> e \<noteq> [] \<and> CHR 0x22 \<notin> set e"
    using assms(2) by (auto simp: law_etags_def)
  show "\<exists>i s'. s3_PutIfMatch api st k b e s = (Inr (i, True), s') \<and> oETag i = tag b \<and> (good s \<longrightarrow> good s') \<and>
        view s' = (view s)(k \<mapsto> (b, tag b))"
    if "view s k = Some (b0, e) \<or> view s k = None \<and> e = []"
    using that
  proof
    assume v: "view s k = Some (b0, e)"
    with tags(3) have "e \<noteq> []" "s3_quote e = quoted e" by (auto simp: quote_quoted)
    with old v tags(1,2) show ?thesis
      by (auto simp: s3_PutIfMatch_def Let_def written_def conditional_input_def split: prod.splits)
  next
    assume "view s k = None \<and> e = []"
    with new tags(1,2) show ?thesis
      by (auto simp: s3_PutIfMatch_def Let_def written_def conditional_input_def split: prod.splits)
  qed
  show "\<exists>i. s3_PutIfMatch api st k b e s = (Inr (i, False), s)"
    if *: "case view s k of None \<Rightarrow> e \<noteq> [] | Some (b0, e0) \<Rightarrow> e0 \<noteq> e" and plain: "CHR 0x22 \<notin> set e"
  proof (cases "e = []")
    case True
    with * obtain v where "view s k = Some v" by (auto split: option.splits)
    with new True show ?thesis by (auto simp: s3_PutIfMatch_def Let_def isPreconditionFailed_def)
  next
    case False
    show ?thesis
    proof (cases "view s k")
      case None
      with old False show ?thesis by (auto simp: s3_PutIfMatch_def Let_def isNotFound_def)
    next
      case (Some v)
      obtain b1 e1 where v: "v = (b1, e1)" by (cases v)
      with Some * tags(3) have "e1 \<noteq> e" by auto
      then have "s3_quote e \<noteq> quoted e1" using plain by (simp add: quote_quoted)
      then show ?thesis using old Some v False by (auto simp: s3_PutIfMatch_def Let_def isPreconditionFailed_def)
    qed
  qed
qed

text \<open>C6: The S3 store keeps the contract the rest of the program is verified against. Given a
  service that keeps its documented promises (reads, paged listings, deletions of at most a
  thousand keys, conditional writes), the operations of \<open>s3.go\<close> are an \<open>object_store\<close>: a read
  finds what was written and a missing object is \<open>ErrNotFound\<close>; a listing has every key of the
  prefix once; a deletion removes exactly its keys; \<open>PutIfAbsent\<close> and \<open>PutIfMatch\<close> write if and
  only if the object is absent, or still has that etag. Etags are compared without the quotes the
  service puts around them.
\<close>

theorem s3_keeps_contract:
  assumes "s3_laws api (stBucket st) good view tag"
  shows "object_store (s3_ops api st opt) good view tag (\<lambda>e. CHR 0x22 \<notin> set e)"
proof unfold_locales
  have laws: "law_etags view tag" "law_reads api (stBucket st) view" "law_list api (stBucket st) good view"
    "law_delete api (stBucket st) good view" "law_conditions api (stBucket st) good view tag"
    using assms by (simp_all add: s3_laws_def)
  fix s k b e
  show "CHR 0x22 \<notin> set ([] :: string)" by simp
  show "sGet (s3_ops api st opt) k s = (Inr b, s)" if "view s k = Some (b, e)"
    using laws(2) [unfolded law_reads_def, THEN spec, of s, THEN spec, of k] that by (simp add: s3_ops_def s3_Get_def)
  show tags: "CHR 0x22 \<notin> set e" if "view s k = Some (b, e)" using laws(1) that by (auto simp: law_etags_def)
  show "\<exists>i. sHead (s3_ops api st opt) k s = (Inr i, s) \<and> oKey i = k \<and> oETag i = e \<and> oBytes i = int (length b)"
    if "view s k = Some (b, e)"
  proof -
    have "e \<noteq> []" "CHR 0x22 \<notin> set e" using laws(1) that by (auto simp: law_etags_def)
    then show ?thesis using laws(2) [unfolded law_reads_def, THEN spec, of s, THEN spec, of k] that
      by (auto simp: s3_ops_def s3_Head_def)
  qed
  show "\<exists>x. sGet (s3_ops api st opt) k s = (Inl x, s) \<and> errors_Is x ErrNotFound" if "view s k = None"
    using laws(2) [unfolded law_reads_def, THEN spec, of s, THEN spec, of k] that wrap_not_found
    by (fastforce simp: s3_ops_def s3_Get_def)
  show "\<exists>x. sHead (s3_ops api st opt) k s = (Inl x, s) \<and> errors_Is x ErrNotFound" if "view s k = None"
    using laws(2) [unfolded law_reads_def, THEN spec, of s, THEN spec, of k] that wrap_not_found
    by (fastforce simp: s3_ops_def s3_Head_def)
  show "\<exists>is. sList (s3_ops api st opt) p s = (Inr is, s) \<and> distinct (map oKey is) \<and>
      set (map oKey is) = {k. view s k \<noteq> None \<and> HasPrefix k p}" if good: "good s" for p
  proof -
    obtain pages where pages: "page_chain api (stBucket st) p s None pages"
      and keys: "distinct (map (ToString \<circ> loKey) (concat (map lpContents pages)))"
        "set (map (ToString \<circ> loKey) (concat (map lpContents pages))) = {k. view s k \<noteq> None \<and> HasPrefix k p}"
      using laws(3) [unfolded law_list_def, rule_format, OF good, of p] by (auto simp: Let_def)
    have "map oKey (map listed_info xs) = map (ToString \<circ> loKey) xs" for xs by (simp add: listed_info_def)
    then show ?thesis using list_chain [OF pages] keys
      by (intro exI [of _ "map listed_info (concat (map lpContents pages))"]) (simp only: s3_ops_def s3_List_def store_ops.simps option.sel)
  qed
  show "\<exists>s'. sDelete (s3_ops api st opt) ks s = (Inr (), s') \<and> (good s \<longrightarrow> good s') \<and>
      view s' = (\<lambda>k. if k \<in> set ks then None else view s k)" for ks
    using delete_exact [OF laws(4)] by (simp add: s3_ops_def)
  show "\<exists>s'. sPutIfAbsent (s3_ops api st opt) k b s = (Inr True, s') \<and> (good s \<longrightarrow> good s') \<and>
      view s' = (view s)(k \<mapsto> (b, tag b))" if "view s k = None"
    using put_absent(1) [OF laws(5) that] by (simp add: s3_ops_def)
  show "sPutIfAbsent (s3_ops api st opt) k b s = (Inr False, s)" if "view s k = Some v" for v
    using put_absent(2) [OF laws(5) that] by (simp add: s3_ops_def)
  show "\<exists>i s'. sPutIfMatch (s3_ops api st opt) k b e s = (Inr (i, True), s') \<and> oETag i = tag b \<and>
      (good s \<longrightarrow> good s') \<and> view s' = (view s)(k \<mapsto> (b, tag b))"
    if "view s k = Some (b0, e) \<or> view s k = None \<and> e = []" for b0
    using put_match(1) [OF laws(5,1) that] by (simp add: s3_ops_def)
  show "\<exists>i. sPutIfMatch (s3_ops api st opt) k b e s = (Inr (i, False), s)"
    if "case view s k of None \<Rightarrow> e \<noteq> [] | Some (b0, e0) \<Rightarrow> e0 \<noteq> e" and "CHR 0x22 \<notin> set e"
    using put_match(2) [OF laws(5,1) that] by (simp add: s3_ops_def)
qed

end
