(* ===== verification/S3_Run.thy ===== *)
theory S3_Run
  imports S3_Store
begin

text \<open>
  The upload, end to end: every run of the multipart steps keeps the stream whole, stays within
  the limits of the protocol and is never stuck; the sequential \<open>putMultipart\<close> is one of these
  runs. A bucket held in memory shows that the promises asked of the service can be kept.
\<close>

section \<open>The sequential upload is a run\<close>

lemma feed_frame:
  "mpInflight (mp_feed n m) = mpInflight m" "mpService (mp_feed n m) = mpService m" "mpErr (mp_feed n m) = mpErr m"
  "mpCtx (mp_feed n m) = mpCtx m" "mpPhase (mp_feed n m) \<noteq> Finished res" "mpPhase (mp_feed n m) \<noteq> Sent k"
  by (auto simp: mp_feed_def Let_def split: prod.splits sum.splits)

lemma part_frame:
  "mpInflight (mp_part api st key uid p m) = mpInflight m" "mpPhase (mp_part api st key uid p m) = mpPhase m"
  "mpCtx (mp_part api st key uid p m) = mpCtx m"
  by (auto simp: mp_part_def split: prod.splits sum.splits)

lemma one_part_run:
  assumes "mpPhase m = Sending n d final" and "mpInflight m = []" and "1 \<le> concurrency"
  shows "(mp_step api st key uid concurrency)\<^sup>*\<^sup>* m
    (mp_part api st key uid (n, d) ((mp_dispatch n d final m)\<lparr>mpInflight := []\<rparr>))"
proof -
  have "mp_step api st key uid concurrency m (mp_dispatch n d final m)"
    using assms by (intro mp_step.mp_dispatches) auto
  moreover have "mpInflight (mp_dispatch n d final m) = [] @ (n, d) # []" using assms(2) by (simp add: mp_dispatch_def)
  from mp_step.mp_parts [OF this]
  have "mp_step api st key uid concurrency (mp_dispatch n d final m)
      (mp_part api st key uid (n, d) ((mp_dispatch n d final m)\<lparr>mpInflight := []\<rparr>))" by simp
  ultimately show ?thesis by (meson converse_rtranclp_into_rtranclp r_into_rtranclp)
qed

lemma put_parts_run:
  assumes "mpPhase m = Sending n d final" and "mpInflight m = []" and "1 \<le> concurrency"
  shows "(mp_step api st key uid concurrency)\<^sup>*\<^sup>* m (put_parts api st key uid n d final m) \<and>
    mpInflight (put_parts api st key uid n d final m) = [] \<and> (\<exists>e. mpPhase (put_parts api st key uid n d final m) = Draining e)"
  using assms
proof (induction api st key uid n d final m rule: put_parts.induct)
  case (1 api st key uid n d final m)
  let ?m = "mp_part api st key uid (n, d) ((mp_dispatch n d final m)\<lparr>mpInflight := []\<rparr>)"
  note run = one_part_run [OF 1(2,3,4), of api st key uid]
  have idle: "mpInflight ?m = []" and ph: "mpPhase ?m = (if final then Draining None else Sent n)"
    by (simp_all add: part_frame mp_dispatch_def)
  show ?case
  proof (cases final)
    case True
    then show ?thesis using run idle ph by (simp add: put_parts.simps [of _ _ _ _ n] Let_def)
  next
    case False
    let ?f = "mp_feed n ?m"
    have "mp_step api st key uid concurrency ?m ?f" using ph False by (intro mp_step.mp_feeds) simp
    then have run: "(mp_step api st key uid concurrency)\<^sup>*\<^sup>* m ?f" using run by simp
    have idle: "mpInflight ?f = []" using idle by (simp add: feed_frame)
    show ?thesis
    proof (cases "mpPhase ?f")
      case (Sending n' d' final')
      have eq: "put_parts api st key uid n d final m = put_parts api st key uid n' d' final' ?f"
        using False Sending by (simp add: put_parts.simps [of _ _ _ _ n] Let_def)
      show ?thesis unfolding eq
        using 1(1) [OF refl False Sending Sending idle 1(4)] run by (meson rtranclp_trans)
    next
      case (Draining e)
      then show ?thesis using False run idle by (simp add: put_parts.simps [of _ _ _ _ n] Let_def)
    qed (simp_all add: feed_frame)
  qed
qed

text \<open>So \<open>putMultipart\<close> returns what a run of the steps, from the created upload, finishes with.\<close>

lemma putMultipart_run:
  assumes "apiCreateMultipartUpload api ctxErr (create_input st opt key) s = (Inr created, s1)"
    and "putMultipart api st opt ctxErr key r firstPart partSize s = (res, s')" and "1 \<le> concurrency"
  shows "\<exists>m. (mp_step api st key (ToString created) concurrency)\<^sup>*\<^sup>* (mp_start ctxErr partSize firstPart r s1) m \<and>
    mpPhase m = Finished res \<and> mpService m = s'"
proof -
  let ?u = "ToString created" and ?start = "mp_start ctxErr partSize firstPart r s1"
  let ?m = "put_parts api st key ?u 1 firstPart False ?start"
  have pre: "mpPhase ?start = Sending 1 firstPart False" "mpInflight ?start = []" by (simp_all add: mp_start_def)
  have run: "(mp_step api st key ?u concurrency)\<^sup>*\<^sup>* ?start ?m" and idle: "mpInflight ?m = []"
    and drained: "\<exists>e. mpPhase ?m = Draining e"
    using put_parts_run [OF pre assms(3), of api st key ?u] by blast+
  then obtain e where e: "mpPhase ?m = Draining e" by blast
  let ?f = "mp_finish api st key ?u e ?m"
  have "mp_step api st key ?u concurrency ?m ?f" using e idle by (rule mp_step.mp_finishes)
  then have "(mp_step api st key ?u concurrency)\<^sup>*\<^sup>* ?start ?f" using run by simp
  moreover have "\<exists>x. mpPhase ?f = Finished x"
    by (auto simp: mp_finish_def mp_abort_def split: option.splits prod.splits sum.splits)
  ultimately show ?thesis using assms(1,2) e by (intro exI [of _ ?f]) (auto simp: putMultipart_def Let_def)
qed

section \<open>Every upload\<close>

text \<open>A run that has not returned can go on: no schedule of the goroutines blocks it.\<close>

lemma mp_progress:
  assumes "\<forall>res. mpPhase m \<noteq> Finished res" and "1 \<le> concurrency"
  shows "\<exists>m'. mp_step api st key uid concurrency m m' \<and> mpCtx m' = mpCtx m"
proof (cases "mpInflight m")
  case (Cons p ps)
  then have "mpInflight m = [] @ p # ps" by simp
  from mp_step.mp_parts [OF this] show ?thesis by (fastforce simp: part_frame)
next
  case Nil
  show ?thesis
  proof (cases "mpPhase m")
    case (Sending n d final)
    then have "mp_step api st key uid concurrency m (mp_dispatch n d final m)"
      using Nil assms(2) by (intro mp_step.mp_dispatches) auto
    then show ?thesis by (force simp: mp_dispatch_def)
  next
    case (Sent n)
    from mp_step.mp_feeds [OF this] show ?thesis by (blast intro: feed_frame)
  next
    case (Draining e)
    have "mpCtx (mp_finish api st key uid e m) = mpCtx m"
      by (auto simp: mp_finish_def mp_abort_def split: option.splits prod.splits sum.splits)
    with mp_step.mp_finishes [OF Draining Nil] show ?thesis by blast
  qed (use assms(1) in simp)
qed

lemma clampConcurrency_bounds: "1 \<le> clampConcurrency n \<and> clampConcurrency n \<le> maxConcurrency"
  by (auto simp: clampConcurrency_def maxConcurrency_def)

lemma sending_limits:
  assumes "mp_inv api st view pend key uid r0 v0 m" and "mpPhase m = Sending n d final"
  shows "1 \<le> n \<and> n \<le> maxParts \<and> int (length d) \<le> maxPartSize \<and> (\<not> final \<longrightarrow> minPartSize \<le> int (length d))"
  using assms by (auto simp: mp_inv_def mp_cursor_def)

text \<open>C5: A multipart upload that reports success stored the stream. Whatever the schedule of the
  goroutines that send the parts, whichever call to the service fails and whenever the context
  is cancelled: when \<open>putMultipart\<close> returns an \<open>ObjectInfo\<close>, the object under the key has the length
  and the etag returned, every other object is as it was, and the object is the whole stream in
  order when the reader ended without an error. A reader that ended with an error makes
  the upload fail, with one exception, which is how \<open>readPart\<close> tests for the end: an error that
  is or wraps \<open>io.ErrUnexpectedEOF\<close> is taken for the end of a stream that is stored whole,
  and one that wraps \<open>io.EOF\<close> for the end of a stream of which the last bytes, less than one part of
  32MB, are missing from the object. When \<open>putMultipart\<close> returns an error, the last call it made was
  the abort of the upload, and no other object changed. Every part handed to the service is
  numbered within the limit of 10,000, is at most 32MB and, unless it is the last, at least the
  5MB the service asks for. No more than four goroutines run, and the upload is never stuck.
\<close>

theorem upload_exact:
  assumes "multipart_laws api (stBucket st) view pend"
    and "apiCreateMultipartUpload api ctxErr (create_input st opt key) s = (Inr created, s1)"
    and "readPart r0 (clampPartSize (poPartSize opt)) = (Inr (firstPart, False), r)"
    and "(mp_step api st key (ToString created) (clampConcurrency (poConcurrency opt)))\<^sup>*\<^sup>*
           (mp_start ctxErr (clampPartSize (poPartSize opt)) firstPart r s1) m"
  shows "(case mpPhase m of
      Finished (Inr info) \<Rightarrow>
        oKey info = key \<and>
        (\<exists>b lost. fst r0 = b @ lost \<and> view (mpService m) = (view s)(key \<mapsto> (b, oETag info)) \<and> oBytes info = int (length b) \<and>
           (case snd r0 of
              None \<Rightarrow> lost = []
            | Some e \<Rightarrow> (errors_Is e io_EOF \<or> errors_Is e io_ErrUnexpectedEOF) \<and>
                (lost \<noteq> [] \<longrightarrow> errors_Is e io_EOF \<and> e \<noteq> io_EOF \<and> int (length lost) < 32 * 2 ^ 20)))
    | Finished (Inl e) \<Rightarrow>
        (\<exists>s2. mpService m = snd (apiAbortMultipartUpload api (stBucket st) key (ToString created) s2)) \<and>
        (\<forall>j. j \<noteq> key \<longrightarrow> view (mpService m) j = view s j)
    | Sending n d final \<Rightarrow>
        1 \<le> n \<and> n \<le> 10000 \<and> int (length d) \<le> 32 * 2 ^ 20 \<and> (\<not> final \<longrightarrow> 5 * 2 ^ 20 \<le> int (length d))
    | _ \<Rightarrow> True) \<and>
    length (mpInflight m) \<le> 4 \<and>
    ((\<forall>res. mpPhase m \<noteq> Finished res) \<longrightarrow>
       (\<exists>m'. mp_step api st key (ToString created) (clampConcurrency (poConcurrency opt)) m m' \<and> mpCtx m' = mpCtx m))"
proof -
  let ?u = "ToString created" and ?c = "clampConcurrency (poConcurrency opt)"
  have created: "view s1 = view s" "pend s1 ?u = Some (key, Map.empty)"
    using mp_law_create [OF assms(1,2)] by (simp_all add: create_input_def)
  have inv: "mp_inv api st view pend key ?u r0 (view s) m"
    using run_inv [OF assms(4) start_inv [of pend s1 ?u key, OF created(2) assms(3)] assms(1)]
      clamp_bounds created(1) by metis
  have "int (length (mpInflight m)) \<le> ?c"
    using clampConcurrency_bounds [of "poConcurrency opt"] by (intro run_buffers [OF assms(4)]) (simp add: mp_start_def)
  then have busy: "length (mpInflight m) \<le> 4"
    using clampConcurrency_bounds [of "poConcurrency opt"] by (simp add: maxConcurrency_def)
  have "(\<forall>res. mpPhase m \<noteq> Finished res) \<longrightarrow> (\<exists>m'. mp_step api st key ?u ?c m m' \<and> mpCtx m' = mpCtx m)"
    using mp_progress clampConcurrency_bounds by blast
  moreover have "\<exists>b lost. fst r0 = b @ lost \<and> view (mpService m) = (view s)(key \<mapsto> (b, oETag info)) \<and> oBytes info = int (length b) \<and>
      (case snd r0 of
         None \<Rightarrow> lost = []
       | Some e \<Rightarrow> (errors_Is e io_EOF \<or> errors_Is e io_ErrUnexpectedEOF) \<and>
           (lost \<noteq> [] \<longrightarrow> errors_Is e io_EOF \<and> e \<noteq> io_EOF \<and> int (length lost) < 32 * 2 ^ 20))"
    if fin: "mpPhase m = Finished (Inr info)" for info
  proof -
    obtain b where b: "stream_taken r0 b" "view (mpService m) = (view s)(key \<mapsto> (b, oETag info))" "oBytes info = int (length b)"
      using inv fin by (auto simp: mp_inv_def)
    from b(1) show ?thesis unfolding stream_taken_def maxPartSize_def using b(2,3) by blast
  qed
  ultimately show ?thesis using inv busy sending_limits [OF inv]
    by (auto simp: mp_inv_def part_consts split: mp_phase.splits sum.splits)
qed

section \<open>Limits\<close>

text \<open>
  While four parts are in flight the loop holds the next one, already read, and waits to dispatch
  it: five buffers, not the four the memory ceiling in \<open>uploader.go\<close> counts.
\<close>

lemma next_part:
  assumes "z \<le> length (drop n bytes)"
  shows "readPart (drop n bytes, e) (int z) = (Inr (take z (drop n bytes), False), (drop (n + z) bytes, e))"
  using assms by (simp add: readPart_def ReadFull_def add.commute)

lemma buffers_fill:
  assumes "k \<le> c" and "k < 999" and "Suc k * z \<le> length bytes" and "0 < z"
  shows "\<exists>m. (mp_step api st key uid (int c))\<^sup>*\<^sup>* (mp_start None (int z) (take z bytes) (drop z bytes, e) s) m \<and>
    mpPhase m = Sending (int k + 1) (take z (drop (k * z) bytes)) False \<and> length (mpInflight m) = k \<and>
    (\<forall>p\<in>set (mpInflight m). length (snd p) = z) \<and>
    mpReader m = (drop (Suc k * z) bytes, e) \<and> mpErr m = None \<and> mpCtx m = None \<and> mpPartSize m = int z"
  using assms(1,2,3)
proof (induction k)
  case 0
  then show ?case by (intro exI [of _ "mp_start None (int z) (take z bytes) (drop z bytes, e) s"])
      (simp add: mp_start_def)
next
  case (Suc k)
  then obtain m where run: "(mp_step api st key uid (int c))\<^sup>*\<^sup>* (mp_start None (int z) (take z bytes) (drop z bytes, e) s) m"
    and m: "mpPhase m = Sending (int k + 1) (take z (drop (k * z) bytes)) False" "length (mpInflight m) = k"
      "\<forall>p\<in>set (mpInflight m). length (snd p) = z" "mpReader m = (drop (Suc k * z) bytes, e)"
      "mpErr m = None" "mpCtx m = None" "mpPartSize m = int z"
    by auto
  let ?d = "mp_dispatch (int k + 1) (take z (drop (k * z) bytes)) False m"
  let ?f = "mp_feed (int k + 1) ?d"
  have "mp_step api st key uid (int c) m ?d" using m(1,2) Suc.prems(1) by (intro mp_step.mp_dispatches) auto
  moreover have "mp_step api st key uid (int c) ?d ?f" by (intro mp_step.mp_feeds) (simp add: mp_dispatch_def)
  ultimately have run: "(mp_step api st key uid (int c))\<^sup>*\<^sup>* (mp_start None (int z) (take z bytes) (drop z bytes, e) s) ?f"
    using run by simp
  have same: "grown (2 + int k) (int z) = int z" using Suc.prems(2) by (simp add: grown_def partsPerGrowth_def)
  have read: "readPart (drop (Suc k * z) bytes, e) (int z)
      = (Inr (take z (drop (Suc k * z) bytes), False), (drop (Suc k * z + z) bytes, e))"
    using Suc.prems(3) by (intro next_part) simp
  have some: "take z (drop (Suc k * z) bytes) \<noteq> []" using Suc.prems(3) assms(4) by simp
  have "?f = ?d\<lparr>mpReader := (drop (Suc k * z + z) bytes, e),
      mpPhase := Sending (2 + int k) (take z (drop (Suc k * z) bytes)) False\<rparr>"
    using m(4-7) read some same Suc.prems(2)
    by (simp add: mp_feed_def Let_def mp_dispatch_def gctx_err_def maxParts_def del: mult_Suc drop_drop take_eq_Nil)
  then show ?case using run m(2,3,5,6,7) Suc.prems(3)
    by (intro exI [of _ ?f]) (auto simp: mp_dispatch_def add.commute)
qed

lemma five_buffers:
  assumes "5 * 32 * 2 ^ 20 \<le> length bytes"
  shows "\<exists>m n d. (mp_step api st key uid maxConcurrency)\<^sup>*\<^sup>*
      (mp_start None maxPartSize (take (32 * 2 ^ 20) bytes) (drop (32 * 2 ^ 20) bytes, e) s) m \<and>
    mpPhase m = Sending n d False \<and> length d + sum_list (map (length \<circ> snd) (mpInflight m)) = 160 * 2 ^ 20"
proof -
  let ?z = "32 * 2 ^ 20 :: nat"
  have lims: "maxConcurrency = int 4" "maxPartSize = int ?z" by (simp_all add: maxConcurrency_def maxPartSize_def)
  obtain m where m: "(mp_step api st key uid (int 4))\<^sup>*\<^sup>* (mp_start None (int ?z) (take ?z bytes) (drop ?z bytes, e) s) m"
    "mpPhase m = Sending (int 4 + 1) (take ?z (drop (4 * ?z) bytes)) False"
    "length (mpInflight m) = 4" "\<forall>p\<in>set (mpInflight m). length (snd p) = ?z"
    using buffers_fill [of 4 4 ?z bytes api st key uid e s] assms by auto
  have "map (length \<circ> snd) (mpInflight m) = replicate 4 ?z"
    using m(3,4) by (intro replicate_eqI) auto
  then have "length (take ?z (drop (4 * ?z) bytes)) + sum_list (map (length \<circ> snd) (mpInflight m)) = 160 * 2 ^ 20"
    using assms by (simp add: sum_list_replicate)
  then show ?thesis using m(1,2) unfolding lims by blast
qed

text \<open>After part 10,000 the loop gives up without looking whether the stream has more: a stream
  that ends exactly there is refused too.\<close>

lemma full_upload_refused:
  "gctx_err m = None \<Longrightarrow> mpPhase (mp_feed 10000 m) = Draining (Some limit_error)"
  by (simp add: mp_feed_def maxParts_def)

text \<open>A stream whose error wraps \<open>io.EOF\<close> is taken for a stream that ended, and what was
  read of the part is dropped.\<close>

lemma wrapped_eof_truncates:
  "int (length b) < n \<Longrightarrow> readPart (b, Some (ErrWrap msg io_EOF)) n = (Inr ([], True), ([], Some (ErrWrap msg io_EOF)))"
  by (simp add: readPart_def ReadFull_def)

section \<open>A service that keeps its promises\<close>

text \<open>One bucket in memory, with the uploads in progress.\<close>

record bkt =
  bkObjects :: "(string \<times> string) list"
  bkUploads :: uploads

definition bkt_tag :: "string \<Rightarrow> string" where
  "bkt_tag b = ''e'' @ replicate (length b) CHR ''x''"

definition bkt_view :: "bkt \<Rightarrow> string \<rightharpoonup> string \<times> string" where
  "bkt_view s k = map_option (\<lambda>b. (b, bkt_tag b)) (map_of (bkObjects s) k)"

definition bkt_good :: "bkt \<Rightarrow> bool" where
  "bkt_good s \<longleftrightarrow> distinct (map fst (bkObjects s))"

definition bkt_write :: "string \<Rightarrow> string \<Rightarrow> bkt \<Rightarrow> bkt" where
  "bkt_write k b s = s\<lparr>bkObjects := AList.update k b (bkObjects s)\<rparr>"

definition bkt_refusal :: "int \<Rightarrow> sdk_error" where
  "bkt_refusal code = \<lparr>seMissing = False, seStatus = Some code, seCode = None, seErr = ErrText ''refused''\<rparr>"

definition bkt_put :: "err option \<Rightarrow> PutObjectInput \<Rightarrow> (bkt, string option) s3_call" where
  "bkt_put ctxErr i s =
     (let found = map_of (bkObjects s) (piKey i);
          done = (Inr (Some (quoted (bkt_tag (piBody i)))), bkt_write (piKey i) (piBody i) s)
      in if ctxErr \<noteq> None then (Inl (bkt_refusal 0), s)
         else if piIfNoneMatch i = Some ''*'' \<and> found \<noteq> None then (Inl (bkt_refusal 412), s)
         else case piIfMatch i of
                None \<Rightarrow> done
              | Some q \<Rightarrow>
                  (case found of
                     None \<Rightarrow> (Inl (bkt_refusal 404), s)
                   | Some b \<Rightarrow> if q = quoted (bkt_tag b) then done else (Inl (bkt_refusal 412), s)))"

definition bkt_complete :: "err option \<Rightarrow> string \<Rightarrow> string \<Rightarrow> CompletedPart list \<Rightarrow> (bkt, string option) s3_call" where
  "bkt_complete ctxErr k uid parts s =
     (case bkUploads s uid of
        None \<Rightarrow> (Inl (bkt_refusal 404), s)
      | Some (k', ps) \<Rightarrow>
          if ctxErr \<noteq> None \<or> k' \<noteq> k \<or> \<not> list_all (\<lambda>p. map_option snd (ps (fst p)) = Some (snd p)) parts
          then (Inl (bkt_refusal 400), s)
          else let b = concat (map (\<lambda>p. fst (the (ps (fst p)))) parts)
               in (Inr (Some (quoted (bkt_tag b))), bkt_write k b (s\<lparr>bkUploads := (bkUploads s)(uid := None)\<rparr>)))"

definition bkt_page :: "bkt \<Rightarrow> string \<Rightarrow> ListPage" where
  "bkt_page s p = \<lparr>lpContents = map (\<lambda>(k, b). \<lparr>loKey = Some k, loETag = Some (quoted (bkt_tag b)),
        loSize = Some (int (length b)), loLastModified = None\<rparr>) (filter (\<lambda>(k, b). HasPrefix k p) (bkObjects s)), lpNext = None\<rparr>"

definition bkt_api :: "bkt s3_api" where
  "bkt_api = \<lparr>apiPutObject = bkt_put,
     apiGetObject = (\<lambda>_ k s. (case map_of (bkObjects s) k of None \<Rightarrow> Inl (bkt_refusal 404) | Some b \<Rightarrow> Inr b, s)),
     apiHeadObject = (\<lambda>_ k s. (case map_of (bkObjects s) k of None \<Rightarrow> Inl (bkt_refusal 404)
        | Some b \<Rightarrow> Inr \<lparr>hoETag = Some (quoted (bkt_tag b)), hoContentLength = Some (int (length b)), hoLastModified = None, hoMetadata = []\<rparr>, s)),
     apiListObjectsV2 = (\<lambda>_ p _ s. (Inr (bkt_page s p), s)),
     apiDeleteObjects = (\<lambda>_ ks s. (Inr [], s\<lparr>bkObjects := filter (\<lambda>p. fst p \<notin> set ks) (bkObjects s)\<rparr>)),
     apiCreateMultipartUpload = (\<lambda>_ i s. (Inr (Some ''u''), s\<lparr>bkUploads := (bkUploads s)(''u'' \<mapsto> (ciKey i, Map.empty))\<rparr>)),
     apiUploadPart = (\<lambda>_ _ k uid n d s. case bkUploads s uid of
          None \<Rightarrow> (Inl (bkt_refusal 404), s)
        | Some (k', ps) \<Rightarrow> (Inr (Some (quoted (bkt_tag d))), s\<lparr>bkUploads := (bkUploads s)(uid \<mapsto> (k', ps(n \<mapsto> (d, Some (quoted (bkt_tag d))))))\<rparr>)),
     apiCompleteMultipartUpload = (\<lambda>ctxErr _ k uid parts s. bkt_complete ctxErr k uid parts s),
     apiAbortMultipartUpload = (\<lambda>_ k uid s. (Inr (), s\<lparr>bkUploads := (bkUploads s)(uid := None)\<rparr>)),
     apiCreateBucket = (\<lambda>_ s. (Inr (), s)), apiPresignGetObject = (\<lambda>_ k _ s. (Inr k, s))\<rparr>"

lemma bkt_view_write: "bkt_view (bkt_write k b s) = (bkt_view s)(k \<mapsto> (b, bkt_tag b))"
  by (auto simp: bkt_view_def bkt_write_def update_conv' fun_eq_iff)

lemma bkt_good_write: "bkt_good s \<Longrightarrow> bkt_good (bkt_write k b s)"
  by (simp add: bkt_good_def bkt_write_def distinct_update)

lemma bkt_tag_ok: "bkt_tag b \<noteq> [] \<and> CHR 0x22 \<notin> set (bkt_tag b)"
  by (auto simp: bkt_tag_def)

lemma bkt_conditions: "law_conditions bkt_api bucket bkt_good bkt_view bkt_tag"
  unfolding law_conditions_def
  by (auto simp: bkt_api_def bkt_put_def Let_def written_def bkt_view_write bkt_good_write bkt_view_def [where k = "piKey _"]
      bkt_refusal_def statusCode_def split: option.splits)

lemma bkt_list: "law_list bkt_api bucket bkt_good bkt_view"
proof -
  have "set (map fst (filter (\<lambda>(k, b). HasPrefix k p) (bkObjects s))) = {k. bkt_view s k \<noteq> None \<and> HasPrefix k p}" for s p
    by (force simp: bkt_view_def map_of_eq_None_iff)
  moreover have "distinct (map fst (filter (\<lambda>(k, b). HasPrefix k p) (bkObjects s)))" if "bkt_good s" for s p
    using that by (simp add: bkt_good_def distinct_map_filter)
  moreover have "page_chain bkt_api bucket p s None [bkt_page s p]" for s p
    by (simp add: bkt_api_def bkt_page_def)
  moreover have "map (ToString \<circ> loKey) (concat (map lpContents [bkt_page s p]))
      = map fst (filter (\<lambda>(k, b). HasPrefix k p) (bkObjects s))" for s p
    by (auto simp: bkt_page_def ToString_def)
  ultimately show ?thesis unfolding law_list_def Let_def by metis
qed

lemma map_of_unkeyed: "map_of (filter (\<lambda>p. fst p \<notin> A) xs) x = (if x \<in> A then None else map_of xs x)"
  by (induction xs) auto

lemma bkt_delete: "law_delete bkt_api bucket bkt_good bkt_view"
  unfolding law_delete_def
  by (auto simp: bkt_api_def bkt_good_def bkt_view_def distinct_map_filter fun_eq_iff map_of_unkeyed)

theorem s3_keeps_contract_witness:
  "object_store (s3_ops bkt_api \<lparr>stClient = \<lparr>coRegion = [], coCredentials = None, coBaseEndpoint = None, coUsePathStyle = False\<rparr>,
      stBucket = ''b'', stStorageClass = []\<rparr> \<lparr>poContentType = [], poPartSize = 0, poConcurrency = 0, poMetadata = []\<rparr>)
    bkt_good bkt_view bkt_tag (\<lambda>e. CHR 0x22 \<notin> set e)"
proof (rule s3_keeps_contract)
  have "law_etags bkt_view bkt_tag" "law_reads bkt_api ''b'' bkt_view"
    using bkt_tag_ok
    by (auto simp: law_etags_def law_reads_def bkt_view_def bkt_api_def isNotFound_def statusCode_def bkt_refusal_def split: option.splits)
  then show "s3_laws bkt_api (stBucket \<lparr>stClient = \<lparr>coRegion = [], coCredentials = None, coBaseEndpoint = None, coUsePathStyle = False\<rparr>,
      stBucket = ''b'', stStorageClass = []\<rparr>) bkt_good bkt_view bkt_tag"
    using bkt_conditions bkt_list bkt_delete by (simp add: s3_laws_def)
qed

lemma bkt_multipart: "multipart_laws bkt_api bucket bkt_view bkUploads"
proof -
  have "law_create bkt_api bucket bkt_view bkUploads" "law_part bkt_api bucket bkt_view bkUploads" "law_frame bkt_api bucket bkt_view"
    by (auto simp: law_create_def law_part_def law_frame_def bkt_api_def bkt_view_def ToString_def bkt_complete_def
        bkt_write_def update_conv' Let_def split: option.splits prod.splits)
  moreover have "law_complete bkt_api bucket bkt_view bkUploads"
    unfolding law_complete_def
  proof (intro allI impI)
    fix ctxErr k uid parts s etag s' ps
    assume call: "apiCompleteMultipartUpload bkt_api ctxErr bucket k uid parts s = (Inr etag, s')"
      and up: "bkUploads s uid = Some (k, ps)"
    let ?bs = "map (\<lambda>p. fst (the (ps (fst p)))) parts"
    have "ctxErr = None" and ok: "list_all (\<lambda>p. map_option snd (ps (fst p)) = Some (snd p)) parts"
      and s': "s' = bkt_write k (concat ?bs) (s\<lparr>bkUploads := (bkUploads s)(uid := None)\<rparr>)"
      and etag: "etag = Some (quoted (bkt_tag (concat ?bs)))"
      using call up by (auto simp: bkt_api_def bkt_complete_def Let_def split: if_splits)
    moreover have "list_all2 (\<lambda>p d. ps (fst p) = Some (d, snd p)) parts ?bs"
      using ok by (induction parts) auto
    moreover have "bkt_view s' = (bkt_view s)(k \<mapsto> (concat ?bs, s3_unquote etag))"
      unfolding s' etag bkt_view_write using bkt_tag_ok by (simp add: bkt_view_def fun_eq_iff)
    ultimately show "ctxErr = None \<and> (\<exists>bodies. list_all2 (\<lambda>p d. ps (fst p) = Some (d, snd p)) parts bodies \<and>
        bkt_view s' = (bkt_view s)(k \<mapsto> (concat bodies, s3_unquote etag)))" by blast
  qed
  ultimately show ?thesis by (simp add: multipart_laws_def)
qed

text \<open>A stream of one full part and no more.\<close>

definition bkt_store :: S3Store where
  "bkt_store = \<lparr>stClient = \<lparr>coRegion = [], coCredentials = None, coBaseEndpoint = None, coUsePathStyle = False\<rparr>,
     stBucket = ''b'', stStorageClass = []\<rparr>"

definition bkt_options :: PutOptions where
  "bkt_options = \<lparr>poContentType = [], poPartSize = 1, poConcurrency = 2, poMetadata = []\<rparr>"

definition bkt_stream :: string where
  "bkt_stream = replicate (5 * 2 ^ 20) CHR ''x''"

lemma bkt_stream_length: "length bkt_stream = 5 * 2 ^ 20"
  by (simp only: bkt_stream_def length_replicate)

lemma bkt_clamps: "clampPartSize (poPartSize bkt_options) = int (length bkt_stream)" "clampConcurrency (poConcurrency bkt_options) = 2"
  by (simp_all add: bkt_options_def bkt_stream_length clampPartSize_def clampConcurrency_def part_consts)

lemma bkt_nonempty: "bkt_stream \<noteq> []"
  using bkt_stream_length by auto

lemma bkt_first: "readPart (bkt_stream, None) (int (length bkt_stream)) = (Inr (bkt_stream, False), ([], None))"
  by (simp add: readPart_def ReadFull_def)

lemma bkt_put_multipart:
  "\<exists>info s'. putMultipart bkt_api bkt_store bkt_options None ''k'' ([], None) bkt_stream (int (length bkt_stream))
     \<lparr>bkObjects = [], bkUploads = Map.empty\<rparr> = (Inr info, s')"
proof -
  have rest: "readPart ([], None) (int (length bkt_stream)) = (Inr ([], True), ([], None))"
    using bkt_nonempty by (simp add: readPart_def ReadFull_def)
  have same: "grown 2 (int (length bkt_stream)) = int (length bkt_stream)" by (simp add: grown_def partsPerGrowth_def)
  show ?thesis
    by (simp add: putMultipart_def put_parts.simps bkt_api_def bkt_complete_def mp_start_def mp_dispatch_def mp_part_def
        mp_feed_def mp_finish_def gctx_err_def Let_def ToString_def create_input_def rest same maxParts_def)
qed

theorem upload_exact_witness:
  "\<exists>m info. (mp_step bkt_api bkt_store ''k'' ''u'' 2)\<^sup>*\<^sup>*
      (mp_start None (int (length bkt_stream)) bkt_stream ([], None) \<lparr>bkObjects = [], bkUploads = [''u'' \<mapsto> (''k'', Map.empty)]\<rparr>) m \<and>
    mpPhase m = Finished (Inr info) \<and> bkt_view (mpService m) ''k'' = Some (bkt_stream, oETag info)"
proof -
  let ?s = "\<lparr>bkObjects = [], bkUploads = Map.empty\<rparr> :: bkt"
  let ?s1 = "\<lparr>bkObjects = [], bkUploads = [''u'' \<mapsto> (''k'', Map.empty)]\<rparr> :: bkt"
  have create: "apiCreateMultipartUpload bkt_api None (create_input bkt_store bkt_options ''k'') ?s = (Inr (Some ''u''), ?s1)"
    by (simp add: bkt_api_def create_input_def)
  have u: "ToString (Some ''u'') = ''u''" by (simp add: ToString_def)
  obtain info s' where put: "putMultipart bkt_api bkt_store bkt_options None ''k'' ([], None) bkt_stream (int (length bkt_stream)) ?s = (Inr info, s')"
    using bkt_put_multipart by blast
  have "(1::int) \<le> 2" by simp
  then obtain m where m: "(mp_step bkt_api bkt_store ''k'' ''u'' 2)\<^sup>*\<^sup>* (mp_start None (int (length bkt_stream)) bkt_stream ([], None) ?s1) m"
    "mpPhase m = Finished (Inr info)"
    using putMultipart_run [OF create put, of 2] unfolding u by blast
  have "bkt_view (mpService m) = (bkt_view ?s)(''k'' \<mapsto> (bkt_stream, oETag info))"
    using upload_exact [OF bkt_multipart create, of "(bkt_stream, None)" bkt_stream "([], None)" m]
      bkt_first m unfolding bkt_clamps u by simp
  then show ?thesis using m by fastforce
qed

end
