(* ===== verification/Config_Load.thy ===== *)
theory Config_Load
  imports Config
begin

text \<open>
  Reading a configuration: the expansion of \<open>${...}\<close> references of \<open>internal/config/interp.go\<close>,
  the rendering of secrets of \<open>secret.go\<close>, and the order in which \<open>load.go\<close> decodes, expands,
  completes and checks a document. The document is seen the way \<open>reflect\<close> shows it, as a tree of
  values, the entries of a map in the order they are visited; the YAML decoder, the environment and
  the files are parameters.
\<close>

section \<open>References\<close>

record interpolator =
  inLookup :: "string \<Rightarrow> string option"
  inReadFile :: "string \<Rightarrow> string result"
  inAllowUnset :: bool

definition trim_newlines :: "string \<Rightarrow> string" where
  "trim_newlines s = TrimRight (\<lambda>c. c = CHR 0x0D \<or> c = CHR 0x0A) s"

definition interp_resolve :: "interpolator \<Rightarrow> string \<Rightarrow> string result" where
  "interp_resolve env ref =
     (case CutPrefix ref ''file:'' of
        (rest, True) \<Rightarrow>
          (let file = TrimSpace rest in
           if file = [] then Inl (ErrText ''${file:} needs a path'')
           else case inReadFile env file of
                  Inl err \<Rightarrow> Inl (ErrWrap (''${file:'' @ file @ ''} cannot be read'') err)
                | Inr b \<Rightarrow> Inr (trim_newlines b))
      | (_, False) \<Rightarrow>
          (case Cut ref '':-'' of
             (before, fallback, hasFallback) \<Rightarrow>
               (let name = TrimSpace before in
                if name = [] then Inl (ErrText (''${'' @ ref @ ''} is not a variable reference''))
                else case inLookup env name of
                       Some v \<Rightarrow> Inr v
                     | None \<Rightarrow>
                         if hasFallback then Inr fallback
                         else Inl (ErrText (''${'' @ name @ ''} is not set in the environment'')))))"

text \<open>
  The match of the pattern at the start of a string, as the reference and what follows
  it: \<open>${\<close>, any bytes but a closing brace, and a closing brace.
\<close>

definition placeholder_at :: "string \<Rightarrow> (string \<times> string) option" where
  "placeholder_at s =
     (if HasPrefix s ''${'' then (case Cut (drop 2 s) ''}'' of (ref, rest, found) \<Rightarrow> if found then Some (ref, rest) else None)
      else None)"

text \<open>What one match becomes, and what is reported of it.\<close>

definition expand_ref :: "interpolator \<Rightarrow> string \<Rightarrow> string \<Rightarrow> string \<times> Diagnostic list" where
  "expand_ref env path ref =
     (case interp_resolve env ref of
        Inr v \<Rightarrow> (v, [])
      | Inl err \<Rightarrow>
          if inAllowUnset env
          then ([], warnf path (path @ '': '' @ err_text err @ '' (substituted with an empty string)''))
          else (''${'' @ ref @ ''}'', errorf path (path @ '': '' @ err_text err)))"

lemma Cut_shorter: "Cut s sep = (b, a, ok) \<Longrightarrow> length a \<le> length s"
  by (induction s arbitrary: b) (auto split: if_splits prod.splits)

lemma placeholder_shorter: "placeholder_at s = Some (ref, rest) \<Longrightarrow> length rest < length s"
  by (auto simp: placeholder_at_def HasPrefix_iff dest!: Cut_shorter split: if_splits prod.splits)

text \<open>\<open>ReplaceAllStringFunc\<close>: the leftmost matches, none overlapping, the rest copied.\<close>

function expand_all :: "interpolator \<Rightarrow> string \<Rightarrow> string \<Rightarrow> string \<times> Diagnostic list" where
  "expand_all env path [] = ([], [])"
| "expand_all env path (c # cs) =
     (case placeholder_at (c # cs) of
        Some (ref, rest) \<Rightarrow>
          (case expand_ref env path ref of (v, ds) \<Rightarrow>
             (case expand_all env path rest of (w, es) \<Rightarrow> (v @ w, ds @ es)))
      | None \<Rightarrow> (case expand_all env path cs of (w, es) \<Rightarrow> (c # w, es)))"
  by pat_completeness auto
termination
  by (relation "measure (\<lambda>(env, path, s). length s)") (auto dest: placeholder_shorter)

definition interp_expand :: "interpolator \<Rightarrow> string \<Rightarrow> string \<Rightarrow> string \<times> Diagnostic list" where
  "interp_expand env s path = (if \<not> Contains s ''${'' then (s, []) else expand_all env path s)"

section \<open>The walk over a document\<close>

text \<open>
  The kinds of \<open>reflect\<close> the walk tells apart. A field carries its Go name, its \<open>yaml\<close> tag and
  whether it is exported; \<open>ROther\<close> is every kind that is left alone.
\<close>

record rfield =
  rfName :: string
  rfTag :: string
  rfExported :: bool

datatype rvalue =
    RString string
  | RNil
  | RPointer rvalue
  | RInterface rvalue
  | RStruct "(rfield \<times> rvalue) list"
  | RSlice "rvalue list"
  | RMap "(string \<times> rvalue) list"
  | ROther

definition fieldName :: "rfield \<Rightarrow> string" where
  "fieldName f = (let tag = fst (Cut (rfTag f) '','') in if tag = [] then ToLower (rfName f) else tag)"

definition path_join :: "string \<Rightarrow> string \<Rightarrow> string" where
  "path_join path field = (if path = [] then field else path @ ''.'' @ field)"

definition elem_path :: "string \<Rightarrow> string \<Rightarrow> string" where
  "elem_path path i = path @ ''['' @ i @ '']''"

text \<open>
  \<open>settable\<close> is \<open>CanSet\<close>: what a pointer leads to and the elements of a slice can be set, the
  value inside an interface cannot.
\<close>

fun interp_walk :: "interpolator \<Rightarrow> bool \<Rightarrow> string \<Rightarrow> rvalue \<Rightarrow> rvalue \<times> Diagnostic list"
  and walk_fields :: "interpolator \<Rightarrow> bool \<Rightarrow> string \<Rightarrow> (rfield \<times> rvalue) list \<Rightarrow> (rfield \<times> rvalue) list \<times> Diagnostic list"
  and walk_elems :: "interpolator \<Rightarrow> string \<Rightarrow> nat \<Rightarrow> rvalue list \<Rightarrow> rvalue list \<times> Diagnostic list"
  and walk_map :: "interpolator \<Rightarrow> string \<Rightarrow> (string \<times> rvalue) list \<Rightarrow> (string \<times> rvalue) list \<times> Diagnostic list" where
  "interp_walk env settable path (RString s) =
     (if settable then apfst RString (interp_expand env s path) else (RString s, []))"
| "interp_walk env settable path (RPointer v) = apfst RPointer (interp_walk env True path v)"
| "interp_walk env settable path (RInterface v) = apfst RInterface (interp_walk env False path v)"
| "interp_walk env settable path (RStruct fs) = apfst RStruct (walk_fields env settable path fs)"
| "interp_walk env settable path (RSlice vs) = apfst RSlice (walk_elems env path 0 vs)"
| "interp_walk env settable path (RMap kvs) = apfst RMap (walk_map env path kvs)"
| "interp_walk env settable path RNil = (RNil, [])"
| "interp_walk env settable path ROther = (ROther, [])"
| "walk_fields env settable path [] = ([], [])"
| "walk_fields env settable path ((f, v) # fs) =
     (let (v', ds) = (if \<not> rfExported f \<or> fieldName f = ''-'' then (v, [])
                      else interp_walk env settable (path_join path (fieldName f)) v);
          (fs', es) = walk_fields env settable path fs
      in ((f, v') # fs', ds @ es))"
| "walk_elems env path i [] = ([], [])"
| "walk_elems env path i (v # vs) =
     (let (v', ds) = interp_walk env True (elem_path path (Itoa (int i))) v;
          (vs', es) = walk_elems env path (Suc i) vs
      in (v' # vs', ds @ es))"
| "walk_map env path [] = ([], [])"
| "walk_map env path ((k, v) # kvs) =
     (let (v', ds) = (case v of RString s \<Rightarrow> apfst RString (interp_expand env s (elem_path path k)) | _ \<Rightarrow> (v, []));
          (kvs', es) = walk_map env path kvs
      in ((k, v') # kvs', ds @ es))"

definition interpolate :: "interpolator \<Rightarrow> rvalue \<Rightarrow> rvalue \<times> Diagnostic list" where
  "interpolate env v = interp_walk env True [] v"

section \<open>Loading\<close>

text \<open>The outcome of the strict YAML decoder: a document, an error, or a panic.\<close>

datatype decoded = Decoded rvalue | Rejected err | Panicked string

record LoadOptions =
  loAllowUnsetEnv :: bool
  loLookup :: "string \<Rightarrow> string option"
  loReadFile :: "string \<Rightarrow> string result"

datatype load_error =
    SyntaxError err string
  | LoadError err

definition interpolationHint :: "string \<Rightarrow> string" where
  "interpolationHint data =
     (if \<not> Contains data ''${'' then []
      else ''note: ${VAR} is expanded after the file is parsed, so a reference only fits where text is expected:''
        @ [CHR 0x0A] @ ''      a number or a boolean cannot be templated, and inside { } a reference must be quoted.'')"

text \<open>\<open>as_config\<close> reads the tree of a document back as a \<open>Config\<close>.\<close>

definition config_Parse ::
  "(string \<Rightarrow> decoded) \<Rightarrow> (rvalue \<Rightarrow> Config) \<Rightarrow> checkers \<Rightarrow> LoadOptions \<Rightarrow> string \<Rightarrow> load_error + Config \<times> Diagnostic list" where
  "config_Parse decode as_config ck opts data =
     (case decode data of
        Panicked r \<Rightarrow> Inl (SyntaxError (ErrText (''the decoder failed on this document ('' @ r @ '')'')) [])
      | Rejected err \<Rightarrow> Inl (SyntaxError err (interpolationHint data))
      | Decoded doc \<Rightarrow>
          (let (doc', diags) = interpolate \<lparr>inLookup = loLookup opts, inReadFile = loReadFile opts, inAllowUnset = loAllowUnsetEnv opts\<rparr> doc;
               cfg = ApplyDefaults (as_config doc')
           in Inr (cfg, diags @ Validate ck cfg)))"

definition DefaultPath :: string where "DefaultPath = ''vaultd.yaml''"

text \<open>\<open>missing\<close> tells whether an error of \<open>ReadFile\<close> is \<open>fs.ErrNotExist\<close>. The path is the \<open>Path\<close> of
  the configuration returned.\<close>

definition config_Load ::
  "(string \<Rightarrow> decoded) \<Rightarrow> (rvalue \<Rightarrow> Config) \<Rightarrow> checkers \<Rightarrow> (err \<Rightarrow> bool) \<Rightarrow> LoadOptions \<Rightarrow> string
     \<Rightarrow> load_error + string \<times> Config \<times> Diagnostic list" where
  "config_Load decode as_config ck missing opts path0 =
     (let path = (if path0 = [] then DefaultPath else path0) in
      case loReadFile opts path of
        Inl err \<Rightarrow>
          if missing err then Inl (LoadError (ErrText (''config file '' @ path @ '' does not exist'')))
          else Inl (LoadError (ErrWrap ''reading config'' err))
      | Inr data \<Rightarrow>
          (case config_Parse decode as_config ck opts data of
             Inl err \<Rightarrow> Inl err
           | Inr (cfg, diags) \<Rightarrow> Inr (path, cfg, diags)))"

text \<open>\<open>render\<close> is \<open>yaml.FormatError\<close>.\<close>

definition FormatError :: "(err \<Rightarrow> string) \<Rightarrow> load_error \<Rightarrow> string" where
  "FormatError render e =
     (case e of
        LoadError _ \<Rightarrow> []
      | SyntaxError err hint \<Rightarrow> render err @ (if hint \<noteq> [] then [CHR 0x0A] @ hint else []))"

section \<open>Secrets\<close>

definition redacted :: string where "redacted = ''***''"

definition Secret_String :: "string \<Rightarrow> string" where
  "Secret_String s = (if s = [] then [] else redacted)"

definition isSecretKey :: "string \<Rightarrow> bool" where
  "isSecretKey key \<longleftrightarrow>
     ToLower key \<in> set [''password'', ''passwd'', ''pwd'', ''secret'', ''token'', ''access_key'', ''secret_key'', ''sslpassword'']"

fun redact_fields :: "string list \<Rightarrow> string list option" where
  "redact_fields [] = Some []"
| "redact_fields (field # more_fields) =
     (case Cut field ''='' of
        (key, _, found) \<Rightarrow>
          if \<not> found then None
          else map_option ((#) (if isSecretKey key then key @ ''='' @ redacted else field)) (redact_fields more_fields))"

definition redactKeyValueDSN :: "string \<Rightarrow> string" where
  "redactKeyValueDSN dsn =
     (let words = Fields dsn in
      if words = [] then redacted
      else case redact_fields words of None \<Rightarrow> redacted | Some out \<Rightarrow> Join '' '' out)"

section \<open>What the expansion does\<close>

text \<open>A text as its author wrote it: literal stretches, each free of \<open>${\<close>, between references.\<close>

datatype chunk = Lit string | Ref string

fun chunk_source :: "chunk \<Rightarrow> string" where
  "chunk_source (Lit s) = s"
| "chunk_source (Ref r) = ''${'' @ r @ ''}''"

fun chunks_ok :: "chunk list \<Rightarrow> bool" where
  "chunks_ok [] \<longleftrightarrow> True"
| "chunks_ok (Ref r # cs) \<longleftrightarrow> CHR ''}'' \<notin> set r \<and> chunks_ok cs"
| "chunks_ok [Lit s] \<longleftrightarrow> \<not> Contains s ''${''"
| "chunks_ok (Lit s # Ref r # cs) \<longleftrightarrow> \<not> Contains s ''${'' \<and> chunks_ok (Ref r # cs)"
| "chunks_ok (Lit s # Lit t # cs) \<longleftrightarrow> False"

fun chunk_result :: "interpolator \<Rightarrow> string \<Rightarrow> chunk \<Rightarrow> string \<times> Diagnostic list" where
  "chunk_result env path (Lit s) = (s, [])"
| "chunk_result env path (Ref r) = expand_ref env path r"

lemma Cut_brace: "CHR ''}'' \<notin> set r \<Longrightarrow> Cut (r @ CHR ''}'' # rest) ''}'' = (r, rest, True)"
  by (induction r) (auto simp: HasPrefix_def)

lemma placeholder_ref: "CHR ''}'' \<notin> set r \<Longrightarrow> placeholder_at (''${'' @ r @ ''}'' @ rest) = Some (r, rest)"
  by (simp add: placeholder_at_def HasPrefix_def Cut_brace)

lemma expand_all_ref:
  assumes "CHR ''}'' \<notin> set r"
  shows "expand_all env path (''${'' @ r @ ''}'' @ rest) =
    (fst (expand_ref env path r) @ fst (expand_all env path rest), snd (expand_ref env path r) @ snd (expand_all env path rest))"
  using placeholder_ref [OF assms, of rest] by (simp split: prod.splits)

text \<open>Copying a literal: what follows it is the end of the text or a reference.\<close>

lemma expand_all_lit:
  assumes "\<not> Contains s ''${''" and "rest = [] \<or> (\<exists>t. rest = ''$'' @ t)"
  shows "expand_all env path (s @ rest) = (s @ fst (expand_all env path rest), snd (expand_all env path rest))"
  using assms(1)
proof (induction s)
  case (Cons c s)
  have "\<not> HasPrefix (c # s @ rest) ''${''"
    using Cons.prems assms(2) by (cases s) (auto simp: HasPrefix_def)
  then have "placeholder_at (c # s @ rest) = None" by (simp add: placeholder_at_def)
  then show ?case using Cons by (simp split: prod.splits)
qed simp

lemma expand_all_chunks:
  "chunks_ok cs \<Longrightarrow> expand_all env path (concat (map chunk_source cs))
    = (concat (map (fst \<circ> chunk_result env path) cs), concat (map (snd \<circ> chunk_result env path) cs))"
proof (induction cs rule: chunks_ok.induct)
  case (2 r cs)
  then show ?case using expand_all_ref [of r env path "concat (map chunk_source cs)"] by simp
next
  case (3 s)
  then show ?case using expand_all_lit [of s "[]" env path] by simp
next
  case (4 s r cs)
  then show ?case
    using expand_all_lit [of s "concat (map chunk_source (Ref r # cs))" env path] by simp
qed simp_all

lemma no_reference:
  assumes "\<not> Contains (concat (map chunk_source cs)) ''${''"
  shows "concat (map (fst \<circ> chunk_result env path) cs) = concat (map chunk_source cs) \<and>
    concat (map (snd \<circ> chunk_result env path) cs) = []"
proof -
  have inner: "Contains (a @ ''${'' @ b) ''${''" for a b
    by (induction a) (auto simp: HasPrefix_def)
  have "c \<noteq> Ref r" if mem: "c \<in> set cs" for c r
  proof
    assume "c = Ref r"
    then obtain as bs where "cs = as @ Ref r # bs" using mem by (meson split_list)
    then show False using assms inner [of "concat (map chunk_source as)"] by simp
  qed
  then have "\<forall>c\<in>set cs. chunk_result env path c = (chunk_source c, [])" by (metis chunk.exhaust chunk_result.simps(1) chunk_source.simps(1))
  then show ?thesis by (induction cs) auto
qed

text \<open>C38: The expansion of a text is exact on every branch. Written as literal stretches and
  \<open>${...}\<close> references, its expansion is the stretches as they are with every reference replaced by
  its value, once: a value that itself holds \<open>${\<close> is inserted as it is and never expanded again.
  A reference that cannot be resolved stays as it was written and is reported as an error at
  the path of the text, or, when unset variables are allowed, becomes the empty string and is
  reported as a warning; there is one diagnostic per such reference, in their order.\<close>

theorem expand_exact:
  assumes "chunks_ok cs"
  shows "interp_expand env (concat (map chunk_source cs)) path =
    (concat (map (\<lambda>c. case c of Lit s \<Rightarrow> s | Ref r \<Rightarrow>
        (case interp_resolve env r of Inr v \<Rightarrow> v | Inl e \<Rightarrow> if inAllowUnset env then [] else ''${'' @ r @ ''}'')) cs),
     concat (map (\<lambda>c. case c of Lit s \<Rightarrow> [] | Ref r \<Rightarrow>
        (case interp_resolve env r of Inr v \<Rightarrow> [] | Inl e \<Rightarrow>
           if inAllowUnset env then warnf path (path @ '': '' @ err_text e @ '' (substituted with an empty string)'')
           else errorf path (path @ '': '' @ err_text e))) cs))"
proof -
  have "fst (chunk_result env path c) = (case c of Lit s \<Rightarrow> s | Ref r \<Rightarrow>
      (case interp_resolve env r of Inr v \<Rightarrow> v | Inl e \<Rightarrow> if inAllowUnset env then [] else ''${'' @ r @ ''}''))"
    and "snd (chunk_result env path c) = (case c of Lit s \<Rightarrow> [] | Ref r \<Rightarrow>
      (case interp_resolve env r of Inr v \<Rightarrow> [] | Inl e \<Rightarrow>
         if inAllowUnset env then warnf path (path @ '': '' @ err_text e @ '' (substituted with an empty string)'')
         else errorf path (path @ '': '' @ err_text e)))" for c
    by (auto simp: expand_ref_def split: chunk.splits sum.splits)
  then show ?thesis
    using expand_all_chunks [OF assms, of env path] no_reference [of cs env path]
    by (auto simp: interp_expand_def comp_def)
qed

text \<open>A value with a reference in it, and a variable that is not set.\<close>

definition demo_interp :: interpolator where
  "demo_interp = \<lparr>inLookup = [''USER'' \<mapsto> ''${HOME}''], inReadFile = (\<lambda>f. Inr (''s3cret'' @ [CHR 0x0A])), inAllowUnset = False\<rparr>"

theorem expand_exact_witness:
  "interp_expand demo_interp ''a ${USER}:${file:/p}@${X}'' ''dsn'' = (''a ${HOME}:s3cret@${X}'', errorf ''dsn'' ''dsn: ${X} is not set in the environment'')"
proof -
  have "chunks_ok [Lit ''a '', Ref ''USER'', Lit '':'', Ref ''file:/p'', Lit ''@'', Ref ''X'']" by (simp add: HasPrefix_def)
  from expand_exact [OF this, of demo_interp "''dsn''"] show ?thesis
    by (simp add: interp_resolve_def demo_interp_def CutPrefix_def HasPrefix_def TrimSpace_def TrimRight_def trim_newlines_def is_space_def)
qed

section \<open>What the redaction hides\<close>

text \<open>In a string of \<open>key=value\<close> fields every value of a secret key is gone, and nothing else
  changes; a string with a field that has no equals sign is redacted whole.\<close>

lemma redact_fields_exact:
  "redact_fields fs = (if list_all (\<lambda>f. snd (snd (Cut f ''=''))) fs
     then Some (map (\<lambda>f. if isSecretKey (fst (Cut f ''='')) then fst (Cut f ''='') @ ''='' @ redacted else f) fs) else None)"
  by (induction fs) (auto split: prod.splits)

text \<open>A quoted value with a space is two fields: when the second holds an equals sign it is
  printed, although it is a piece of the password.\<close>

lemma quoted_password_leaks: "redactKeyValueDSN (''password='' @ [CHR 0x27] @ ''ab c=d'') = ''password=*** c=d''"
  by (simp add: redactKeyValueDSN_def Fields_def isSecretKey_def redacted_def HasPrefix_def is_space_def ToLower_def to_lower_char_def Let_def)

end
