(* ===== verification/Engine.thy ===== *)
theory Engine
  imports App
begin

text \<open>
  What the database adapters share, \<open>internal/engine/exec.go\<close> and \<open>binary.go\<close>: the tail of a
  client's stderr, its environment, what its failure is reported as, and reading a version out of
  its output. Running a program, the environment and the file system are parameters.
\<close>

section \<open>Running a client\<close>

definition StderrTailBytes :: int where "StderrTailBytes = 64 * 2 ^ 10"

record Tail =
  taMax :: nat
  taBuf :: string
  taOver :: bool

definition NewTail :: "int \<Rightarrow> Tail" where
  "NewTail n = \<lparr>taMax = nat (if n \<le> 0 then StderrTailBytes else n), taBuf = [], taOver = False\<rparr>"

definition Tail_Write :: "string \<Rightarrow> Tail \<Rightarrow> Tail" where
  "Tail_Write p t =
     (let buf = taBuf t @ p in
      if length buf > taMax t then t\<lparr>taBuf := drop (length buf - taMax t) buf, taOver := True\<rparr>
      else t\<lparr>taBuf := buf\<rparr>)"

text \<open>The ellipsis in UTF-8.\<close>

definition ellipsis :: string where "ellipsis = [CHR 0xE2, CHR 0x80, CHR 0xA6]"

definition Tail_String :: "Tail \<Rightarrow> string" where
  "Tail_String t =
     (let out = TrimRight (\<lambda>c. c = CHR 0x0A) (taBuf t)
      in if taOver t then ellipsis @ [CHR 0x0A] @ out else out)"

text \<open>\<open>getenv\<close> gives the empty string for a variable that is not set; \<open>vars\<close> is a map.\<close>

definition engine_Env :: "(string \<Rightarrow> string) \<Rightarrow> (string \<times> string) list \<Rightarrow> string list" where
  "engine_Env getenv vars =
     [''PATH='' @ getenv ''PATH'', ''HOME='' @ getenv ''HOME'', ''LC_ALL=C'']
     @ (if getenv ''TMPDIR'' \<noteq> [] then [''TMPDIR='' @ getenv ''TMPDIR''] else [])
     @ (if getenv ''LD_LIBRARY_PATH'' \<noteq> [] then [''LD_LIBRARY_PATH='' @ getenv ''LD_LIBRARY_PATH''] else [])
     @ map (\<lambda>(key, v). key @ ''='' @ v) (filter (\<lambda>(key, v). v \<noteq> []) vars)"

text \<open>How a command ended, what it wrote, and the error of the context by then.\<close>

datatype exit = ExitOK | ExitCode int err | NotRun err

record execution =
  xeStdout :: string
  xeStderr :: string
  xeExit :: exit
  xeCtxErr :: "err option"

text \<open>The classification the adapters share; \<open>stderr\<close> is the tail as it is reported.\<close>

definition run_error :: "string \<Rightarrow> string \<Rightarrow> execution \<Rightarrow> err option" where
  "run_error binary stderr x =
     (case xeExit x of
        ExitOK \<Rightarrow> None
      | ExitCode c e \<Rightarrow> Some (ErrExit binary c stderr e)
      | NotRun e \<Rightarrow>
          (case xeCtxErr x of
             Some c \<Rightarrow> Some (ErrWrap (binary @ '' was cancelled'') c)
           | None \<Rightarrow> Some (ErrWrap (''running '' @ binary) e)))"

definition stderr_tail :: "execution \<Rightarrow> string" where
  "stderr_tail x = Tail_String (Tail_Write (xeStderr x) (NewTail StderrTailBytes))"

text \<open>The tail does not depend on how the output was cut into writes: it is the end of
  everything, marked exactly when something was dropped.\<close>

lemma tail_exact:
  assumes "t = \<lparr>taMax = n, taBuf = drop (length a - n) a, taOver = (n < length a)\<rparr>"
  shows "Tail_Write p t = \<lparr>taMax = n, taBuf = drop (length (a @ p) - n) (a @ p), taOver = (n < length (a @ p))\<rparr>"
  using assms by (cases "length a \<le> n"; cases p) (auto simp: Tail_Write_def Let_def Suc_diff_le add.commute)

lemma tail_of_writes:
  "fold Tail_Write ps (NewTail k) =
    (let n = taMax (NewTail k); out = concat ps
     in \<lparr>taMax = n, taBuf = drop (length out - n) out, taOver = (n < length out)\<rparr>)"
proof (induction ps rule: rev_induct)
  case Nil
  show ?case by (simp add: NewTail_def)
next
  case (snoc p ps)
  then show ?case using tail_exact [OF refl, of p "taMax (NewTail k)" "concat ps"] by (simp add: Let_def)
qed

section \<open>Versions\<close>

text \<open>
  The match of \<open>(\d+)\.(\d+)(?:\.(\d+))?\<close> at the start of a string: the three groups, the last one
  empty when it is absent. A run of digits is always taken whole: what follows it has to be a dot.
\<close>

definition version_at :: "string \<Rightarrow> (string \<times> string \<times> string) option" where
  "version_at s =
     (let a = takeWhile is_digit s; s1 = dropWhile is_digit s;
          b = takeWhile is_digit (tl s1); s2 = dropWhile is_digit (tl s1);
          c = takeWhile is_digit (tl s2)
      in if a \<noteq> [] \<and> HasPrefix s1 ''.'' \<and> b \<noteq> []
         then Some (a, b, if HasPrefix s2 ''.'' then c else []) else None)"

fun find_version :: "string \<Rightarrow> (string \<times> string \<times> string) option" where
  "find_version [] = None"
| "find_version (c # cs) = (case version_at (c # cs) of Some m \<Rightarrow> Some m | None \<Rightarrow> find_version cs)"

definition version_text :: "string \<times> string \<times> string \<Rightarrow> string" where
  "version_text m = (case m of (a, b, c) \<Rightarrow> a @ ''.'' @ b @ (if c = [] then [] else ''.'' @ c))"

record Binary =
  bnName :: string
  bnPath :: string
  bnVersion :: string
  bnMajor :: int

definition Binary_String :: "Binary \<Rightarrow> string" where
  "Binary_String b = bnName b @ '' '' @ bnVersion b"

definition version_unread :: "string \<Rightarrow> err" where
  "version_unread s = ErrText (''cannot read a version out of '' @ fmt_q s)"

definition ParseVersion :: "string \<Rightarrow> (string \<times> int) result" where
  "ParseVersion output =
     (case find_version output of
        None \<Rightarrow> Inl (version_unread (TrimSpace output))
      | Some (a, b, c) \<Rightarrow>
          (case Atoi a of
             None \<Rightarrow> Inl (version_unread (TrimSpace output))
           | Some major \<Rightarrow> Inr (version_text (a, b, c), major)))"

text \<open>\<open>output\<close> is what \<open><path> --version\<close> printed.\<close>

definition ProbeBinary :: "(string \<Rightarrow> string result) \<Rightarrow> string \<Rightarrow> string \<Rightarrow> Binary result" where
  "ProbeBinary output name path =
     (case output path of
        Inl err \<Rightarrow> Inl (ErrWrap (''running '' @ path @ '' --version'') err)
      | Inr out \<Rightarrow>
          (case ParseVersion out of
             Inl err \<Rightarrow> Inl (ErrWrap path err)
           | Inr (version, major) \<Rightarrow> Inr \<lparr>bnName = name, bnPath = path, bnVersion = version, bnMajor = major\<rparr>))"

text \<open>The file system as the adapters see it.\<close>

record host =
  hsOutput :: "string \<Rightarrow> string result"
  hsStat :: "string \<Rightarrow> bool result"
  hsLookPath :: "string \<Rightarrow> string option"
  hsResolve :: "string \<Rightarrow> string option"

text \<open>\<open>Stat\<close> answers whether the file can be executed: not a directory, one execute bit set.\<close>

definition probeCandidate :: "host \<Rightarrow> string \<Rightarrow> string \<Rightarrow> Binary result" where
  "probeCandidate h name path =
     (case hsStat h path of
        Inl err \<Rightarrow> Inl err
      | Inr usable \<Rightarrow>
          if \<not> usable then Inl (ErrText (path @ '' is not executable''))
          else ProbeBinary (hsOutput h) name path)"

fun scan_candidates :: "host \<Rightarrow> string \<Rightarrow> string list \<Rightarrow> string list \<Rightarrow> Binary list" where
  "scan_candidates h name seen [] = []"
| "scan_candidates h name seen (p # ps) =
     (case hsResolve h p of
        None \<Rightarrow> scan_candidates h name seen ps
      | Some target \<Rightarrow>
          if target \<in> set seen then scan_candidates h name seen ps
          else (case hsStat h target of
                  Inr True \<Rightarrow>
                    (case ProbeBinary (hsOutput h) name p of
                       Inr b \<Rightarrow> b # scan_candidates h name (target # seen) ps
                     | Inl _ \<Rightarrow> scan_candidates h name (target # seen) ps)
                | _ \<Rightarrow> scan_candidates h name (target # seen) ps))"

definition engine_Scan :: "host \<Rightarrow> string \<Rightarrow> string list \<Rightarrow> Binary list" where
  "engine_Scan h name dirs =
     scan_candidates h name [] (map (\<lambda>dir. path_Join [dir, name]) dirs
       @ (case hsLookPath h name of None \<Rightarrow> [] | Some p \<Rightarrow> [p]))"

section \<open>Reporting a driver's error\<close>

function ReplaceAll :: "string \<Rightarrow> string \<Rightarrow> string \<Rightarrow> string" where
  "ReplaceAll s old new =
     (if old = [] \<or> s = [] then s
      else if HasPrefix s old then new @ ReplaceAll (drop (length old) s) old new
      else hd s # ReplaceAll (tl s) old new)"
  by pat_completeness auto
termination
  by (relation "measure (\<lambda>(s, old, new). length s)") (auto simp: length_greater_0_conv)

declare ReplaceAll.simps [simp del]

definition redactDriverError :: "string \<Rightarrow> string \<Rightarrow> string" where
  "redactDriverError msg0 password =
     (let msg = (if password \<noteq> [] then ReplaceAll msg0 password ''***'' else msg0)
      in if length msg > 300 then take 300 msg @ ellipsis else msg)"

end
