(* ===== verification/Engine_Postgres.thy ===== *)
theory Engine_Postgres
  imports Engine
begin

text \<open>
  The PostgreSQL adapter, \<open>internal/engine/postgres\<close>: the connection string and how it is rewritten
  for another database, the search for a client that is not older than the server, the flags of
  a dump and a restore, and the guard of a verify target. \<open>pgx\<close> and the server are parameters.
\<close>

section \<open>Connections\<close>

record pgConn =
  pgHost :: string
  pgPort :: int
  pgUser :: string
  pgPassword :: string
  pgDatabase :: string
  pgParams :: "(string \<times> string) list"
  pgRaw :: string

definition sslParams :: "(string \<times> string) list" where
  "sslParams = [(''sslmode'', ''PGSSLMODE''), (''sslrootcert'', ''PGSSLROOTCERT''), (''sslcert'', ''PGSSLCERT''),
     (''sslkey'', ''PGSSLKEY''), (''sslpassword'', ''PGSSLPASSWORD''), (''connect_timeout'', ''PGCONNECT_TIMEOUT'')]"

definition Trim_quotes :: "string \<Rightarrow> string" where
  "Trim_quotes s = (let q = (\<lambda>c. c = CHR 0x27 \<or> c = CHR 0x22) in rev (dropWhile q (rev (dropWhile q s))))"

text \<open>\<open>query\<close> is the decoded query of a URL, \<open>None\<close> when it does not parse.\<close>

definition extractParams :: "(string \<Rightarrow> (string \<times> string list) list option) \<Rightarrow> string \<Rightarrow> (string \<times> string) list" where
  "extractParams query raw =
     (if HasPrefix raw ''postgres://'' \<or> HasPrefix raw ''postgresql://''
      then (case query raw of
              None \<Rightarrow> []
            | Some kvs \<Rightarrow> foldl (\<lambda>m (key, vs). if vs \<noteq> [] then AList.update (ToLower key) (hd vs) m else m) [] kvs)
      else foldl (\<lambda>m field. case Cut field ''='' of
               (key, v, found) \<Rightarrow> if found then AList.update (ToLower key) (Trim_quotes v) m else m) [] (Fields raw))"

text \<open>\<open>parse\<close> is \<open>pgconn.ParseConfig\<close>: host, port, user, password, database.\<close>

definition pg_parseDSN ::
  "(string \<Rightarrow> (string \<times> int \<times> string \<times> string \<times> string) option) \<Rightarrow> (string \<Rightarrow> (string \<times> string list) list option)
     \<Rightarrow> string \<Rightarrow> pgConn result" where
  "pg_parseDSN parse query raw =
     (case parse raw of
        None \<Rightarrow> Inl (ErrText ''the connection string is not valid PostgreSQL syntax'')
      | Some (h, p, u, pw, d) \<Rightarrow>
          if h = [] then Inl (ErrText ''the connection string names no host'')
          else if d = [] then Inl (ErrText ''the connection string names no database'')
          else Inr \<lparr>pgHost = h, pgPort = p, pgUser = u, pgPassword = pw, pgDatabase = d,
                    pgParams = extractParams query raw, pgRaw = raw\<rparr>)"

definition pg_env :: "pgConn \<Rightarrow> (string \<times> string) list" where
  "pg_env c =
     [(''PGHOST'', pgHost c), (''PGPORT'', Itoa (pgPort c)), (''PGUSER'', pgUser c), (''PGPASSWORD'', pgPassword c),
      (''PGDATABASE'', pgDatabase c), (''PGAPPNAME'', ''vaultd'')]
     @ List.map_filter (\<lambda>(key, v). map_option (\<lambda>name. (name, v)) (map_of sslParams key)) (pgParams c)"

definition pg_withDatabase :: "string \<Rightarrow> pgConn \<Rightarrow> pgConn" where
  "pg_withDatabase name c = c\<lparr>pgDatabase := name\<rparr>"

definition reservedKeywords :: "string list" where
  "reservedKeywords = [''host'', ''hostaddr'', ''port'', ''user'', ''password'', ''dbname'']"

text \<open>Backslashes are doubled first and quotes escaped after: byte by byte.\<close>

definition dsn_byte :: "char \<Rightarrow> string" where
  "dsn_byte c = (if c = CHR 0x5C then [CHR 0x5C, CHR 0x5C] else if c = CHR 0x27 then [CHR 0x5C, CHR 0x27] else [c])"

definition quoteDSNValue :: "string \<Rightarrow> string" where
  "quoteDSNValue v = [CHR 0x27] @ concat (map dsn_byte v) @ [CHR 0x27]"

definition dsn_pairs :: "pgConn \<Rightarrow> string \<Rightarrow> (string \<times> string) list" where
  "dsn_pairs c database =
     [(''host'', pgHost c), (''port'', Itoa (pgPort c)), (''dbname'', database)]
     @ (if pgUser c \<noteq> [] then [(''user'', pgUser c)] else [])
     @ (if pgPassword c \<noteq> [] then [(''password'', pgPassword c)] else [])
     @ map (\<lambda>key. (key, the (map_of (pgParams c) key)))
         (sort (filter (\<lambda>key. key \<notin> set reservedKeywords) (remdups (map fst (pgParams c)))))"

definition withDatabaseDSN :: "pgConn \<Rightarrow> string \<Rightarrow> string" where
  "withDatabaseDSN c database = Join '' '' (map (\<lambda>(key, v). key @ ''='' @ quoteDSNValue v) (dsn_pairs c database))"

section \<open>Clients\<close>

definition searchTemplates :: "(int \<Rightarrow> string) list" where
  "searchTemplates =
     [\<lambda>n. ''/usr/lib/postgresql/'' @ Itoa n @ ''/bin'', \<lambda>n. ''/usr/pgsql-'' @ Itoa n @ ''/bin'',
      \<lambda>n. ''/opt/homebrew/opt/postgresql@'' @ Itoa n @ ''/bin'', \<lambda>n. ''/usr/local/opt/postgresql@'' @ Itoa n @ ''/bin'']"

definition majorSearchRange :: nat where "majorSearchRange = 5"

definition pg_versionError :: "string \<Rightarrow> int \<Rightarrow> Binary list \<Rightarrow> err" where
  "pg_versionError name serverMajor found =
     (let lead = ''server is PG '' @ Itoa serverMajor @ '', need '' @ name @ '' >= '' @ Itoa serverMajor @ '', found ''
      in if found = []
         then ErrText (lead @ ''none installed (install postgresql-client-'' @ Itoa serverMajor @ '', or run the vaultd container image)'')
         else ErrText (lead @ Join '', '' (map bnVersion found)))"

text \<open>The candidates in order: \<open>Inr\<close> the first that is not too old, else \<open>Inl\<close> those that answered.\<close>

fun pg_search :: "host \<Rightarrow> string \<Rightarrow> int \<Rightarrow> string list \<Rightarrow> Binary list + Binary" where
  "pg_search h name serverMajor [] = Inl []"
| "pg_search h name serverMajor (p # ps) =
     (case probeCandidate h name p of
        Inl _ \<Rightarrow> pg_search h name serverMajor ps
      | Inr b \<Rightarrow>
          if bnMajor b \<ge> serverMajor then Inr b
          else (case pg_search h name serverMajor ps of Inl found \<Rightarrow> Inl (b # found) | Inr b' \<Rightarrow> Inr b'))"

definition pg_candidates :: "host \<Rightarrow> string \<Rightarrow> int \<Rightarrow> string list" where
  "pg_candidates h name serverMajor =
     concat (map (\<lambda>i. map (\<lambda>t. path_Join [t (serverMajor + int i), name]) searchTemplates) [0..<Suc majorSearchRange])
     @ (case hsLookPath h name of None \<Rightarrow> [] | Some p \<Rightarrow> [p])"

definition pg_resolveBinary :: "host \<Rightarrow> string \<Rightarrow> int \<Rightarrow> string \<Rightarrow> Binary result" where
  "pg_resolveBinary h name serverMajor binDir =
     (if binDir \<noteq> [] then
        (case probeCandidate h name (path_Join [binDir, name]) of
           Inl err \<Rightarrow> Inl (ErrWrap (''bin_dir '' @ binDir) err)
         | Inr b \<Rightarrow> if bnMajor b < serverMajor then Inl (pg_versionError name serverMajor [b]) else Inr b)
      else case pg_search h name serverMajor (pg_candidates h name serverMajor) of
             Inr b \<Rightarrow> Inr b
           | Inl found \<Rightarrow> Inl (pg_versionError name serverMajor found))"

section \<open>Dumping and restoring\<close>

record pgOptions =
  poExcludeTableData :: "string list"
  poIncludeGlobals :: bool
  poRowEstimate :: string
  poBinDir :: string

text \<open>What the server answers to the queries of the adapter.\<close>

record pg_server =
  psConnect :: "err option"
  psVersion :: "string result"
  psVersionNum :: "int result"
  psTables :: "(string \<times> int) list result"
  psCount :: "string \<Rightarrow> string \<Rightarrow> int result"

definition splitQualified :: "string \<Rightarrow> (string \<times> string) result" where
  "splitQualified name =
     (case Cut name ''.'' of
        (schema, table, found) \<Rightarrow>
          if found then Inr (schema, table) else Inl (ErrText (''table name '' @ fmt_q name @ '' is not schema-qualified'')))"

fun pg_countExactly :: "pg_server \<Rightarrow> TableInfo list \<Rightarrow> TableInfo list result" where
  "pg_countExactly sv [] = Inr []"
| "pg_countExactly sv (t # ts) =
     (case splitQualified (tiName t) of
        Inl err \<Rightarrow> Inl err
      | Inr (schema, table) \<Rightarrow>
          (case psCount sv schema table of
             Inl err \<Rightarrow> Inl (ErrWrap (''counting rows of '' @ tiName t) err)
           | Inr n \<Rightarrow>
               (case pg_countExactly sv ts of
                  Inl err \<Rightarrow> Inl err
                | Inr rest \<Rightarrow> Inr (t\<lparr>tiRows := n, tiRowsExact := True\<rparr> # rest))))"

definition pg_tables :: "pgOptions \<Rightarrow> pg_server \<Rightarrow> TableInfo list result" where
  "pg_tables opts sv =
     (case psTables sv of
        Inl err \<Rightarrow> Inl (ErrWrap ''listing tables'' err)
      | Inr rows \<Rightarrow>
          (let tables = map (\<lambda>(n, r). \<lparr>tiName = n, tiRows = r, tiRowsExact = False, tiStorageEngine = []\<rparr>) rows in
           if poRowEstimate opts = ''off'' then Inr (map (\<lambda>t. t\<lparr>tiRows := 0\<rparr>) tables)
           else if poRowEstimate opts = ''exact'' then pg_countExactly sv tables
           else Inr tables))"

text \<open>Go's division of the version number.\<close>

definition server_major :: "int \<Rightarrow> int" where
  "server_major num = (if num < 0 then - ((- num) div 10000) else num div 10000)"

text \<open>\<open>kept\<close> is what an earlier probe of the same dumper found, which is not asked for again.\<close>

type_synonym pg_probed = "ServerInfo \<times> int \<times> Binary"

definition pg_probe :: "host \<Rightarrow> pgOptions \<Rightarrow> pgConn \<Rightarrow> pg_probed option \<Rightarrow> pg_server \<Rightarrow> pg_probed result" where
  "pg_probe h opts c kept sv =
     (case kept of Some r \<Rightarrow> Inr r | None \<Rightarrow>
      case psConnect sv of
        Some e \<Rightarrow>
          Inl (ErrText (''connecting to '' @ pgHost c @ '':'' @ Itoa (pgPort c) @ ''/'' @ pgDatabase c @ '': ''
            @ redactDriverError (err_text e) (pgPassword c)))
      | None \<Rightarrow>
     (case psVersion sv of
        Inl err \<Rightarrow> Inl (ErrWrap ''reading the server version'' err)
      | Inr version \<Rightarrow>
          (case psVersionNum sv of
             Inl err \<Rightarrow> Inl (ErrWrap ''reading the server version'' err)
           | Inr num \<Rightarrow>
               (case pg_tables opts sv of
                  Inl err \<Rightarrow> Inl err
                | Inr tables \<Rightarrow>
                    (case pg_resolveBinary h ''pg_dump'' (server_major num) (poBinDir opts) of
                       Inl err \<Rightarrow> Inl err
                     | Inr b \<Rightarrow>
                         Inr (\<lparr>siEngine = EnginePostgres, siVersion = version, siConsistency = ''serializable_snapshot'',
                                siTables = tables, siWarnings = []\<rparr>, num, b))))))"

definition pg_dump_args :: "pgOptions \<Rightarrow> string list" where
  "pg_dump_args opts =
     [''--format=custom'', ''--compress=0'', ''--no-owner'', ''--no-acl'', ''--serializable-deferrable'', ''--no-password'']
     @ map (\<lambda>g. ''--exclude-table-data='' @ g) (poExcludeTableData opts)"

text \<open>\<open>exec\<close> runs a program with arguments and an environment.\<close>

definition pg_run ::
  "(string \<Rightarrow> string list \<Rightarrow> string list \<Rightarrow> execution) \<Rightarrow> (string \<Rightarrow> string) \<Rightarrow> pgConn \<Rightarrow> Binary \<Rightarrow> string list
     \<Rightarrow> string result \<times> string" where
  "pg_run exec getenv c b args =
     (let x = exec (bnPath b) args (engine_Env getenv (pg_env c)); stderr = stderr_tail x
      in (case run_error (bnName b) stderr x of None \<Rightarrow> Inr stderr | Some e \<Rightarrow> Inl e, xeStdout x))"

definition pg_Dump ::
  "(string \<Rightarrow> string list \<Rightarrow> string list \<Rightarrow> execution) \<Rightarrow> (string \<Rightarrow> string) \<Rightarrow> host \<Rightarrow> pgOptions \<Rightarrow> pgConn \<Rightarrow> pg_probed option \<Rightarrow> pg_server
     \<Rightarrow> DumpResult result \<times> string" where
  "pg_Dump exec getenv h opts c kept sv =
     (case pg_probe h opts c kept sv of
        Inl err \<Rightarrow> (Inl err, [])
      | Inr (info, num, b) \<Rightarrow>
          (case pg_run exec getenv c b (pg_dump_args opts) of
             (Inl err, out) \<Rightarrow> (Inl err, out)
           | (Inr stderr, out) \<Rightarrow>
               (Inr \<lparr>drConsistency = ''serializable_snapshot'', drTables = siTables info, drBinlogPos = [], drOplogEnd = [],
                      drDumperVersion = Binary_String b, drStderrTail = stderr\<rparr>, out)))"

definition pg_DumpGlobals ::
  "(string \<Rightarrow> string list \<Rightarrow> string list \<Rightarrow> execution) \<Rightarrow> (string \<Rightarrow> string) \<Rightarrow> host \<Rightarrow> pgOptions \<Rightarrow> pgConn \<Rightarrow> pg_probed option \<Rightarrow> pg_server
     \<Rightarrow> DumpResult result \<times> string" where
  "pg_DumpGlobals exec getenv h opts c kept sv =
     (case pg_probe h opts c kept sv of
        Inl err \<Rightarrow> (Inl err, [])
      | Inr (info, num, _) \<Rightarrow>
          (case pg_resolveBinary h ''pg_dumpall'' (server_major num) (poBinDir opts) of
             Inl err \<Rightarrow> (Inl err, [])
           | Inr b \<Rightarrow>
               (case pg_run exec getenv (pg_withDatabase ''postgres'' c) b [''--globals-only'', ''--no-password''] of
                  (Inl err, out) \<Rightarrow> (Inl err, out)
                | (Inr stderr, out) \<Rightarrow>
                    (Inr \<lparr>drConsistency = ''best_effort'', drTables = [], drBinlogPos = [], drOplogEnd = [],
                           drDumperVersion = Binary_String b, drStderrTail = stderr\<rparr>, out))))"

definition pg_restore_args :: "bool \<Rightarrow> pgConn \<Rightarrow> string list" where
  "pg_restore_args clean c =
     [''--dbname='' @ pgDatabase c, ''--no-owner'', ''--no-acl'', ''--single-transaction'', ''--exit-on-error'', ''--no-password'']
     @ (if clean then [''--clean'', ''--if-exists''] else [])"

text \<open>\<open>versionNum\<close> is what connecting to the destination and asking for its version answers.\<close>

definition pg_Restore ::
  "(string \<Rightarrow> string list \<Rightarrow> string list \<Rightarrow> execution) \<Rightarrow> (string \<Rightarrow> string) \<Rightarrow> host \<Rightarrow> string \<Rightarrow> bool \<Rightarrow> pgConn \<Rightarrow> int result
     \<Rightarrow> unit result" where
  "pg_Restore exec getenv h binDir clean c versionNum =
     (case versionNum of
        Inl err \<Rightarrow> Inl err
      | Inr num \<Rightarrow>
          (case pg_resolveBinary h ''pg_restore'' (server_major num) binDir of
             Inl err \<Rightarrow> Inl err
           | Inr b \<Rightarrow> (case fst (pg_run exec getenv c b (pg_restore_args clean c)) of Inl err \<Rightarrow> Inl err | Inr _ \<Rightarrow> Inr ())))"

section \<open>The verify target\<close>

definition guard_prefix_error :: "string \<Rightarrow> string \<Rightarrow> err" where
  "guard_prefix_error name pfx =
     ErrText (''refusing to touch database '' @ fmt_q name
       @ '': a verify target only ever creates and drops databases named '' @ pfx @ ellipsis)"

definition pg_guard :: "string \<Rightarrow> pgConn \<Rightarrow> string \<Rightarrow> err option" where
  "pg_guard pfx c name =
     (if \<not> HasPrefix name pfx \<or> name = pfx then Some (guard_prefix_error name pfx)
      else if name = pgDatabase c
      then Some (ErrText (''refusing to touch database '' @ fmt_q name @ '': it is the verify target's own connection''))
      else None)"

text \<open>The administrative connection: a connection that can fail, and the two statements.\<close>

record 'p pg_admin =
  paConnect :: "('p, unit) action"
  paCreate :: "string \<Rightarrow> ('p, unit) action"
  paDropForce :: "string \<Rightarrow> ('p, unit) action"
  paDrop :: "string \<Rightarrow> ('p, unit) action"

definition admin_error :: "string \<Rightarrow> pgConn \<Rightarrow> err \<Rightarrow> err" where
  "admin_error what c e = ErrText (what @ '': '' @ redactDriverError (err_text e) (pgPassword c))"

definition pg_connect :: "'p pg_admin \<Rightarrow> pgConn \<Rightarrow> ('p, unit) action" where
  "pg_connect ad c s =
     (case paConnect ad s of
        (Inl e, s1) \<Rightarrow>
          (Inl (admin_error (''connecting to the verify target '' @ pgHost c @ '':'' @ Itoa (pgPort c) @ ''/'' @ pgDatabase c) c e), s1)
      | (Inr _, s1) \<Rightarrow> (Inr (), s1))"

definition pg_Drop :: "'p pg_admin \<Rightarrow> string \<Rightarrow> pgConn \<Rightarrow> string \<Rightarrow> ('p, unit) action" where
  "pg_Drop ad pfx c name s =
     (case pg_guard pfx c name of
        Some err \<Rightarrow> (Inl err, s)
      | None \<Rightarrow>
          (case pg_connect ad c s of
             (Inl err, s1) \<Rightarrow> (Inl err, s1)
           | (Inr _, s1) \<Rightarrow>
               (case paDropForce ad name s1 of
                  (Inr _, s2) \<Rightarrow> (Inr (), s2)
                | (Inl e, s2) \<Rightarrow>
                    (case paDrop ad name s2 of
                       (Inr _, s3) \<Rightarrow> (Inr (), s3)
                     | (Inl _, s3) \<Rightarrow> (Inl (admin_error (''dropping the verify database '' @ name) c e), s3)))))"

text \<open>\<open>usable\<close> tells whether the connection string of the new database parses.\<close>

definition pg_Create :: "'p pg_admin \<Rightarrow> (string \<Rightarrow> err option) \<Rightarrow> string \<Rightarrow> pgConn \<Rightarrow> string \<Rightarrow> ('p, string) action" where
  "pg_Create ad usable pfx c name s =
     (case pg_guard pfx c name of
        Some err \<Rightarrow> (Inl err, s)
      | None \<Rightarrow>
          (case pg_connect ad c s of
             (Inl err, s1) \<Rightarrow> (Inl err, s1)
           | (Inr _, s1) \<Rightarrow>
               (case paCreate ad name s1 of
                  (Inl e, s2) \<Rightarrow> (Inl (admin_error (''creating the verify database '' @ name) c e), s2)
                | (Inr _, s2) \<Rightarrow>
                    (let dsn = withDatabaseDSN c name in
                     case usable dsn of
                       None \<Rightarrow> (Inr dsn, s2)
                     | Some err \<Rightarrow> (Inl err, snd (pg_Drop ad pfx c name s2))))))"

definition pg_NewProvisioner :: "(string \<Rightarrow> pgConn result) \<Rightarrow> string \<Rightarrow> string \<Rightarrow> pgConn result" where
  "pg_NewProvisioner parse pfx dsn =
     (if TrimSpace pfx = []
      then Inl (ErrText ''verify target: no database_prefix; vaultd refuses to create or drop databases without one'')
      else case parse dsn of Inl err \<Rightarrow> Inl (ErrWrap ''verify target'' err) | Inr c \<Rightarrow> Inr c)"

definition splitTable :: "string \<Rightarrow> string \<times> string" where
  "splitTable name = (case Cut name ''.'' of (schema, table, found) \<Rightarrow> if found then (schema, table) else (''public'', name))"

end
