(* ===== verification/Engine_Mysql.thy ===== *)
theory Engine_Mysql
  imports Engine
begin

text \<open>
  The MySQL and MariaDB adapter, \<open>internal/engine/mysql\<close>: versions and forks, what the probe learns,
  the flags of a dump and the consistency it claims, the search for a client of the server's fork.
  The driver and the server are parameters.
\<close>

section \<open>Versions\<close>

type_synonym Flavor = string
definition FlavorMySQL :: Flavor where "FlavorMySQL = ''mysql''"
definition FlavorMariaDB :: Flavor where "FlavorMariaDB = ''mariadb''"

lemmas flavor_defs = FlavorMySQL_def FlavorMariaDB_def

record serverVersion =
  mvRaw :: string
  mvMajor :: int
  mvMinor :: int
  mvPatch :: int
  mvFlavor :: Flavor

definition version_Num :: "serverVersion \<Rightarrow> int" where
  "version_Num v = wrap64 (mvMajor v * 10000 + mvMinor v * 100 + mvPatch v)"

definition AtLeast :: "serverVersion \<Rightarrow> int \<Rightarrow> int \<Rightarrow> int \<Rightarrow> bool" where
  "AtLeast v major minor patch \<longleftrightarrow> version_Num v \<ge> major * 10000 + minor * 100 + patch"

definition version_String :: "serverVersion \<Rightarrow> string" where
  "version_String v = Itoa (mvMajor v) @ ''.'' @ Itoa (mvMinor v) @ ''.'' @ Itoa (mvPatch v)"

text \<open>\<open>atoi\<close> drops the error of \<open>strconv.Atoi\<close>: nothing is zero, too much is the largest integer.\<close>

definition mysql_atoi :: "string \<Rightarrow> int" where
  "mysql_atoi s = (case Atoi s of Some n \<Rightarrow> n | None \<Rightarrow> if s = [] then 0 else MaxInt64)"

definition mentionsMariaDB :: "string \<Rightarrow> bool" where
  "mentionsMariaDB s \<longleftrightarrow> Contains (ToLower s) ''mariadb''"

definition read_version :: "string \<Rightarrow> Flavor \<Rightarrow> string \<times> string \<times> string \<Rightarrow> serverVersion" where
  "read_version raw flavor m = (case m of (a, b, c) \<Rightarrow>
     \<lparr>mvRaw = raw, mvMajor = mysql_atoi a, mvMinor = mysql_atoi b, mvPatch = mysql_atoi c, mvFlavor = flavor\<rparr>)"

definition parseServerVersion :: "string \<Rightarrow> string \<Rightarrow> serverVersion result" where
  "parseServerVersion raw comment =
     (case find_version raw of
        None \<Rightarrow> Inl (version_unread raw)
      | Some m \<Rightarrow>
          Inr (read_version raw (if mentionsMariaDB raw \<or> mentionsMariaDB comment then FlavorMariaDB else FlavorMySQL) m))"

text \<open>The white space of \<open>\s\<close>; \<open>distrib_at\<close> is \<open>Distrib\s+\<close> and a version at the start of a string.\<close>

definition re_space :: "char \<Rightarrow> bool" where
  "re_space c \<longleftrightarrow> c \<in> {CHR 0x20, CHR 0x09, CHR 0x0A, CHR 0x0C, CHR 0x0D}"

definition distrib_at :: "string \<Rightarrow> (string \<times> string \<times> string) option" where
  "distrib_at s =
     (if HasPrefix s ''Distrib'' \<and> takeWhile re_space (drop 7 s) \<noteq> []
      then version_at (dropWhile re_space (drop 7 s)) else None)"

fun find_distrib :: "string \<Rightarrow> (string \<times> string \<times> string) option" where
  "find_distrib [] = None"
| "find_distrib (c # cs) = (case distrib_at (c # cs) of Some m \<Rightarrow> Some m | None \<Rightarrow> find_distrib cs)"

definition parseClientVersion :: "string \<Rightarrow> serverVersion result" where
  "parseClientVersion output =
     (let plain = (case find_version output of
                     None \<Rightarrow> Inl (version_unread (TrimSpace output))
                   | Some m \<Rightarrow> Inr (read_version (TrimSpace output)
                       (if mentionsMariaDB output then FlavorMariaDB else FlavorMySQL) m))
      in if mentionsMariaDB output
         then (case find_distrib output of Some m \<Rightarrow> Inr (read_version (TrimSpace output) FlavorMariaDB m) | None \<Rightarrow> plain)
         else plain)"

section \<open>Connections\<close>

record myConn =
  mcHost :: string
  mcPort :: int
  mcUser :: string
  mcPassword :: string
  mcDatabase :: string
  mcParams :: "(string \<times> string) list"

definition splitAddr :: "string \<Rightarrow> (string \<times> int) result" where
  "splitAddr addr =
     (case Cut addr '':'' of
        (h, portText, found) \<Rightarrow>
          if \<not> found then Inr (addr, 3306)
          else case Atoi portText of
                 None \<Rightarrow> Inl (ErrText (''the connection string has an invalid port '' @ fmt_q portText))
               | Some port \<Rightarrow> Inr (h, port))"

definition param_of :: "myConn \<Rightarrow> string \<Rightarrow> string" where
  "param_of c key = (case map_of (mcParams c) key of None \<Rightarrow> [] | Some v \<Rightarrow> v)"

definition tlsArgs :: "myConn \<Rightarrow> string list" where
  "tlsArgs c =
     (let mode = ToLower (param_of c ''tls'') in
      (if mode \<in> set [''true'', ''required'', ''skip-verify''] then [''--ssl-mode=REQUIRED'']
       else if mode = ''preferred'' then [''--ssl-mode=PREFERRED'']
       else if mode = ''false'' \<or> mode = [] then []
       else [''--ssl-mode=REQUIRED''])
      @ (if param_of c ''ssl-ca'' \<noteq> [] then [''--ssl-ca='' @ param_of c ''ssl-ca''] else []))"

definition conn_args :: "myConn \<Rightarrow> string list" where
  "conn_args c =
     [''--host='' @ mcHost c, ''--port='' @ Itoa (mcPort c), ''--protocol=TCP'']
     @ (if mcUser c \<noteq> [] then [''--user='' @ mcUser c] else []) @ tlsArgs c"

definition my_env :: "myConn \<Rightarrow> (string \<times> string) list" where
  "my_env c = [(''MYSQL_PWD'', mcPassword c)]"

section \<open>What the probe learns\<close>

record capabilities =
  caVersion :: serverVersion
  caLogBin :: bool
  caGTID :: bool
  caCanFlush :: bool
  caCanReadPosition :: bool
  caNonInnoDB :: "string list"

text \<open>What the server answers: \<open>None\<close> where the adapter takes a failing query for an answer.\<close>

record my_server =
  msConnect :: "err option"
  msVersion :: "string result"
  msComment :: string
  msLogBin :: "string option"
  msGtidMode :: "string option"
  msGrants :: "string list option"
  msTables :: "(string \<times> string \<times> int) list result"
  msCount :: "string \<Rightarrow> int result"

definition boolSetting :: "string option \<Rightarrow> bool" where
  "boolSetting v = (case v of None \<Rightarrow> False | Some s \<Rightarrow> ToUpper s \<in> set [''1'', ''ON'', ''TRUE''])"

definition gtidEnabled :: "string option \<Rightarrow> bool" where
  "gtidEnabled v = (case v of None \<Rightarrow> False | Some s \<Rightarrow> ToUpper s = ''ON'' \<or> ToUpper s = ''ON_PERMISSIVE'')"

definition grant_scope :: "string \<Rightarrow> string" where
  "grant_scope line = (case Cut (ToUpper line) '' TO '' of (scope, _, found) \<Rightarrow> if found then scope else ToUpper line)"

fun parse_grants :: "bool \<Rightarrow> bool \<Rightarrow> string list \<Rightarrow> bool \<times> bool" where
  "parse_grants canFlush canRead [] = (canFlush, canRead)"
| "parse_grants canFlush canRead (line # lines) =
     (let scope = grant_scope line in
      if \<not> Contains scope '' ON *.*'' then parse_grants canFlush canRead lines
      else if Contains scope ''ALL PRIVILEGES'' \<or> Contains scope ''SUPER'' then (True, True)
      else parse_grants (canFlush \<or> Contains scope ''RELOAD'' \<or> Contains scope ''FLUSH_TABLES'')
             (canRead \<or> Contains scope ''REPLICATION CLIENT'' \<or> Contains scope ''REPLICATION_CLIENT''
              \<or> Contains scope ''BINLOG MONITOR'' \<or> Contains scope ''BINLOG_MONITOR'') lines)"

definition my_grants :: "string list option \<Rightarrow> bool \<times> bool" where
  "my_grants v = (case v of None \<Rightarrow> (False, False) | Some lines \<Rightarrow> parse_grants False False lines)"

definition transactional :: "string \<Rightarrow> bool" where
  "transactional e \<longleftrightarrow> ToLower e \<in> set [''innodb'', ''rocksdb'']"

definition nonInnoDB_of :: "(string \<times> string \<times> int) list \<Rightarrow> string list" where
  "nonInnoDB_of rows =
     map (\<lambda>(n, e, _). n @ '' ('' @ e @ '')'') (filter (\<lambda>(n, e, _). e \<noteq> [] \<and> \<not> transactional e) rows)"

fun my_countExactly :: "my_server \<Rightarrow> TableInfo list \<Rightarrow> TableInfo list result" where
  "my_countExactly sv [] = Inr []"
| "my_countExactly sv (t # ts) =
     (case msCount sv (tiName t) of
        Inl err \<Rightarrow> Inl (ErrWrap (''counting rows of '' @ tiName t) err)
      | Inr n \<Rightarrow>
          (case my_countExactly sv ts of
             Inl err \<Rightarrow> Inl err
           | Inr rest \<Rightarrow> Inr (t\<lparr>tiRows := n, tiRowsExact := True\<rparr> # rest)))"

definition my_tables :: "string \<Rightarrow> my_server \<Rightarrow> (TableInfo list \<times> string list) result" where
  "my_tables rowEstimate sv =
     (case msTables sv of
        Inl err \<Rightarrow> Inl (ErrWrap ''listing tables'' err)
      | Inr rows \<Rightarrow>
          (let tables = map (\<lambda>(n, e, r). \<lparr>tiName = n, tiRows = (if rowEstimate = ''estimate'' then r else 0),
                 tiRowsExact = False, tiStorageEngine = e\<rparr>) rows
           in case (if rowEstimate = ''exact'' then my_countExactly sv tables else Inr tables) of
                Inl err \<Rightarrow> Inl err
              | Inr ts \<Rightarrow> Inr (ts, nonInnoDB_of rows)))"

definition my_inspect :: "string \<Rightarrow> myConn \<Rightarrow> my_server \<Rightarrow> (capabilities \<times> TableInfo list) result" where
  "my_inspect rowEstimate c sv =
     (case msConnect sv of
        Some e \<Rightarrow>
          Inl (ErrText (''connecting to '' @ mcHost c @ '':'' @ Itoa (mcPort c) @ ''/'' @ mcDatabase c @ '': ''
            @ redactDriverError (err_text e) (mcPassword c)))
      | None \<Rightarrow>
          (case msVersion sv of
             Inl err \<Rightarrow> Inl (ErrWrap ''reading the server version'' err)
           | Inr raw \<Rightarrow>
               (case parseServerVersion raw (msComment sv) of
                  Inl err \<Rightarrow> Inl err
                | Inr version \<Rightarrow>
                    (case my_tables rowEstimate sv of
                       Inl err \<Rightarrow> Inl err
                     | Inr (tables, nonInnoDB) \<Rightarrow>
                         Inr (\<lparr>caVersion = version, caLogBin = boolSetting (msLogBin sv), caGTID = gtidEnabled (msGtidMode sv),
                                caCanFlush = fst (my_grants (msGrants sv)), caCanReadPosition = snd (my_grants (msGrants sv)),
                                caNonInnoDB = nonInnoDB\<rparr>, tables)))))"

section \<open>The flags of a dump\<close>

definition binlogPositionFlag :: "serverVersion \<Rightarrow> string" where
  "binlogPositionFlag v = (if mvFlavor v = FlavorMySQL \<and> AtLeast v 8 0 26 then ''--source-data'' else ''--master-data'')"

definition my_dumpArgs :: "capabilities \<Rightarrow> string \<Rightarrow> NonInnoDB \<Rightarrow> string list \<times> Consistency" where
  "my_dumpArgs caps database onNonInnoDB =
     (let v = caVersion caps;
          base = [''--quick'', ''--routines'', ''--triggers'', ''--events'', ''--hex-blob'']
            @ (if mvFlavor v = FlavorMySQL \<and> AtLeast v 8 0 0 then [''--no-tablespaces''] else []);
          (snapshot, consistency) =
            (if onNonInnoDB = ''lock'' then ([''--lock-all-tables''], ''locked_tables'')
             else ([''--single-transaction'', ''--skip-lock-tables''],
                   if caNonInnoDB caps \<noteq> [] then ''best_effort'' else ''single_transaction''));
          position = (if caLogBin caps \<and> caCanFlush caps \<and> caCanReadPosition caps then [binlogPositionFlag v @ ''=2''] else []);
          gtid = (if caGTID caps \<and> mvFlavor v = FlavorMySQL then [''--set-gtid-purged=ON''] else [])
      in (base @ snapshot @ position @ gtid @ [database], consistency))"

definition missingPrivileges :: "capabilities \<Rightarrow> string" where
  "missingPrivileges caps =
     Join '' and no ''
       ((if \<not> caCanFlush caps then [''RELOAD privilege''] else [])
        @ (if \<not> caCanReadPosition caps then [''REPLICATION CLIENT privilege''] else []))"

definition nonInnoDB_message :: "string list \<Rightarrow> string" where
  "nonInnoDB_message tables =
     Itoa (int (length tables)) @ '' table(s) use a non-transactional storage engine ('' @ Join '', '' tables
     @ ''), which --single-transaction cannot dump consistently''"

definition handleNonInnoDB :: "NonInnoDB \<Rightarrow> string list \<Rightarrow> string result" where
  "handleNonInnoDB onNonInnoDB tables =
     (let message = nonInnoDB_message tables in
      if onNonInnoDB = ''fail''
      then Inl (ErrText (message @ ''; set on_non_innodb: lock to lock the server instead, or warn to accept it''))
      else if onNonInnoDB = ''lock'' then Inr (message @ ''; locking every table for the duration of the dump'')
      else Inr (message @ ''; those tables are dumped without a snapshot''))"

definition position_warning :: "capabilities \<Rightarrow> string list" where
  "position_warning caps =
     (if \<not> caLogBin caps
      then [''binary logging is off, so the dump records no replication position; point-in-time recovery from it will not be possible'']
      else if \<not> caCanFlush caps \<or> \<not> caCanReadPosition caps
      then [''the backup user has no '' @ missingPrivileges caps @ '', so the dump records no replication position; grant ''
            @ missingPrivileges caps @ '' to make point-in-time recovery possible'']
      else [])"

section \<open>Clients\<close>

definition clientNames :: "Flavor \<Rightarrow> string list" where
  "clientNames flavor = (if flavor = FlavorMariaDB then [''mariadb-dump'', ''mysqldump''] else [''mysqldump''])"

definition restoreClientNames :: "Flavor \<Rightarrow> string list" where
  "restoreClientNames flavor = (if flavor = FlavorMariaDB then [''mariadb'', ''mysql''] else [''mysql''])"

definition candidatePaths :: "host \<Rightarrow> string \<Rightarrow> string \<Rightarrow> string list" where
  "candidatePaths h name binDir =
     (if binDir \<noteq> [] then [path_Join [binDir, name]] else case hsLookPath h name of None \<Rightarrow> [] | Some p \<Rightarrow> [p])"

definition probeClient :: "host \<Rightarrow> string \<Rightarrow> string \<Rightarrow> (Binary \<times> serverVersion) result" where
  "probeClient h name path =
     (case hsStat h path of
        Inl err \<Rightarrow> Inl err
      | Inr usable \<Rightarrow>
          if \<not> usable then Inl (ErrText (path @ '' is not executable''))
          else case hsOutput h path of
                 Inl err \<Rightarrow> Inl (ErrWrap (''running '' @ path @ '' --version'') err)
               | Inr out \<Rightarrow>
                   (case parseClientVersion out of
                      Inl err \<Rightarrow> Inl err
                    | Inr v \<Rightarrow> Inr (\<lparr>bnName = name, bnPath = path, bnVersion = version_String v, bnMajor = mvMajor v\<rparr>, v)))"

text \<open>The candidates in order: \<open>Inr\<close> the first of the right fork, else \<open>Inl\<close> what the others were.\<close>

fun my_search :: "host \<Rightarrow> Flavor \<Rightarrow> (string \<times> string) list \<Rightarrow> (string \<times> serverVersion) list + Binary \<times> serverVersion" where
  "my_search h flavor [] = Inl []"
| "my_search h flavor ((name, path) # rest) =
     (case probeClient h name path of
        Inl _ \<Rightarrow> my_search h flavor rest
      | Inr (b, v) \<Rightarrow>
          if mvFlavor v \<noteq> flavor
          then (case my_search h flavor rest of Inl bad \<Rightarrow> Inl ((path, v) # bad) | Inr found \<Rightarrow> Inr found)
          else Inr (b, v))"

definition my_candidates :: "host \<Rightarrow> string list \<Rightarrow> string \<Rightarrow> (string \<times> string) list" where
  "my_candidates h names binDir = concat (map (\<lambda>name. map (Pair name) (candidatePaths h name binDir)) names)"

definition package_hint :: "Flavor \<Rightarrow> string" where
  "package_hint flavor = (if flavor = FlavorMariaDB then ''mariadb-client'' else ''mysql-client'')"

definition my_clientError :: "serverVersion \<Rightarrow> string list \<Rightarrow> err" where
  "my_clientError v mismatched =
     (let server = ''server is '' @ mvFlavor v @ '' '' @ version_String v;
          install = '' (install '' @ package_hint (mvFlavor v) @ '', or run the vaultd container image)''
      in if mismatched \<noteq> []
         then ErrText (server @ '', but no '' @ mvFlavor v @ '' client was found: '' @ Join ''; '' mismatched @ install)
         else ErrText (server @ '', need '' @ Join '' or '' (clientNames (mvFlavor v)) @ '', found none installed'' @ install))"

definition my_resolveClient :: "host \<Rightarrow> string \<Rightarrow> serverVersion \<Rightarrow> (Binary \<times> string) result" where
  "my_resolveClient h binDir v =
     (case my_search h (mvFlavor v) (my_candidates h (clientNames (mvFlavor v)) binDir) of
        Inr (b, cv) \<Rightarrow>
          Inr (b, if mvMajor cv < mvMajor v
                  then bnName b @ '' is version '' @ version_String cv @ '', older than the '' @ mvFlavor v @ '' '' @ version_String v
                    @ '' server; it may not understand every construct in this database''
                  else [])
      | Inl bad \<Rightarrow>
          Inl (my_clientError v (map (\<lambda>(p, cv). p @ '' is '' @ mvFlavor cv @ [CHR 0x27] @ ''s ('' @ version_String cv @ '')'') bad)))"

section \<open>Probing and dumping\<close>

record myOptions =
  moFlavor :: Flavor
  moOnNonInnoDB :: NonInnoDB
  moRowEstimate :: string
  moBinDir :: string

definition engineOf :: "Flavor \<Rightarrow> Engine" where
  "engineOf flavor = (if flavor = FlavorMariaDB then EngineMariaDB else EngineMySQL)"

text \<open>\<open>kept\<close> is what an earlier probe of the same dumper found, which is not asked for again.\<close>

type_synonym my_probed = "ServerInfo \<times> capabilities \<times> Binary"

definition my_probe :: "host \<Rightarrow> myOptions \<Rightarrow> myConn \<Rightarrow> my_probed option \<Rightarrow> my_server \<Rightarrow> my_probed result" where
  "my_probe h opts c kept sv =
     (case kept of Some r \<Rightarrow> Inr r | None \<Rightarrow>
      case my_inspect (moRowEstimate opts) c sv of
        Inl err \<Rightarrow> Inl err
      | Inr (caps, tables) \<Rightarrow>
          (let v = caVersion caps in
           if mvFlavor v \<noteq> moFlavor opts
           then Inl (ErrText (''target is declared as '' @ moFlavor opts @ '' but the server reports '' @ mvFlavor v @ '' ''
                  @ version_String v @ ''; set engine: '' @ mvFlavor v))
           else
             case (if caNonInnoDB caps \<noteq> [] then map_sum id (\<lambda>w. [w]) (handleNonInnoDB (moOnNonInnoDB opts) (caNonInnoDB caps)) else Inr []) of
               Inl err \<Rightarrow> Inl err
             | Inr ws \<Rightarrow>
                 if moOnNonInnoDB opts = ''lock'' \<and> \<not> caCanFlush caps
                 then Inl (ErrText ''on_non_innodb: lock needs the RELOAD privilege to lock every table, which this user does not have; grant RELOAD or use warn'')
                 else
                   case my_resolveClient h (moBinDir opts) v of
                     Inl err \<Rightarrow> Inl err
                   | Inr (b, warning) \<Rightarrow>
                       Inr (\<lparr>siEngine = engineOf (mvFlavor v), siVersion = version_String v,
                              siConsistency = snd (my_dumpArgs caps (mcDatabase c) (moOnNonInnoDB opts)), siTables = tables,
                              siWarnings = ws @ position_warning caps @ (if warning \<noteq> [] then [warning] else [])\<rparr>, caps, b)))"

definition my_Dump ::
  "(string \<Rightarrow> string list \<Rightarrow> string list \<Rightarrow> execution) \<Rightarrow> (string \<Rightarrow> string) \<Rightarrow> host \<Rightarrow> myOptions \<Rightarrow> myConn \<Rightarrow> my_probed option \<Rightarrow> my_server
     \<Rightarrow> DumpResult result \<times> string" where
  "my_Dump exec getenv h opts c kept sv =
     (case my_probe h opts c kept sv of
        Inl err \<Rightarrow> (Inl err, [])
      | Inr (info, caps, b) \<Rightarrow>
          (let (flags, consistency) = my_dumpArgs caps (mcDatabase c) (moOnNonInnoDB opts);
               x = exec (bnPath b) (conn_args c @ flags) (engine_Env getenv (my_env c));
               stderr = stderr_tail x
           in case run_error (bnName b) stderr x of
                Some err \<Rightarrow> (Inl err, xeStdout x)
              | None \<Rightarrow>
                  (Inr \<lparr>drConsistency = consistency, drTables = siTables info, drBinlogPos = [], drOplogEnd = [],
                         drDumperVersion = Binary_String b, drStderrTail = stderr\<rparr>, xeStdout x)))"

definition my_resolveRestoreClient :: "host \<Rightarrow> string \<Rightarrow> Flavor \<Rightarrow> Binary result" where
  "my_resolveRestoreClient h binDir flavor =
     (case my_search h flavor (my_candidates h (restoreClientNames flavor) binDir) of
        Inr (b, _) \<Rightarrow> Inr b
      | Inl bad \<Rightarrow>
          if bad \<noteq> []
          then Inl (ErrText (''no '' @ flavor @ '' client to restore with: ['' @ Join '' '' (map (\<lambda>(p, cv). p @ '' is '' @ mvFlavor cv @ [CHR 0x27] @ ''s'') bad)
                 @ ''] (install '' @ package_hint flavor @ '')''))
          else Inl (ErrText (''no '' @ flavor @ '' client to restore with; install '' @ package_hint flavor @ '', or run the vaultd container image'')))"

definition my_Restore ::
  "(string \<Rightarrow> string list \<Rightarrow> string list \<Rightarrow> execution) \<Rightarrow> (string \<Rightarrow> string) \<Rightarrow> host \<Rightarrow> string \<Rightarrow> Flavor \<Rightarrow> myConn \<Rightarrow> unit result" where
  "my_Restore exec getenv h binDir flavor c =
     (case my_resolveRestoreClient h binDir flavor of
        Inl err \<Rightarrow> Inl err
      | Inr b \<Rightarrow>
          (let x = exec (bnPath b) (conn_args c @ [''--database='' @ mcDatabase c]) (engine_Env getenv (my_env c))
           in case run_error (bnName b) (stderr_tail x) x of Some err \<Rightarrow> Inl err | None \<Rightarrow> Inr ()))"

definition quoteIdentifier :: "string \<Rightarrow> string" where
  "quoteIdentifier name = [CHR 0x60] @ concat (map (\<lambda>c. if c = CHR 0x60 then [c, c] else [c]) name) @ [CHR 0x60]"

end
