(* ===== verification/Engine_Mongo.thy ===== *)
theory Engine_Mongo
  imports Engine_Postgres Engine_Mysql
begin

text \<open>
  The MongoDB adapter, \<open>internal/engine/mongodb\<close>: what the probe decides about the oplog, the
  arguments of a dump and a restore, the single database a sandbox needs, and the guard of a verify
  target; with the guard and the sandbox calls of the MySQL adapter, which has the same shape. The
  driver and the server are parameters.
\<close>

section \<open>Dumping\<close>

record mgConn =
  mgRaw :: string
  mgHosts :: string
  mgUser :: string
  mgPassword :: string
  mgDatabase :: string

definition systemDatabases :: "string list" where
  "systemDatabases = [''admin'', ''local'', ''config'']"

record deployment =
  dpVersion :: string
  dpReplicaSet :: string

definition leadingDigits :: "string \<Rightarrow> string" where
  "leadingDigits s = takeWhile is_digit s"

text \<open>The loop over the three weights stops at the first component that is missing or no number.\<close>

fun version_sum :: "int list \<Rightarrow> string list \<Rightarrow> int" where
  "version_sum (w # ws) (p # ps) =
     (case Atoi (leadingDigits p) of None \<Rightarrow> 0 | Some v \<Rightarrow> v * w + version_sum ws ps)"
| "version_sum _ _ = 0"

definition mg_versionNum :: "string \<Rightarrow> int" where
  "mg_versionNum version = wrap64 (version_sum [10000, 100, 1] (Split_char CHR 0x2E version))"

record mgOptions =
  goOplog :: bool
  goRowEstimate :: string
  goParallel :: int

definition defaultParallelCollections :: int where "defaultParallelCollections = 4"

definition mg_New :: "mgOptions \<Rightarrow> mgOptions" where
  "mg_New opts =
     opts\<lparr>goRowEstimate := (if goRowEstimate opts = [] then ''estimate'' else goRowEstimate opts),
          goParallel := (if goParallel opts \<le> 0 then defaultParallelCollections else goParallel opts)\<rparr>"

text \<open>The consistency of the dump, the warnings, and whether the oplog is captured.\<close>

definition oplog_plan :: "mgOptions \<Rightarrow> mgConn \<Rightarrow> deployment \<Rightarrow> Consistency \<times> string list \<times> bool" where
  "oplog_plan opts c d =
     (if \<not> goOplog opts
      then (''best_effort'',
            if dpReplicaSet d \<noteq> []
            then [''this is a replica set, so a point-in-time consistent dump is available; set options.oplog: true to use it''] else [],
            False)
      else if dpReplicaSet d = []
      then (''best_effort'',
            [''oplog was requested but this server is standalone, not a replica set; the dump is consistent per collection only''], False)
      else if mgDatabase c \<noteq> []
      then (''best_effort'',
            [''oplog was requested but the URI names a single database; mongodump only captures the oplog on a full dump''], False)
      else (''point_in_time'', [], True))"

text \<open>\<open>kept\<close> is what an earlier probe of the same dumper found, which is not asked for again.\<close>

type_synonym mg_probed = "ServerInfo \<times> bool \<times> Binary"

definition mg_probe ::
  "mgOptions \<Rightarrow> mgConn \<Rightarrow> mg_probed option \<Rightarrow> (deployment \<times> TableInfo list) result \<Rightarrow> Binary result \<Rightarrow> mg_probed result" where
  "mg_probe opts c kept inspected client =
     (case kept of Some r \<Rightarrow> Inr r | None \<Rightarrow>
      case inspected of
        Inl err \<Rightarrow> Inl err
      | Inr (d, collections) \<Rightarrow>
          (case oplog_plan opts c d of
             (consistency, warnings, useOplog) \<Rightarrow>
               (case client of
                  Inl err \<Rightarrow> Inl err
                | Inr b \<Rightarrow>
                    Inr (\<lparr>siEngine = EngineMongoDB, siVersion = dpVersion d, siConsistency = consistency,
                           siTables = collections, siWarnings = warnings\<rparr>, useOplog, b))))"

definition mg_resolveClient :: "host \<Rightarrow> string \<Rightarrow> string \<Rightarrow> Binary result" where
  "mg_resolveClient h name binDir =
     (if binDir \<noteq> [] then
        (case hsStat h (path_Join [binDir, name]) of
           Inr True \<Rightarrow> ProbeBinary (hsOutput h) name (path_Join [binDir, name])
         | _ \<Rightarrow> Inl (ErrText (''bin_dir '' @ binDir @ '' holds no usable '' @ name)))
      else case hsLookPath h name of
             None \<Rightarrow> Inl (ErrText (name @ '' is not installed (install mongodb-database-tools, or run the vaultd container image)''))
           | Some p \<Rightarrow> ProbeBinary (hsOutput h) name p)"

definition mg_dump_args :: "mgOptions \<Rightarrow> mgConn \<Rightarrow> bool \<Rightarrow> string list" where
  "mg_dump_args opts c useOplog =
     [''--archive'', ''--numParallelCollections='' @ Itoa (goParallel opts)]
     @ (if useOplog then [''--oplog''] else [])
     @ (if mgDatabase c \<noteq> [] then [''--db='' @ mgDatabase c] else [])"

text \<open>\<open>devfd\<close> is \<open>None\<close> without a \<open>/dev/fd\<close>, else what opening a pipe to hand the URI over answers.\<close>

definition credentialArgs :: "unit result option \<Rightarrow> mgConn \<Rightarrow> string list result" where
  "credentialArgs devfd c =
     (case devfd of
        None \<Rightarrow> Inr [''--uri='' @ mgRaw c]
      | Some (Inl err) \<Rightarrow> Inl (ErrWrap ''preparing the connection handoff'' err)
      | Some (Inr _) \<Rightarrow> Inr [''--config=/dev/fd/3''])"

text \<open>\<open>redact\<close> takes the credentials out of the client's output; \<open>oplogHead\<close> is asked once the dump is done.\<close>

definition mg_Dump ::
  "(string \<Rightarrow> string list \<Rightarrow> string list \<Rightarrow> execution) \<Rightarrow> (string \<Rightarrow> string) \<Rightarrow> (string \<Rightarrow> string) \<Rightarrow> unit result option \<Rightarrow> string result
     \<Rightarrow> mgOptions \<Rightarrow> mgConn \<Rightarrow> mg_probed option \<Rightarrow> (deployment \<times> TableInfo list) result \<Rightarrow> Binary result \<Rightarrow> DumpResult result \<times> string" where
  "mg_Dump exec getenv redact devfd oplogHead opts c kept inspected client =
     (case mg_probe opts c kept inspected client of
        Inl err \<Rightarrow> (Inl err, [])
      | Inr (info, useOplog, b) \<Rightarrow>
          (case credentialArgs devfd c of
             Inl err \<Rightarrow> (Inl err, [])
           | Inr credentials \<Rightarrow>
          (let x = exec (bnPath b) (mg_dump_args opts c useOplog @ credentials) (engine_Env getenv []);
               stderr = redact (stderr_tail x)
           in case run_error (bnName b) stderr x of
                Some err \<Rightarrow> (Inl err, xeStdout x)
              | None \<Rightarrow>
                  (Inr \<lparr>drConsistency = siConsistency info, drTables = siTables info, drBinlogPos = [],
                         drOplogEnd = (if useOplog then (case oplogHead of Inr hd' \<Rightarrow> hd' | Inl _ \<Rightarrow> []) else []),
                         drDumperVersion = Binary_String b, drStderrTail = stderr\<rparr>, xeStdout x))))"

definition mg_restore_args :: "int \<Rightarrow> bool \<Rightarrow> string \<Rightarrow> string \<Rightarrow> string list" where
  "mg_restore_args parallel dropFirst nsFrom nsTo =
     [''--archive'', ''--numParallelCollections='' @ Itoa parallel]
     @ (if dropFirst then [''--drop''] else [])
     @ (if nsFrom \<noteq> [] \<and> nsTo \<noteq> [] then [''--nsFrom='' @ nsFrom, ''--nsTo='' @ nsTo] else [])"

definition mg_Restore ::
  "(string \<Rightarrow> string list \<Rightarrow> string list \<Rightarrow> execution) \<Rightarrow> (string \<Rightarrow> string) \<Rightarrow> (string \<Rightarrow> string) \<Rightarrow> unit result option
     \<Rightarrow> Binary result \<Rightarrow> mgConn \<Rightarrow> int \<Rightarrow> bool \<Rightarrow> string \<Rightarrow> string \<Rightarrow> unit result" where
  "mg_Restore exec getenv redact devfd client c parallel dropFirst nsFrom nsTo =
     (case client of
        Inl err \<Rightarrow> Inl err
      | Inr b \<Rightarrow>
          (case credentialArgs devfd c of
             Inl err \<Rightarrow> Inl err
           | Inr credentials \<Rightarrow>
               (let x = exec (bnPath b) (mg_restore_args parallel dropFirst nsFrom nsTo @ credentials) (engine_Env getenv [])
                in case run_error (bnName b) (redact (stderr_tail x)) x of Some err \<Rightarrow> Inl err | None \<Rightarrow> Inr ())))"

section \<open>Sandboxes\<close>

definition sourceDatabase :: "TableInfo list \<Rightarrow> string result" where
  "sourceDatabase tables =
     (let seen = remdups (List.map_filter (\<lambda>t. case Cut (tiName t) ''.'' of
            (database, _, found) \<Rightarrow> if found \<and> database \<noteq> [] then Some database else None) tables)
      in case seen of
           [database] \<Rightarrow> Inr database
         | [] \<Rightarrow> Inl (ErrJoin '': '' ErrSandboxUnsupported
             (ErrText ''the manifest lists no collections, so there is no namespace to restore into''))
         | _ \<Rightarrow> Inl (ErrJoin '': '' ErrSandboxUnsupported
             (ErrText (''this backup holds '' @ Itoa (int (length seen)) @ '' databases ('' @ Join '', '' (sort seen)
               @ ''); restore verification renames one database into the ephemeral one, so point the target's uri at a single database''))))"

definition mg_guard :: "string \<Rightarrow> string \<Rightarrow> err option" where
  "mg_guard pfx name =
     (if \<not> HasPrefix name pfx \<or> name = pfx then Some (guard_prefix_error name pfx)
      else if name \<in> set systemDatabases
      then Some (ErrText (''refusing to touch database '' @ fmt_q name @ '': it is one of MongoDB's own''))
      else None)"

text \<open>\<open>EqualFold\<close> on the names MySQL allows.\<close>

definition my_guard :: "string \<Rightarrow> myConn \<Rightarrow> string \<Rightarrow> err option" where
  "my_guard pfx c name =
     (if \<not> HasPrefix name pfx \<or> name = pfx then Some (guard_prefix_error name pfx)
      else if ToLower name = ToLower (mcDatabase c)
      then Some (ErrText (''refusing to touch database '' @ fmt_q name @ '': it is the verify target's own connection''))
      else None)"

text \<open>The statements on an administrative connection; MongoDB has no \<open>create\<close>, only a check that
  the name holds nothing. The error of connecting is worded already; \<open>fail\<close> words the others.\<close>

record 'p admin =
  adConnect :: "('p, unit) action"
  adCreate :: "string \<Rightarrow> ('p, unit) action"
  adDrop :: "string \<Rightarrow> ('p, unit) action"
  adCollections :: "string \<Rightarrow> ('p, int) action"

definition sandbox_Drop :: "'p admin \<Rightarrow> (string \<Rightarrow> err option) \<Rightarrow> (string \<Rightarrow> err \<Rightarrow> err) \<Rightarrow> string \<Rightarrow> ('p, unit) action" where
  "sandbox_Drop ad guard fail name s =
     (case guard name of
        Some err \<Rightarrow> (Inl err, s)
      | None \<Rightarrow>
          (case adConnect ad s of
             (Inl err, s1) \<Rightarrow> (Inl err, s1)
           | (Inr _, s1) \<Rightarrow>
               (case adDrop ad name s1 of
                  (Inl e, s2) \<Rightarrow> (Inl (fail (''dropping the verify database '' @ name) e), s2)
                | (Inr _, s2) \<Rightarrow> (Inr (), s2))))"

text \<open>\<open>usable\<close> is the error of pointing the connection at the new database, if any.\<close>

definition my_Create ::
  "'p admin \<Rightarrow> (string \<Rightarrow> err option) \<Rightarrow> (string \<Rightarrow> err \<Rightarrow> err) \<Rightarrow> (string \<Rightarrow> err option) \<Rightarrow> string \<Rightarrow> ('p, unit) action" where
  "my_Create ad guard fail usable name s =
     (case guard name of
        Some err \<Rightarrow> (Inl err, s)
      | None \<Rightarrow>
          (case adConnect ad s of
             (Inl err, s1) \<Rightarrow> (Inl err, s1)
           | (Inr _, s1) \<Rightarrow>
               (case adCreate ad name s1 of
                  (Inl e, s2) \<Rightarrow> (Inl (fail (''creating the verify database '' @ name) e), s2)
                | (Inr _, s2) \<Rightarrow>
                    (case usable name of
                       None \<Rightarrow> (Inr (), s2)
                     | Some err \<Rightarrow> (Inl err, snd (sandbox_Drop ad guard fail name s2))))))"

text \<open>A sandbox of MongoDB is the rename of its source into the new name.\<close>

definition mg_Create ::
  "'p admin \<Rightarrow> string \<Rightarrow> (string \<Rightarrow> err \<Rightarrow> err) \<Rightarrow> (string \<Rightarrow> err option) \<Rightarrow> string \<Rightarrow> TableInfo list \<Rightarrow> ('p, string \<times> string) action" where
  "mg_Create ad pfx fail usable name tables s =
     (case mg_guard pfx name of
        Some err \<Rightarrow> (Inl err, s)
      | None \<Rightarrow>
          (case sourceDatabase tables of
             Inl err \<Rightarrow> (Inl err, s)
           | Inr src \<Rightarrow>
               (case adConnect ad s of
                  (Inl err, s1) \<Rightarrow> (Inl err, s1)
                | (Inr _, s1) \<Rightarrow>
                    (case adCollections ad name s1 of
                       (Inl e, s2) \<Rightarrow> (Inl (fail (''inspecting the verify database '' @ name) e), s2)
                     | (Inr n, s2) \<Rightarrow>
                         if n > 0
                         then (Inl (ErrText (''the verify database '' @ name @ '' already holds '' @ Itoa n
                                @ '' collections; run `vaultd verify --gc` to collect what a crashed run left behind'')), s2)
                         else case usable name of
                                Some err \<Rightarrow> (Inl err, s2)
                              | None \<Rightarrow> (Inr (src @ ''.*'', name @ ''.*''), s2)))))"

definition mg_List :: "string \<Rightarrow> string list \<Rightarrow> string list" where
  "mg_List pfx names = sort (filter (\<lambda>name. HasPrefix name pfx \<and> name \<noteq> pfx) names)"

text \<open>The collection a manifest's table names, seen from the sandbox.\<close>

definition mg_collection :: "string \<Rightarrow> string \<Rightarrow> string" where
  "mg_collection src table = fst (CutPrefix table (src @ ''.''))"

text \<open>The table MySQL counts: what follows the first dot, when there is one.\<close>

definition my_counted :: "string \<Rightarrow> string" where
  "my_counted table = (case Cut table ''.'' of (_, unqualified, found) \<Rightarrow> if found then unqualified else table)"

end
