(* ===== verification/Engine_Run.thy ===== *)
theory Engine_Run
  imports Engine_Mongo
begin

text \<open>
  What the adapters guarantee: the client they run fits the server, a dump claims no more
  consistency than its flags gave it, a verify target is only touched under its prefix, and the
  values of a rewritten connection string read back as they were.
\<close>

section \<open>Clients\<close>

lemma probeCandidate_path: "probeCandidate h name p = Inr b \<Longrightarrow> bnPath b = p \<and> bnName b = name"
  by (auto simp: probeCandidate_def ProbeBinary_def split: sum.splits if_splits prod.splits)

lemma probeClient_path: "probeClient h name p = Inr (b, v) \<Longrightarrow> bnPath b = p \<and> bnName b = name"
  by (auto simp: probeClient_def split: sum.splits if_splits)

lemma pg_search_fits:
  "pg_search h name major ps = Inr b \<Longrightarrow> major \<le> bnMajor b \<and> (\<exists>p\<in>set ps. probeCandidate h name p = Inr b)"
  by (induction ps) (auto split: sum.splits if_splits)

lemma pg_search_finds:
  "p \<in> set ps \<Longrightarrow> probeCandidate h name p = Inr b \<Longrightarrow> major \<le> bnMajor b \<Longrightarrow> \<exists>b'. pg_search h name major ps = Inr b'"
  by (induction ps) (auto split: sum.splits)

lemma my_search_fits:
  "my_search h flavor cs = Inr (b, v) \<Longrightarrow> mvFlavor v = flavor \<and> (\<exists>(name, p)\<in>set cs. probeClient h name p = Inr (b, v))"
  by (induction cs) (auto split: sum.splits if_splits prod.splits)

lemma my_search_finds:
  "(name, p) \<in> set cs \<Longrightarrow> probeClient h name p = Inr (b, v) \<Longrightarrow> mvFlavor v = flavor \<Longrightarrow> \<exists>r. my_search h flavor cs = Inr r"
  by (induction cs) (auto split: sum.splits prod.splits)

lemma resolve_pg:
  assumes "pg_resolveBinary h name major binDir = Inr b"
  shows "major \<le> bnMajor b \<and> probeCandidate h name (bnPath b) = Inr b"
proof (cases "binDir = []")
  case True
  then have "pg_search h name major (pg_candidates h name major) = Inr b"
    using assms by (auto simp: pg_resolveBinary_def split: sum.splits)
  from pg_search_fits [OF this] show ?thesis using probeCandidate_path by fastforce
next
  case False
  then show ?thesis using assms probeCandidate_path
    by (fastforce simp: pg_resolveBinary_def split: sum.splits if_splits)
qed

lemma resolve_my:
  assumes "my_resolveClient h binDir v = Inr (b, w)"
  shows "\<exists>cv. probeClient h (bnName b) (bnPath b) = Inr (b, cv) \<and> mvFlavor cv = mvFlavor v \<and> (w = [] \<longleftrightarrow> mvMajor v \<le> mvMajor cv)"
proof -
  obtain cv where found: "my_search h (mvFlavor v) (my_candidates h (clientNames (mvFlavor v)) binDir) = Inr (b, cv)"
    and w: "w = [] \<longleftrightarrow> \<not> mvMajor cv < mvMajor v"
    using assms by (auto simp: my_resolveClient_def split: sum.splits if_splits)
  from my_search_fits [OF found] show ?thesis using probeClient_path w by fastforce
qed

text \<open>C39: The client an adapter runs fits the server, and one is found whenever it is there. The
  major version of a PostgreSQL client is never below that of the server; without a pinned
  directory the search gives up only when no place it looks in has one that is new enough. A client
  of MySQL or MariaDB belongs to the fork of the server, and the operator is warned exactly when
  its major version is the lower one: within a major version, as with an 8.0 client on an 8.4
  server, an older client runs without a warning. The search gives up only when no candidate
  is of that fork.\<close>

theorem client_fits:
  "(\<forall>b. pg_resolveBinary h name major binDir = Inr b \<longrightarrow> major \<le> bnMajor b \<and> probeCandidate h name (bnPath b) = Inr b) \<and>
   (\<forall>p b. p \<in> set (pg_candidates h name major) \<longrightarrow> probeCandidate h name p = Inr b \<longrightarrow> major \<le> bnMajor b \<longrightarrow>
      (\<exists>b'. pg_resolveBinary h name major [] = Inr b')) \<and>
   (\<forall>b w. my_resolveClient h binDir v = Inr (b, w) \<longrightarrow>
      (\<exists>cv. probeClient h (bnName b) (bnPath b) = Inr (b, cv) \<and> mvFlavor cv = mvFlavor v \<and> (w = [] \<longleftrightarrow> mvMajor v \<le> mvMajor cv))) \<and>
   (\<forall>n p b cv. n \<in> set (clientNames (mvFlavor v)) \<longrightarrow> p \<in> set (candidatePaths h n binDir) \<longrightarrow>
      probeClient h n p = Inr (b, cv) \<longrightarrow> mvFlavor cv = mvFlavor v \<longrightarrow> (\<exists>r. my_resolveClient h binDir v = Inr r))"
proof (intro conjI allI impI)
  fix p b
  assume "p \<in> set (pg_candidates h name major)" "probeCandidate h name p = Inr b" "major \<le> bnMajor b"
  from pg_search_finds [OF this] show "\<exists>b'. pg_resolveBinary h name major [] = Inr b'"
    by (auto simp: pg_resolveBinary_def)
next
  fix n p b cv
  assume n: "n \<in> set (clientNames (mvFlavor v))" "p \<in> set (candidatePaths h n binDir)"
    and fit: "probeClient h n p = Inr (b, cv)" "mvFlavor cv = mvFlavor v"
  have "(n, p) \<in> set (my_candidates h (clientNames (mvFlavor v)) binDir)" using n by (auto simp: my_candidates_def)
  from my_search_finds [OF this fit] show "\<exists>r. my_resolveClient h binDir v = Inr r"
    by (auto simp: my_resolveClient_def)
qed (use resolve_pg resolve_my in blast)+

section \<open>Consistency\<close>









text \<open>A MongoDB dump is recorded as \<open>point_in_time\<close> exactly when it captured the oplog, which takes
  a replica set and a dump of the whole deployment.\<close>

lemma mongo_claims:
  assumes "mg_probe opts c None (Inr (d, ts)) client = Inr (info, useOplog, b)"
  shows "siConsistency info = (if useOplog then ''point_in_time'' else ''best_effort'') \<and>
    (useOplog \<longleftrightarrow> goOplog opts \<and> dpReplicaSet d \<noteq> [] \<and> mgDatabase c = []) \<and>
    (goOplog opts \<and> \<not> useOplog \<longrightarrow> siWarnings info \<noteq> []) \<and>
    (useOplog \<longrightarrow> ''--oplog'' \<in> set (mg_dump_args opts c useOplog))"
  using assms by (auto simp: mg_probe_def oplog_plan_def mg_dump_args_def split: sum.splits if_splits)

section \<open>Verify targets\<close>

text \<open>A name without the prefix, the prefix itself and the database of the connection are refused
  before anything is sent to the server.\<close>

lemma pg_touches_prefixed_only:
  assumes "\<not> HasPrefix name pfx \<or> name = pfx \<or> name = pgDatabase c"
  shows "(\<exists>e. pg_Create ad usable pfx c name s = (Inl e, s)) \<and> (\<exists>e. pg_Drop ad pfx c name s = (Inl e, s))"
  using assms by (auto simp: pg_Create_def pg_Drop_def pg_guard_def)

lemma my_touches_prefixed_only:
  assumes "\<not> HasPrefix name pfx \<or> name = pfx \<or> ToLower name = ToLower (mcDatabase c)"
  shows "(\<exists>e. my_Create ad (my_guard pfx c) fail usable name s = (Inl e, s)) \<and>
    (\<exists>e. sandbox_Drop ad (my_guard pfx c) fail name s = (Inl e, s))"
  using assms by (auto simp: my_Create_def sandbox_Drop_def my_guard_def)

lemma mg_touches_prefixed_only:
  assumes "\<not> HasPrefix name pfx \<or> name = pfx \<or> name \<in> set systemDatabases"
  shows "(\<exists>e. mg_Create ad pfx fail usable name ts s = (Inl e, s)) \<and> (\<exists>e. sandbox_Drop ad (mg_guard pfx) fail name s = (Inl e, s))"
  using assms by (auto simp: mg_Create_def sandbox_Drop_def mg_guard_def)

text \<open>A table of MySQL may have a dot in its name; its rows are then counted in another table.\<close>

lemma dotted_table_miscounted: "my_counted ''audit.log'' = ''log''"
  by (simp add: my_counted_def HasPrefix_def)

section \<open>Connection strings\<close>

text \<open>How \<open>libpq\<close> reads a quoted value: up to the closing quote, a backslash taking the next byte as it is.\<close>

fun read_quoted :: "string \<Rightarrow> (string \<times> string) option" where
  "read_quoted [] = None"
| "read_quoted (c # cs) =
     (if c = CHR 0x27 then Some ([], cs)
      else if c = CHR 0x5C then (case cs of [] \<Rightarrow> None | d # ds \<Rightarrow> map_option (apfst ((#) d)) (read_quoted ds))
      else map_option (apfst ((#) c)) (read_quoted cs))"

lemma read_quoted_bytes: "read_quoted (concat (map dsn_byte v) @ CHR 0x27 # rest) = Some (v, rest)"
  by (induction v) (auto simp: dsn_byte_def)

lemma dsn_value_roundtrip: "quoteDSNValue v @ rest = CHR 0x27 # q \<Longrightarrow> read_quoted q = Some (v, rest)"
  using read_quoted_bytes by (auto simp: quoteDSNValue_def)

section \<open>Concrete runs\<close>

definition demo_host :: host where
  "demo_host = \<lparr>hsOutput = (\<lambda>p. if p = ''/b/pg_dump'' then Inr ''pg_dump (PostgreSQL) 17.2''
       else if p = ''/b/mysqldump'' then Inr ''mysqldump  Ver 8.0.39 for Linux on x86_64'' else Inl (ErrText ''no such file'')),
     hsStat = (\<lambda>p. if p \<in> set [''/b/pg_dump'', ''/b/mysqldump''] then Inr True else Inl (ErrText ''no such file'')),
     hsLookPath = (\<lambda>n. Some (''/b/'' @ n)), hsResolve = Some\<rparr>"













theorem client_fits_witness:
  "\<exists>b. pg_resolveBinary demo_host ''pg_dump'' 16 [] = Inr b \<and> 16 \<le> bnMajor b"
proof -
  have p: "''/b/pg_dump'' \<in> set (pg_candidates demo_host ''pg_dump'' 16)" by (simp add: pg_candidates_def demo_host_def)
  have b: "probeCandidate demo_host ''pg_dump'' ''/b/pg_dump'' = Inr \<lparr>bnName = ''pg_dump'', bnPath = ''/b/pg_dump'', bnVersion = ''17.2'', bnMajor = 17\<rparr>"
    by (simp add: demo_host_def probeCandidate_def ProbeBinary_def ParseVersion_def version_at_def version_text_def is_digit_def
        Atoi_def dec_nat_def digit_val_def in_int64_def HasPrefix_def Let_def)
  note fits = client_fits [of demo_host "''pg_dump''" 16 "[]"]
  obtain b' where "pg_resolveBinary demo_host ''pg_dump'' 16 [] = Inr b'"
    using fits [THEN conjunct2, THEN conjunct1, rule_format, OF p b] by auto
  then show ?thesis using fits [THEN conjunct1] by blast
qed


end
