(* ===== verification/Spec2Isabelle.thy ===== *)
theory Spec2Isabelle
  imports Retention_Plan Manifest_Codec Keys Index Notify Prune Lock_System Backup_Run Verify_Run Daemon Server_Run S3_Run Config_Load Engine_Run
begin

text \<open>
  \<^bold>\<open>vaultd\<close>, a backup daemon for PostgreSQL, MySQL/MariaDB and MongoDB, verified.

  \<^bold>\<open>The program.\<close> A target is a database with a schedule and a retention policy. Its backups live
  in an object store, each as a data object and a manifest, listed by one index object per target
  and guarded by one lock object per target; nothing else is kept. A run takes the lock
  (\<open>internal/lock\<close>), streams a dump through compression and encryption into the store
  (\<open>internal/backup\<close>, \<open>internal/pipeline\<close>), writes the manifest, appends to the index
  (\<open>internal/manifest\<close>, \<open>internal/index\<close>) and notifies (\<open>internal/notify\<close>). Verification reads a
  backup back, or restores it into a throw-away database and asserts on it (\<open>internal/verify\<close>,
  \<open>internal/restore\<close>). Pruning deletes what the policy does not keep (\<open>internal/retention\<close>,
  \<open>internal/prune\<close>). The daemon dispatches due jobs to one worker per target
  (\<open>internal/scheduler\<close>); the HTTP server shows state and starts runs (\<open>internal/server\<close>); a
  configuration (\<open>internal/config\<close>) says what all of this runs on and \<open>internal/app\<close> assembles it.

  \<^bold>\<open>Conventions.\<close> A struct is a record whose fields carry a prefix of their own, an enumeration a
  datatype or the string the source uses. A fallible call returns \<open>err + 'a\<close>; \<open>err\<close> keeps the
  tree that \<open>%w\<close> and \<open>errors.Join\<close> build, so that \<open>errors.Is\<close> and \<open>errors.As\<close> are functions on it.
  State is passed explicitly: an \<open>('s, 'a) action\<close> takes a store state and returns a result and the
  new one. An instant is its number of nanoseconds since the zero time, and a duration saturates or wraps
  where Go's does. A pointer is an option. The clock, random identifiers, hashes, ciphers,
  compressors, database clients and drivers, the AWS SDK, cron schedules and the YAML decoder are
  parameters, with what the program relies on as named hypotheses; every theorem with a hypothesis
  has a witness that discharges it on concrete inputs.

  \<^bold>\<open>Foundations.\<close>
  \<^item> \<open>Prelude\<close>: 64-bit wrap-around, stable descending sort, shared list lemmas.
  \<^item> \<open>Go_Strings\<close>, \<open>Go_Time\<close>, \<open>Json\<close>, \<open>Codec\<close>: what the sources use of \<open>strings\<close>, \<open>strconv\<close>, \<open>fmt\<close>, \<open>time\<close>
    and \<open>encoding/json\<close>: a printer and a parser for JSON with the escapes of Go, RFC 3339 and the calendar.
  \<^item> \<open>Float64\<close>: what \<open>encoding/json\<close> makes of a dynamic value: a number rounded to the nearest float64 and printed
    by its shortest digits, an object as a map. Integers below \<open>2 ^ 53\<close> survive it.
  \<^item> \<open>Core\<close> (\<open>core/ports.go\<close>): errors, engines, events, and \<open>core.Store\<close> as the record \<open>store_ops\<close>
    with its contract, the locale \<open>object_store\<close>. Clients are proved inside that locale.
  \<^item> \<open>Memory\<close> (\<open>storage/memory\<close>): the in-memory store, which interprets the contract; and \<open>scripted\<close>, any
    store with other writers, failing calls and lost answers between the calls of a client.
  \<^item> \<open>S3\<close>, \<open>S3_Upload\<close>, \<open>S3_Store\<close>, \<open>S3_Run\<close> (\<open>storage/s3\<close>): the bucket. The store keeps the same contract when the
    service keeps its documented promises; a multipart upload is a step relation over the loop and its
    goroutines, and every run of it that succeeds stored the stream whole and in order, but for an error
    that the reader wraps around \<open>io.EOF\<close>.

  \<^bold>\<open>Documents.\<close>
  \<^item> \<open>Manifest\<close>, \<open>Manifest_Codec\<close>, \<open>Keys\<close> (\<open>manifest/*.go\<close>): entries, manifests and object keys; documents
    read back as they were written, up to float64 in the details of a verification, and the keys of a target stay under its prefix.
  \<^item> \<open>Index\<close> (\<open>index/index.go\<close>): the conditional read-modify-write loop. No interleaving loses an update;
    a rebuild lists exactly the stored manifests.

  \<^bold>\<open>Backups.\<close>
  \<^item> \<open>Pipeline\<close> (\<open>pipeline/*.go\<close>), \<open>Backup\<close>, \<open>Backup_Run\<close> (\<open>backup/*.go\<close>): the stages, and a run from the
    reserved timestamp to the index line, with every failure path. What the dump sees of a refused upload depends on
    how far it had come, a parameter of the run. A successful run can be read back; a manifest is written
    only after its data; a failed run is recorded and freezes retention; a run gets keys of its own.
  \<^item> \<open>Verify\<close>, \<open>Verify_Run\<close> (\<open>verify/*.go\<close>, \<open>restore/restore.go\<close>): the structural check passes exactly on
    what the manifest records; a sandbox is dropped on every path; a fresh backup verifies, globals included.
  \<^item> \<open>Lock\<close>, \<open>Lock_System\<close> (\<open>lock/lock.go\<close>): the lease, call by call, and any number of processes competing for
    it. At most one holds it while releases are timely; a late release breaks that, and how is proved.

  \<^bold>\<open>Retention.\<close>
  \<^item> \<open>Retention\<close>, \<open>Retention_Plan\<close> (\<open>retention/retention.go\<close>): the plan keeps exactly the representatives of the
    newest periods of each tier, the floor and the newest verified backup, and nothing is lost or invented. The
    theorems hold for every order that \<open>sort.Slice\<close> may give to equal instants.
  \<^item> \<open>Prune\<close> (\<open>prune/prune.go\<close>, \<open>retention/notify.go\<close>, \<open>cli/prune.go\<close>): applying a plan removes exactly what
    it deletes, and whatever fails half way no stored backup disappears from the index.

  \<^bold>\<open>Operation.\<close>
  \<^item> \<open>Config\<close>, \<open>Config_Load\<close>, \<open>App\<close> (\<open>config/*.go\<close>, \<open>app/*.go\<close>, \<open>scheduler/job.go\<close>): the document, its
    references, defaults and checks; a configuration that validates can be assembled and run.
  \<^item> \<open>Notify\<close> (\<open>notify/*.go\<close>): payloads, the webhook with its retries, the fanout and its deduplication.
  \<^item> \<open>Metrics\<close>, \<open>Executor\<close>, \<open>Executor_Run\<close> (\<open>metrics/metrics.go\<close>, \<open>scheduler/exec.go\<close>): one dispatch; a stale one
    touches nothing but the lock.
  \<^item> \<open>Scheduler\<close>, \<open>Daemon\<close> (\<open>scheduler/scheduler.go\<close>): the daemon as a step relation of ticks, workers and
    refreshes; slots are spaced by the schedule and each is accounted for.
  \<^item> \<open>Server\<close>, \<open>Server_Run\<close> (\<open>server/*.go\<close>): the registry of runs, the token check with a throttle for each
    guarded route as a step relation over concurrent requests, health, the handlers. Beginning a run
    returns exactly when fewer than fifty are in flight; a lockout holds on its route; a confirmed prune
    deletes what was previewed or nothing.

  \<^bold>\<open>Engines.\<close>
  \<^item> \<open>Engine\<close> (\<open>engine/*.go\<close>): running a client, the tail of its stderr, its failure, reading a version.
  \<^item> \<open>Engine_Postgres\<close>, \<open>Engine_Mysql\<close>, \<open>Engine_Mongo\<close> (\<open>engine/postgres\<close>, \<open>engine/mysql\<close>, \<open>engine/mongodb\<close>): connection strings, the
    search for a client, what a probe learns, the flags of a dump and of a restore, the guard of sandboxes.
  \<^item> \<open>Engine_Run\<close>: the client fits the server; a dump claims exactly the consistency it has; a name
    outside the prefix is refused before anything is sent; a rewritten connection string reads back.

  \<^bold>\<open>Loops and bounds.\<close> Loops over a list are structural. The attempts of the index (5) and of the lock (3), the
  webhook's retries and the sixty timestamps \<open>reserve\<close> tries are the bounds of the source. \<open>s3_Delete\<close>
  and \<open>expand_all\<close> end by the length of what is left, \<open>put_parts\<close> by the limit of 10,000 parts. Two loops may not end and
  are \<open>partial_function (option)\<close>: \<open>trim_loop\<close>, for which \<open>begin_returns\<close> says exactly when it does, and
  \<open>list_pages\<close>, which ends because the service's pages do (a promise in \<open>s3_laws\<close>).

  \<^bold>\<open>Not modelled.\<close> The programs \<open>pg_dump\<close>, \<open>mysqldump\<close> and \<open>mongodump\<close>, the database drivers, the parsing of URLs and the queries
  over a sandbox are parameters: of the adapters (\<open>exec\<close>, \<open>host\<close>, \<open>pg_server\<close>, \<open>my_server\<close>), and of a run, which
  sees an adapter as a \<open>dumper\<close>, a \<open>staging\<close> server and an \<open>inspector\<close>. The redaction of MongoDB URIs is a regular expression and is left out. The command line (\<open>internal/cli\<close>, but for the
  orphan search of \<open>prune\<close>) parses flags and prints; \<open>internal/doctor\<close> probes the network and prints what it
  found; \<open>logging\<close>, \<open>buildinfo\<close>, the embedded web pages and the exposition of metrics are glue to
  libraries. Of the server, routing and rendering are left to \<open>net/http\<close>. Memory use, timing and the fairness
  of Go's scheduler are outside the models; goroutines are interleavings of atomic steps.
\<close>

end
